(* ===== verification/Prelude.thy ===== *)
theory Prelude
  imports Main "HOL-Library.AList" "HOL-Library.Sublist" "HOL-Library.Char_ord"
begin

text \<open>
  What the component theories share: the collections their automation lives in, the result
  type of operations that throw, the parts of the JavaScript library the sources use
  (\<open>split\<close>, \<open>join\<close>, \<open>every\<close> and \<open>map\<close> with a throwing body), and
  the contract of a state machine whose every step keeps an invariant.

  A JavaScript string is a list of characters. An operation that may throw returns
  \<open>Inl\<close> of the error or \<open>Inr\<close> of the value. A JavaScript \<open>Map\<close> keeps insertion
  order, so it is an association list under \<open>AList.update\<close> (which overwrites in place
  and appends a new key, as \<open>Map.set\<close> does), \<open>AList.delete\<close> and \<open>map_of\<close>.
\<close>

named_theorems js_simps \<open>equations of the JavaScript library functions\<close>
named_theorems keeps \<open>operations that keep a component's invariant\<close>

section \<open>Results of operations that throw\<close>

fun traverse :: "('a \<Rightarrow> 'e + 'b) \<Rightarrow> 'a list \<Rightarrow> 'e + 'b list" where
  "traverse f [] = Inr []"
| "traverse f (x # xs) =
     (case f x of
        Inl e \<Rightarrow> Inl e
      | Inr y \<Rightarrow> (case traverse f xs of Inl e \<Rightarrow> Inl e | Inr ys \<Rightarrow> Inr (y # ys)))"

lemma traverse_cong [fundef_cong]:
  "xs = ys \<Longrightarrow> (\<And>x. x \<in> set ys \<Longrightarrow> f x = g x) \<Longrightarrow> traverse f xs = traverse g ys"
  by (induction ys arbitrary: xs) (auto split: sum.split)

lemma traverse_Inr_iff:
  "traverse f xs = Inr ys \<longleftrightarrow> list_all2 (\<lambda>x y. f x = Inr y) xs ys"
proof (induction xs arbitrary: ys)
  case Nil
  then show ?case by auto
next
  case (Cons x xs)
  show ?case
    by (cases ys; cases "f x"; cases "traverse f xs") (auto simp flip: Cons.IH)
qed

lemma traverse_Inl:
  "traverse f xs = Inl e \<Longrightarrow> \<exists>x \<in> set xs. f x = Inl e"
  by (induction xs) (auto split: sum.splits)

lemma traverse_length: "traverse f xs = Inr ys \<Longrightarrow> length ys = length xs"
  by (auto simp: traverse_Inr_iff dest: list_all2_lengthD)

lemma ex_le_Suc_iff: "(\<exists>k \<le> Suc n. P k) \<longleftrightarrow> P 0 \<or> (\<exists>k \<le> n. P (Suc k))"
proof
  assume "\<exists>k \<le> Suc n. P k"
  then obtain k where "k \<le> Suc n" "P k" by blast
  then show "P 0 \<or> (\<exists>k \<le> n. P (Suc k))" by (cases k) auto
qed auto

lemma ex_window_iff:
  "(\<exists>i \<le> n. \<exists>j \<le> i. P j i) \<longleftrightarrow> (\<exists>j \<le> n. \<exists>k \<le> n - j. P j (k + j))" for n :: nat
proof
  assume "\<exists>i \<le> n. \<exists>j \<le> i. P j i"
  then obtain i j where "i \<le> n" "j \<le> i" "P j i" by blast
  then have "j \<le> n \<and> i - j \<le> n - j \<and> P j ((i - j) + j)" by auto
  then show "\<exists>j \<le> n. \<exists>k \<le> n - j. P j (k + j)" by blast
next
  assume "\<exists>j \<le> n. \<exists>k \<le> n - j. P j (k + j)"
  then obtain j k where "j \<le> n" "k \<le> n - j" "P j (k + j)" by blast
  then have "k + j \<le> n \<and> j \<le> k + j \<and> P j (k + j)" by auto
  then show "\<exists>i \<le> n. \<exists>j \<le> i. P j i" by blast
qed

lemma mod_window_neq: "m < n \<Longrightarrow> n < m + k \<Longrightarrow> m mod k \<noteq> n mod k" for m n k :: nat
proof
  assume "m < n" "n < m + k" "m mod k = n mod k"
  then have "k dvd n - m" by (metis less_imp_le mod_eq_dvd_iff_nat)
  with \<open>m < n\<close> \<open>n < m + k\<close> show False by (auto dest: dvd_imp_le)
qed

text \<open>Slices \<open>xs.slice(i, j)\<close> are \<open>take (j - i) (drop i xs)\<close>.\<close>

lemma drop_slice: "i \<le> j \<Longrightarrow> drop i xs = take (j - i) (drop i xs) @ drop j xs"
  using append_take_drop_id [of "j - i" "drop i xs"] by simp

lemma slice_Suc:
  assumes "i \<le> j" "j < length xs"
  shows "take (Suc j - i) (drop i xs) = take (j - i) (drop i xs) @ [xs ! j]"
proof -
  from assms(1) obtain d where "j = i + d" by (auto simp: le_iff_add)
  with assms(2) show ?thesis by (simp add: take_Suc_conv_app_nth)
qed

section \<open>Sets in insertion order\<close>

text \<open>\<open>[...new Set(xs)]\<close>: the first occurrence of each element.\<close>

fun uniq_from :: "'a list \<Rightarrow> 'a list \<Rightarrow> 'a list" where
  "uniq_from seen [] = []"
| "uniq_from seen (x # xs) =
     (if x \<in> set seen then uniq_from seen xs else x # uniq_from (x # seen) xs)"

definition uniq :: "'a list \<Rightarrow> 'a list" where
  "uniq xs = uniq_from [] xs"

lemma set_uniq_from: "set (uniq_from seen xs) = set xs - set seen"
  by (induction seen xs rule: uniq_from.induct) auto

lemma distinct_uniq_from: "distinct (uniq_from seen xs)"
  by (induction seen xs rule: uniq_from.induct) (auto simp: set_uniq_from)

lemma set_uniq [simp]: "set (uniq xs) = set xs"
  by (simp add: uniq_def set_uniq_from)

lemma distinct_uniq [simp]: "distinct (uniq xs)"
  by (simp add: uniq_def distinct_uniq_from)

lemma length_uniq: "length (uniq xs) = card (set xs)"
  by (metis distinct_card distinct_uniq set_uniq)

section \<open>Splitting and joining\<close>

text \<open>\<open>text.split(sep)\<close> for a one-character separator: never empty.\<close>

fun split_on :: "'a \<Rightarrow> 'a list \<Rightarrow> 'a list list" where
  "split_on sep [] = [[]]"
| "split_on sep (c # cs) =
     (if c = sep then [] # split_on sep cs
      else (case split_on sep cs of [] \<Rightarrow> [[c]] | w # ws \<Rightarrow> (c # w) # ws))"

text \<open>\<open>parts.join(sep)\<close>.\<close>

fun join_with :: "'a \<Rightarrow> 'a list list \<Rightarrow> 'a list" where
  "join_with sep [] = []"
| "join_with sep [w] = w"
| "join_with sep (w # ws) = w @ sep # join_with sep ws"

lemma split_on_nonempty [simp]: "split_on sep cs \<noteq> []"
  by (induction cs) (auto split: list.splits)

lemma join_with_Cons: "ws \<noteq> [] \<Longrightarrow> join_with sep (w # ws) = w @ sep # join_with sep ws"
  by (cases ws) auto

lemma join_with_head: "join_with sep ((c # w) # ws) = c # join_with sep (w # ws)"
  by (cases ws) auto

lemma join_split [simp]: "join_with sep (split_on sep cs) = cs"
  by (induction cs) (auto simp: join_with_Cons join_with_head split: list.splits)

lemma split_on_no_sep: "w \<in> set (split_on sep cs) \<Longrightarrow> sep \<notin> set w"
  by (induction cs arbitrary: w) (auto split: list.splits if_splits)

lemma set_split_on: "w \<in> set (split_on sep cs) \<Longrightarrow> set w \<subseteq> set cs"
proof (induction cs arbitrary: w)
  case (Cons c cs)
  then show ?case by (cases "split_on sep cs") (fastforce split: if_splits)+
qed simp

lemma split_on_snoc_sep: "split_on sep (cs @ [sep]) = split_on sep cs @ [[]]"
  by (induction cs) (auto split: list.splits)

lemma split_on_append_sep:
  "sep \<notin> set w \<Longrightarrow> split_on sep (w @ sep # cs) = w # split_on sep cs"
  by (induction w) auto

lemma split_on_free: "sep \<notin> set w \<Longrightarrow> split_on sep w = [w]"
  by (induction w) auto

lemma split_join:
  "ws \<noteq> [] \<Longrightarrow> \<forall>w \<in> set ws. sep \<notin> set w \<Longrightarrow> split_on sep (join_with sep ws) = ws"
  by (induction sep ws rule: join_with.induct) (auto simp: split_on_append_sep split_on_free)

section \<open>Letter case\<close>

text \<open>\<open>toUpperCase\<close> on one ASCII character.\<close>

definition upper :: "char \<Rightarrow> char" where
  "upper c = (if CHR ''a'' \<le> c \<and> c \<le> CHR ''z'' then char_of (of_char c - 32 :: nat) else c)"

section \<open>White space\<close>

text \<open>The characters \<open>trim\<close> removes, and what it leaves.\<close>

definition js_space :: "char \<Rightarrow> bool" where
  "js_space c \<longleftrightarrow> c \<in> {CHR 0x09, CHR 0x0A, CHR 0x0B, CHR 0x0C, CHR 0x0D, CHR '' '', CHR 0xA0}"

definition trim :: "string \<Rightarrow> string" where
  "trim s = rev (dropWhile js_space (rev (dropWhile js_space s)))"

lemma dropWhile_eq_self: "dropWhile P xs = xs \<longleftrightarrow> xs = [] \<or> \<not> P (hd xs)"
proof (cases xs)
  case (Cons y ys)
  have "dropWhile P ys \<noteq> y # ys" 
  proof
    assume "dropWhile P ys = y # ys"
    from arg_cong [OF this, of length] length_dropWhile_le [of P ys] show False by simp
  qed
  with Cons show ?thesis by auto
qed simp

lemma trim_trim [simp]: "trim (trim s) = trim s"
proof -
  define t where "t = dropWhile js_space s"
  have "hd (dropWhile js_space xs) \<notin> Collect js_space" if "dropWhile js_space xs \<noteq> []" for xs
    using hd_dropWhile [OF that] by simp
  have front: "dropWhile js_space u = u" if "u = rev (dropWhile js_space (rev t))" for u
  proof (cases "u = []")
    case False
    have "t = u @ rev (takeWhile js_space (rev t))"
      by (metis that rev_append rev_rev_ident takeWhile_dropWhile_id)
    with False have "hd u = hd t" "t \<noteq> []" by (metis hd_append2, auto)
    moreover have "\<not> js_space (hd t)" if "t \<noteq> []" using hd_dropWhile [of js_space s] that by (simp add: t_def)
    ultimately show ?thesis by (simp add: dropWhile_eq_self)
  qed simp
  show ?thesis using front [of "trim s"] by (simp add: trim_def t_def)
qed

section \<open>Numbers in words\<close>

text \<open>\<open>String(n)\<close> of a whole number.\<close>

fun digits :: "nat \<Rightarrow> string" where
  "digits n = (if n < 10 then [] else digits (n div 10)) @ [char_of (48 + n mod 10)]"

declare digits.simps [simp del]

section \<open>Maps in insertion order\<close>

text \<open>A new key is appended; deleting a key and setting it again moves it to the end.\<close>

lemma map_of_append_new:
  "map_of m k = None \<Longrightarrow> map_of (m @ [(k, v)]) = (map_of m)(k \<mapsto> v)"
  by (auto simp: fun_eq_iff map_add_def split: option.splits)

lemma distinct_append_new:
  "distinct (map fst m) \<Longrightarrow> map_of m k = None \<Longrightarrow> distinct (map fst (m @ [(k, v)]))"
  by (auto simp: map_of_eq_None_iff)

lemma map_of_reinsert: "map_of (AList.delete k m @ [(k, v)]) = (map_of m)(k \<mapsto> v)"
  by (subst map_of_append_new) (auto simp: delete_conv')

lemma distinct_reinsert:
  "distinct (map fst m) \<Longrightarrow> distinct (map fst (AList.delete k m @ [(k, v)]))"
  by (rule distinct_append_new) (auto simp: distinct_delete delete_conv')

lemma map_of_map_key: "map_of (map (\<lambda>(j, v). (j, f j v)) m) k = map_option (f k) (map_of m k)"
  by (induction m) auto

section \<open>Writing through a reference into a list\<close>

text \<open>The first match, as \<open>find\<close> returns it, or the last one, where every element is compared.\<close>

fun update_first :: "('a \<Rightarrow> bool) \<Rightarrow> ('a \<Rightarrow> 'a) \<Rightarrow> 'a list \<Rightarrow> 'a list" where
  "update_first P f [] = []"
| "update_first P f (x # xs) = (if P x then f x # xs else x # update_first P f xs)"

fun update_last :: "('a \<Rightarrow> bool) \<Rightarrow> ('a \<Rightarrow> 'a) \<Rightarrow> 'a list \<Rightarrow> 'a list" where
  "update_last P f [] = []"
| "update_last P f (x # xs) =
     (if list_ex P xs then x # update_last P f xs else if P x then f x # xs else x # xs)"

lemma update_last_set: "set (update_last P f xs) \<subseteq> set xs \<union> f ` {x \<in> set xs. P x}"
  by (induction xs) auto

lemma update_last_filter:
  "rev (filter P xs) = y # ys \<Longrightarrow> set (update_last P f xs) \<subseteq> insert (f y) (set xs)"
proof (induction xs arbitrary: ys)
  case (Cons x xs)
  show ?case
  proof (cases "list_ex P xs")
    case True
    then have "rev (filter P xs) \<noteq> []" by (auto simp: list_ex_iff filter_empty_conv)
    then obtain z zs where zs: "rev (filter P xs) = z # zs" by (cases "rev (filter P xs)") auto
    with Cons.prems have "z = y" by (auto split: if_splits)
    with Cons.IH [of zs] zs True show ?thesis by auto
  next
    case False
    then have "filter P xs = []" by (auto simp: list_ex_iff filter_empty_conv)
    with Cons.prems False show ?thesis by (auto split: if_splits)
  qed
qed simp

lemma update_first_set: "set (update_first P f xs) \<subseteq> set xs \<union> f ` set xs"
  by (induction xs) auto

lemma count_update_last: "(\<And>x. P (f x) \<Longrightarrow> P x) \<Longrightarrow> length (filter P (update_last Q f xs)) \<le> length (filter P xs)"
proof (induction xs)
  case (Cons x xs)
  then show ?case using Cons.prems [of x] by auto
qed simp

lemma count_update_first: "(\<And>x. P (f x) \<Longrightarrow> P x) \<Longrightarrow> length (filter P (update_first Q f xs)) \<le> length (filter P xs)"
proof (induction xs)
  case (Cons x xs)
  then show ?case using Cons.prems [of x] by auto
qed simp

lemma find_update_last:
  "List.find P xs = Some r \<Longrightarrow> rev (filter Q xs) = r\<^sub>0 # ys \<Longrightarrow> r \<noteq> r\<^sub>0 \<Longrightarrow> (\<And>x. P (f x) = P x) \<Longrightarrow>
     List.find P (update_last Q f xs) = Some r"
proof (induction xs arbitrary: ys)
  case (Cons x xs)
  show ?case
  proof (cases "list_ex Q xs")
    case True
    then have "rev (filter Q xs) \<noteq> []" by (auto simp: list_ex_iff filter_empty_conv)
    then obtain zs where "rev (filter Q xs) = r\<^sub>0 # zs"
      using Cons.prems(2) by (cases "rev (filter Q xs)") (auto split: if_splits)
    with Cons True show ?thesis by (auto split: if_splits)
  next
    case False
    then have "filter Q xs = []" by (auto simp: list_ex_iff filter_empty_conv)
    with Cons.prems False show ?thesis by (auto split: if_splits)
  qed
qed simp

lemma find_update_first:
  "(\<And>x. Q x \<Longrightarrow> \<not> P x) \<Longrightarrow> (\<And>x. P (f x) = P x) \<Longrightarrow> List.find P (update_first Q f xs) = List.find P xs"
  by (induction xs) auto

lemma find_update_same:
  "List.find P xs = Some r \<Longrightarrow> P (f r) \<Longrightarrow> List.find P (update_first P f xs) = Some (f r)"
  by (induction xs) (auto split: if_splits)

section \<open>State machines with an invariant\<close>

text \<open>
  The contract several components share: a total step function over events and a predicate
  that every step keeps. Runs then keep it too.
\<close>

locale kept_by_steps =
  fixes step :: "'e \<Rightarrow> 's \<Rightarrow> 's"
    and inv :: "'s \<Rightarrow> bool"
  assumes step_keeps: "inv s \<Longrightarrow> inv (step e s)"
begin

lemma run_keeps: "inv s \<Longrightarrow> inv (fold step es s)"
  by (induction es arbitrary: s) (auto intro: step_keeps)

lemma run_prefix_keeps: "inv s \<Longrightarrow> prefix ds es \<Longrightarrow> inv (fold step ds s)"
  by (rule run_keeps)

end

end
