(* ===== verification/PathGlob.thy ===== *)
theory PathGlob
  imports Prelude
begin

text \<open>
  Glob matching for document paths, \<open>packages/server/src/path-glob.ts\<close>: the checks of
  \<open>parseSegments\<close>, the backtracking-free matcher of one segment (\<open>matchSegment\<close>),
  and the row-by-row reachability of \<open>compilePathGlob\<close>. The reference semantics
  (\<open>wild\<close> for a segment, \<open>glob_spec\<close> for a path) says what a pattern means; the
  lemmas show that the two optimised stages compute it.
\<close>

section \<open>Patterns\<close>

definition PATH_GLOB_MAX_LENGTH :: nat where
  "PATH_GLOB_MAX_LENGTH = 1024"

text \<open>The \<open>PathGlobError\<close> the parser throws, by the check that fails.\<close>

datatype glob_error =
    PatternEmpty
  | PatternTooLong
  | NegationUnsupported
  | CharUnsupported char
  | OuterSlash
  | SegmentEmpty
  | GlobstarInSegment

datatype segment = Globstar | Chars string

text \<open>The character class \<open>/[[\]{}\\]/\<close>.\<close>

definition unsupported_chars :: string where
  "unsupported_chars = [CHR ''['', CHR '']'', CHR ''{'', CHR ''}'', CHR 0x5C]"

definition globstar_text :: string where
  "globstar_text = ''**''"

definition parse_segment :: "string \<Rightarrow> glob_error + segment" where
  "parse_segment seg =
     (if length seg = 0 then Inl SegmentEmpty
      else if seg = globstar_text then Inr Globstar
      else if sublist globstar_text seg then Inl GlobstarInSegment
      else Inr (Chars seg))"

definition parseSegments :: "string \<Rightarrow> glob_error + segment list" where
  "parseSegments pattern =
     (if length pattern = 0 then Inl PatternEmpty
      else if length pattern > PATH_GLOB_MAX_LENGTH then Inl PatternTooLong
      else if hd pattern = CHR ''!'' then Inl NegationUnsupported
      else (case find (\<lambda>c. c \<in> set unsupported_chars) pattern of
              Some c \<Rightarrow> Inl (CharUnsupported c)
            | None \<Rightarrow>
                if hd pattern = CHR ''/'' \<or> last pattern = CHR ''/'' then Inl OuterSlash
                else traverse parse_segment (split_on (CHR ''/'') pattern)))"

section \<open>One segment\<close>

text \<open>
  The loop of \<open>matchSegment\<close>: \<open>p\<close> and \<open>v\<close> index the pattern and the value,
  \<open>starP\<close> is the last \<open>*\<close> met (\<open>-1\<close> in the code is \<open>None\<close>) and
  \<open>starV\<close> the value position its next attempt starts from. The measure: a fresh
  \<open>*\<close> or a retry either moves \<open>starV\<close> on or moves \<open>p\<close> past the star.
\<close>

function match_loop ::
    "string \<Rightarrow> string \<Rightarrow> nat \<Rightarrow> nat \<Rightarrow> nat option \<Rightarrow> nat \<Rightarrow> bool" where
  "match_loop pat val p v starP starV =
     (if v < length val then
        (if p < length pat \<and> pat ! p = CHR ''*'' then
           match_loop pat val (Suc p) v (Some p) v
         else if p < length pat \<and> (pat ! p = CHR ''?'' \<or> pat ! p = val ! v) then
           match_loop pat val (Suc p) (Suc v) starP starV
         else (case starP of
                 Some s \<Rightarrow> match_loop pat val (Suc s) (Suc starV) (Some s) (Suc starV)
               | None \<Rightarrow> False))
      else p + length (takeWhile (\<lambda>c. c = CHR ''*'') (drop p pat)) = length pat)"
  by pat_completeness auto
termination
  by (relation "measures
        [\<lambda>(pat, val, p, v, starP, starV). if starP \<noteq> None \<and> v < starV then 1 else 0,
         \<lambda>(pat, val, p, v, starP, starV).
           (case starP of None \<Rightarrow> Suc (length val) | Some s \<Rightarrow> length val - starV),
         \<lambda>(pat, val, p, v, starP, starV). length val - v,
         \<lambda>(pat, val, p, v, starP, starV). length pat - p]")
     (auto split: option.splits)

declare match_loop.simps [simp del]

definition matchSegment :: "string \<Rightarrow> string \<Rightarrow> bool" where
  "matchSegment pattern value = match_loop pattern value 0 0 None 0"

subsection \<open>What a segment pattern means\<close>

fun wild :: "string \<Rightarrow> string \<Rightarrow> bool" where
  "wild [] cs = (cs = [])"
| "wild (p # ps) cs =
     (if p = CHR ''*'' then \<exists>k \<le> length cs. wild ps (drop k cs)
      else (case cs of [] \<Rightarrow> False | c # cs' \<Rightarrow> (p = CHR ''?'' \<or> p = c) \<and> wild ps cs'))"

text \<open>A run of pattern characters other than \<open>*\<close> matching as many value characters.\<close>

definition chars_match :: "string \<Rightarrow> string \<Rightarrow> bool" where
  "chars_match = list_all2 (\<lambda>p c. p \<noteq> CHR ''*'' \<and> (p = CHR ''?'' \<or> p = c))"

lemma wild_chars_append: "chars_match q m \<Longrightarrow> wild (q @ ps) (m @ cs) = wild ps cs"
  unfolding chars_match_def by (induction rule: list_all2_induct) auto

lemma wild_after_chars:
  "CHR ''*'' \<notin> set q \<Longrightarrow> wild (q @ ps) cs \<Longrightarrow> length q \<le> length cs \<and> wild ps (drop (length q) cs)"
  by (induction q arbitrary: cs) (auto split: list.splits)

lemma chars_match_no_star: "chars_match q m \<Longrightarrow> CHR ''*'' \<notin> set q"
  unfolding chars_match_def by (induction rule: list_all2_induct) auto

lemma chars_match_length: "chars_match q m \<Longrightarrow> length q = length m"
  unfolding chars_match_def by (rule list_all2_lengthD)

lemma wild_star_Cons:
  "wild (CHR ''*'' # ps) (c # cs) = (wild ps (c # cs) \<or> wild (CHR ''*'' # ps) cs)"
  by (simp add: ex_le_Suc_iff)

text \<open>A second \<open>*\<close> makes the first one's other choices irrelevant.\<close>

lemma wild_star_restart:
  assumes "chars_match q m"
  shows "wild (CHR ''*'' # q @ CHR ''*'' # r) (m @ w) = wild (CHR ''*'' # r) w"
proof
  assume "wild (CHR ''*'' # r) w"
  then have "wild (q @ CHR ''*'' # r) (drop 0 (m @ w))"
    using wild_chars_append [OF assms] by simp
  then have "\<exists>k \<le> length (m @ w). wild (q @ CHR ''*'' # r) (drop k (m @ w))"
    by (metis zero_le)
  then show "wild (CHR ''*'' # q @ CHR ''*'' # r) (m @ w)" by simp
next
  assume "wild (CHR ''*'' # q @ CHR ''*'' # r) (m @ w)"
  then obtain k where "k \<le> length (m @ w)" and k: "wild (q @ CHR ''*'' # r) (drop k (m @ w))"
    by auto
  have len: "length q = length m" by (rule chars_match_length [OF assms])
  have "drop (length q) (drop k (m @ w)) = drop k (drop (length m) (m @ w))"
    by (simp only: drop_drop len add.commute)
  then have *: "drop (length q) (drop k (m @ w)) = drop k w" by simp
  note after = wild_after_chars [OF chars_match_no_star [OF assms] k]
  have "wild (CHR ''*'' # r) (drop k w)"
    using after [THEN conjunct2] by (simp only: *)
  moreover have "k \<le> length w"
    using after [THEN conjunct1] len \<open>k \<le> length (m @ w)\<close> by (cases "length m") auto
  ultimately obtain j where "j \<le> length w - k" "wild r (drop (j + k) w)"
    by (auto simp: drop_drop)
  with \<open>k \<le> length w\<close> have "j + k \<le> length w \<and> wild r (drop (j + k) w)" by auto
  then show "wild (CHR ''*'' # r) w" by (auto intro!: exI [of _ "j + k"])
qed

lemma wild_stars: "wild ps [] \<longleftrightarrow> (\<forall>p \<in> set ps. p = CHR ''*'')"
  by (induction ps) auto

subsection \<open>The loop computes the meaning\<close>

text \<open>
  While an attempt after a star runs, the pattern between the star and \<open>p\<close> matches the
  value between \<open>starV\<close> and \<open>v\<close> character by character.
\<close>

definition attempt_ok :: "string \<Rightarrow> string \<Rightarrow> nat \<Rightarrow> nat \<Rightarrow> nat \<Rightarrow> nat \<Rightarrow> bool" where
  "attempt_ok pat val p v s sv \<longleftrightarrow>
     s < p \<and> sv \<le> v \<and> pat ! s = CHR ''*'' \<and>
     chars_match (take (p - Suc s) (drop (Suc s) pat)) (take (v - sv) (drop sv val))"

lemma attempt_ok_start [simp]:
  "attempt_ok pat val (Suc s) sv s sv \<longleftrightarrow> pat ! s = CHR ''*''"
  by (simp add: attempt_ok_def chars_match_def)

lemma attempt_ok_split:
  assumes "attempt_ok pat val p v s sv" "p \<le> length pat" "v \<le> length val"
  obtains q m where "chars_match q m"
    "drop s pat = CHR ''*'' # q @ drop p pat" "drop sv val = m @ drop v val"
proof
  let ?q = "take (p - Suc s) (drop (Suc s) pat)" and ?m = "take (v - sv) (drop sv val)"
  from assms show "chars_match ?q ?m" by (simp add: attempt_ok_def)
  from assms(1) have "s < p" "sv \<le> v" "pat ! s = CHR ''*''" by (auto simp: attempt_ok_def)
  with assms(2) show "drop s pat = CHR ''*'' # ?q @ drop p pat"
    by (simp add: Cons_nth_drop_Suc [symmetric] drop_slice [of "Suc s" p, symmetric])
  from \<open>sv \<le> v\<close> show "drop sv val = ?m @ drop v val" by (rule drop_slice)
qed

lemma attempt_ok_extend:
  assumes "attempt_ok pat val p v s sv" "p < length pat" "v < length val"
    and "pat ! p \<noteq> CHR ''*''" "pat ! p = CHR ''?'' \<or> pat ! p = val ! v"
  shows "attempt_ok pat val (Suc p) (Suc v) s sv"
proof -
  from assms(1) have "Suc s \<le> p" "sv \<le> v" by (auto simp: attempt_ok_def)
  then have "chars_match (take (Suc p - Suc s) (drop (Suc s) pat)) (take (Suc v - sv) (drop sv val))"
    unfolding slice_Suc [OF \<open>Suc s \<le> p\<close> assms(2)] slice_Suc [OF \<open>sv \<le> v\<close> assms(3)]
    using assms by (auto simp: attempt_ok_def chars_match_def intro: list_all2_appendI)
  with assms(1) show ?thesis by (simp add: attempt_ok_def)
qed

definition remaining :: "string \<Rightarrow> string \<Rightarrow> nat \<Rightarrow> nat \<Rightarrow> nat option \<Rightarrow> nat \<Rightarrow> bool" where
  "remaining pat val p v starP sv =
     (case starP of None \<Rightarrow> wild (drop p pat) (drop v val)
                  | Some s \<Rightarrow> wild (drop s pat) (drop sv val))"

lemma takeWhile_all_iff: "length (takeWhile P xs) = length xs \<longleftrightarrow> (\<forall>x \<in> set xs. P x)"
  by (induction xs) auto

lemma match_loop_wild:
  "p \<le> length pat \<Longrightarrow> v \<le> length val \<Longrightarrow>
   (\<And>s. starP = Some s \<Longrightarrow> attempt_ok pat val p v s starV) \<Longrightarrow>
   match_loop pat val p v starP starV = remaining pat val p v starP starV"
proof (induction pat val p v starP starV rule: match_loop.induct)
  case (1 pat val p v starP starV)
  let ?P = "drop p pat" and ?V = "drop v val"
  note unfold = match_loop.simps [of pat val p v starP starV]
  consider (finished) "v = length val"
    | (star) "v < length val" "p < length pat" "pat ! p = CHR ''*''"
    | (char) "v < length val" "p < length pat" "pat ! p \<noteq> CHR ''*''"
        "pat ! p = CHR ''?'' \<or> pat ! p = val ! v"
    | (stuck) "v < length val" "\<not> wild ?P ?V" "\<not> (p < length pat \<and> pat ! p = CHR ''*'')"
        "\<not> (p < length pat \<and> (pat ! p = CHR ''?'' \<or> pat ! p = val ! v))"
    using "1.prems"(1,2)
    by (cases "p < length pat") (auto simp: Cons_nth_drop_Suc [symmetric] nat_less_le)
  then show ?case
  proof cases
    case finished
    have "match_loop pat val p v starP starV = wild ?P []"
    proof -
      have "match_loop pat val p v starP starV
          = (length (takeWhile (\<lambda>c. c = CHR ''*'') ?P) = length ?P)"
        using "1.prems"(1) by (subst unfold) (auto simp: finished)
      then show ?thesis by (simp only: takeWhile_all_iff wild_stars)
    qed
    moreover have "remaining pat val p v starP starV = wild ?P []"
    proof (cases starP)
      case None then show ?thesis using finished by (simp add: remaining_def)
    next
      case (Some s)
      obtain q m where qm: "chars_match q m" "drop s pat = CHR ''*'' # q @ ?P" "drop starV val = m"
        using attempt_ok_split [OF "1.prems"(3) [OF Some] "1.prems"(1,2)] finished by auto
      have "wild (CHR ''*'' # q @ ?P) m = wild ?P []"
        using wild_chars_append [OF qm(1), of ?P "[]"] chars_match_length [OF qm(1)]
          wild_after_chars [OF chars_match_no_star [OF qm(1)]]
        by fastforce
      then show ?thesis using Some qm by (simp add: remaining_def)
    qed
    ultimately show ?thesis by simp
  next
    case star
    have P: "?P = CHR ''*'' # drop (Suc p) pat"
      using star by (simp add: Cons_nth_drop_Suc [symmetric])
    have "match_loop pat val p v starP starV = wild ?P ?V"
      using star unfold "1.IH"(1) "1.prems"(2) by (simp add: remaining_def)
    moreover have "remaining pat val p v starP starV = wild ?P ?V"
    proof (cases starP)
      case None then show ?thesis by (simp add: remaining_def)
    next
      case (Some s)
      obtain q m where qm: "chars_match q m" "drop s pat = CHR ''*'' # q @ ?P" "drop starV val = m @ ?V"
        using attempt_ok_split [OF "1.prems"(3) [OF Some] "1.prems"(1,2)] by blast
      show ?thesis
        using Some qm(2,3) wild_star_restart [OF qm(1)] by (simp only: remaining_def option.case P)
    qed
    ultimately show ?thesis by simp
  next
    case char
    have "match_loop pat val p v starP starV = remaining pat val (Suc p) (Suc v) starP starV"
      using char unfold "1.IH"(2) attempt_ok_extend "1.prems"(3) by simp
    moreover have "wild ?P ?V = wild (drop (Suc p) pat) (drop (Suc v) val)"
      using char by (simp add: Cons_nth_drop_Suc [symmetric])
    ultimately show ?thesis by (simp add: remaining_def split: option.splits)
  next
    case stuck
    show ?thesis
    proof (cases starP)
      case None
      then show ?thesis using stuck unfold by (auto simp: remaining_def)
    next
      case (Some s)
      have ok: "attempt_ok pat val p v s starV" using "1.prems"(3) Some by simp
      obtain q m where qm: "chars_match q m" "drop s pat = CHR ''*'' # q @ ?P" "drop starV val = m @ ?V"
        using attempt_ok_split [OF ok "1.prems"(1,2)] by blast
      have "starV < length val" and sp: "s < length pat" and star: "pat ! s = CHR ''*''"
        using ok stuck(1) "1.prems"(1) by (auto simp: attempt_ok_def)
      then obtain c where V: "drop starV val = c # drop (Suc starV) val"
        by (simp add: Cons_nth_drop_Suc [symmetric])
      have "match_loop pat val p v starP starV = wild (drop s pat) (drop (Suc starV) val)"
        using stuck Some unfold "1.IH"(3) sp star \<open>starV < length val\<close>
        by (auto simp: remaining_def)
      moreover have "\<not> wild (q @ ?P) (drop starV val)"
        using stuck(2) wild_chars_append [OF qm(1)] qm(3) by simp
      ultimately show ?thesis
        using Some V qm(2) wild_star_Cons [of "q @ ?P" c "drop (Suc starV) val"]
        by (simp only: remaining_def option.case) blast
    qed
  qed
qed

theorem matchSegment_wild: "matchSegment pattern value = wild pattern value"
  unfolding matchSegment_def
  by (subst match_loop_wild) (auto simp: remaining_def)

section \<open>Whole paths\<close>

text \<open>
  \<open>reachable[j]\<close>: the pattern segments processed so far can consume exactly the first
  \<open>j\<close> path segments. \<open>globstar_row\<close> is the loop that keeps \<open>seen\<close>,
  \<open>chars_row\<close> the loop that fills \<open>next[j + 1]\<close>.
\<close>

fun globstar_row :: "bool \<Rightarrow> bool list \<Rightarrow> bool list" where
  "globstar_row seen [] = []"
| "globstar_row seen (r # rs) = (let seen' = (seen \<or> r) in seen' # globstar_row seen' rs)"

definition chars_row :: "string \<Rightarrow> string list \<Rightarrow> bool list \<Rightarrow> bool list" where
  "chars_row cs vals reachable =
     False # map2 (\<lambda>r val. r \<and> matchSegment cs val) reachable vals"

definition glob_step :: "string list \<Rightarrow> segment \<Rightarrow> bool list \<Rightarrow> bool list" where
  "glob_step vals seg reachable =
     (case seg of Globstar \<Rightarrow> globstar_row False reachable
                | Chars cs \<Rightarrow> chars_row cs vals reachable)"

definition glob_match :: "segment list \<Rightarrow> string \<Rightarrow> bool" where
  "glob_match segments path =
     (let vals = split_on (CHR ''/'') path;
          start = True # replicate (length vals) False
      in fold (glob_step vals) segments start ! length vals)"

definition compilePathGlob :: "string \<Rightarrow> glob_error + (string \<Rightarrow> bool)" where
  "compilePathGlob pattern = map_sum id glob_match (parseSegments pattern)"

text \<open>The meaning: \<open>**\<close> takes any number of whole segments, any other segment one.\<close>

fun glob_spec :: "segment list \<Rightarrow> string list \<Rightarrow> bool" where
  "glob_spec [] vs = (vs = [])"
| "glob_spec (Globstar # ss) vs = (\<exists>k \<le> length vs. glob_spec ss (drop k vs))"
| "glob_spec (Chars cs # ss) vs =
     (case vs of [] \<Rightarrow> False | v # vs' \<Rightarrow> wild cs v \<and> glob_spec ss vs')"

lemma globstar_row_length [simp]: "length (globstar_row seen rs) = length rs"
  by (induction rs arbitrary: seen) (auto simp: Let_def)

lemma globstar_row_nth:
  "j < length rs \<Longrightarrow> globstar_row seen rs ! j \<longleftrightarrow> seen \<or> (\<exists>i \<le> j. rs ! i)"
proof (induction rs arbitrary: seen j)
  case Nil
  then show ?case by simp
next
  case (Cons r rs)
  then show ?case
    by (cases j) (auto simp: Let_def ex_le_Suc_iff)
qed

lemma chars_row_length [simp]:
  "length rs = Suc (length vals) \<Longrightarrow> length (chars_row cs vals rs) = Suc (length vals)"
  by (simp add: chars_row_def)

lemma chars_row_0 [simp]: "chars_row cs vals rs ! 0 = False"
  by (simp add: chars_row_def)

lemma chars_row_Suc [simp]:
  "length rs = Suc (length vals) \<Longrightarrow> j < length vals \<Longrightarrow>
     chars_row cs vals rs ! Suc j = (rs ! j \<and> wild cs (vals ! j))"
  by (simp add: chars_row_def matchSegment_wild)

lemma glob_step_length [simp]:
  "length rs = Suc (length vals) \<Longrightarrow> length (glob_step vals seg rs) = Suc (length vals)"
  by (simp add: glob_step_def split: segment.splits)

lemma glob_rows_reach:
  "length rs = Suc (length vals) \<Longrightarrow>
   fold (glob_step vals) segs rs ! length vals \<longleftrightarrow>
     (\<exists>j \<le> length vals. rs ! j \<and> glob_spec segs (drop j vals))"
proof (induction segs arbitrary: rs)
  case Nil
  then show ?case by auto
next
  case (Cons seg segs)
  let ?n = "length vals" and ?row = "glob_step vals seg rs"
  have IH: "fold (glob_step vals) (seg # segs) rs ! ?n \<longleftrightarrow>
      (\<exists>i \<le> ?n. ?row ! i \<and> glob_spec segs (drop i vals))"
    using Cons by simp
  show ?case
  proof (cases seg)
    case Globstar
    have "?row ! i \<longleftrightarrow> (\<exists>j \<le> i. rs ! j)" if "i \<le> ?n" for i
      using that Cons.prems by (simp add: Globstar glob_step_def globstar_row_nth)
    then have "(\<exists>i \<le> ?n. ?row ! i \<and> glob_spec segs (drop i vals)) \<longleftrightarrow>
        (\<exists>i \<le> ?n. \<exists>j \<le> i. rs ! j \<and> glob_spec segs (drop i vals))"
      by blast
    also have "\<dots> \<longleftrightarrow> (\<exists>j \<le> ?n. rs ! j \<and> (\<exists>k \<le> ?n - j. glob_spec segs (drop (k + j) vals)))"
      using ex_window_iff [of ?n "\<lambda>j i. rs ! j \<and> glob_spec segs (drop i vals)"] by blast
    finally show ?thesis using IH by (simp add: Globstar drop_drop)
  next
    case (Chars cs)
    have "(\<exists>i \<le> ?n. ?row ! i \<and> glob_spec segs (drop i vals)) \<longleftrightarrow>
        (\<exists>j < ?n. rs ! j \<and> wild cs (vals ! j) \<and> glob_spec segs (drop (Suc j) vals))"
    proof
      assume "\<exists>i \<le> ?n. ?row ! i \<and> glob_spec segs (drop i vals)"
      then obtain i where i: "i \<le> ?n" "?row ! i" "glob_spec segs (drop i vals)" by blast
      then show "\<exists>j < ?n. rs ! j \<and> wild cs (vals ! j) \<and> glob_spec segs (drop (Suc j) vals)"
        using Cons.prems by (cases i) (auto simp: Chars glob_step_def Suc_le_eq)
    next
      assume "\<exists>j < ?n. rs ! j \<and> wild cs (vals ! j) \<and> glob_spec segs (drop (Suc j) vals)"
      then obtain j where j: "j < ?n" "rs ! j" "wild cs (vals ! j)" "glob_spec segs (drop (Suc j) vals)"
        by blast
      then show "\<exists>i \<le> ?n. ?row ! i \<and> glob_spec segs (drop i vals)"
        using Cons.prems by (auto simp: Chars glob_step_def intro!: exI [of _ "Suc j"])
    qed
    also have "\<dots> \<longleftrightarrow> (\<exists>j \<le> ?n. rs ! j \<and> glob_spec (seg # segs) (drop j vals))"
      by (auto simp: Chars Cons_nth_drop_Suc [symmetric] le_less)
    finally show ?thesis using IH by blast
  qed
qed

lemma glob_match_spec: "glob_match segs path = glob_spec segs (split_on (CHR ''/'') path)"
proof -
  let ?vs = "split_on (CHR ''/'') path"
  have "(True # replicate (length ?vs) False) ! j \<longleftrightarrow> j = 0" if "j \<le> length ?vs" for j
    using that by (simp add: nth_Cons')
  then have "(\<exists>j \<le> length ?vs. (True # replicate (length ?vs) False) ! j \<and> glob_spec segs (drop j ?vs))
      \<longleftrightarrow> glob_spec segs ?vs"
    by force
  then show ?thesis
    by (simp add: glob_match_def Let_def glob_rows_reach)
qed

section \<open>Properties of compiled globs\<close>

definition segment_text :: "segment \<Rightarrow> string" where
  "segment_text seg = (case seg of Globstar \<Rightarrow> globstar_text | Chars cs \<Rightarrow> cs)"

lemma parse_segment_text: "parse_segment w = Inr seg \<Longrightarrow> segment_text seg = w"
  by (auto simp: parse_segment_def segment_text_def split: if_splits)

lemma parseSegments_InrD:
  assumes "parseSegments pattern = Inr segs"
  shows "list_all2 (\<lambda>w seg. parse_segment w = Inr seg) (split_on (CHR ''/'') pattern) segs"
  using assms by (auto simp: parseSegments_def traverse_Inr_iff split: if_splits option.splits)

lemma parseSegments_text:
  assumes "parseSegments pattern = Inr segs"
  shows "map segment_text segs = split_on (CHR ''/'') pattern"
  using parseSegments_InrD [OF assms]
  by (intro nth_equalityI) (auto simp: list_all2_conv_all_nth parse_segment_text)

lemma compilePathGlob_Inr_iff:
  "compilePathGlob pattern = Inr accepts \<longleftrightarrow>
     (\<exists>segs. parseSegments pattern = Inr segs \<and> accepts = glob_match segs)"
  by (cases "parseSegments pattern") (auto simp: compilePathGlob_def)

text \<open>
  C1. A glob that compiles accepts exactly the paths its segments describe: the greedy
  single-segment matcher and the row-by-row reachability together compute the declarative
  semantics of \<open>*\<close>, \<open>?\<close> and \<open>**\<close>, and the parsed segments are
  the pattern's own text.
\<close>

theorem compilePathGlob_correct:
  assumes "compilePathGlob pattern = Inr accepts"
  shows "\<exists>segs. parseSegments pattern = Inr segs
    \<and> join_with (CHR ''/'') (map segment_text segs) = pattern
    \<and> accepts = (\<lambda>path. glob_spec segs (split_on (CHR ''/'') path))"
  using assms parseSegments_text by (auto simp: compilePathGlob_Inr_iff glob_match_spec fun_eq_iff)

theorem compilePathGlob_correct_witness:
  "\<exists>segs. parseSegments ''plans/**/n?te*'' = Inr segs
    \<and> join_with (CHR ''/'') (map segment_text segs) = ''plans/**/n?te*''
    \<and> glob_match [Chars ''plans'', Globstar, Chars ''n?te*'']
        = (\<lambda>path. glob_spec segs (split_on (CHR ''/'') path))"
proof -
  have "parseSegments ''plans/**/n?te*'' = Inr [Chars ''plans'', Globstar, Chars ''n?te*'']"
    by code_simp
  then have "compilePathGlob ''plans/**/n?te*'' = Inr (glob_match [Chars ''plans'', Globstar, Chars ''n?te*''])"
    by (simp add: compilePathGlob_def)
  from compilePathGlob_correct [OF this] show ?thesis .
qed

lemma split_on_outer:
  assumes "[] \<notin> set (split_on sep cs)"
  shows "cs \<noteq> [] \<and> hd cs \<noteq> sep \<and> last cs \<noteq> sep"
proof -
  have "cs \<noteq> []" using assms by auto
  moreover have "hd cs \<noteq> sep" using assms by (cases cs) auto
  moreover have "last cs \<noteq> sep"
    using assms split_on_snoc_sep [of sep "butlast cs"] \<open>cs \<noteq> []\<close>
    by (metis append_butlast_last_id in_set_conv_decomp)
  ultimately show ?thesis by blast
qed

lemma find_None_disjoint: "find (\<lambda>c. c \<in> A) xs = None \<longleftrightarrow> set xs \<inter> A = {}"
  by (auto simp: find_None_iff)

definition glob_text_ok :: "string \<Rightarrow> bool" where
  "glob_text_ok w \<longleftrightarrow> w \<noteq> [] \<and> (w = globstar_text \<or> \<not> sublist globstar_text w)"

lemma traverse_parse_segment_ok:
  "(\<exists>segs. traverse parse_segment ws = Inr segs) \<longleftrightarrow> list_all glob_text_ok ws"
  by (induction ws) (auto simp: parse_segment_def glob_text_ok_def split: sum.splits)

text \<open>
  The parser accepts exactly the patterns of the documented syntax: 1 to 1024
  characters, no leading \<open>!\<close>, none of \<open>[ ] { } \\<close>, and every segment
  non-empty and either \<open>**\<close> itself or free of \<open>**\<close>.
\<close>

lemma parseSegments_accepts_iff:
  "(\<exists>segs. parseSegments pattern = Inr segs) \<longleftrightarrow>
     pattern \<noteq> [] \<and> length pattern \<le> PATH_GLOB_MAX_LENGTH \<and> hd pattern \<noteq> CHR ''!''
     \<and> set pattern \<inter> set unsupported_chars = {}
     \<and> list_all glob_text_ok (split_on (CHR ''/'') pattern)"
proof -
  have "hd pattern \<noteq> CHR ''/'' \<and> last pattern \<noteq> CHR ''/''"
    if "list_all glob_text_ok (split_on (CHR ''/'') pattern)"
    using that split_on_outer [of "CHR ''/''" pattern]
    by (auto simp: list_all_iff glob_text_ok_def)
  then show ?thesis
    unfolding parseSegments_def
    by (auto simp: find_None_disjoint [symmetric] traverse_parse_segment_ok [symmetric]
        split: option.splits)
qed

lemma wild_literal:
  "CHR ''*'' \<notin> set w \<Longrightarrow> CHR ''?'' \<notin> set w \<Longrightarrow> wild w cs \<longleftrightarrow> cs = w"
  by (induction w arbitrary: cs) (auto split: list.splits)

lemma glob_spec_literal:
  "list_all2 (\<lambda>w seg. seg = Chars w \<and> CHR ''*'' \<notin> set w \<and> CHR ''?'' \<notin> set w) ws segs \<Longrightarrow>
     glob_spec segs vs \<longleftrightarrow> vs = ws"
  by (induction arbitrary: vs rule: list_all2_induct) (auto simp: wild_literal split: list.splits)

text \<open>
  A pattern with neither \<open>*\<close> nor \<open>?\<close> accepts the one path it spells.
\<close>

lemma compilePathGlob_literal:
  assumes "compilePathGlob pattern = Inr accepts"
    and "CHR ''*'' \<notin> set pattern" "CHR ''?'' \<notin> set pattern"
  shows "accepts path \<longleftrightarrow> path = pattern"
proof -
  let ?ws = "split_on (CHR ''/'') pattern"
  obtain segs where segs: "parseSegments pattern = Inr segs" "accepts = glob_match segs"
    using assms(1) by (auto simp: compilePathGlob_Inr_iff)
  have "seg = Chars w \<and> CHR ''*'' \<notin> set w \<and> CHR ''?'' \<notin> set w"
    if "parse_segment w = Inr seg" "w \<in> set ?ws" for w seg
    using that set_split_on [OF that(2)] assms(2,3)
    by (auto simp: parse_segment_def globstar_text_def split: if_splits)
  with parseSegments_InrD [OF segs(1)]
  have "list_all2 (\<lambda>w seg. seg = Chars w \<and> CHR ''*'' \<notin> set w \<and> CHR ''?'' \<notin> set w) ?ws segs"
    by (auto simp: list_all2_conv_all_nth)
  then have "accepts path \<longleftrightarrow> split_on (CHR ''/'') path = ?ws"
    by (simp add: segs glob_match_spec glob_spec_literal)
  then show ?thesis by (metis join_split)
qed

end
