(* ===== verification/LinkBudget.thy ===== *)
theory LinkBudget
  imports Prelude
begin

text \<open>
  The budgets that cap how much one share link may read,
  \<open>packages/server/src/link-budget.ts\<close>: queries per minute and rows per hour, kept in
  a ring of sixty one-minute slots per link and in a \<open>Map\<close> ordered by last use. The
  specification keeps no ring and drops no link: it remembers, for every link and minute,
  the rows taken and the queries asked, and sums the last sixty minutes. The two give the
  same answer to every sequence of calls made at non-decreasing times.

  Times are milliseconds and minutes since the epoch (\<open>nat\<close>); row counts are
  \<open>int\<close>, since the code subtracts them.
\<close>

section \<open>State and answers\<close>

definition MINUTE_MS :: nat where "MINUTE_MS = 60000"

definition HOUR_MINUTES :: nat where "HOUR_MINUTES = 60"

datatype link_limit_name = QueriesPerMinute | RowsPerHour

datatype admission = Admitted int | Refused link_limit_name int

record link_limits =
  queriesPerMinute :: nat
  rowsPerHour :: int

record link_usage =
  minute :: nat
  queries :: nat
  slots :: "int list"
  rowsMinute :: nat
  rowsTotal :: int

type_synonym budgets = "(string \<times> link_usage) list"

section \<open>Operations\<close>

definition secondsUntil :: "int \<Rightarrow> int \<Rightarrow> int" where
  "secondsUntil at now = max 1 (- ((now - at) div 1000))"

text \<open>One round of the loop in \<open>advance\<close>: empty the slot the minute reuses.\<close>

definition clear_slot :: "nat \<Rightarrow> link_usage \<Rightarrow> link_usage" where
  "clear_slot m u =
     (let slot = m mod HOUR_MINUTES
      in u\<lparr>rowsTotal := rowsTotal u - slots u ! slot, slots := (slots u)[slot := 0]\<rparr>)"

definition advance :: "link_usage \<Rightarrow> nat \<Rightarrow> link_usage" where
  "advance u m =
     (if m \<le> rowsMinute u then u
      else let steps = min (m - rowsMinute u) HOUR_MINUTES
           in (fold (\<lambda>step u'. clear_slot (rowsMinute u + step) u') [1..<Suc steps] u)\<lparr>rowsMinute := m\<rparr>)"

definition fresh_usage :: "nat \<Rightarrow> link_usage" where
  "fresh_usage m = \<lparr>minute = m, queries = 0, slots = replicate HOUR_MINUTES 0,
                    rowsMinute = m, rowsTotal = 0\<rparr>"

text \<open>
  \<open>touch\<close> moves the link to the end of the map and returns its usage, brought
  forward to the minute. The object it returns is the one in the map, so callers that
  change it store it back with \<open>AList.update\<close>.
\<close>

definition touch :: "string \<Rightarrow> nat \<Rightarrow> budgets \<Rightarrow> link_usage \<times> budgets" where
  "touch linkId m usage =
     (case map_of usage linkId of
        Some u \<Rightarrow> (let u' = advance u m in (u', AList.delete linkId usage @ [(linkId, u')]))
      | None \<Rightarrow> (let u' = fresh_usage m in (u', usage @ [(linkId, u')])))"

fun dropIdle :: "nat \<Rightarrow> budgets \<Rightarrow> budgets" where
  "dropIdle m [] = []"
| "dropIdle m ((linkId, u) # rest) =
     (if int (max (minute u) (rowsMinute u)) > int m - int HOUR_MINUTES then (linkId, u) # rest
      else dropIdle m rest)"

text \<open>
  The loop over ages 59 down to 1. A slot \<open>age\<close> minutes back exists only when
  \<open>age \<le> m\<close>: an index below zero reads \<open>undefined\<close>, and \<open>undefined > 0\<close> is false.
\<close>

definition oldestRowsExpire :: "link_usage \<Rightarrow> nat \<Rightarrow> nat" where
  "oldestRowsExpire u m =
     (case find (\<lambda>age. age \<le> m \<and> slots u ! ((m - age) mod HOUR_MINUTES) > 0) (rev [1..<HOUR_MINUTES]) of
        Some age \<Rightarrow> (m - age + HOUR_MINUTES) * MINUTE_MS
      | None \<Rightarrow> (m + HOUR_MINUTES) * MINUTE_MS)"

definition admit :: "nat \<Rightarrow> string \<Rightarrow> link_limits \<Rightarrow> budgets \<Rightarrow> admission \<times> budgets" where
  "admit now linkId limits usage0 =
     (let m = now div MINUTE_MS;
          usage1 = dropIdle m usage0;
          (u, usage2) = touch linkId m usage1;
          u1 = (if m > minute u then u\<lparr>minute := m, queries := 0\<rparr> else u);
          u2 = u1\<lparr>queries := queries u1 + 1\<rparr>;
          usage3 = AList.update linkId u2 usage2;
          rowsLeft = rowsPerHour limits - rowsTotal u2
      in if queries u2 > queriesPerMinute limits then
           (Refused QueriesPerMinute (secondsUntil (int ((m + 1) * MINUTE_MS)) (int now)), usage3)
         else if rowsLeft \<le> 0 then
           (Refused RowsPerHour (secondsUntil (int (oldestRowsExpire u2 m)) (int now)), usage3)
         else (Admitted rowsLeft, usage3))"

definition take_rows :: "nat \<Rightarrow> string \<Rightarrow> int \<Rightarrow> link_limits \<Rightarrow> budgets \<Rightarrow> admission \<times> budgets" where
  "take_rows now linkId n limits usage0 =
     (let m = now div MINUTE_MS;
          (u, usage1) = touch linkId m usage0;
          rowsLeft = rowsPerHour limits - rowsTotal u
      in if n > rowsLeft then
           (Refused RowsPerHour (secondsUntil (int (oldestRowsExpire u m)) (int now)), usage1)
         else
           (let slot = m mod HOUR_MINUTES;
                u' = u\<lparr>slots := (slots u)[slot := slots u ! slot + n], rowsTotal := rowsTotal u + n\<rparr>
            in (Admitted (rowsLeft - n), AList.update linkId u' usage1)))"

section \<open>Specification: a log without a ring\<close>

record link_log =
  taken :: "nat \<Rightarrow> int"
  asked :: "nat \<Rightarrow> nat"

definition empty_log :: link_log where
  "empty_log = \<lparr>taken = (\<lambda>_. 0), asked = (\<lambda>_. 0)\<rparr>"

text \<open>Rows taken in the hour that ends with minute \<open>m\<close>.\<close>

definition hour_rows :: "(nat \<Rightarrow> int) \<Rightarrow> nat \<Rightarrow> int" where
  "hour_rows t m = sum t {Suc m - HOUR_MINUTES..m}"

definition oldest_expiry :: "(nat \<Rightarrow> int) \<Rightarrow> nat \<Rightarrow> nat" where
  "oldest_expiry t m =
     (case find (\<lambda>age. age \<le> m \<and> t (m - age) > 0) (rev [1..<HOUR_MINUTES]) of
        Some age \<Rightarrow> (m - age + HOUR_MINUTES) * MINUTE_MS
      | None \<Rightarrow> (m + HOUR_MINUTES) * MINUTE_MS)"

definition admit_spec :: "nat \<Rightarrow> link_limits \<Rightarrow> link_log \<Rightarrow> admission \<times> link_log" where
  "admit_spec now limits l =
     (let m = now div MINUTE_MS;
          l' = l\<lparr>asked := (asked l)(m := asked l m + 1)\<rparr>;
          rowsLeft = rowsPerHour limits - hour_rows (taken l) m
      in (if asked l' m > queriesPerMinute limits then
            Refused QueriesPerMinute (secondsUntil (int ((m + 1) * MINUTE_MS)) (int now))
          else if rowsLeft \<le> 0 then
            Refused RowsPerHour (secondsUntil (int (oldest_expiry (taken l) m)) (int now))
          else Admitted rowsLeft, l'))"

definition take_spec :: "nat \<Rightarrow> int \<Rightarrow> link_limits \<Rightarrow> link_log \<Rightarrow> admission \<times> link_log" where
  "take_spec now n limits l =
     (let m = now div MINUTE_MS; rowsLeft = rowsPerHour limits - hour_rows (taken l) m
      in if n > rowsLeft then
           (Refused RowsPerHour (secondsUntil (int (oldest_expiry (taken l) m)) (int now)), l)
         else (Admitted (rowsLeft - n), l\<lparr>taken := (taken l)(m := taken l m + n)\<rparr>))"

datatype budget_call = Admit string link_limits | Take string int link_limits

fun call_link :: "budget_call \<Rightarrow> string" where
  "call_link (Admit linkId _) = linkId"
| "call_link (Take linkId _ _) = linkId"

fun budget_step :: "nat \<Rightarrow> budget_call \<Rightarrow> budgets \<Rightarrow> admission \<times> budgets" where
  "budget_step now (Admit linkId limits) s = admit now linkId limits s"
| "budget_step now (Take linkId n limits) s = take_rows now linkId n limits s"

fun log_step :: "nat \<Rightarrow> budget_call \<Rightarrow> link_log \<Rightarrow> admission \<times> link_log" where
  "log_step now (Admit linkId limits) l = admit_spec now limits l"
| "log_step now (Take linkId n limits) l = take_spec now n limits l"

text \<open>The answers of a sequence of timed calls, for any implementation of the step.\<close>

fun run_budget ::
    "(nat \<Rightarrow> budget_call \<Rightarrow> 's \<Rightarrow> admission \<times> 's) \<Rightarrow> (nat \<times> budget_call) list \<Rightarrow> 's \<Rightarrow> admission list" where
  "run_budget step [] s = []"
| "run_budget step ((now, c) # cs) s = (let (a, s') = step now c s in a # run_budget step cs s')"

text \<open>The specification's step over the logs of all links.\<close>

definition logs_step ::
    "nat \<Rightarrow> budget_call \<Rightarrow> (string \<Rightarrow> link_log) \<Rightarrow> admission \<times> (string \<Rightarrow> link_log)" where
  "logs_step now c ls =
     (let (a, l') = log_step now c (ls (call_link c)) in (a, ls(call_link c := l')))"

section \<open>The ring represents the last hour of the log\<close>

definition ring_ok :: "(nat \<Rightarrow> int) \<Rightarrow> int list \<Rightarrow> nat \<Rightarrow> int \<Rightarrow> bool" where
  "ring_ok t ring rm tot \<longleftrightarrow>
     length ring = HOUR_MINUTES
     \<and> (\<forall>m. m \<le> rm \<longrightarrow> rm < m + HOUR_MINUTES \<longrightarrow> ring ! (m mod HOUR_MINUTES) = t m)
     \<and> (\<forall>i < HOUR_MINUTES. rm < i \<longrightarrow> ring ! i = 0)
     \<and> tot = hour_rows t rm
     \<and> (\<forall>m > rm. t m = 0)"

lemma hour_minutes_pos [simp]: "0 < HOUR_MINUTES" "HOUR_MINUTES \<noteq> 0"
  by (simp_all add: HOUR_MINUTES_def)

lemma hour_rows_Suc:
  "hour_rows t (Suc m) = hour_rows t m + t (Suc m) - (if m < 59 then 0 else t (m - 59))"
proof (cases "m < 59")
  case True
  then show ?thesis by (simp add: hour_rows_def HOUR_MINUTES_def)
next
  case False
  then obtain k where m: "m = 59 + k" by (metis add.commute le_iff_add not_less)
  have "{k..59 + k} = insert k {Suc k..59 + k}" by auto
  then have "sum t {k..59 + k} = t k + sum t {Suc k..59 + k}" by simp
  moreover have "{Suc k..Suc (59 + k)} = insert (Suc (59 + k)) {Suc k..59 + k}" by auto
  then have "sum t {Suc k..Suc (59 + k)} = t (Suc (59 + k)) + sum t {Suc k..59 + k}" by simp
  ultimately show ?thesis
    by (simp add: hour_rows_def HOUR_MINUTES_def m)
qed

lemma ring_ok_next:
  assumes "ring_ok t ring rm tot"
  defines "slot \<equiv> Suc rm mod HOUR_MINUTES"
  shows "ring_ok t (ring[slot := 0]) (Suc rm) (tot - ring ! slot)"
proof -
  note ok = assms(1) [unfolded ring_ok_def HOUR_MINUTES_def]
  have slot: "slot < 60" by (simp add: slot_def HOUR_MINUTES_def)
  have out: "ring ! slot = (if rm < 59 then 0 else t (rm - 59))"
  proof (cases "rm < 59")
    case True
    then have "slot = Suc rm" by (simp add: slot_def HOUR_MINUTES_def)
    with ok True show ?thesis by simp
  next
    case False
    then have "Suc rm = (rm - 59) + 60" by simp
    then have "slot = (rm - 59) mod 60"
      unfolding slot_def HOUR_MINUTES_def by (metis mod_add_self2)
    with ok False show ?thesis by simp
  qed
  have "ring[slot := 0] ! (m mod 60) = t m" if m: "m \<le> Suc rm" "Suc rm < m + 60" for m
  proof (cases "m = Suc rm")
    case True
    then show ?thesis using ok slot by (simp add: slot_def HOUR_MINUTES_def)
  next
    case False
    have "m mod 60 \<noteq> slot"
      using False m mod_window_neq [of m "Suc rm" 60] by (simp add: slot_def HOUR_MINUTES_def)
    with False m ok show ?thesis by simp
  qed
  moreover have "ring[slot := 0] ! i = 0" if "i < 60" "Suc rm < i" for i
    using that ok by (cases "i = slot") auto
  ultimately show ?thesis
    using ok out by (simp add: ring_ok_def HOUR_MINUTES_def hour_rows_Suc)
qed

lemma clear_slots_frame [simp]:
  "minute (fold (\<lambda>i. clear_slot (f i)) is u) = minute u"
  "queries (fold (\<lambda>i. clear_slot (f i)) is u) = queries u"
  "rowsMinute (fold (\<lambda>i. clear_slot (f i)) is u) = rowsMinute u"
  by (induction "is" arbitrary: u) (auto simp: clear_slot_def Let_def)

lemma ring_ok_clear_slots:
  assumes "ring_ok t (slots u) (rowsMinute u) (rowsTotal u)"
  defines "w \<equiv> (\<lambda>k. fold (\<lambda>i. clear_slot (rowsMinute u + i)) [1..<Suc k] u)"
  shows "ring_ok t (slots (w k)) (rowsMinute u + k) (rowsTotal (w k))"
proof (induction k)
  case 0
  then show ?case using assms by simp
next
  case (Suc k)
  have "w (Suc k) = clear_slot (Suc (rowsMinute u + k)) (w k)" by (simp add: w_def)
  with ring_ok_next [OF Suc.IH] show ?case by (simp add: clear_slot_def Let_def)
qed

text \<open>After a full turn every slot is empty, so the ring also stands for any later minute.\<close>

lemma ring_ok_jump:
  assumes "ring_ok t ring (rm + 60) tot" "\<forall>k > rm. t k = 0" "rm + 60 \<le> m"
  shows "ring_ok t ring m tot"
proof -
  note ok = assms(1) [unfolded ring_ok_def HOUR_MINUTES_def]
  have "ring ! i = 0" if "i < 60" for i
  proof -
    let ?d = "(rm + 60 - i) mod 60" and ?q = "(rm + 60 - i) div 60"
    have "60 * ?q + ?d = rm + 60 - i" "?d < 60" by simp_all
    with that have "rm + 60 - ?d = 60 * ?q + i" by linarith
    then have "(rm + 60 - ?d) mod 60 = i" using that by simp
    moreover have "rm + 60 - ?d \<le> rm + 60" "rm + 60 < rm + 60 - ?d + 60" "rm < rm + 60 - ?d"
      using \<open>?d < 60\<close> by linarith+
    ultimately show ?thesis using ok assms(2) by metis
  qed
  moreover have "t k = 0" if "m < k + 60" for k using that assms(2,3) by simp
  moreover have "hour_rows t j = 0" if "rm + 60 \<le> j" for j
    using that assms(2) unfolding hour_rows_def HOUR_MINUTES_def by (intro sum.neutral) auto
  ultimately show ?thesis
    using ok assms(3) by (simp add: ring_ok_def HOUR_MINUTES_def)
qed

definition usage_ok :: "link_usage \<Rightarrow> link_log \<Rightarrow> bool" where
  "usage_ok u l \<longleftrightarrow>
     ring_ok (taken l) (slots u) (rowsMinute u) (rowsTotal u)
     \<and> queries u = asked l (minute u) \<and> (\<forall>m > minute u. asked l m = 0)"

lemma usage_ok_advance [keeps]:
  assumes "usage_ok u l"
  shows "usage_ok (advance u m) l"
proof (cases "m \<le> rowsMinute u")
  case True
  with assms show ?thesis by (simp add: advance_def)
next
  case False
  let ?w = "\<lambda>k. fold (\<lambda>i. clear_slot (rowsMinute u + i)) [1..<Suc k] u"
  from assms have ok: "ring_ok (taken l) (slots u) (rowsMinute u) (rowsTotal u)"
    by (simp add: usage_ok_def)
  then have zero: "\<forall>k > rowsMinute u. taken l k = 0" by (simp add: ring_ok_def)
  have "ring_ok (taken l) (slots (?w (min (m - rowsMinute u) 60))) m
          (rowsTotal (?w (min (m - rowsMinute u) 60)))"
  proof (cases "m - rowsMinute u \<le> 60")
    case True
    with False ring_ok_clear_slots [OF ok, of "m - rowsMinute u"] show ?thesis
      by (simp add: min_def)
  next
    case False
    with ring_ok_jump [OF ring_ok_clear_slots [OF ok, of 60] zero, of m] show ?thesis
      by (simp add: min_def)
  qed
  with assms False show ?thesis
    by (simp add: usage_ok_def advance_def Let_def HOUR_MINUTES_def del: upt_Suc)
qed

lemma advance_fields [simp]:
  "rowsMinute (advance u m) = max m (rowsMinute u)"
  "minute (advance u m) = minute u"
  by (auto simp: advance_def Let_def simp del: upt_Suc)

lemma oldestRowsExpire_eq:
  assumes "usage_ok u l" "rowsMinute u = m"
  shows "oldestRowsExpire u m = oldest_expiry (taken l) m"
proof -
  have "find (\<lambda>age. age \<le> m \<and> slots u ! ((m - age) mod HOUR_MINUTES) > 0) (rev [1..<HOUR_MINUTES])
      = find (\<lambda>age. age \<le> m \<and> taken l (m - age) > 0) (rev [1..<HOUR_MINUTES])"
    using assms by (intro find_cong) (auto simp: usage_ok_def ring_ok_def)
  then show ?thesis by (simp add: oldestRowsExpire_def oldest_expiry_def)
qed

section \<open>Every call keeps the representation\<close>

definition idle_log :: "link_log \<Rightarrow> nat \<Rightarrow> bool" where
  "idle_log l m \<longleftrightarrow> (\<forall>k. m < k + HOUR_MINUTES \<longrightarrow> taken l k = 0 \<and> asked l k = 0)"

definition represents :: "budgets \<Rightarrow> (string \<Rightarrow> link_log) \<Rightarrow> nat \<Rightarrow> bool" where
  "represents s ls m \<longleftrightarrow>
     distinct (map fst s)
     \<and> (\<forall>linkId. case map_of s linkId of
          Some u \<Rightarrow> usage_ok u (ls linkId) \<and> minute u \<le> m \<and> rowsMinute u \<le> m
        | None \<Rightarrow> idle_log (ls linkId) m)"

lemma represents_Some:
  "represents s ls m \<Longrightarrow> map_of s linkId = Some u \<Longrightarrow>
     usage_ok u (ls linkId) \<and> minute u \<le> m \<and> rowsMinute u \<le> m"
  by (auto simp: represents_def dest: spec [of _ linkId])

lemma represents_None:
  "represents s ls m \<Longrightarrow> map_of s linkId = None \<Longrightarrow> idle_log (ls linkId) m"
  by (auto simp: represents_def dest: spec [of _ linkId])

lemma represents_empty: "represents [] (\<lambda>_. empty_log) 0"
  by (simp add: represents_def idle_log_def empty_log_def)

lemma idle_log_later: "idle_log l m \<Longrightarrow> m \<le> m' \<Longrightarrow> idle_log l m'"
  by (auto simp: idle_log_def)

lemma represents_later [keeps]:
  assumes "represents s ls m" "m \<le> m'"
  shows "represents s ls m'"
  unfolding represents_def
proof (intro conjI allI)
  show "distinct (map fst s)" using assms by (simp add: represents_def)
  show "case map_of s k of
          Some u \<Rightarrow> usage_ok u (ls k) \<and> minute u \<le> m' \<and> rowsMinute u \<le> m'
        | None \<Rightarrow> idle_log (ls k) m'" for k
    using represents_Some [OF assms(1), of k] represents_None [OF assms(1), of k] assms(2)
      idle_log_later [of "ls k" m m']
    by (cases "map_of s k") auto
qed

lemma dropIdle_keys: "set (map fst (dropIdle m s)) \<subseteq> set (map fst s)"
  by (induction m s rule: dropIdle.induct) auto

lemma dropIdle_distinct: "distinct (map fst s) \<Longrightarrow> distinct (map fst (dropIdle m s))"
  by (induction m s rule: dropIdle.induct) auto

lemma map_of_dropIdle:
  "distinct (map fst s) \<Longrightarrow>
     map_of (dropIdle m s) linkId = map_of s linkId
     \<or> map_of (dropIdle m s) linkId = None
       \<and> (\<exists>u. map_of s linkId = Some u \<and> max (minute u) (rowsMinute u) + HOUR_MINUTES \<le> m)"
proof (induction m s rule: dropIdle.induct)
  case (2 m k u rest)
  then show ?case
    using dropIdle_keys [of m rest] by (auto simp: map_of_eq_None_iff)
qed simp

lemma usage_ok_idle:
  "usage_ok u l \<Longrightarrow> max (minute u) (rowsMinute u) + HOUR_MINUTES \<le> m \<Longrightarrow> idle_log l m"
  by (auto simp: usage_ok_def ring_ok_def idle_log_def)

lemma represents_dropIdle [keeps]:
  assumes "represents s ls m"
  shows "represents (dropIdle m s) ls m"
proof -
  have dist: "distinct (map fst s)" using assms by (simp add: represents_def)
  have "case map_of (dropIdle m s) k of
          Some u \<Rightarrow> usage_ok u (ls k) \<and> minute u \<le> m \<and> rowsMinute u \<le> m
        | None \<Rightarrow> idle_log (ls k) m" for k
    using map_of_dropIdle [OF dist, of m k] represents_Some [OF assms, of k]
      represents_None [OF assms, of k]
    by (auto split: option.splits dest: usage_ok_idle)
  with dropIdle_distinct [OF dist] show ?thesis by (simp add: represents_def)
qed

lemma represents_store [keeps]:
  assumes "represents s ls m" "usage_ok u l" "minute u \<le> m" "rowsMinute u \<le> m"
    and s': "distinct (map fst s')" "map_of s' = (map_of s)(linkId \<mapsto> u)"
  shows "represents s' (ls(linkId := l)) m"
  unfolding represents_def
  using assms represents_Some [OF assms(1)] represents_None [OF assms(1)]
  by (auto split: option.splits)

lemma represents_update [keeps]:
  assumes "represents s ls m" "usage_ok u l" "minute u \<le> m" "rowsMinute u \<le> m"
  shows "represents (AList.update linkId u s) (ls(linkId := l)) m"
  using assms
  by (rule represents_store) (use assms(1) in \<open>auto simp: represents_def update_conv' distinct_update\<close>)

lemma hour_rows_idle: "idle_log l m \<Longrightarrow> hour_rows (taken l) m = 0"
  unfolding hour_rows_def by (intro sum.neutral) (auto simp: idle_log_def)

lemma usage_ok_fresh: "idle_log l m \<Longrightarrow> usage_ok (fresh_usage m) l"
  by (simp add: usage_ok_def fresh_usage_def ring_ok_def hour_rows_idle)
     (auto simp: idle_log_def HOUR_MINUTES_def)

lemma represents_touch:
  assumes rep: "represents s ls m" and touch: "touch linkId m s = (u, s')"
  shows "usage_ok u (ls linkId)" "minute u \<le> m" "rowsMinute u = m" "represents s' ls m"
proof -
  have dist: "distinct (map fst s)" using rep by (simp add: represents_def)
  have "usage_ok u (ls linkId) \<and> minute u \<le> m \<and> rowsMinute u = m
      \<and> distinct (map fst s') \<and> map_of s' = (map_of s)(linkId \<mapsto> u)"
  proof (cases "map_of s linkId")
    case None
    with touch have "u = fresh_usage m" "s' = s @ [(linkId, u)]"
      by (auto simp: touch_def Let_def)
    with map_of_append_new [OF None] distinct_append_new [OF dist None]
      usage_ok_fresh [OF represents_None [OF rep None]]
    show ?thesis by (auto simp: fresh_usage_def)
  next
    case (Some v)
    with touch have "u = advance v m" "s' = AList.delete linkId s @ [(linkId, u)]"
      by (auto simp: touch_def Let_def)
    with represents_Some [OF rep Some] map_of_reinsert [of linkId s u]
      distinct_reinsert [OF dist, of linkId u]
    show ?thesis by (auto simp: usage_ok_advance)
  qed
  then show "usage_ok u (ls linkId)" "minute u \<le> m" "rowsMinute u = m" "represents s' ls m"
    using represents_store [OF rep, of u "ls linkId" s' linkId] by (auto simp: fun_upd_idem)
qed

lemma usage_ok_rows:
  "usage_ok u l \<Longrightarrow> rowsMinute u = m \<Longrightarrow> rowsTotal u = hour_rows (taken l) m"
  by (simp add: usage_ok_def ring_ok_def)

lemma usage_ok_ask:
  assumes "usage_ok u l" "minute u \<le> m"
  shows "usage_ok ((if m > minute u then u\<lparr>minute := m, queries := 0\<rparr> else u)
           \<lparr>queries := queries (if m > minute u then u\<lparr>minute := m, queries := 0\<rparr> else u) + 1\<rparr>)
         (l\<lparr>asked := (asked l)(m := asked l m + 1)\<rparr>)"
  using assms by (auto simp: usage_ok_def)

lemma hour_rows_upd:
  "hour_rows (t(m := t m + n)) m = hour_rows t m + n"
  unfolding hour_rows_def by (simp add: sum.remove [of _ m] HOUR_MINUTES_def)

lemma usage_ok_take:
  assumes "usage_ok u l" "rowsMinute u = m"
  shows "usage_ok (u\<lparr>slots := (slots u)[m mod HOUR_MINUTES := slots u ! (m mod HOUR_MINUTES) + n],
              rowsTotal := rowsTotal u + n\<rparr>)
           (l\<lparr>taken := (taken l)(m := taken l m + n)\<rparr>)"
proof -
  let ?slot = "m mod HOUR_MINUTES"
  let ?ring = "(slots u)[?slot := slots u ! ?slot + n]" and ?t = "(taken l)(m := taken l m + n)"
  have ok: "ring_ok (taken l) (slots u) m (rowsTotal u)"
    using assms by (simp add: usage_ok_def)
  have "?ring ! (k mod HOUR_MINUTES) = ?t k" if "k \<le> m" "m < k + HOUR_MINUTES" for k
  proof (cases "k = m")
    case True
    with ok show ?thesis by (simp add: ring_ok_def)
  next
    case False
    with that mod_window_neq [of k m HOUR_MINUTES] ok show ?thesis by (simp add: ring_ok_def)
  qed
  moreover have "?ring ! i = 0" if "i < HOUR_MINUTES" "m < i" for i
    using that ok mod_less_eq_dividend [of m HOUR_MINUTES]
    by (cases "i = ?slot") (auto simp: ring_ok_def)
  ultimately have "ring_ok ?t ?ring m (rowsTotal u + n)"
    using ok by (simp add: ring_ok_def hour_rows_upd)
  with assms show ?thesis by (simp add: usage_ok_def)
qed

lemma admit_represents:
  assumes rep: "represents s ls (now div MINUTE_MS)"
    and run: "admit now linkId limits s = (a, s')"
    and spec: "admit_spec now limits (ls linkId) = (b, l')"
  shows "a = b \<and> represents s' (ls(linkId := l')) (now div MINUTE_MS)"
proof -
  let ?m = "now div MINUTE_MS"
  obtain u s2 where t: "touch linkId ?m (dropIdle ?m s) = (u, s2)" by fastforce
  note touched = represents_touch [OF represents_dropIdle [OF rep] t]
  let ?u1 = "if ?m > minute u then u\<lparr>minute := ?m, queries := 0\<rparr> else u"
  let ?u2 = "?u1\<lparr>queries := queries ?u1 + 1\<rparr>"
  let ?l = "(ls linkId)\<lparr>asked := (asked (ls linkId))(?m := asked (ls linkId) ?m + 1)\<rparr>"
  have ok: "usage_ok ?u2 ?l" using usage_ok_ask [OF touched(1,2)] .
  have "minute ?u2 = ?m" "rowsMinute ?u2 = ?m" using touched(2,3) by auto
  then have rep': "represents (AList.update linkId ?u2 s2) (ls(linkId := ?l)) ?m"
    using represents_update [OF touched(4) ok] by simp
  have q: "queries ?u2 = asked ?l ?m" using ok \<open>minute ?u2 = ?m\<close> by (simp add: usage_ok_def)
  have r: "rowsTotal ?u2 = hour_rows (taken (ls linkId)) ?m"
    using usage_ok_rows [OF ok \<open>rowsMinute ?u2 = ?m\<close>] by simp
  have o: "oldestRowsExpire ?u2 ?m = oldest_expiry (taken (ls linkId)) ?m"
    using oldestRowsExpire_eq [OF ok \<open>rowsMinute ?u2 = ?m\<close>] by simp
  have "l' = ?l" using spec by (auto simp: admit_spec_def Let_def)
  moreover have "s' = AList.update linkId ?u2 s2"
    using run unfolding admit_def Let_def t prod.case by (simp split: if_splits)
  moreover have "a = b"
    using run spec unfolding admit_def admit_spec_def Let_def t prod.case q r o
    by (simp split: if_splits)
  ultimately show ?thesis using rep' by simp
qed

lemma take_represents:
  assumes rep: "represents s ls (now div MINUTE_MS)"
    and run: "take_rows now linkId n limits s = (a, s')"
    and spec: "take_spec now n limits (ls linkId) = (b, l')"
  shows "a = b \<and> represents s' (ls(linkId := l')) (now div MINUTE_MS)"
proof -
  let ?m = "now div MINUTE_MS"
  obtain u s1 where t: "touch linkId ?m s = (u, s1)" by fastforce
  note touched = represents_touch [OF rep t]
  note rows = usage_ok_rows [OF touched(1,3)] and old = oldestRowsExpire_eq [OF touched(1,3)]
  note ok = usage_ok_take [OF touched(1,3), of n]
  show ?thesis
  proof (cases "n > rowsPerHour limits - hour_rows (taken (ls linkId)) ?m")
    case True
    with run spec touched(4) show ?thesis
      by (auto simp: take_rows_def take_spec_def Let_def t rows old)
  next
    case False
    with run spec represents_update [OF touched(4) ok] touched(2,3) show ?thesis
      by (auto simp: take_rows_def take_spec_def Let_def t rows)
  qed
qed

section \<open>The contract of link budgets\<close>

text \<open>
  Any implementation whose state represents the logs, and whose step answers as the log
  does, answers every timed sequence of calls as the log does. The hourly cap is proved
  once, for all of them.
\<close>

definition in_hour :: "nat \<Rightarrow> nat \<Rightarrow> bool" where
  "in_hour m k \<longleftrightarrow> k \<le> m \<and> m < k + HOUR_MINUTES"

text \<open>Rows a link was granted by \<open>take\<close> in the hour ending with minute \<open>m\<close>.\<close>

fun granted :: "string \<Rightarrow> nat \<Rightarrow> (nat \<times> budget_call) list \<Rightarrow> admission list \<Rightarrow> int" where
  "granted linkId m ((now, Take k n limits) # cs) (Admitted r # as) =
     (if k = linkId \<and> in_hour m (now div MINUTE_MS) then n else 0) + granted linkId m cs as"
| "granted linkId m (_ # cs) (_ # as) = granted linkId m cs as"
| "granted linkId m _ _ = 0"

fun takes_within :: "string \<Rightarrow> int \<Rightarrow> budget_call \<Rightarrow> bool" where
  "takes_within linkId cap (Take k n limits) = (k = linkId \<longrightarrow> 0 \<le> n \<and> rowsPerHour limits = cap)"
| "takes_within linkId cap (Admit k limits) = True"

lemma hour_rows_upd_if:
  "hour_rows (t(k := t k + n)) m = hour_rows t m + (if in_hour m k then n else 0)"
proof (cases "in_hour m k")
  case True
  then have "k \<in> {Suc m - HOUR_MINUTES..m}" by (auto simp: in_hour_def)
  then show ?thesis using True unfolding hour_rows_def by (simp add: sum.remove [of _ k])
next
  case False
  then have "k \<notin> {Suc m - HOUR_MINUTES..m}" by (auto simp: in_hour_def)
  then have "sum (t(k := t k + n)) {Suc m - HOUR_MINUTES..m} = sum t {Suc m - HOUR_MINUTES..m}"
    by (intro sum.cong) auto
  then show ?thesis using False by (simp add: hour_rows_def)
qed

lemma hour_rows_later:
  assumes "\<And>i. 0 \<le> t i" "\<forall>i > k. t i = 0" "k \<le> m"
  shows "hour_rows t m \<le> hour_rows t k"
proof -
  have "sum t {Suc m - HOUR_MINUTES..m} = sum t ({Suc m - HOUR_MINUTES..m} \<inter> {..k})"
    using assms(2) by (intro sum.mono_neutral_right) auto
  also have "\<dots> \<le> sum t {Suc k - HOUR_MINUTES..k}"
    using assms by (intro sum_mono2) auto
  finally show ?thesis by (simp add: hour_rows_def)
qed

definition log_capped :: "int \<Rightarrow> nat \<Rightarrow> link_log \<Rightarrow> bool" where
  "log_capped cap k l \<longleftrightarrow>
     (\<forall>i. 0 \<le> taken l i) \<and> (\<forall>i > k. taken l i = 0) \<and> (\<forall>m. hour_rows (taken l) m \<le> cap)"

lemma log_capped_take [keeps]:
  assumes "log_capped cap k l" "k \<le> now div MINUTE_MS" "0 \<le> n" "rowsPerHour limits = cap"
    and "take_spec now n limits l = (a, l')"
  shows "log_capped cap (now div MINUTE_MS) l'"
proof (cases "n > cap - hour_rows (taken l) (now div MINUTE_MS)")
  case True
  with assms show ?thesis by (auto simp: take_spec_def Let_def log_capped_def)
next
  case False
  let ?k = "now div MINUTE_MS" and ?t = "taken l"
  have "hour_rows ?t m + (if in_hour m ?k then n else 0) \<le> cap" for m
  proof (cases "in_hour m ?k")
    case True
    with assms have "hour_rows ?t m \<le> hour_rows ?t ?k"
      by (intro hour_rows_later) (auto simp: log_capped_def in_hour_def)
    with False True show ?thesis by simp
  qed (use assms(1) in \<open>simp add: log_capped_def\<close>)
  with assms False show ?thesis
    by (auto simp: take_spec_def Let_def log_capped_def hour_rows_upd_if)
qed

lemma log_capped_mono: "log_capped cap k l \<Longrightarrow> k \<le> m \<Longrightarrow> log_capped cap m l"
  by (auto simp: log_capped_def)

lemma granted_logs_capped:
  "log_capped cap (t div MINUTE_MS) (ls linkId) \<Longrightarrow> sorted (t # map fst cs) \<Longrightarrow>
   list_all (\<lambda>(now, c). takes_within linkId cap c) cs \<Longrightarrow>
   granted linkId m cs (run_budget logs_step cs ls) + hour_rows (taken (ls linkId)) m \<le> cap"
proof (induction cs arbitrary: ls t)
  case Nil
  then show ?case by (simp add: log_capped_def)
next
  case (Cons tc cs)
  obtain now c where tc: "tc = (now, c)" by fastforce
  obtain a l' where spec: "log_step now c (ls (call_link c)) = (a, l')" by fastforce
  let ?ls = "ls(call_link c := l')" and ?k = "now div MINUTE_MS"
  have k: "t div MINUTE_MS \<le> ?k" using Cons.prems(2) tc by (simp add: div_le_mono)
  note capped = log_capped_mono [OF Cons.prems(1) k]
  have moved: "log_capped cap ?k (?ls linkId)
    \<and> hour_rows (taken (?ls linkId)) m = hour_rows (taken (ls linkId)) m
        + granted linkId m [tc] [a]"
  proof (cases c)
    case (Admit j limits)
    with capped spec show ?thesis
      by (auto simp: admit_spec_def Let_def log_capped_def tc)
  next
    case (Take j n limits)
    show ?thesis
    proof (cases "j = linkId")
      case True
      with Take spec Cons.prems(3) tc have "take_spec now n limits (ls linkId) = (a, l')"
        and "0 \<le> n" "rowsPerHour limits = cap" by auto
      with log_capped_take [OF capped] Take True show ?thesis
        by (cases a) (auto simp: take_spec_def Let_def hour_rows_upd_if tc split: if_splits)
    next
      case False
      with Take capped show ?thesis by (cases a) (auto simp: tc)
    qed
  qed
  have "granted linkId m cs (run_budget logs_step cs ?ls) + hour_rows (taken (?ls linkId)) m \<le> cap"
    by (rule Cons.IH [of now ?ls]) (use Cons.prems(2,3) moved tc in auto)
  moreover have "granted linkId m (tc # cs) (a # as) = granted linkId m [tc] [a] + granted linkId m cs as" for as
    by (cases c; cases a) (auto simp: tc)
  moreover have "logs_step now c ls = (a, ?ls)" by (simp add: logs_step_def spec)
  ultimately show ?case using moved tc by simp
qed

locale link_budgets =
  fixes step :: "nat \<Rightarrow> budget_call \<Rightarrow> 's \<Rightarrow> admission \<times> 's"
    and start :: 's
    and rep :: "'s \<Rightarrow> (string \<Rightarrow> link_log) \<Rightarrow> nat \<Rightarrow> bool"
  assumes rep_start: "rep start (\<lambda>_. empty_log) 0"
    and rep_later: "rep s ls m \<Longrightarrow> m \<le> m' \<Longrightarrow> rep s ls m'"
    and rep_step: "rep s ls (now div MINUTE_MS) \<Longrightarrow> step now c s = (a, s') \<Longrightarrow>
      logs_step now c ls = (b, ls') \<Longrightarrow> a = b \<and> rep s' ls' (now div MINUTE_MS)"
begin

lemma run_answers:
  "rep s ls (t div MINUTE_MS) \<Longrightarrow> sorted (t # map fst cs) \<Longrightarrow>
     run_budget step cs s = run_budget logs_step cs ls"
proof (induction cs arbitrary: s ls t)
  case Nil
  then show ?case by simp
next
  case (Cons tc cs)
  obtain now c where tc: "tc = (now, c)" by fastforce
  obtain a s' where step: "step now c s = (a, s')" by fastforce
  obtain b ls' where spec: "logs_step now c ls = (b, ls')" by fastforce
  have "rep s ls (now div MINUTE_MS)"
    using Cons.prems tc by (auto intro: rep_later div_le_mono)
  with rep_step [OF this step spec] Cons.IH [of s' ls' now] Cons.prems(2) tc
  show ?case by (auto simp: step spec)
qed

lemma run_from_start:
  assumes "sorted (map fst cs)"
  shows "run_budget step cs start = run_budget logs_step cs (\<lambda>_. empty_log)"
  using run_answers [of start "\<lambda>_. empty_log" 0 cs] rep_start assms by simp

lemma hourly_cap:
  assumes "sorted (map fst cs)" "0 \<le> cap" "list_all (\<lambda>(now, c). takes_within linkId cap c) cs"
  shows "granted linkId m cs (run_budget step cs start) \<le> cap"
proof -
  have "log_capped cap (0 div MINUTE_MS) empty_log"
    using assms(2) by (simp add: log_capped_def empty_log_def hour_rows_def)
  from granted_logs_capped [where ls = "\<lambda>_. empty_log" and t = 0 and cs = cs and m = m, OF this _ assms(3)] assms(1)
  have "granted linkId m cs (run_budget logs_step cs (\<lambda>_. empty_log)) \<le> cap"
    by (simp add: empty_log_def hour_rows_def)
  then show ?thesis by (simp add: run_from_start [OF assms(1)])
qed

end

lemma budget_step_represents:
  assumes "represents s ls (now div MINUTE_MS)"
    and "budget_step now c s = (a, s')" "logs_step now c ls = (b, ls')"
  shows "a = b \<and> represents s' ls' (now div MINUTE_MS)"
  using assms
  by (cases c) (auto simp: logs_step_def split: prod.splits dest: admit_represents take_represents)

interpretation ring: link_budgets budget_step "[]" represents
  by unfold_locales (fact represents_empty, fact represents_later, fact budget_step_represents)

section \<open>Properties\<close>

text \<open>
  C4. The ring of minute slots, its lazy advance and the dropping of idle links are
  invisible: for calls at non-decreasing times, every answer, retry time included, is the
  one computed from a log of all rows taken and queries asked in the last hour.
\<close>

theorem budgets_refine_log:
  assumes "sorted (map fst cs)"
  shows "run_budget budget_step cs [] = run_budget logs_step cs (\<lambda>_. empty_log)"
  using assms by (rule ring.run_from_start)

definition sample_limits :: link_limits where
  "sample_limits = \<lparr>queriesPerMinute = 1, rowsPerHour = 10\<rparr>"

definition sample_calls :: "(nat \<times> budget_call) list" where
  "sample_calls =
     [(0, Admit ''a'' sample_limits), (5000, Take ''a'' 7 sample_limits),
      (61000, Take ''a'' 4 sample_limits), (125000, Take ''a'' 3 sample_limits)]"

lemmas budget_evals =
  admit_def take_rows_def touch_def fresh_usage_def advance_def clear_slot_def
  oldestRowsExpire_def secondsUntil_def MINUTE_MS_def HOUR_MINUTES_def Let_def
  upt_rec_numeral upt_rec [of "Suc 0"] numeral_2_eq_2 [symmetric] nth_list_update

theorem budgets_refine_log_witness:
  "run_budget logs_step sample_calls (\<lambda>_. empty_log)
     = [Admitted 10, Admitted 3, Refused RowsPerHour 3539, Admitted 0]"
proof -
  have "sorted (map fst sample_calls)" by (simp add: sample_calls_def)
  from budgets_refine_log [OF this]
  have "run_budget logs_step sample_calls (\<lambda>_. empty_log) = run_budget budget_step sample_calls []"
    by simp
  also have "\<dots> = [Admitted 10, Admitted 3, Refused RowsPerHour 3539, Admitted 0]"
    by (simp add: sample_calls_def sample_limits_def budget_evals)
  finally show ?thesis .
qed

text \<open>
  A link whose calls all carry the same hourly limit is never granted more rows than
  that in any sixty consecutive minutes.
\<close>

lemma hourly_rows_capped:
  assumes "sorted (map fst cs)" "0 \<le> cap" "list_all (\<lambda>(now, c). takes_within linkId cap c) cs"
  shows "granted linkId m cs (run_budget budget_step cs []) \<le> cap"
  using assms by (rule ring.hourly_cap)

text \<open>
  A refused call is told to wait between one second and one hour.
\<close>

lemma retry_after_bounds:
  assumes "budget_step now c s = (Refused limit secs, s')"
  shows "1 \<le> secs \<and> secs \<le> 3600"
proof -
  have near: "secondsUntil (int at) (int now) \<le> 3600"
    if "at \<le> (now div MINUTE_MS + HOUR_MINUTES) * MINUTE_MS" for at
  proof -
    have "now div MINUTE_MS * MINUTE_MS \<le> now" by (rule div_times_less_eq_dividend)
    with that have "at \<le> now + 3600000"
      by (simp add: add_mult_distrib HOUR_MINUTES_def MINUTE_MS_def)
    then show ?thesis unfolding secondsUntil_def by linarith
  qed
  have "oldestRowsExpire u m \<le> (m + HOUR_MINUTES) * MINUTE_MS" for u m
    by (auto simp: oldestRowsExpire_def split: option.splits intro!: mult_le_mono1)
  with near have "secondsUntil (int (oldestRowsExpire u (now div MINUTE_MS))) (int now) \<le> 3600" for u
    by blast
  moreover have "secondsUntil (int ((now div MINUTE_MS + 1) * MINUTE_MS)) (int now) \<le> 3600"
    by (rule near) (simp add: HOUR_MINUTES_def MINUTE_MS_def)
  moreover have "1 \<le> secondsUntil at' t'" for at' t' by (simp add: secondsUntil_def)
  ultimately show ?thesis
    using assms by (cases c) (auto simp: admit_def take_rows_def Let_def split: prod.splits if_splits)
qed

end
