(* ===== verification/MyersDiff.thy ===== *)
theory MyersDiff
  imports Prelude
begin

text \<open>
  Myers' O(ND) line diff, the functions \<open>myers\<close> and \<open>backtrack\<close> of
  \<open>packages/server/src/text-diff.ts\<close>. The code keeps furthest-reaching points in one
  typed array indexed by diagonal and a slice of it per edit step; the proofs read it as a
  function of step and diagonal (\<open>reach\<close>). JavaScript numbers are \<open>int\<close>;
  lines are already interned, so elements are compared for equality only.
\<close>

section \<open>Edit scripts\<close>

datatype op_kind = Keep | Del | Ins

text \<open>A script is valid for two lists when it walks both to their ends.\<close>

fun script_ok :: "op_kind list \<Rightarrow> 'a list \<Rightarrow> 'a list \<Rightarrow> bool" where
  "script_ok [] a b = (a = [] \<and> b = [])"
| "script_ok (Keep # ks) a b =
     (case (a, b) of (x # a', y # b') \<Rightarrow> x = y \<and> script_ok ks a' b' | _ \<Rightarrow> False)"
| "script_ok (Del # ks) a b = (case a of x # a' \<Rightarrow> script_ok ks a' b | [] \<Rightarrow> False)"
| "script_ok (Ins # ks) a b = (case b of y # b' \<Rightarrow> script_ok ks a b' | [] \<Rightarrow> False)"

section \<open>The search\<close>

definition MAX_EDIT_DISTANCE :: int where
  "MAX_EDIT_DISTANCE = 1000"

text \<open>Reading an array: \<open>undefined\<close> (\<open>None\<close>) outside it.\<close>

definition js_at :: "'a list \<Rightarrow> int \<Rightarrow> 'a option" where
  "js_at xs i = (if 0 \<le> i \<and> i < int (length xs) then Some (xs ! nat i) else None)"

text \<open>The inner loop: follow equal elements.\<close>

function snake :: "'a list \<Rightarrow> 'a list \<Rightarrow> int \<Rightarrow> int \<Rightarrow> int \<times> int" where
  "snake a b x y =
     (if x < int (length a) \<and> y < int (length b) \<and> js_at a x = js_at b y
      then snake a b (x + 1) (y + 1) else (x, y))"
  by pat_completeness auto
termination
  by (relation "measure (\<lambda>(a, b, x, y). nat (int (length a) - x))") auto

declare snake.simps [simp del]

text \<open>Where diagonal \<open>k\<close> starts in step \<open>d\<close>, reading the neighbours with \<open>at\<close>.\<close>

definition goes_down :: "(int \<Rightarrow> int) \<Rightarrow> int \<Rightarrow> int \<Rightarrow> bool" where
  "goes_down at d k \<longleftrightarrow> k = - d \<or> (k \<noteq> d \<and> at (k - 1) < at (k + 1))"

definition start_x :: "(int \<Rightarrow> int) \<Rightarrow> int \<Rightarrow> int \<Rightarrow> int" where
  "start_x at d k = (if goes_down at d k then at (k + 1) else at (k - 1) + 1)"

text \<open>
  The loop over the diagonals \<open>-d, -d+2, ..., d\<close> of one step: whether some diagonal
  reached the end, and the array afterwards.
\<close>

function diag_loop ::
    "'a list \<Rightarrow> 'a list \<Rightarrow> int \<Rightarrow> int \<Rightarrow> int \<Rightarrow> int list \<Rightarrow> bool \<times> int list" where
  "diag_loop a b offset d k v =
     (if k \<le> d then
        (let x0 = start_x (\<lambda>j. v ! nat (offset + j)) d k;
             (x, y) = snake a b x0 (x0 - k);
             v' = v[nat (offset + k) := x]
         in if x \<ge> int (length a) \<and> y \<ge> int (length b) then (True, v')
            else diag_loop a b offset d (k + 2) v')
      else (False, v))"
  by pat_completeness auto
termination
  by (relation "measure (\<lambda>(a, b, offset, d, k, v). nat (d + 2 - k))") auto

declare diag_loop.simps [simp del]

text \<open>
  \<open>backtrack\<close> goes back from the end through the recorded slices, pushing one kind at a
  time and reversing at the end; here pushing is consing, so no reversal is left.
\<close>

function keep_back :: "int \<Rightarrow> int \<Rightarrow> int \<Rightarrow> int \<Rightarrow> op_kind list \<Rightarrow> int \<times> int \<times> op_kind list" where
  "keep_back prevX prevY x y ops =
     (if x > prevX \<and> y > prevY then keep_back prevX prevY (x - 1) (y - 1) (Keep # ops)
      else (x, y, ops))"
  by pat_completeness auto
termination
  by (relation "measure (\<lambda>(prevX, prevY, x, y, ops). nat (x - prevX))") auto

declare keep_back.simps [simp del]

fun backtrack_from :: "int list list \<Rightarrow> nat \<Rightarrow> int \<Rightarrow> int \<Rightarrow> op_kind list \<Rightarrow> op_kind list" where
  "backtrack_from trace 0 x y ops = ops"
| "backtrack_from trace (Suc d) x y ops =
     (let snapshot = trace ! d;
          at = (\<lambda>k. snapshot ! nat (k + int d + 1));
          k = x - y;
          prevK = (if goes_down at (int d) k then k + 1 else k - 1);
          prevX = at prevK;
          prevY = prevX - prevK;
          (x1, y1, ops1) = keep_back prevX prevY x y ops;
          ops2 = (if d > 0 then (if x1 = prevX then Ins else Del) # ops1 else ops1)
      in backtrack_from trace d prevX prevY ops2)"

definition backtrack :: "int list list \<Rightarrow> int \<Rightarrow> int \<Rightarrow> op_kind list" where
  "backtrack trace n m = backtrack_from trace (length trace) n m []"

text \<open>\<open>v.slice(i, j)\<close> within the array.\<close>

definition slice :: "int list \<Rightarrow> int \<Rightarrow> int \<Rightarrow> int list" where
  "slice v i j = take (nat (j - i)) (drop (nat i) v)"

function step_loop ::
    "'a list \<Rightarrow> 'a list \<Rightarrow> int \<Rightarrow> int \<Rightarrow> int list list \<Rightarrow> int list \<Rightarrow> op_kind list option" where
  "step_loop a b limit d trace v =
     (if d \<le> limit then
        (let offset = limit + 1;
             trace' = trace @ [slice v (offset - d - 1) (offset + d + 2)];
             (found, v') = diag_loop a b offset d (- d) v
         in if found then Some (backtrack trace' (int (length a)) (int (length b)))
            else step_loop a b limit (d + 1) trace' v')
      else None)"
  by pat_completeness auto
termination
  by (relation "measure (\<lambda>(a, b, limit, d, trace, v). nat (limit + 1 - d))") auto

declare step_loop.simps [simp del]

definition myers :: "'a list \<Rightarrow> 'a list \<Rightarrow> op_kind list option" where
  "myers a b =
     (let limit = min (int (length a) + int (length b)) MAX_EDIT_DISTANCE
      in step_loop a b limit 0 [] (replicate (nat (2 * limit + 3)) 0))"

section \<open>Snakes\<close>

lemma snake_snd: "snd (snake a b x y) = y + (fst (snake a b x y) - x)"
proof (induction a b x y rule: snake.induct)
  case (1 a b x y)
  show ?case using "1.IH" by (subst (1 2) snake.simps) auto
qed

lemma snake_ge: "x \<le> fst (snake a b x y)"
proof (induction a b x y rule: snake.induct)
  case (1 a b x y)
  show ?case using "1.IH" by (subst snake.simps) auto
qed

text \<open>A snake that moves stays inside both lists and passes equal elements only.\<close>

lemma snake_moves:
  "x < fst (snake a b x y) \<Longrightarrow>
     fst (snake a b x y) \<le> int (length a) \<and> y + (fst (snake a b x y) - x) \<le> int (length b)"
proof (induction a b x y rule: snake.induct)
  case (1 a b x y)
  show ?case
  proof (cases "x < int (length a) \<and> y < int (length b) \<and> js_at a x = js_at b y")
    case True
    then have unfold: "snake a b x y = snake a b (x + 1) (y + 1)" by (subst snake.simps) simp
    show ?thesis
    proof (cases "x + 1 < fst (snake a b (x + 1) (y + 1))")
      case True
      with "1.IH" \<open>x < int (length a) \<and> _\<close> show ?thesis by (simp add: unfold)
    next
      case False
      then have "fst (snake a b (x + 1) (y + 1)) = x + 1"
        using snake_ge [of "x + 1" a b "y + 1"] by linarith
      with \<open>x < int (length a) \<and> _\<close> show ?thesis by (simp add: unfold)
    qed
  next
    case False
    with "1.prems" show ?thesis by (subst (asm) snake.simps) simp
  qed
qed

lemma snake_equal:
  "x \<le> i \<Longrightarrow> i < fst (snake a b x y) \<Longrightarrow> js_at a i = js_at b (y + (i - x))"
proof (induction a b x y rule: snake.induct)
  case (1 a b x y)
  show ?case
  proof (cases "x < int (length a) \<and> y < int (length b) \<and> js_at a x = js_at b y")
    case True
    then have unfold: "snake a b x y = snake a b (x + 1) (y + 1)" by (subst snake.simps) simp
    show ?thesis
    proof (cases "i = x")
      case False
      with "1.IH" [OF True] "1.prems" unfold show ?thesis by (simp add: algebra_simps)
    qed (use True in simp)
  next
    case False
    with "1.prems" show ?thesis by (subst (asm) snake.simps) simp
  qed
qed

section \<open>Furthest-reaching points as functions\<close>

definition on_step :: "nat \<Rightarrow> int \<Rightarrow> bool" where
  "on_step d k \<longleftrightarrow> \<bar>k\<bar> \<le> int d \<and> even (k + int d)"

text \<open>
  \<open>before_step d k\<close> is the array entry of diagonal \<open>k\<close> before step
  \<open>d\<close>, \<open>reach d k\<close> the point step \<open>d\<close> stores there.
\<close>

fun before_step :: "'a list \<Rightarrow> 'a list \<Rightarrow> nat \<Rightarrow> int \<Rightarrow> int" where
  "before_step a b 0 k = 0"
| "before_step a b (Suc d) k =
     (if on_step d k then
        (let x0 = start_x (before_step a b d) (int d) k in fst (snake a b x0 (x0 - k)))
      else before_step a b d k)"

definition start_of :: "'a list \<Rightarrow> 'a list \<Rightarrow> nat \<Rightarrow> int \<Rightarrow> int" where
  "start_of a b d k = start_x (before_step a b d) (int d) k"

definition reach :: "'a list \<Rightarrow> 'a list \<Rightarrow> nat \<Rightarrow> int \<Rightarrow> int" where
  "reach a b d k = fst (snake a b (start_of a b d k) (start_of a b d k - k))"

definition arrives :: "'a list \<Rightarrow> 'a list \<Rightarrow> nat \<Rightarrow> int \<Rightarrow> bool" where
  "arrives a b d k \<longleftrightarrow>
     int (length a) \<le> reach a b d k \<and> int (length b) \<le> reach a b d k - k"

lemma before_step_on: "on_step d k \<Longrightarrow> before_step a b (Suc d) k = reach a b d k"
  by (simp add: reach_def start_of_def Let_def)

lemma start_le_reach: "start_of a b d k \<le> reach a b d k"
  unfolding reach_def by (rule snake_ge)

lemma snake_reach:
  "snake a b (start_of a b d k) (start_of a b d k - k) = (reach a b d k, reach a b d k - k)"
  unfolding reach_def
  by (rule prod_eqI) (simp_all add: snake_snd)

lemma on_step_0: "on_step 0 k \<longleftrightarrow> k = 0"
  by (auto simp: on_step_def)

lemma start_of_0: "start_of a b 0 0 = 0"
  by (simp add: start_of_def start_x_def goes_down_def)

lemma start_of_Suc:
  assumes "on_step (Suc d) k"
  obtains (down) "goes_down (before_step a b (Suc d)) (int (Suc d)) k" "on_step d (k + 1)"
      "start_of a b (Suc d) k = reach a b d (k + 1)"
    | (right) "\<not> goes_down (before_step a b (Suc d)) (int (Suc d)) k" "on_step d (k - 1)"
      "start_of a b (Suc d) k = reach a b d (k - 1) + 1"
proof (cases "goes_down (before_step a b (Suc d)) (int (Suc d)) k")
  case True
  have "on_step d (k + 1)"
    using assms True by (auto simp: on_step_def goes_down_def abs_le_iff) presburger+
  then have "start_of a b (Suc d) k = reach a b d (k + 1)"
    unfolding start_of_def start_x_def by (simp only: True if_True before_step_on)
  with True \<open>on_step d (k + 1)\<close> show ?thesis by (rule down)
next
  case False
  have "on_step d (k - 1)"
    using assms False by (auto simp: on_step_def goes_down_def abs_le_iff) presburger+
  then have "start_of a b (Suc d) k = reach a b d (k - 1) + 1"
    unfolding start_of_def start_x_def by (simp only: False if_False before_step_on)
  with False \<open>on_step d (k - 1)\<close> show ?thesis by (rule right)
qed

text \<open>Every point reached lies in the quadrant.\<close>

lemma reach_nonneg: "on_step d k \<Longrightarrow> 0 \<le> reach a b d k \<and> k \<le> reach a b d k"
proof (induction d arbitrary: k)
  case 0
  then show ?case using start_le_reach [of a b 0 0] by (simp add: on_step_0 start_of_0)
next
  case (Suc d)
  from Suc.prems show ?case
  proof (cases rule: start_of_Suc [of d k a b])
    case down
    then show ?thesis using Suc.IH [of "k + 1"] start_le_reach [of a b "Suc d" k] by linarith
  next
    case right
    then show ?thesis using Suc.IH [of "k - 1"] start_le_reach [of a b "Suc d" k] by linarith
  qed
qed

text \<open>One more step reaches at least one further right, or one further down.\<close>

lemma on_step_Suc: "on_step d k \<Longrightarrow> on_step (Suc d) (k + 1)" "on_step d k \<Longrightarrow> on_step (Suc d) (k - 1)"
  by (auto simp: on_step_def)

lemma reach_right:
  assumes "on_step d k"
  shows "reach a b d k + 1 \<le> reach a b (Suc d) (k + 1)"
proof -
  have "reach a b d k + 1 \<le> start_of a b (Suc d) (k + 1)"
    using assms before_step_on [OF assms, of a b]
    by (auto simp: start_of_def start_x_def goes_down_def on_step_def)
  with start_le_reach [of a b "Suc d" "k + 1"] show ?thesis by linarith
qed

lemma reach_down:
  assumes "on_step d k"
  shows "reach a b d k \<le> reach a b (Suc d) (k - 1)"
proof -
  have "reach a b d k \<le> start_of a b (Suc d) (k - 1)"
    using assms before_step_on [OF assms, of a b]
    by (auto simp: start_of_def start_x_def goes_down_def on_step_def)
  with start_le_reach [of a b "Suc d" "k - 1"] show ?thesis by linarith
qed

text \<open>
  Points beyond the grid never get ahead: one below it was already as far right one step
  earlier on the next diagonal, one right of it as far down on the previous diagonal.
\<close>

lemma reach_off_grid:
  assumes "int (length a) < reach a b d k \<or> int (length b) < reach a b d k - k"
  shows "reach a b d k = start_of a b d k"
proof (rule ccontr)
  assume "reach a b d k \<noteq> start_of a b d k"
  with start_le_reach [of a b d k] have "start_of a b d k < reach a b d k" by simp
  with snake_moves [of "start_of a b d k" a b "start_of a b d k - k"] assms show False
    by (auto simp: reach_def)
qed

lemma reach_below:
  "on_step d k \<Longrightarrow> int (length b) < reach a b d k - k \<Longrightarrow>
     0 < d \<and> on_step (d - 1) (k + 1) \<and> reach a b d k \<le> reach a b (d - 1) (k + 1)"
proof (induction d arbitrary: k)
  case 0
  then have "reach a b 0 0 > int (length b)" "k = 0" by (auto simp: on_step_0)
  then show ?case using reach_off_grid [of a b 0 0] by (auto simp: start_of_0)
next
  case (Suc d)
  have stay: "reach a b (Suc d) k = start_of a b (Suc d) k"
    using Suc.prems(2) by (intro reach_off_grid) auto
  from Suc.prems(1) show ?case
  proof (cases rule: start_of_Suc [of d k a b])
    case down
    then show ?thesis using stay by simp
  next
    case right
    with stay Suc.prems(2) have "int (length b) < reach a b d (k - 1) - (k - 1)" by simp
    from Suc.IH [OF right(2) this] have prev: "0 < d" "on_step (d - 1) k"
      "reach a b d (k - 1) \<le> reach a b (d - 1) k" by simp_all
    with reach_right [OF prev(2), of a b] on_step_Suc(1) [OF prev(2)] stay right(3)
    show ?thesis by simp
  qed
qed

lemma reach_beyond:
  "on_step d k \<Longrightarrow> int (length a) < reach a b d k \<Longrightarrow>
     0 < d \<and> on_step (d - 1) (k - 1) \<and> reach a b d k - 1 \<le> reach a b (d - 1) (k - 1)"
proof (induction d arbitrary: k)
  case 0
  then have "reach a b 0 0 > int (length a)" "k = 0" by (auto simp: on_step_0)
  then show ?case using reach_off_grid [of a b 0 0] by (auto simp: start_of_0)
next
  case (Suc d)
  have stay: "reach a b (Suc d) k = start_of a b (Suc d) k"
    using Suc.prems(2) by (intro reach_off_grid) auto
  from Suc.prems(1) show ?case
  proof (cases rule: start_of_Suc [of d k a b])
    case right
    then show ?thesis using stay by simp
  next
    case down
    with stay Suc.prems(2) have "int (length a) < reach a b d (k + 1)" by simp
    from Suc.IH [OF down(2) this] have prev: "0 < d" "on_step (d - 1) k"
      "reach a b d (k + 1) - 1 \<le> reach a b (d - 1) k" by simp_all
    with reach_down [OF prev(2), of a b] on_step_Suc(2) [OF prev(2)] stay down(3)
    show ?thesis by simp
  qed
qed

text \<open>So the first step that arrives at the end arrives exactly there.\<close>

lemma arrives_exactly:
  assumes "on_step d k" "arrives a b d k" "\<And>e j. e < d \<Longrightarrow> on_step e j \<Longrightarrow> \<not> arrives a b e j"
  shows "reach a b d k = int (length a) \<and> k = int (length a) - int (length b)"
proof -
  have "\<not> int (length b) < reach a b d k - k"
  proof
    assume "int (length b) < reach a b d k - k"
    from reach_below [OF assms(1) this] assms(2) assms(3) [of "d - 1" "k + 1"] show False
      using \<open>int (length b) < reach a b d k - k\<close> by (auto simp: arrives_def)
  qed
  moreover have "\<not> int (length a) < reach a b d k"
  proof
    assume "int (length a) < reach a b d k"
    from reach_beyond [OF assms(1) this] assms(2) assms(3) [of "d - 1" "k - 1"] show False
      using \<open>int (length a) < reach a b d k\<close> by (auto simp: arrives_def)
  qed
  ultimately show ?thesis using assms(2) by (auto simp: arrives_def)
qed

text \<open>Deleting everything and inserting everything is always enough.\<close>

lemma reach_all_right: "int d \<le> reach a b d (int d)"
proof (induction d)
  case 0
  then show ?case using reach_nonneg [of 0 0 a b] by (simp add: on_step_0)
next
  case (Suc d)
  then show ?case using reach_right [of d "int d" a b] by (simp add: on_step_def add.commute)
qed

lemma reach_then_down: "int n \<le> reach a b (n + j) (int n - int j)"
proof (induction j)
  case 0
  then show ?case using reach_all_right [of n a b] by simp
next
  case (Suc j)
  have "on_step (n + j) (int n - int j)" by (auto simp: on_step_def)
  from reach_down [OF this, of a b] Suc show ?case by (simp add: algebra_simps)
qed

lemma arrives_eventually:
  "arrives a b (length a + length b) (int (length a) - int (length b))"
  using reach_then_down [of "length a" a b "length b"] by (simp add: arrives_def)

section \<open>No script takes fewer edits than the first arriving step\<close>

definition edits :: "op_kind list \<Rightarrow> nat" where
  "edits ks = length (filter (\<lambda>k. k \<noteq> Keep) ks)"

lemma edits_simps [simp]:
  "edits [] = 0" "edits (Keep # ks) = edits ks" "edits (Del # ks) = Suc (edits ks)"
  "edits (Ins # ks) = Suc (edits ks)"
  by (simp_all add: edits_def)

lemma snake_stops:
  "fst (snake a b x y) < int (length a) \<Longrightarrow> y + (fst (snake a b x y) - x) < int (length b) \<Longrightarrow>
     js_at a (fst (snake a b x y)) \<noteq> js_at b (y + (fst (snake a b x y) - x))"
proof (induction a b x y rule: snake.induct)
  case (1 a b x y)
  show ?case
  proof (cases "x < int (length a) \<and> y < int (length b) \<and> js_at a x = js_at b y")
    case True
    then have unfold: "snake a b x y = snake a b (x + 1) (y + 1)" by (subst snake.simps) simp
    with "1.IH" [OF True] "1.prems" show ?thesis by (simp add: algebra_simps)
  next
    case False
    then have "snake a b x y = (x, y)" by (subst snake.simps) (simp only: if_False)
    with False "1.prems" show ?thesis by simp
  qed
qed

text \<open>A diagonal step over equal elements never overtakes the furthest-reaching point.\<close>

lemma reach_keep:
  assumes "int i \<le> reach a b d (int i - int j)" "i < length a" "j < length b" "a ! i = b ! j"
  shows "int (Suc i) \<le> reach a b d (int i - int j)"
proof (rule ccontr)
  let ?k = "int i - int j"
  assume "\<not> int (Suc i) \<le> reach a b d ?k"
  with assms(1) have eq: "reach a b d ?k = int i" by simp
  then have fst: "fst (snake a b (start_of a b d ?k) (start_of a b d ?k - ?k)) = int i"
    by (simp add: reach_def)
  have "js_at a (int i) \<noteq> js_at b (int j)"
    using snake_stops [of a b "start_of a b d ?k" "start_of a b d ?k - ?k"] assms(2,3)
    unfolding fst by simp
  with assms(2-4) show False by (simp add: js_at_def)
qed

lemma script_arrives:
  "script_ok ks (drop i a) (drop j b) \<Longrightarrow> i \<le> length a \<Longrightarrow> j \<le> length b \<Longrightarrow>
   on_step d (int i - int j) \<Longrightarrow> int i \<le> reach a b d (int i - int j) \<Longrightarrow>
   \<exists>k. on_step (d + edits ks) k \<and> arrives a b (d + edits ks) k"
proof (induction ks arbitrary: i j d)
  case Nil
  then have "arrives a b d (int i - int j)" by (simp add: arrives_def)
  with Nil.prems(4) show ?case by auto
next
  case (Cons kind ks)
  show ?case
  proof (cases kind)
    case Keep
    with Cons.prems(1) have ends: "i < length a" "j < length b"
      by (auto split: list.splits) (metis drop_eq_Nil list.distinct(1) not_le)+
    with Cons.prems(1) Keep have same: "a ! i = b ! j"
      and rest: "script_ok ks (drop (Suc i) a) (drop (Suc j) b)"
      by (auto simp flip: Cons_nth_drop_Suc)
    show ?thesis
      using Cons.IH [OF rest] ends Cons.prems(4) reach_keep [OF Cons.prems(5) ends same] Keep by simp
  next
    case Del
    with Cons.prems(1) have ends: "i < length a"
      by (auto split: list.splits) (metis drop_eq_Nil list.distinct(1) not_le)
    with Cons.prems(1) Del have rest: "script_ok ks (drop (Suc i) a) (drop j b)"
      by (auto simp flip: Cons_nth_drop_Suc)
    have shift: "int (Suc i) - int j = int i - int j + 1" by simp
    have "int (Suc i) \<le> reach a b (Suc d) (int (Suc i) - int j)"
      using reach_right [OF Cons.prems(4), of a b] Cons.prems(5) unfolding shift by simp
    moreover have "on_step (Suc d) (int (Suc i) - int j)"
      using on_step_Suc(1) [OF Cons.prems(4)] unfolding shift .
    ultimately show ?thesis using Cons.IH [OF rest, of "Suc d"] ends Cons.prems(3) Del by simp
  next
    case Ins
    with Cons.prems(1) have ends: "j < length b"
      by (auto split: list.splits) (metis drop_eq_Nil list.distinct(1) not_le)
    with Cons.prems(1) Ins have rest: "script_ok ks (drop i a) (drop (Suc j) b)"
      by (auto simp flip: Cons_nth_drop_Suc)
    have shift: "int i - int (Suc j) = int i - int j - 1" by simp
    have "int i \<le> reach a b (Suc d) (int i - int (Suc j))"
      using reach_down [OF Cons.prems(4), of a b] Cons.prems(5) unfolding shift by simp
    moreover have "on_step (Suc d) (int i - int (Suc j))"
      using on_step_Suc(2) [OF Cons.prems(4)] unfolding shift .
    ultimately show ?thesis using Cons.IH [OF rest, of "Suc d"] ends Cons.prems(2) Ins by simp
  qed
qed

lemma any_script_arrives:
  assumes "script_ok ks a b"
  shows "\<exists>k. on_step (edits ks) k \<and> arrives a b (edits ks) k"
  using script_arrives [of ks 0 a 0 b 0] assms reach_nonneg [of 0 0 a b] by (simp add: on_step_0)

section \<open>The array stands for the functions\<close>

definition array_of :: "int \<Rightarrow> (int \<Rightarrow> int) \<Rightarrow> int list \<Rightarrow> bool" where
  "array_of limit f v \<longleftrightarrow>
     length v = nat (2 * limit + 3) \<and> (\<forall>j. \<bar>j\<bar> \<le> limit + 1 \<longrightarrow> v ! nat (limit + 1 + j) = f j)"

text \<open>Inside a step, diagonals below \<open>k\<close> are already updated.\<close>

definition mid_step :: "'a list \<Rightarrow> 'a list \<Rightarrow> nat \<Rightarrow> int \<Rightarrow> int \<Rightarrow> int" where
  "mid_step a b d k j = (if on_step d j \<and> j < k then reach a b d j else before_step a b d j)"

lemma start_x_cong:
  "f (k - 1) = g (k - 1) \<Longrightarrow> f (k + 1) = g (k + 1) \<Longrightarrow> start_x f d k = start_x g d k"
  by (simp add: start_x_def goes_down_def)

lemma array_of_update:
  assumes "array_of limit f v" "\<bar>k\<bar> \<le> limit + 1"
  shows "array_of limit (f(k := x)) (v[nat (limit + 1 + k) := x])"
  using assms by (auto simp: array_of_def nth_list_update eq_nat_nat_iff abs_le_iff)

lemma array_of_cong:
  "array_of limit f v \<Longrightarrow> (\<And>j. \<bar>j\<bar> \<le> limit + 1 \<Longrightarrow> f j = g j) \<Longrightarrow> array_of limit g v"
  by (auto simp: array_of_def)

lemma start_x_array:
  assumes "array_of limit (mid_step a b d k) v" "on_step d k" "int d \<le> limit"
  shows "start_x (\<lambda>j. v ! nat (limit + 1 + j)) (int d) k = start_of a b d k"
proof -
  have off: "\<not> on_step d (k - 1)" "\<not> on_step d (k + 1)"
    using assms(2) by (auto simp: on_step_def)
  have "v ! nat (limit + 1 + i) = before_step a b d i" if "\<bar>i\<bar> \<le> limit + 1" "\<not> on_step d i" for i
    using assms(1) that by (simp add: array_of_def mid_step_def)
  moreover have "\<bar>k - 1\<bar> \<le> limit + 1" "\<bar>k + 1\<bar> \<le> limit + 1"
    using assms(2,3) by (auto simp: on_step_def)
  ultimately show ?thesis
    unfolding start_of_def using off by (intro start_x_cong) blast+
qed

lemma diag_loop_spec:
  assumes "array_of limit (mid_step a b d k) v" "even (k + int d)" "- int d \<le> k" "int d \<le> limit"
  shows "(fst (diag_loop a b (limit + 1) (int d) k v) \<longleftrightarrow> (\<exists>j \<ge> k. on_step d j \<and> arrives a b d j))
    \<and> (\<not> fst (diag_loop a b (limit + 1) (int d) k v) \<longrightarrow>
         array_of limit (before_step a b (Suc d)) (snd (diag_loop a b (limit + 1) (int d) k v)))"
  using assms
proof (induction "nat (int d + 2 - k)" arbitrary: k v rule: less_induct)
  case less
  show ?case
  proof (cases "k \<le> int d")
    case False
    then have "diag_loop a b (limit + 1) (int d) k v = (False, v)" by (subst diag_loop.simps) simp
    moreover have "\<not> (\<exists>j \<ge> k. on_step d j \<and> arrives a b d j)"
      using False by (auto simp: on_step_def)
    moreover have "mid_step a b d k j = before_step a b (Suc d) j" for j
    proof (cases "on_step d j")
      case True
      moreover from True False have "j < k" unfolding on_step_def by linarith
      ultimately show ?thesis by (simp add: mid_step_def before_step_on del: before_step.simps)
    qed (simp add: mid_step_def)
    then have "array_of limit (before_step a b (Suc d)) v"
      using array_of_cong [OF less.prems(1)] by blast
    ultimately show ?thesis by simp
  next
    case True
    with less.prems have on: "on_step d k" by (simp add: on_step_def)
    then have off: "\<not> on_step d (k + 1)" by (auto simp: on_step_def)
    let ?v = "v[nat (limit + 1 + k) := reach a b d k]"
    note start = start_x_array [OF less.prems(1) on less.prems(4)]
    have loop: "diag_loop a b (limit + 1) (int d) k v =
        (if arrives a b d k then (True, ?v) else diag_loop a b (limit + 1) (int d) (k + 2) ?v)"
      using True by (subst diag_loop.simps) (simp add: start snake_reach arrives_def Let_def)
    have "array_of limit ((mid_step a b d k)(k := reach a b d k)) ?v"
      using less.prems True by (intro array_of_update) auto
    then have arr: "array_of limit (mid_step a b d (k + 2)) ?v"
    proof (rule array_of_cong)
      fix j
      have "j < k + 2 \<longleftrightarrow> j < k \<or> j = k \<or> j = k + 1" by linarith
      then have "on_step d j \<and> j < k + 2 \<longleftrightarrow> j = k \<or> on_step d j \<and> j < k"
        using on off by blast
      then show "((mid_step a b d k)(k := reach a b d k)) j = mid_step a b d (k + 2) j"
        by (auto simp: mid_step_def)
    qed
    have split: "(\<exists>j \<ge> k. on_step d j \<and> arrives a b d j) \<longleftrightarrow>
        arrives a b d k \<or> (\<exists>j \<ge> k + 2. on_step d j \<and> arrives a b d j)"
    proof -
      have "j = k \<or> k + 2 \<le> j" if "on_step d j" "k \<le> j" for j
      proof -
        have "j \<noteq> k + 1" using that(1) off by blast
        with that(2) show ?thesis by linarith
      qed
      moreover have "k \<le> j" if "k + 2 \<le> j" for j using that by linarith
      ultimately show ?thesis using on by blast
    qed
    show ?thesis
    proof (cases "arrives a b d k")
      case True
      with loop on show ?thesis by auto
    next
      case False
      with less.hyps [OF _ arr] less.prems True loop split show ?thesis by auto
    qed
  qed
qed

section \<open>Walking back yields a valid script\<close>

definition snapshot_of :: "'a list \<Rightarrow> 'a list \<Rightarrow> nat \<Rightarrow> int list \<Rightarrow> bool" where
  "snapshot_of a b d snap \<longleftrightarrow>
     (\<forall>k. \<bar>k\<bar> \<le> int d + 1 \<longrightarrow> snap ! nat (k + int d + 1) = before_step a b d k)"

lemma snapshot_slice:
  assumes "array_of limit (before_step a b d) v" "int d \<le> limit"
  shows "snapshot_of a b d (slice v (limit + 1 - int d - 1) (limit + 1 + int d + 2))"
  unfolding snapshot_of_def
proof (intro allI impI)
  fix k assume k: "\<bar>k\<bar> \<le> int d + 1"
  have "nat (limit - int d) + nat (k + int d + 1) = nat (limit + 1 + k)"
    using k assms(2) by (simp add: abs_le_iff flip: nat_add_distrib)
  moreover have "nat (k + int d + 1) < nat (2 * int d + 3)" using k by (simp add: abs_le_iff)
  moreover have "nat (limit - int d) \<le> length v"
    using assms by (simp add: array_of_def)
  ultimately have "slice v (limit + 1 - int d - 1) (limit + 1 + int d + 2) ! nat (k + int d + 1)
      = v ! nat (limit + 1 + k)"
    by (simp add: slice_def)
  with assms k show "slice v (limit + 1 - int d - 1) (limit + 1 + int d + 2) ! nat (k + int d + 1)
      = before_step a b d k"
    by (simp add: array_of_def)
qed

lemma keep_back_replicate:
  "x - pX = int t \<and> int t \<le> y - pY \<or> y - pY = int t \<and> int t \<le> x - pX \<Longrightarrow>
     keep_back pX pY x y ops = (x - int t, y - int t, replicate t Keep @ ops)"
proof (induction t arbitrary: x y ops)
  case 0
  then show ?case by (subst keep_back.simps) auto
next
  case (Suc t)
  then have "keep_back pX pY x y ops = keep_back pX pY (x - 1) (y - 1) (Keep # ops)"
    by (subst keep_back.simps) auto
  also have "\<dots> = (x - 1 - int t, y - 1 - int t, replicate t Keep @ Keep # ops)"
    using Suc.prems by (intro Suc.IH) auto
  finally show ?case by (simp add: replicate_app_Cons_same algebra_simps)
qed

lemma script_ok_keeps:
  "i + t \<le> length a \<Longrightarrow> j + t \<le> length b \<Longrightarrow> (\<And>s. s < t \<Longrightarrow> a ! (i + s) = b ! (j + s)) \<Longrightarrow>
   script_ok ops (drop (i + t) a) (drop (j + t) b) \<Longrightarrow>
   script_ok (replicate t Keep @ ops) (drop i a) (drop j b)"
proof (induction t arbitrary: i j)
  case 0
  then show ?case by simp
next
  case (Suc t)
  have "drop i a = a ! i # drop (Suc i) a" "drop j b = b ! j # drop (Suc j) b"
    using Suc.prems(1,2) by (simp_all add: Cons_nth_drop_Suc)
  moreover have "a ! i = b ! j" using Suc.prems(3) [of 0] by simp
  moreover have "script_ok (replicate t Keep @ ops) (drop (Suc i) a) (drop (Suc j) b)"
    using Suc.prems(1,2,4) Suc.prems(3) [of "Suc _"] by (intro Suc.IH) auto
  ultimately show ?case by simp
qed

text \<open>The stretch of equal elements that ends at a reached point.\<close>

lemma script_ok_snake:
  assumes "on_step d k" "reach a b d k \<le> int (length a)" "reach a b d k - k \<le> int (length b)"
    and "0 \<le> start_of a b d k" "k \<le> start_of a b d k"
    and "script_ok ops (drop (nat (reach a b d k)) a) (drop (nat (reach a b d k - k)) b)"
  shows "script_ok (replicate (nat (reach a b d k - start_of a b d k)) Keep @ ops)
           (drop (nat (start_of a b d k)) a) (drop (nat (start_of a b d k - k)) b)"
proof -
  let ?st = "start_of a b d k" and ?en = "reach a b d k"
  have "?st \<le> ?en" by (rule start_le_reach)
  have same: "a ! (nat ?st + s) = b ! (nat (?st - k) + s)" if "s < nat (?en - ?st)" for s
  proof -
    have "js_at a (?st + int s) = js_at b (?st - k + (?st + int s - ?st))"
      by (rule snake_equal) (use that in \<open>simp_all add: reach_def\<close>)
    with that assms show ?thesis
      by (auto simp: js_at_def nat_add_distrib split: if_splits)
  qed
  have ends: "nat ?st + nat (?en - ?st) = nat ?en"
      "nat (?st - k) + nat (?en - ?st) = nat (?en - k)"
    using assms(4,5) \<open>?st \<le> ?en\<close> by linarith+
  show ?thesis
  proof (rule script_ok_keeps)
    show "nat ?st + nat (?en - ?st) \<le> length a" using ends assms(2) by linarith
    show "nat (?st - k) + nat (?en - ?st) \<le> length b" using ends assms(3) by linarith
    show "script_ok ops (drop (nat ?st + nat (?en - ?st)) a) (drop (nat (?st - k) + nat (?en - ?st)) b)"
      unfolding ends by (rule assms(6))
  qed (rule same)
qed

lemma goes_down_cong:
  "f (k - 1) = g (k - 1) \<Longrightarrow> f (k + 1) = g (k + 1) \<Longrightarrow> goes_down f d k = goes_down g d k"
  by (simp add: goes_down_def)

text \<open>One round of \<open>backtrack\<close>, with the recorded slice read as \<open>before_step\<close>.\<close>

lemma backtrack_round:
  assumes "snapshot_of a b d (trace ! d)" "on_step d k"
  defines "prevK \<equiv> (if goes_down (before_step a b d) (int d) k then k + 1 else k - 1)"
  defines "prevX \<equiv> before_step a b d prevK"
  shows "backtrack_from trace (Suc d) x (x - k) ops =
     (let (x1, y1, ops1) = keep_back prevX (prevX - prevK) x (x - k) ops
      in backtrack_from trace d prevX (prevX - prevK)
           (if d > 0 then (if x1 = prevX then Ins else Del) # ops1 else ops1))"
proof -
  have read: "trace ! d ! nat (j + int d + 1) = before_step a b d j" if "\<bar>j\<bar> \<le> int d + 1" for j
    using assms(1) that by (simp add: snapshot_of_def)
  have near: "\<bar>k - 1\<bar> \<le> int d + 1" "\<bar>k + 1\<bar> \<le> int d + 1"
    using assms(2) by (auto simp: on_step_def)
  have "goes_down (\<lambda>j. trace ! d ! nat (j + int d + 1)) (int d) k = goes_down (before_step a b d) (int d) k"
    by (intro goes_down_cong read near)
  moreover have "trace ! d ! nat ((if c then k + 1 else k - 1) + int d + 1)
      = before_step a b d (if c then k + 1 else k - 1)" for c
    using near by (cases c) (simp_all only: if_True if_False read)
  moreover have "x - (x - k) = k" by simp
  ultimately show ?thesis
    unfolding prevX_def prevK_def backtrack_from.simps Let_def by (simp only:)
qed

lemma backtrack_from_ok:
  assumes "\<forall>e \<le> d. snapshot_of a b e (trace ! e)" "on_step d k"
    and "reach a b d k \<le> int (length a)" "reach a b d k - k \<le> int (length b)"
    and "script_ok ops (drop (nat (reach a b d k)) a) (drop (nat (reach a b d k - k)) b)"
  shows "script_ok (backtrack_from trace (Suc d) (reach a b d k) (reach a b d k - k) ops) a b"
  using assms
proof (induction d arbitrary: k ops)
  case 0
  then have k: "k = 0" by (simp add: on_step_0)
  have nonneg: "0 \<le> reach a b 0 0" using start_le_reach [of a b 0 0] by (simp add: start_of_0)
  have "backtrack_from trace (Suc 0) (reach a b 0 0) (reach a b 0 0 - 0) ops
      = replicate (nat (reach a b 0 0)) Keep @ ops"
    using 0 k nonneg keep_back_replicate [of "reach a b 0 0" 0 "nat (reach a b 0 0)" "reach a b 0 0" "-1" ops]
    by (subst backtrack_round) (simp_all add: goes_down_def Let_def)
  with script_ok_snake [OF 0(2-4) _ _ 0(5)] k show ?case by (simp add: start_of_0)
next
  case (Suc d)
  let ?st = "start_of a b (Suc d) k" and ?en = "reach a b (Suc d) k"
  let ?keeps = "replicate (nat (?en - ?st)) Keep @ ops"
  have le: "?st \<le> ?en" by (rule start_le_reach)
  have snap: "snapshot_of a b (Suc d) (trace ! Suc d)" using Suc.prems(1) by blast
  from Suc.prems(2) show ?case
  proof (cases rule: start_of_Suc [of d k a b])
    case down
    note prev = reach_nonneg [OF down(2), of a b]
    have keep: "keep_back ?st (?st - (k + 1)) ?en (?en - k) ops = (?st, ?st - k, ?keeps)"
      using le by (subst keep_back_replicate [where t = "nat (?en - ?st)"]) auto
    have round: "backtrack_from trace (Suc (Suc d)) ?en (?en - k) ops
        = backtrack_from trace (Suc d) (reach a b d (k + 1)) (reach a b d (k + 1) - (k + 1)) (Ins # ?keeps)"
      using down keep
      by (subst backtrack_round [OF snap Suc.prems(2)])
         (simp_all add: before_step_on del: before_step.simps backtrack_from.simps)
    have keeps: "script_ok ?keeps (drop (nat ?st) a) (drop (nat (?st - k)) b)"
      by (rule script_ok_snake [OF Suc.prems(2-4) _ _ Suc.prems(5)]) (use down(3) prev in auto)
    have "nat (?st - k) = Suc (nat (?st - (k + 1)))" "nat (?st - (k + 1)) < length b"
      using down(3) prev le Suc.prems(4) by linarith+
    then have "script_ok (Ins # ?keeps) (drop (nat ?st) a) (drop (nat (?st - (k + 1))) b)"
      using keeps by (simp add: Cons_nth_drop_Suc [symmetric])
    then show ?thesis
      unfolding round using down le Suc.prems(1,3,4) by (intro Suc.IH) auto
  next
    case right
    note prev = reach_nonneg [OF right(2), of a b]
    have keep: "keep_back (?st - 1) (?st - 1 - (k - 1)) ?en (?en - k) ops = (?st, ?st - k, ?keeps)"
      using le by (subst keep_back_replicate [where t = "nat (?en - ?st)"]) auto
    have round: "backtrack_from trace (Suc (Suc d)) ?en (?en - k) ops
        = backtrack_from trace (Suc d) (reach a b d (k - 1)) (reach a b d (k - 1) - (k - 1)) (Del # ?keeps)"
      using right keep
      by (subst backtrack_round [OF snap Suc.prems(2)])
         (simp_all add: before_step_on del: before_step.simps backtrack_from.simps)
    have keeps: "script_ok ?keeps (drop (nat ?st) a) (drop (nat (?st - k)) b)"
      by (rule script_ok_snake [OF Suc.prems(2-4) _ _ Suc.prems(5)]) (use right(3) prev in auto)
    have "nat ?st = Suc (nat (?st - 1))" "nat (?st - 1) < length a"
      using right(3) prev le Suc.prems(3) by linarith+
    then have "script_ok (Del # ?keeps) (drop (nat (?st - 1)) a) (drop (nat (?st - k)) b)"
      using keeps by (simp add: Cons_nth_drop_Suc [symmetric])
    moreover have "?st = reach a b d (k - 1) + 1" by (rule right(3))
    then have "?st - k = reach a b d (k - 1) - (k - 1)" "?st - 1 = reach a b d (k - 1)" by simp_all
    ultimately have "script_ok (Del # ?keeps) (drop (nat (reach a b d (k - 1))) a)
        (drop (nat (reach a b d (k - 1) - (k - 1))) b)"
      by (simp only:)
    then show ?thesis
      unfolding round using right le Suc.prems(1,3,4) by (intro Suc.IH) auto
  qed
qed

lemma edits_keep_back: "edits (snd (snd (keep_back pX pY x y ops))) = edits ops"
proof (induction pX pY x y ops rule: keep_back.induct)
  case (1 pX pY x y ops)
  then show ?case by (subst keep_back.simps) simp
qed

lemma edits_backtrack_from: "edits (backtrack_from trace n x y ops) = n - 1 + edits ops"
proof (induction n arbitrary: x y ops)
  case 0
  then show ?case by simp
next
  case (Suc d)
  have "edits (snd (snd (keep_back pX pY x y ops))) = edits ops" for pX pY
    by (rule edits_keep_back)
  with Suc.IH show ?case
    by (simp add: Let_def case_prod_beta)
qed

lemma step_loop_spec:
  assumes "array_of limit (before_step a b d) v" "length trace = d"
    and "\<forall>e < d. snapshot_of a b e (trace ! e)"
    and "\<forall>e < d. \<forall>j. on_step e j \<longrightarrow> \<not> arrives a b e j"
  shows "(\<forall>ops. step_loop a b limit (int d) trace v = Some ops \<longrightarrow>
           script_ok ops a b \<and> (\<forall>e j. on_step e j \<longrightarrow> arrives a b e j \<longrightarrow> edits ops \<le> e))
    \<and> (step_loop a b limit (int d) trace v = None \<longleftrightarrow>
         (\<forall>e j. int e \<le> limit \<longrightarrow> on_step e j \<longrightarrow> \<not> arrives a b e j))"
  using assms
proof (induction "nat (limit + 1 - int d)" arbitrary: d trace v rule: less_induct)
  case less
  show ?case
  proof (cases "int d \<le> limit")
    case False
    then have "step_loop a b limit (int d) trace v = None" by (subst step_loop.simps) simp
    with False less.prems(4) show ?thesis by auto
  next
    case True
    let ?trace = "trace @ [slice v (limit + 1 - int d - 1) (limit + 1 + int d + 2)]"
    obtain found v' where loop: "diag_loop a b (limit + 1) (int d) (- int d) v = (found, v')"
      by fastforce
    have unfold: "step_loop a b limit (int d) trace v =
        (if found then Some (backtrack ?trace (int (length a)) (int (length b)))
         else step_loop a b limit (int (Suc d)) ?trace v')"
      using True loop by (subst step_loop.simps) (simp add: Let_def add.commute)
    have snaps: "\<forall>e \<le> d. snapshot_of a b e (?trace ! e)"
      using less.prems snapshot_slice [OF less.prems(1) True] by (auto simp: nth_append le_less)
    have "mid_step a b d (- int d) = before_step a b d"
      by (auto simp: fun_eq_iff mid_step_def on_step_def)
    with less.prems(1) True diag_loop_spec [of limit a b d "- int d" v] loop
    have found: "found \<longleftrightarrow> (\<exists>j. on_step d j \<and> arrives a b d j)"
      and arr: "\<not> found \<Longrightarrow> array_of limit (before_step a b (Suc d)) v'"
      by (auto simp: on_step_def abs_le_iff)
    show ?thesis
    proof (cases found)
      case True
      with found obtain k where k: "on_step d k" "arrives a b d k" by blast
      with arrives_exactly [OF k] less.prems(4)
      have exact: "reach a b d k = int (length a)" "reach a b d k - k = int (length b)" by auto
      have "script_ok (backtrack_from ?trace (Suc d) (reach a b d k) (reach a b d k - k) []) a b"
        using snaps k(1) by (rule backtrack_from_ok) (use exact in simp_all)
      then have "script_ok (backtrack ?trace (int (length a)) (int (length b))) a b"
        unfolding exact(2) unfolding exact(1) backtrack_def using less.prems(2) by (simp del: backtrack_from.simps)
      moreover have "edits (backtrack ?trace (int (length a)) (int (length b))) = d"
        using less.prems(2) by (simp add: backtrack_def edits_backtrack_from del: backtrack_from.simps)
      moreover have "d \<le> e" if "on_step e j" "arrives a b e j" for e j
        using less.prems(4) that by (meson not_le)
      ultimately show ?thesis using True unfold k \<open>int d \<le> limit\<close> by auto
    next
      case False
      have "\<forall>e < Suc d. \<forall>j. on_step e j \<longrightarrow> \<not> arrives a b e j"
        using False found less.prems(4) by (auto simp: less_Suc_eq)
      moreover have "\<forall>e < Suc d. snapshot_of a b e (?trace ! e)"
        using snaps by (simp add: less_Suc_eq_le)
      ultimately show ?thesis
        using less.hyps [of "Suc d" v' ?trace] arr [OF False] less.prems(2) \<open>int d \<le> limit\<close>
        by (simp add: unfold False del: before_step.simps)
    qed
  qed
qed

lemma array_of_start: "0 \<le> limit \<Longrightarrow> array_of limit (before_step a b 0) (replicate (nat (2 * limit + 3)) 0)"
  by (auto simp: array_of_def abs_le_iff intro!: nth_replicate)

definition edit_limit :: "'a list \<Rightarrow> 'a list \<Rightarrow> int" where
  "edit_limit a b = min (int (length a) + int (length b)) MAX_EDIT_DISTANCE"

lemma myers_spec:
  "(\<forall>ops. myers a b = Some ops \<longrightarrow>
      script_ok ops a b \<and> (\<forall>e j. on_step e j \<longrightarrow> arrives a b e j \<longrightarrow> edits ops \<le> e))
   \<and> (myers a b = None \<longleftrightarrow> (\<forall>e j. int e \<le> edit_limit a b \<longrightarrow> on_step e j \<longrightarrow> \<not> arrives a b e j))"
proof -
  have "0 \<le> edit_limit a b" by (simp add: edit_limit_def MAX_EDIT_DISTANCE_def)
  from step_loop_spec [OF array_of_start [OF this, of a b], of "[]"] show ?thesis
    by (simp add: myers_def Let_def edit_limit_def [symmetric])
qed

lemma myers_script_ok: "myers a b = Some ops \<Longrightarrow> script_ok ops a b"
  using myers_spec by blast

lemma myers_least: "myers a b = Some ops \<Longrightarrow> script_ok ks a b \<Longrightarrow> edits ops \<le> edits ks"
  using myers_spec [of a b] any_script_arrives by blast

text \<open>No script at all needs more edits than both lists have elements.\<close>

lemma arrives_within:
  assumes "int (length a) + int (length b) \<le> MAX_EDIT_DISTANCE"
  shows "myers a b \<noteq> None"
proof -
  have "on_step (length a + length b) (int (length a) - int (length b))"
    by (auto simp: on_step_def)
  with assms arrives_eventually [of a b] myers_spec [of a b] show ?thesis
    by (force simp: edit_limit_def)
qed

text \<open>
  C7. The search answers with a script that turns one list into the other and that no
  other script beats in the number of changed lines.
\<close>

theorem myers_minimal:
  assumes "myers a b = Some ops"
  shows "script_ok ops a b \<and> (\<forall>ks. script_ok ks a b \<longrightarrow> edits ops \<le> edits ks)"
  using myers_script_ok [OF assms] myers_least [OF assms] by blast

theorem myers_minimal_witness:
  "script_ok [Del, Keep, Ins] [1 :: int, 2] [2, 3] \<and>
   \<not> (\<exists>ks. script_ok ks [1 :: int, 2] [2, 3] \<and> edits ks < edits [Del, Keep, Ins])"
proof -
  have "myers [1 :: int, 2] [2, 3] = Some [Del, Keep, Ins]" by code_simp
  from myers_minimal [OF this] show ?thesis by (meson leD)
qed

text \<open>
  C8. The search gives up exactly when no script changes at most a thousand lines.
\<close>

theorem myers_None_iff:
  "myers a b = None \<longleftrightarrow> \<not> (\<exists>ks. script_ok ks a b \<and> int (edits ks) \<le> MAX_EDIT_DISTANCE)"
proof
  assume none: "myers a b = None"
  show "\<not> (\<exists>ks. script_ok ks a b \<and> int (edits ks) \<le> MAX_EDIT_DISTANCE)"
  proof
    assume "\<exists>ks. script_ok ks a b \<and> int (edits ks) \<le> MAX_EDIT_DISTANCE"
    then obtain ks where ks: "script_ok ks a b" "int (edits ks) \<le> MAX_EDIT_DISTANCE" by blast
    moreover have "edit_limit a b = MAX_EDIT_DISTANCE"
      using none arrives_within [of a b] by (force simp: edit_limit_def)
    ultimately show False using none myers_spec [of a b] any_script_arrives [OF ks(1)] by auto
  qed
next
  assume none: "\<not> (\<exists>ks. script_ok ks a b \<and> int (edits ks) \<le> MAX_EDIT_DISTANCE)"
  show "myers a b = None"
  proof (rule ccontr)
    assume "myers a b \<noteq> None"
    then obtain ops where ops: "myers a b = Some ops" by blast
    from ops myers_spec [of a b] obtain e j
      where "int e \<le> edit_limit a b" "on_step e j" "arrives a b e j" by auto
    with ops myers_spec [of a b] have "int (edits ops) \<le> MAX_EDIT_DISTANCE"
      by (force simp: edit_limit_def)
    with none myers_script_ok [OF ops] show False by blast
  qed
qed

end
