(* ===== verification/JsString.thy ===== *)
theory JsString
  imports Prelude "HOL-Library.Word" "HOL-Library.Char_ord"
begin

text \<open>
  JavaScript strings as lists of UTF-16 code units, for the components that measure text in
  bytes or read it one code unit at a time: literals, decimal numbers and
  \<open>Buffer.byteLength\<close>, the length of the UTF-8 encoding, in which a surrogate pair takes
  four bytes and a lone surrogate the three of the replacement character.
\<close>

type_synonym code_unit = "16 word"
type_synonym js_string = "code_unit list"

definition js_char :: "char \<Rightarrow> code_unit" where
  "js_char c = of_nat (of_char c)"

definition js :: "string \<Rightarrow> js_string" where
  "js s = map js_char s"

definition newline :: code_unit where
  "newline = 10"

lemma js_simps_list [simp]: "js [] = []" "js (c # cs) = js_char c # js cs" "js (cs @ ds) = js cs @ js ds"
  by (simp_all add: js_def)

lemma js_char_inj: "js_char c = js_char d \<longleftrightarrow> c = d"
proof
  assume "js_char c = js_char d"
  then have "unat (of_nat (of_char c) :: 16 word) = unat (of_nat (of_char d) :: 16 word)"
    by (simp add: js_char_def)
  moreover have "of_char e < (256 :: nat)" for e :: char
    using nat_of_char_less_256 [of e] by simp
  then have "unat (of_nat (of_char e) :: 16 word) = of_char e" for e :: char
    by (simp add: unat_of_nat less_trans [of _ 256])
  ultimately have "(of_char c :: nat) = of_char d" by simp
  then show "c = d" by simp
qed simp

section \<open>Numbers in text\<close>

fun decimal_acc :: "nat \<Rightarrow> js_string \<Rightarrow> js_string" where
  "decimal_acc n acc =
     (let acc' = (48 + of_nat (n mod 10)) # acc
      in if n < 10 then acc' else decimal_acc (n div 10) acc')"

declare decimal_acc.simps [simp del]

text \<open>\<open>`${n}`\<close> for a natural number.\<close>

definition decimal :: "nat \<Rightarrow> js_string" where
  "decimal n = decimal_acc n []"

section \<open>Length in UTF-8\<close>

definition is_high :: "code_unit \<Rightarrow> bool" where
  "is_high u \<longleftrightarrow> 0xD800 \<le> u \<and> u \<le> 0xDBFF"

definition is_low :: "code_unit \<Rightarrow> bool" where
  "is_low u \<longleftrightarrow> 0xDC00 \<le> u \<and> u \<le> 0xDFFF"

definition unit_bytes :: "code_unit \<Rightarrow> nat" where
  "unit_bytes u = (if u < 0x80 then 1 else if u < 0x800 then 2 else 3)"

fun byteLength :: "js_string \<Rightarrow> nat" where
  "byteLength [] = 0"
| "byteLength [u] = unit_bytes u"
| "byteLength (u # v # us) =
     (if is_high u \<and> is_low v then 4 + byteLength us else unit_bytes u + byteLength (v # us))"

lemma byteLength_newline: "byteLength (us @ newline # vs) = byteLength us + 1 + byteLength vs"
proof (induction us rule: byteLength.induct)
  case 1
  then show ?case
    by (cases vs) (auto simp: newline_def is_high_def unit_bytes_def)
next
  case (2 u)
  have "byteLength (newline # vs) = 1 + byteLength vs"
    by (cases vs) (auto simp: newline_def is_high_def unit_bytes_def)
  then show ?case by (simp add: newline_def is_low_def)
next
  case (3 u v us)
  then show ?case by simp
qed

lemma byteLength_ge: "length us \<le> byteLength us"
  by (induction us rule: byteLength.induct) (auto simp: unit_bytes_def)

end
