(* ===== verification/TextDiff.thy ===== *)
theory TextDiff
  imports MyersDiff JsString
begin

text \<open>
  Unified line diffs of document text, \<open>packages/server/src/text-diff.ts\<close> around the
  search of theory \<open>MyersDiff\<close>: splitting into lines, interning lines as numbers,
  trimming the common ends, and rendering hunks under a byte budget. The specification reads
  the rendered hunks back: applied as a patch to the old lines they give the new ones.
\<close>

section \<open>Lines\<close>

record diff_op =
  kind :: op_kind
  line :: js_string

definition ends_incomplete :: "js_string \<Rightarrow> bool" where
  "ends_incomplete l \<longleftrightarrow> l \<noteq> [] \<and> last l = newline"

text \<open>A final line without its newline is marked by one appended to it.\<close>

definition splitLines :: "js_string \<Rightarrow> js_string list" where
  "splitLines text =
     (if text = [] then []
      else let ls = split_on newline text
           in if last ls = [] then butlast ls
              else ls[length ls - 1 := last ls @ [newline]])"

section \<open>The edit script\<close>

text \<open>Interning: the first occurrence of a line takes the next number.\<close>

definition intern :: "(js_string \<times> nat) list \<Rightarrow> js_string \<Rightarrow> nat \<times> (js_string \<times> nat) list" where
  "intern ids l =
     (case map_of ids l of
        Some n \<Rightarrow> (n, ids)
      | None \<Rightarrow> (length ids, ids @ [(l, length ids)]))"

fun intern_all :: "(js_string \<times> nat) list \<Rightarrow> js_string list \<Rightarrow> nat list \<times> (js_string \<times> nat) list" where
  "intern_all ids [] = ([], ids)"
| "intern_all ids (l # ls) =
     (let (n, ids1) = intern ids l; (ns, ids2) = intern_all ids1 ls in (n # ns, ids2))"

fun common_prefix :: "'a list \<Rightarrow> 'a list \<Rightarrow> nat" where
  "common_prefix (x # xs) (y # ys) = (if x = y then Suc (common_prefix xs ys) else 0)"
| "common_prefix _ _ = 0"

text \<open>Reading the kinds back as operations on the lines.\<close>

fun kinds_to_ops :: "op_kind list \<Rightarrow> js_string list \<Rightarrow> js_string list \<Rightarrow> nat \<Rightarrow> nat \<Rightarrow> diff_op list" where
  "kinds_to_ops [] a b i j = []"
| "kinds_to_ops (Keep # ks) a b i j = \<lparr>kind = Keep, line = a ! i\<rparr> # kinds_to_ops ks a b (i + 1) (j + 1)"
| "kinds_to_ops (Del # ks) a b i j = \<lparr>kind = Del, line = a ! i\<rparr> # kinds_to_ops ks a b (i + 1) j"
| "kinds_to_ops (Ins # ks) a b i j = \<lparr>kind = Ins, line = b ! j\<rparr> # kinds_to_ops ks a b i (j + 1)"

definition keep_op :: "js_string \<Rightarrow> diff_op" where
  "keep_op l = \<lparr>kind = Keep, line = l\<rparr>"

definition editScript :: "js_string list \<Rightarrow> js_string list \<Rightarrow> diff_op list" where
  "editScript before after =
     (let p = common_prefix before after;
          s = common_prefix (rev (drop p before)) (rev (drop p after));
          a = take (length before - s - p) (drop p before);
          b = take (length after - s - p) (drop p after);
          (as, ids) = intern_all [] a;
          (bs, ids') = intern_all ids b;
          kinds = (case myers as bs of
                     Some ks \<Rightarrow> ks
                   | None \<Rightarrow> map (\<lambda>_. Del) a @ map (\<lambda>_. Ins) b)
      in map keep_op (take p before) @ kinds_to_ops kinds a b 0 0
         @ map keep_op (drop (length before - s) before))"

section \<open>Rendering\<close>

record unified_diff =
  unified :: js_string
  added :: nat
  removed :: nat
  truncated :: bool

definition range :: "nat \<Rightarrow> nat \<Rightarrow> js_string" where
  "range start count =
     (if count = 1 then decimal start
      else decimal (if count = 0 then start - 1 else start) @ js '','' @ decimal count)"

text \<open>\<open>emit\<close>: the text and its bytes after one more line, if the budget holds it.\<close>

definition emit :: "int \<Rightarrow> js_string \<times> int \<Rightarrow> js_string \<Rightarrow> (js_string \<times> int) option" where
  "emit maxBytes out l =
     (let size = int (byteLength l) + 1
      in if snd out + size > maxBytes then None
         else Some (fst out @ l @ [newline], snd out + size))"

definition kind_text :: "op_kind \<Rightarrow> js_string" where
  "kind_text k = (case k of Keep \<Rightarrow> js '' '' | Del \<Rightarrow> js ''-'' | Ins \<Rightarrow> js ''+'')"

text \<open>
  A group of \<open>emit\<close> calls, left at the first that does not fit: \<open>Inl\<close> of the text so far,
  or \<open>Inr\<close> of the output.
\<close>

fun emit_lines :: "int \<Rightarrow> js_string \<times> int \<Rightarrow> js_string list \<Rightarrow> js_string + (js_string \<times> int)" where
  "emit_lines maxBytes out [] = Inr out"
| "emit_lines maxBytes out (l # ls) =
     (case emit maxBytes out l of
        None \<Rightarrow> Inl (fst out)
      | Some out' \<Rightarrow> emit_lines maxBytes out' ls)"

text \<open>The lines that one operation of a hunk emits.\<close>

definition op_lines :: "diff_op \<Rightarrow> js_string list" where
  "op_lines op =
     (if ends_incomplete (line op)
      then [kind_text (kind op) @ butlast (line op), js (CHR 0x5C # '' No newline at end of file'')]
      else [kind_text (kind op) @ line op])"

definition hunk_header :: "nat \<Rightarrow> nat \<Rightarrow> nat \<Rightarrow> nat \<Rightarrow> js_string" where
  "hunk_header oldLine oldCount newLine newCount =
     js ''@@ -'' @ range oldLine oldCount @ js '' +'' @ range newLine newCount @ js '' @@''"

text \<open>\<open>while (first < ops.length && ops[first].kind === " ") first += 1\<close>.\<close>

function first_change :: "diff_op list \<Rightarrow> nat \<Rightarrow> nat" where
  "first_change ops i =
     (if i < length ops \<and> kind (ops ! i) = Keep then first_change ops (i + 1) else i)"
  by pat_completeness auto
termination by (relation "measure (\<lambda>(ops, i). length ops - i)") auto

declare first_change.simps [simp del]

text \<open>The loop that absorbs changes at most \<open>2 * context\<close> unchanged lines apart.\<close>

function last_change :: "diff_op list \<Rightarrow> nat \<Rightarrow> nat \<Rightarrow> nat \<Rightarrow> nat" where
  "last_change ops cxt end_at lastChange =
     (if end_at < length ops then
        (if kind (ops ! end_at) \<noteq> Keep then last_change ops cxt (end_at + 1) end_at
         else if end_at - lastChange > 2 * cxt then lastChange
         else last_change ops cxt (end_at + 1) lastChange)
      else lastChange)"
  by pat_completeness auto
termination by (relation "measure (\<lambda>(ops, cxt, e, l). length ops - e)") auto

declare last_change.simps [simp del]

definition count_old :: "diff_op list \<Rightarrow> nat" where
  "count_old ops = length (filter (\<lambda>op. kind op \<noteq> Ins) ops)"

definition count_new :: "diff_op list \<Rightarrow> nat" where
  "count_new ops = length (filter (\<lambda>op. kind op \<noteq> Del) ops)"

lemma first_change_ge: "i \<le> first_change ops i"
  by (induction ops i rule: first_change.induct) (subst first_change.simps, auto)

lemma last_change_ge: "l \<le> e \<Longrightarrow> l \<le> last_change ops c e l"
  by (induction ops c e l rule: last_change.induct) (subst last_change.simps, auto)

lemma hunk_progress:
  "index < length ops \<Longrightarrow>
   index < min (length ops) (last_change ops cxt (first_change ops index) (first_change ops index) + cxt + 1)"
  using first_change_ge [of index ops]
    last_change_ge [OF order_refl, of "first_change ops index" ops cxt]
  by simp

text \<open>One hunk per round; the loop state is \<open>index\<close>, \<open>oldLine\<close>, \<open>newLine\<close> and the output.\<close>

function hunk_loop ::
    "diff_op list \<Rightarrow> nat \<Rightarrow> int \<Rightarrow> nat \<Rightarrow> nat \<Rightarrow> nat \<Rightarrow> js_string \<times> int \<Rightarrow> js_string + js_string" where
  "hunk_loop ops cxt maxBytes index oldLine newLine out =
     (if index < length ops then
        (let first = first_change ops index
         in if first = length ops then Inr (fst out)
            else
              (let start = max index (first - cxt);
                   end_at = min (length ops) (last_change ops cxt first first + cxt + 1);
                   oldLine' = oldLine + (start - index);
                   newLine' = newLine + (start - index);
                   body = take (end_at - start) (drop start ops);
                   oldCount = count_old body;
                   newCount = count_new body
               in case emit_lines maxBytes out
                         (hunk_header oldLine' oldCount newLine' newCount # concat (map op_lines body)) of
                    Inl text \<Rightarrow> Inl text
                  | Inr out' \<Rightarrow>
                      hunk_loop ops cxt maxBytes end_at (oldLine' + oldCount) (newLine' + newCount) out'))
      else Inr (fst out))"
  by pat_completeness auto
termination
  by (relation "measure (\<lambda>(ops, cxt, maxBytes, index, oldLine, newLine, out). length ops - index)",
      rule wf_measure, simp only: in_measure prod.case, rule diff_less_mono2, rule hunk_progress)

declare hunk_loop.simps [simp del]

definition unifiedLineDiff ::
    "js_string \<Rightarrow> js_string \<Rightarrow> js_string \<Rightarrow> js_string \<Rightarrow> nat \<Rightarrow> int \<Rightarrow> unified_diff" where
  "unifiedLineDiff before after fromLabel toLabel cxt maxBytes =
     (let ops = editScript (splitLines before) (splitLines after);
          plus = length (filter (\<lambda>op. kind op = Ins) ops);
          minus = length (filter (\<lambda>op. kind op = Del) ops);
          cut = (\<lambda>text. \<lparr>unified = text, added = plus, removed = minus, truncated = True\<rparr>)
      in if plus = 0 \<and> minus = 0
         then \<lparr>unified = [], added = plus, removed = minus, truncated = False\<rparr>
         else (case emit_lines maxBytes ([], 0) [js ''--- '' @ fromLabel, js ''+++ '' @ toLabel] of
                 Inl _ \<Rightarrow> cut []
               | Inr out \<Rightarrow>
                   (case hunk_loop ops cxt maxBytes 0 1 1 out of
                      Inl text \<Rightarrow> cut text
                    | Inr text \<Rightarrow>
                        \<lparr>unified = text, added = plus, removed = minus, truncated = False\<rparr>)))"

section \<open>The two sides of the script\<close>

definition old_side :: "diff_op list \<Rightarrow> js_string list" where
  "old_side ops = map line (filter (\<lambda>op. kind op \<noteq> Ins) ops)"

definition new_side :: "diff_op list \<Rightarrow> js_string list" where
  "new_side ops = map line (filter (\<lambda>op. kind op \<noteq> Del) ops)"

lemma sides_simps [simp]:
  "old_side [] = []" "new_side [] = []"
  "old_side (op # ops) = (if kind op = Ins then old_side ops else line op # old_side ops)"
  "new_side (op # ops) = (if kind op = Del then new_side ops else line op # new_side ops)"
  "old_side (xs @ ys) = old_side xs @ old_side ys" "new_side (xs @ ys) = new_side xs @ new_side ys"
  "old_side (map keep_op ls) = ls" "new_side (map keep_op ls) = ls"
  by (simp_all add: old_side_def new_side_def keep_op_def filter_map comp_def)

lemma common_prefix_take:
  "take (common_prefix xs ys) xs = take (common_prefix xs ys) ys"
  by (induction xs ys rule: common_prefix.induct) auto

lemma common_prefix_le: "common_prefix xs ys \<le> length xs" "common_prefix xs ys \<le> length ys"
  by (induction xs ys rule: common_prefix.induct) auto

lemma common_suffix_drop:
  fixes xs ys :: "'a list"
  defines "s \<equiv> common_prefix (rev xs) (rev ys)"
  shows "drop (length xs - s) xs = drop (length ys - s) ys"
proof -
  have "rev (take s (rev xs)) = rev (take s (rev ys))"
    unfolding s_def by (rule arg_cong [OF common_prefix_take])
  then show ?thesis by (simp add: rev_take)
qed

lemma drop_Cons_nth:
  "drop i xs = x # rest \<Longrightarrow> xs ! i = x \<and> drop (Suc i) xs = rest \<and> i < length xs"
  by (metis Cons_nth_drop_Suc drop_eq_Nil list.discI list.inject not_le)

lemma kinds_to_ops_sides:
  "script_ok ks (drop i a) (drop j b) \<Longrightarrow>
     old_side (kinds_to_ops ks a b i j) = drop i a \<and> new_side (kinds_to_ops ks a b i j) = drop j b"
proof (induction ks a b i j rule: kinds_to_ops.induct)
  case (2 ks a b i j)
  then show ?case by (auto split: list.splits dest!: drop_Cons_nth)
next
  case (3 ks a b i j)
  then show ?case by (auto split: list.splits dest!: drop_Cons_nth)
next
  case (4 ks a b i j)
  then show ?case by (auto split: list.splits dest!: drop_Cons_nth)
qed simp

lemma script_ok_replace: "script_ok (map (\<lambda>_. Del) a @ map (\<lambda>_. Ins) b) a b"
proof (induction a)
  case Nil
  then show ?case by (induction b) auto
qed auto

lemma script_ok_map:
  "inj_on f (set a \<union> set b) \<Longrightarrow> script_ok ks (map f a) (map f b) = script_ok ks a b"
proof (induction ks a b rule: script_ok.induct)
  case (2 ks a b)
  then show ?case
    by (cases a; cases b) (auto simp: inj_on_def)
next
  case (3 ks a b)
  then show ?case by (cases a) (auto simp: inj_on_def)
next
  case (4 ks a b)
  then show ?case by (cases b) (auto simp: inj_on_def)
qed auto

text \<open>The interned numbers are the positions in the table, so equal numbers mean equal lines.\<close>

definition ids_ok :: "(js_string \<times> nat) list \<Rightarrow> bool" where
  "ids_ok ids \<longleftrightarrow> distinct (map fst ids) \<and> map snd ids = [0..<length ids]"

lemma intern_ok:
  assumes "ids_ok ids" "intern ids l = (n, ids')"
  shows "ids_ok ids' \<and> map_of ids \<subseteq>\<^sub>m map_of ids' \<and> map_of ids' l = Some n"
proof (cases "map_of ids l")
  case None
  with assms(2) have new: "n = length ids" "ids' = ids @ [(l, n)]" by (auto simp: intern_def)
  moreover have "map_of ids' = (map_of ids)(l \<mapsto> n)"
    unfolding new(2) by (rule map_of_append_new [OF None])
  moreover have "distinct (map fst ids')"
    unfolding new(2) using assms(1) None by (intro distinct_append_new) (simp_all add: ids_ok_def)
  ultimately show ?thesis
    using assms(1) None by (auto simp: ids_ok_def map_le_def dom_def)
qed (use assms in \<open>simp add: intern_def\<close>)

lemma intern_all_ok:
  "ids_ok ids \<Longrightarrow> intern_all ids ls = (ns, ids') \<Longrightarrow>
     ids_ok ids' \<and> map_of ids \<subseteq>\<^sub>m map_of ids' \<and> map (map_of ids') ls = map Some ns"
proof (induction ls arbitrary: ids ns ids')
  case Nil
  then show ?case by simp
next
  case (Cons l ls)
  obtain n ids1 where one: "intern ids l = (n, ids1)" by fastforce
  obtain ms ids2 where more: "intern_all ids1 ls = (ms, ids2)" by fastforce
  from Cons.prems(2) one more have res: "ns = n # ms" "ids' = ids2" by simp_all
  note head = intern_ok [OF Cons.prems(1) one]
  note tail = Cons.IH [OF conjunct1 [OF head] more]
  from head tail have "map_of ids2 l = Some n" by (metis domI map_le_def)
  with head tail res show ?case by (auto intro: map_le_trans)
qed

lemma ids_ok_inj:
  assumes "ids_ok ids" "map_of ids x = Some n" "map_of ids y = Some n"
  shows "x = y"
proof -
  have "distinct (map snd ids)" using assms(1) by (simp add: ids_ok_def)
  moreover have "(x, n) \<in> set ids" "(y, n) \<in> set ids" using assms by (auto dest: map_of_SomeD)
  ultimately show ?thesis by (metis distinct_map inj_onD prod.inject snd_conv)
qed

lemma interned_script:
  assumes "intern_all [] a = (as, ids)" "intern_all ids b = (bs, ids')"
  shows "script_ok ks as bs \<longleftrightarrow> script_ok ks a b"
proof -
  have a: "ids_ok ids" "map (map_of ids) a = map Some as"
    using intern_all_ok [OF _ assms(1)] by (auto simp: ids_ok_def)
  from intern_all_ok [OF a(1) assms(2)]
  have b: "ids_ok ids'" "map_of ids \<subseteq>\<^sub>m map_of ids'" "map (map_of ids') b = map Some bs"
    by auto
  let ?f = "\<lambda>l. the (map_of ids' l)"
  from a(2) b(2) have a': "map (map_of ids') a = map Some as"
    by (auto simp: list_eq_iff_nth_eq map_le_def dom_def)
  have "x \<in> set ls \<Longrightarrow> map_of ids' x = Some (?f x)" if "map (map_of ids') ls = map Some ns" for x ls ns
  proof -
    assume "x \<in> set ls"
    then have "map_of ids' x \<in> set (map Some ns)" unfolding that [symmetric] by simp
    then show ?thesis by auto
  qed
  note known = this [OF a'] this [OF b(3)]
  then have "map_of ids' x \<noteq> None" if "x \<in> set a \<union> set b" for x
    using that by auto
  then have "inj_on ?f (set a \<union> set b)"
    by (intro inj_onI) (metis b(1) ids_ok_inj option.collapse)
  moreover have "ns = map ?f ls" if "map (map_of ids') ls = map Some ns" for ls ns
    using arg_cong [OF that, of "map the"] by (simp add: comp_def)
  note this [OF a'] this [OF b(3)]
  ultimately show ?thesis by (simp add: script_ok_map)
qed

lemma editScript_sides_lemma:
  "old_side (editScript before after) = before \<and> new_side (editScript before after) = after"
proof -
  define p where "p = common_prefix before after"
  define s where "s = common_prefix (rev (drop p before)) (rev (drop p after))"
  define a where "a = take (length before - s - p) (drop p before)"
  define b where "b = take (length after - s - p) (drop p after)"
  obtain as ids where as: "intern_all [] a = (as, ids)" by fastforce
  obtain bs ids' where bs: "intern_all ids b = (bs, ids')" by fastforce
  define kinds where "kinds = (case myers as bs of Some ks \<Rightarrow> ks
      | None \<Rightarrow> map (\<lambda>_. Del) a @ map (\<lambda>_. Ins) b)"
  have "script_ok kinds a b"
    using myers_script_ok [of as bs] interned_script [OF as bs] script_ok_replace [of a b]
    by (auto simp: kinds_def split: option.split)
  then have mid: "old_side (kinds_to_ops kinds a b 0 0) = a" "new_side (kinds_to_ops kinds a b 0 0) = b"
    using kinds_to_ops_sides [of kinds 0 a 0 b] by simp_all
  have len: "p \<le> length before" "p \<le> length after" "s \<le> length before - p" "s \<le> length after - p"
    unfolding p_def s_def by (auto simp: common_prefix_le intro: order_trans [OF common_prefix_le(1)]
        order_trans [OF common_prefix_le(2)])
  have "drop (length (drop p before) - s) (drop p before) = drop (length (drop p after) - s) (drop p after)"
    unfolding s_def by (rule common_suffix_drop)
  with len have suffix: "drop (length before - s) before = drop (length after - s) after"
    by (simp add: add.commute)
  have whole: "take p xs @ take (length xs - s - p) (drop p xs) @ drop (length xs - s) xs = xs"
    if "s \<le> length xs - p" "p \<le> length xs" for xs :: "js_string list"
    using that drop_slice [of p "length xs - s" xs] by (simp flip: append_assoc)
  have script: "editScript before after = map keep_op (take p before) @ kinds_to_ops kinds a b 0 0
      @ map keep_op (drop (length before - s) before)"
    using as bs unfolding editScript_def Let_def a_def b_def s_def p_def kinds_def by simp
  have "take p before = take p after" unfolding p_def by (rule common_prefix_take)
  with suffix whole [OF len(4,2)] have new: "take p before @ b @ drop (length before - s) before = after"
    by (simp add: b_def)
  have "take p before @ a @ drop (length before - s) before = before"
    using whole [OF len(3,1)] by (simp add: a_def)
  with new mid show ?thesis by (simp add: script)
qed

section \<open>Reading hunks back\<close>

record hunk =
  oldStart :: nat
  oldCount :: nat
  newStart :: nat
  newCount :: nat
  body :: "diff_op list"

definition hunk_text :: "hunk \<Rightarrow> js_string list" where
  "hunk_text h = hunk_header (oldStart h) (oldCount h) (newStart h) (newCount h) # concat (map op_lines (body h))"

text \<open>
  The meaning of a unified diff: \<open>patch pos pos' hunks ls\<close> applies the hunks to the old
  lines \<open>ls\<close> from line \<open>pos\<close> on, the new text being at line \<open>pos'\<close>. The lines
  before a hunk are copied; the hunk's own old side must be what the file holds there, and its
  four numbers must be true.
\<close>

fun patch :: "nat \<Rightarrow> nat \<Rightarrow> hunk list \<Rightarrow> js_string list \<Rightarrow> js_string list option" where
  "patch pos pos' [] ls = Some ls"
| "patch pos pos' (h # hs) ls =
     (let skip = oldStart h - pos; rest = drop skip ls
      in if pos \<le> oldStart h \<and> skip \<le> length ls \<and> newStart h = pos' + skip
           \<and> take (oldCount h) rest = old_side (body h) \<and> oldCount h = length (old_side (body h))
           \<and> newCount h = length (new_side (body h))
         then map_option (\<lambda>out. take skip ls @ new_side (body h) @ out)
                (patch (oldStart h + oldCount h) (newStart h + newCount h) hs (drop (oldCount h) rest))
         else None)"

lemma count_old_side: "count_old ops = length (old_side ops)"
  by (simp add: count_old_def old_side_def)

lemma count_new_side: "count_new ops = length (new_side ops)"
  by (simp add: count_new_def new_side_def)

lemma first_change_keeps:
  "i \<le> j \<Longrightarrow> j < first_change ops i \<Longrightarrow> kind (ops ! j) = Keep"
proof (induction ops i rule: first_change.induct)
  case (1 ops i)
  show ?case
  proof (cases "i < length ops \<and> kind (ops ! i) = Keep")
    case True
    then have "first_change ops i = first_change ops (i + 1)" by (subst first_change.simps) simp
    with 1 True show ?thesis by (cases "i = j") auto
  next
    case False
    then have "first_change ops i = i" by (subst first_change.simps) (simp only: if_False)
    with 1 show ?thesis by simp
  qed
qed

lemma first_change_le: "i \<le> length ops \<Longrightarrow> first_change ops i \<le> length ops"
  by (induction ops i rule: first_change.induct) (subst first_change.simps, auto)

lemma keeps_same_sides:
  "\<forall>op \<in> set ops. kind op = Keep \<Longrightarrow> old_side ops = map line ops \<and> new_side ops = map line ops"
  by (induction ops) auto

text \<open>Every line is followed by a newline.\<close>

definition render :: "js_string list \<Rightarrow> js_string" where
  "render ls = concat (map (\<lambda>l. l @ [newline]) ls)"

lemma render_simps [simp]:
  "render [] = []" "render (l # ls) = l @ newline # render ls" "render (xs @ ys) = render xs @ render ys"
  by (simp_all add: render_def)

lemma emit_lines_Inr: "emit_lines m out ls = Inr out' \<Longrightarrow> fst out' = fst out @ render ls"
  by (induction m out ls rule: emit_lines.induct)
     (auto simp: emit_def Let_def split: option.splits if_splits)

lemma skipped_keeps:
  assumes "index \<le> start" "start \<le> first_change ops index" "start \<le> length ops"
  shows "old_side (drop index ops) = map line (take (start - index) (drop index ops)) @ old_side (drop start ops)"
    and "new_side (drop index ops) = map line (take (start - index) (drop index ops)) @ new_side (drop start ops)"
proof -
  have "\<forall>op \<in> set (take (start - index) (drop index ops)). kind op = Keep"
    using assms first_change_keeps [of index _ ops] by (auto simp: in_set_conv_nth)
  note same = keeps_same_sides [OF this]
  show "old_side (drop index ops) = map line (take (start - index) (drop index ops)) @ old_side (drop start ops)"
    by (subst drop_slice [OF assms(1), of ops]) (simp only: sides_simps same)
  show "new_side (drop index ops) = map line (take (start - index) (drop index ops)) @ new_side (drop start ops)"
    by (subst drop_slice [OF assms(1), of ops]) (simp only: sides_simps same)
qed

lemma patch_Cons:
  assumes "oldStart h = pos + length gap" "newStart h = pos' + length gap"
    and "oldCount h = length (old_side (body h))" "newCount h = length (new_side (body h))"
    and "patch (oldStart h + oldCount h) (newStart h + newCount h) hs rest = Some out"
  shows "patch pos pos' (h # hs) (gap @ old_side (body h) @ rest) = Some (gap @ new_side (body h) @ out)"
  using assms by (simp add: Let_def)

lemma hunk_loop_stop:
  "\<not> (index < length ops \<and> first_change ops index \<noteq> length ops) \<Longrightarrow>
     hunk_loop ops cxt m index ol nl out = Inr (fst out)"
  by (subst hunk_loop.simps) (cases "index < length ops"; simp add: Let_def)

lemma hunk_loop_patch:
  "hunk_loop ops cxt m index ol nl out = Inr res \<Longrightarrow> index \<le> length ops \<Longrightarrow>
   \<exists>hs. res = fst out @ render (concat (map hunk_text hs))
      \<and> patch ol nl hs (old_side (drop index ops)) = Some (new_side (drop index ops))"
proof (induction ops cxt m index ol nl out arbitrary: res rule: hunk_loop.induct)
  case (1 ops cxt m index ol nl out)
  define first where "first = first_change ops index"
  define start where "start = max index (first - cxt)"
  define end_at where "end_at = min (length ops) (last_change ops cxt first first + cxt + 1)"
  define mid where "mid = take (end_at - start) (drop start ops)"
  have first: "index \<le> first" "first \<le> length ops"
    using first_change_ge first_change_le "1.prems"(2) by (simp_all add: first_def)
  have start: "index \<le> start" "start \<le> first" using first by (auto simp: start_def)
  note skip = skipped_keeps [OF start(1), of ops, folded first_def, OF start(2) order_trans [OF start(2) first(2)]]
  show ?case
  proof (cases "index < length ops \<and> first \<noteq> length ops")
    case False
    have "old_side (drop index ops) = new_side (drop index ops)"
    proof (cases "index < length ops")
      case True
      with False have "first = length ops" by simp
      with skipped_keeps [OF first(1), of ops, folded first_def] show ?thesis by simp
    qed simp
    moreover have "res = fst out"
      using "1.prems"(1) False by (simp add: hunk_loop_stop first_def)
    ultimately show ?thesis by (intro exI [of _ "[]"]) simp
  next
    case True
    have end_at: "start \<le> end_at" "end_at \<le> length ops"
      using start first last_change_ge [OF order_refl, of first ops cxt] True by (auto simp: end_at_def)
    define h where "h = \<lparr>oldStart = ol + (start - index), oldCount = count_old mid,
        newStart = nl + (start - index), newCount = count_new mid, body = mid\<rparr>"
    from "1.prems"(1) True obtain out' where
      emitted: "emit_lines m out (hunk_text h) = Inr out'" and
      rest: "hunk_loop ops cxt m end_at (oldStart h + oldCount h) (newStart h + newCount h) out' = Inr res"
      by (subst (asm) hunk_loop.simps)
         (auto simp: Let_def first_def start_def end_at_def mid_def h_def hunk_text_def
            simp del: emit_lines.simps split: sum.splits)
    have "\<exists>hs. res = fst out' @ render (concat (map hunk_text hs))
      \<and> patch (oldStart h + oldCount h) (newStart h + newCount h) hs (old_side (drop end_at ops))
          = Some (new_side (drop end_at ops))"
      using True rest end_at(2) emitted
      by (intro "1.IH" [OF _ first_def _ start_def end_at_def _ _ mid_def])
         (simp_all add: h_def hunk_text_def del: emit_lines.simps)
    then obtain hs where hs: "res = fst out' @ render (concat (map hunk_text hs))"
      "patch (oldStart h + oldCount h) (newStart h + newCount h) hs (old_side (drop end_at ops))
          = Some (new_side (drop end_at ops))" by blast
    have "res = fst out @ render (concat (map hunk_text (h # hs)))"
      using hs(1) emit_lines_Inr [OF emitted] by simp
    moreover have "patch ol nl (h # hs) (old_side (drop index ops)) = Some (new_side (drop index ops))"
    proof -
      have sides: "old_side (drop start ops) = old_side mid @ old_side (drop end_at ops)"
        "new_side (drop start ops) = new_side mid @ new_side (drop end_at ops)"
        unfolding mid_def
        by (subst drop_slice [OF end_at(1), of ops], rule sides_simps(5))
           (subst drop_slice [OF end_at(1), of ops], rule sides_simps(6))
      have len: "length (take (start - index) (drop index ops)) = start - index"
        using start first by simp
      show ?thesis
        unfolding skip sides
        using patch_Cons [of h ol "map line (take (start - index) (drop index ops))" nl, OF _ _ _ _ hs(2)] len
        by (simp add: h_def count_old_side count_new_side)
    qed
    ultimately show ?thesis by blast
  qed
qed

section \<open>The byte budget\<close>

definition counted :: "int \<Rightarrow> js_string \<times> int \<Rightarrow> bool" where
  "counted m out \<longleftrightarrow> snd out = int (byteLength (fst out)) \<and> snd out \<le> m
     \<and> (fst out = [] \<or> last (fst out) = newline)"

lemma emit_counted:
  assumes "counted m out" "emit m out l = Some out'"
  shows "counted m out'"
proof -
  have "byteLength (fst out @ l @ [newline]) = byteLength (fst out) + byteLength l + 1"
  proof (cases "fst out" rule: rev_cases)
    case Nil
    then show ?thesis using byteLength_newline [of l "[]"] by simp
  next
    case (snoc us u)
    with assms(1) have "u = newline" by (simp add: counted_def)
    with snoc byteLength_newline [of us "l @ [newline]"] byteLength_newline [of l "[]"]
      byteLength_newline [of us "[]"] show ?thesis by simp
  qed
  with assms show ?thesis by (auto simp: emit_def Let_def counted_def split: if_splits)
qed

lemma emit_lines_counted:
  "counted m out \<Longrightarrow>
     (case emit_lines m out ls of Inr out' \<Rightarrow> counted m out' | Inl t \<Rightarrow> int (byteLength t) \<le> m)"
proof (induction m out ls rule: emit_lines.induct)
  case (2 m out l ls)
  then show ?case
    by (cases "emit m out l") (auto simp: emit_counted, simp add: counted_def)
qed simp

lemma hunk_loop_counted:
  "counted m out \<Longrightarrow> int (byteLength (case hunk_loop ops cxt m index ol nl out of Inl t \<Rightarrow> t | Inr t \<Rightarrow> t)) \<le> m"
proof (induction ops cxt m index ol nl out rule: hunk_loop.induct)
  case (1 ops cxt m index ol nl out)
  show ?case
  proof (cases "index < length ops \<and> first_change ops index \<noteq> length ops")
    case False
    with "1.prems" show ?thesis by (simp add: hunk_loop_stop counted_def)
  next
    case True
    let ?first = "first_change ops index"
    let ?start = "max index (?first - cxt)"
    let ?stop = "min (length ops) (last_change ops cxt ?first ?first + cxt + 1)"
    let ?mid = "take (?stop - ?start) (drop ?start ops)"
    let ?ls = "hunk_header (ol + (?start - index)) (count_old ?mid) (nl + (?start - index)) (count_new ?mid)
      # concat (map op_lines ?mid)"
    show ?thesis
    proof (cases "emit_lines m out ?ls")
      case (Inl t)
      with True have "hunk_loop ops cxt m index ol nl out = Inl t"
        by (subst hunk_loop.simps) (simp add: Let_def del: emit_lines.simps)
      with Inl emit_lines_counted [OF "1.prems", of ?ls] show ?thesis by (simp del: emit_lines.simps)
    next
      case (Inr out')
      with True have "hunk_loop ops cxt m index ol nl out =
          hunk_loop ops cxt m ?stop (ol + (?start - index) + count_old ?mid)
            (nl + (?start - index) + count_new ?mid) out'"
        by (subst hunk_loop.simps) (simp add: Let_def del: emit_lines.simps)
      moreover have out': "counted m out'"
        using emit_lines_counted [OF "1.prems", of ?ls] Inr by (simp del: emit_lines.simps)
      have "int (byteLength (case hunk_loop ops cxt m ?stop (ol + (?start - index) + count_old ?mid)
          (nl + (?start - index) + count_new ?mid) out' of Inl t \<Rightarrow> t | Inr t \<Rightarrow> t)) \<le> m"
        using "1.IH" [OF conjunct1 [OF True] refl conjunct2 [OF True] refl refl refl refl refl refl refl Inr out'] .
      ultimately show ?thesis by (simp only:)
    qed
  qed
qed

section \<open>Reading lines back\<close>

definition unsplit :: "js_string list \<Rightarrow> js_string" where
  "unsplit ls = concat (map (\<lambda>l. if ends_incomplete l then butlast l else l @ [newline]) ls)"

lemma join_with_snoc: "join_with sep (ws @ [w]) = concat (map (\<lambda>v. v @ [sep]) ws) @ w"
  by (induction ws) (simp_all add: join_with_Cons)

lemma unsplit_splitLines: "unsplit (splitLines t) = t"
proof (cases "t = []")
  case True
  then show ?thesis by (simp add: splitLines_def unsplit_def)
next
  case False
  obtain ws w where ls: "split_on newline t = ws @ [w]"
    by (metis split_on_nonempty rev_exhaust)
  have free: "newline \<notin> set v" if "v \<in> set (ws @ [w])" for v
    using split_on_no_sep [of v newline t] that unfolding ls by simp
  then have "\<not> ends_incomplete v" if "v \<in> set ws" for v
    using that by (metis Un_iff ends_incomplete_def last_in_set set_append)
  then have "unsplit ws = concat (map (\<lambda>v. v @ [newline]) ws)"
    by (simp add: unsplit_def cong: map_cong)
  moreover have "concat (map (\<lambda>v. v @ [newline]) ws) @ w = t"
    using join_split [of newline t] unfolding ls join_with_snoc .
  ultimately show ?thesis
    using False ls by (auto simp: splitLines_def Let_def unsplit_def ends_incomplete_def list_update_append)
qed

lemma splitLines_inj: "splitLines s = splitLines t \<longleftrightarrow> s = t"
  by (metis unsplit_splitLines)

lemma no_change_sides:
  "filter (\<lambda>op. kind op = Ins) ops = [] \<Longrightarrow> filter (\<lambda>op. kind op = Del) ops = [] \<Longrightarrow>
     old_side ops = new_side ops"
  by (induction ops) (auto split: if_splits)

lemma unchanged_iff:
  "length (filter (\<lambda>op. kind op = Ins) (editScript (splitLines s) (splitLines t))) = 0
   \<and> length (filter (\<lambda>op. kind op = Del) (editScript (splitLines s) (splitLines t))) = 0 \<longleftrightarrow> s = t"
proof
  assume "length (filter (\<lambda>op. kind op = Ins) (editScript (splitLines s) (splitLines t))) = 0
   \<and> length (filter (\<lambda>op. kind op = Del) (editScript (splitLines s) (splitLines t))) = 0"
  then have "old_side (editScript (splitLines s) (splitLines t)) = new_side (editScript (splitLines s) (splitLines t))"
    by (intro no_change_sides) simp_all
  then show "s = t" by (simp add: editScript_sides_lemma splitLines_inj)
next
  have "common_prefix xs xs = length xs" for xs :: "js_string list" by (induction xs) auto
  moreover have "myers [] ([] :: nat list) = Some []" by code_simp
  moreover assume "s = t"
  ultimately show "length (filter (\<lambda>op. kind op = Ins) (editScript (splitLines s) (splitLines t))) = 0
   \<and> length (filter (\<lambda>op. kind op = Del) (editScript (splitLines s) (splitLines t))) = 0"
    by (auto simp: editScript_def keep_op_def)
qed

section \<open>Properties\<close>

text \<open>
  C9. A diff that is not truncated is a correct patch: its text is the two label lines
  followed by hunks, and applying those hunks, whose ranges are all true, to the old lines
  gives the new lines.
\<close>

theorem unifiedLineDiff_patches:
  assumes "\<not> truncated (unifiedLineDiff before after fromLabel toLabel cxt maxBytes)" "before \<noteq> after"
  shows "\<exists>hs. unified (unifiedLineDiff before after fromLabel toLabel cxt maxBytes)
           = render ([js ''--- '' @ fromLabel, js ''+++ '' @ toLabel] @ concat (map hunk_text hs))
      \<and> patch 1 1 hs (splitLines before) = Some (splitLines after)"
proof -
  let ?ops = "editScript (splitLines before) (splitLines after)"
  let ?labels = "[js ''--- '' @ fromLabel, js ''+++ '' @ toLabel]"
  have changed: "\<not> (length (filter (\<lambda>op. kind op = Ins) ?ops) = 0 \<and> length (filter (\<lambda>op. kind op = Del) ?ops) = 0)"
    using assms(2) unchanged_iff by blast
  with assms(1) obtain out res where out: "emit_lines maxBytes ([], 0) ?labels = Inr out"
    and res: "hunk_loop ?ops cxt maxBytes 0 1 1 out = Inr res"
    by (auto simp: unifiedLineDiff_def Let_def simp del: emit_lines.simps split: sum.splits if_splits)
  have "unified (unifiedLineDiff before after fromLabel toLabel cxt maxBytes) = res"
    unfolding unifiedLineDiff_def Let_def if_not_P [OF changed] out sum.case res by simp
  with hunk_loop_patch [OF res] emit_lines_Inr [OF out] show ?thesis
    by (auto simp: editScript_sides_lemma)
qed

theorem unifiedLineDiff_patches_witness:
  "\<exists>hs. unified (unifiedLineDiff (js ''a'') (js ''b'') [] [] 3 1000)
           = render ([js ''--- '' @ [], js ''+++ '' @ []] @ concat (map hunk_text hs))
      \<and> patch 1 1 hs (splitLines (js ''a'')) = Some (splitLines (js ''b''))"
proof (rule unifiedLineDiff_patches)
  show "\<not> truncated (unifiedLineDiff (js ''a'') (js ''b'') [] [] 3 1000)" by code_simp
  show "js ''a'' \<noteq> js ''b''" by code_simp
qed

text \<open>
  A diff reports no added and no removed line exactly when the two texts are equal, a
  missing final newline included.
\<close>

lemma unifiedLineDiff_unchanged_iff:
  "added (unifiedLineDiff before after fromLabel toLabel cxt maxBytes) = 0
   \<and> removed (unifiedLineDiff before after fromLabel toLabel cxt maxBytes) = 0 \<longleftrightarrow> before = after"
proof -
  have "added (unifiedLineDiff before after fromLabel toLabel cxt maxBytes)
      = length (filter (\<lambda>op. kind op = Ins) (editScript (splitLines before) (splitLines after)))"
    "removed (unifiedLineDiff before after fromLabel toLabel cxt maxBytes)
      = length (filter (\<lambda>op. kind op = Del) (editScript (splitLines before) (splitLines after)))"
    by (simp_all add: unifiedLineDiff_def Let_def del: emit_lines.simps split: sum.split)
  then show ?thesis using unchanged_iff [of before after] by simp
qed

text \<open>The rendered text never takes more bytes of UTF-8 than the caller allows.\<close>

lemma unifiedLineDiff_within_budget:
  assumes "0 \<le> maxBytes"
  shows "int (byteLength (unified (unifiedLineDiff before after fromLabel toLabel cxt maxBytes))) \<le> maxBytes"
proof -
  let ?ops = "editScript (splitLines before) (splitLines after)"
  let ?labels = "[js ''--- '' @ fromLabel, js ''+++ '' @ toLabel]"
  have start: "counted maxBytes ([], 0)" using assms by (simp add: counted_def)
  show ?thesis
  proof (cases "emit_lines maxBytes ([], 0) ?labels")
    case (Inl t)
    with assms show ?thesis by (simp add: unifiedLineDiff_def Let_def del: emit_lines.simps)
  next
    case (Inr out)
    with emit_lines_counted [OF start, of ?labels] have "counted maxBytes out"
      by (simp del: emit_lines.simps)
    from hunk_loop_counted [OF this, of ?ops cxt 0 1 1] assms Inr show ?thesis
      by (auto simp: unifiedLineDiff_def Let_def simp del: emit_lines.simps split: sum.splits)
  qed
qed

end
