(* ===== verification/AgentScopes.thy ===== *)
theory AgentScopes
  imports Prelude
begin

text \<open>
  Scopes and the access groups that expand to them: \<open>hasScope\<close> of
  \<open>packages/server/src/token-store.ts\<close> and the group tables of
  \<open>packages/types/src/agent-connections.ts\<close>. A JavaScript \<open>Set\<close> is a list without
  repetitions, in the order its members were added (\<open>uniq\<close>).
\<close>

section \<open>Matching scopes\<close>

definition endsWith :: "string \<Rightarrow> string \<Rightarrow> bool" where
  "endsWith s t \<longleftrightarrow> suffix t s"

definition startsWith :: "string \<Rightarrow> string \<Rightarrow> bool" where
  "startsWith s t \<longleftrightarrow> prefix t s"

fun hasScope :: "string list \<Rightarrow> string \<Rightarrow> bool" where
  "hasScope [] required = False"
| "hasScope (scope # granted) required =
     (if scope = ''*'' then True
      else if scope = required then True
      else if endsWith scope '':*'' \<and> startsWith required (butlast scope) then True
      else hasScope granted required)"

section \<open>Access groups\<close>

record agent_access =
  threads :: bool
  read_access :: bool
  edit_access :: bool

datatype permission_group = Conversations | WorkspaceRead | WorkspaceWrite | Export

type_synonym group_table = "permission_group \<Rightarrow> string list"

fun AGENT_PERMISSION_GROUP_SCOPES :: group_table where
  "AGENT_PERMISSION_GROUP_SCOPES Conversations = [''threads:read'', ''threads:write'', ''threads:participate'']"
| "AGENT_PERMISSION_GROUP_SCOPES WorkspaceRead =
     [''annotations:read'', ''documents:read'', ''docs:read'', ''records:read'', ''search:read'',
      ''widgets:read'']"
| "AGENT_PERMISSION_GROUP_SCOPES WorkspaceWrite =
     [''annotations:read'', ''annotations:write'', ''documents:read'', ''documents:write'',
      ''docs:read'', ''docs:write'', ''records:read'', ''records:write'', ''search:read'',
      ''widgets:read'', ''widgets:write'']"
| "AGENT_PERMISSION_GROUP_SCOPES Export = [''workspace:export'']"

fun EARLIER_AGENT_PERMISSION_GROUP_SCOPES :: group_table where
  "EARLIER_AGENT_PERMISSION_GROUP_SCOPES Conversations =
     [''threads:read'', ''threads:write'', ''threads:participate'']"
| "EARLIER_AGENT_PERMISSION_GROUP_SCOPES WorkspaceRead =
     [''annotations:read'', ''docs:read'', ''records:read'', ''search:read'', ''widgets:read'']"
| "EARLIER_AGENT_PERMISSION_GROUP_SCOPES WorkspaceWrite =
     [''annotations:read'', ''annotations:write'', ''docs:read'', ''docs:write'',
      ''records:read'', ''records:write'', ''search:read'', ''widgets:read'', ''widgets:write'']"
| "EARLIER_AGENT_PERMISSION_GROUP_SCOPES Export = [''workspace:export'']"

definition permissionGroupsForAccess :: "agent_access \<Rightarrow> permission_group list" where
  "permissionGroupsForAccess access =
     (if threads access then [Conversations] else [])
     @ (if read_access access \<or> edit_access access then [WorkspaceRead, Export] else [])
     @ (if edit_access access then [WorkspaceWrite] else [])"

definition scopesForAccessIn :: "group_table \<Rightarrow> agent_access \<Rightarrow> string list" where
  "scopesForAccessIn table access = uniq (concat (map table (permissionGroupsForAccess access)))"

definition scopesForAccess :: "agent_access \<Rightarrow> string list" where
  "scopesForAccess access = scopesForAccessIn AGENT_PERMISSION_GROUP_SCOPES access"

text \<open>Which checkbox grants a scope.\<close>

datatype access_key = ThreadsKey | ReadKey | EditKey

definition accessForScope :: "string \<Rightarrow> access_key option" where
  "accessForScope scope =
     (if scope \<in> set (AGENT_PERMISSION_GROUP_SCOPES Conversations) then Some ThreadsKey
      else if scope \<in> set (AGENT_PERMISSION_GROUP_SCOPES WorkspaceRead)
           \<or> scope \<in> set (AGENT_PERMISSION_GROUP_SCOPES Export) then Some ReadKey
      else if scope \<in> set (AGENT_PERMISSION_GROUP_SCOPES WorkspaceWrite) then Some EditKey
      else None)"

definition ACCESS_CHOICES :: "agent_access list" where
  "ACCESS_CHOICES =
     concat (map (\<lambda>t. filter (\<lambda>access. threads access \<or> read_access access)
       [\<lparr>threads = t, read_access = False, edit_access = False\<rparr>,
        \<lparr>threads = t, read_access = True, edit_access = False\<rparr>,
        \<lparr>threads = t, read_access = True, edit_access = True\<rparr>]) [False, True])"

definition sameScopes :: "string list \<Rightarrow> string list \<Rightarrow> bool" where
  "sameScopes a b \<longleftrightarrow>
     (let left = uniq a; right = uniq b
      in length left = length right \<and> list_all (\<lambda>scope. scope \<in> set right) left)"

definition accessForStoredScopes :: "string list \<Rightarrow> agent_access option" where
  "accessForStoredScopes scopes =
     (let made_from = (\<lambda>table. List.find (\<lambda>access. sameScopes scopes (scopesForAccessIn table access)) ACCESS_CHOICES)
      in case made_from AGENT_PERMISSION_GROUP_SCOPES of
           Some access \<Rightarrow> Some access
         | None \<Rightarrow> made_from EARLIER_AGENT_PERMISSION_GROUP_SCOPES)"

definition currentScopesForStored :: "string list \<Rightarrow> string list" where
  "currentScopesForStored scopes =
     (case accessForStoredScopes scopes of
        Some access \<Rightarrow> scopesForAccess access
      | None \<Rightarrow> scopes)"

definition grants_scope :: "string list \<Rightarrow> string \<Rightarrow> bool" where
  "grants_scope scopes required =
     (let resource = hd (split_on (CHR '':'') required)
      in list_ex (\<lambda>scope. scope = ''*'' \<or> scope = required \<or> scope = resource @ '':*'') scopes)"

definition accessFromScopes :: "string list \<Rightarrow> agent_access" where
  "accessFromScopes scopes =
     (let has = (\<lambda>group. list_all (grants_scope scopes) (AGENT_PERMISSION_GROUP_SCOPES group));
          edit = has WorkspaceWrite
      in \<lparr>threads = grants_scope scopes ''threads:read'' \<and> grants_scope scopes ''threads:write'',
          read_access = edit \<or> has WorkspaceRead,
          edit_access = edit\<rparr>)"

section \<open>Facts about scopes\<close>

lemma hasScope_iff:
  "hasScope granted required \<longleftrightarrow>
     (\<exists>scope \<in> set granted. scope = ''*'' \<or> scope = required
        \<or> suffix '':*'' scope \<and> prefix (butlast scope) required)"
  by (induction granted) (auto simp: endsWith_def startsWith_def)

lemma hasScope_mono: "set granted \<subseteq> set wider \<Longrightarrow> hasScope granted required \<Longrightarrow> hasScope wider required"
  by (auto simp: hasScope_iff)

lemma sameScopes_iff: "sameScopes a b \<longleftrightarrow> set a = set b"
proof -
  have "card (set a) = card (set b) \<and> set a \<subseteq> set b \<longleftrightarrow> set a = set b"
    by (metis List.finite_set card_subset_eq order_refl)
  then show ?thesis by (auto simp: sameScopes_def Let_def length_uniq list_all_iff)
qed

lemma access_choice_grows:
  "access \<in> set ACCESS_CHOICES \<Longrightarrow>
     set (scopesForAccessIn EARLIER_AGENT_PERMISSION_GROUP_SCOPES access) \<subseteq> set (scopesForAccess access)"
proof -
  have "list_all (\<lambda>a. list_all (\<lambda>s. s \<in> set (scopesForAccess a))
      (scopesForAccessIn EARLIER_AGENT_PERMISSION_GROUP_SCOPES a)) ACCESS_CHOICES"
    by code_simp
  then show "access \<in> set ACCESS_CHOICES \<Longrightarrow> ?thesis" by (auto simp: list_all_iff)
qed

lemma find_Some_member: "List.find P xs = Some x \<Longrightarrow> x \<in> set xs \<and> P x"
  by (auto simp: find_Some_iff)

lemma stored_scopes_kept: "set scopes \<subseteq> set (currentScopesForStored scopes)"
proof (cases "accessForStoredScopes scopes")
  case None
  then show ?thesis by (simp add: currentScopesForStored_def)
next
  case (Some access)
  then consider
      "List.find (\<lambda>a. sameScopes scopes (scopesForAccessIn AGENT_PERMISSION_GROUP_SCOPES a)) ACCESS_CHOICES = Some access"
    | "List.find (\<lambda>a. sameScopes scopes (scopesForAccessIn EARLIER_AGENT_PERMISSION_GROUP_SCOPES a)) ACCESS_CHOICES = Some access"
    by (auto simp: accessForStoredScopes_def Let_def split: option.splits)
  then have "set scopes = set (scopesForAccess access) \<or>
      access \<in> set ACCESS_CHOICES \<and> set scopes = set (scopesForAccessIn EARLIER_AGENT_PERMISSION_GROUP_SCOPES access)"
    by cases (auto dest!: find_Some_member simp: sameScopes_iff scopesForAccess_def)
  with Some access_choice_grows [of access] show ?thesis by (auto simp: currentScopesForStored_def)
qed

text \<open>
  What an owner chose survives storage: the scopes of any choice of access are read back
  as that choice, by the checkboxes and by the stored list alike, and a stored list never
  loses a scope when it is brought up to date.
\<close>

lemma agent_access_roundtrip:
  assumes "access \<in> set ACCESS_CHOICES"
  shows "accessFromScopes (scopesForAccess access) = access
    \<and> accessForStoredScopes (scopesForAccess access) = Some access
    \<and> accessForStoredScopes (scopesForAccessIn EARLIER_AGENT_PERMISSION_GROUP_SCOPES access) = Some access
    \<and> (\<forall>scopes required. hasScope scopes required \<longrightarrow> hasScope (currentScopesForStored scopes) required)"
proof -
  have "list_all (\<lambda>access. accessFromScopes (scopesForAccess access) = access
    \<and> accessForStoredScopes (scopesForAccess access) = Some access
    \<and> accessForStoredScopes (scopesForAccessIn EARLIER_AGENT_PERMISSION_GROUP_SCOPES access) = Some access)
    ACCESS_CHOICES"
    by code_simp
  with assms hasScope_mono [OF stored_scopes_kept] show ?thesis by (auto simp: list_all_iff)
qed

end
