(* ===== verification/TeamPolicy.thy ===== *)
theory TeamPolicy
  imports AgentScopes "HOL-Library.List_Lexorder" "HOL-Library.Product_Lexorder" "HOL-Library.Char_ord"
begin

text \<open>
  Who may reach which Space: \<open>packages/server/src/team-policy.ts\<close> with the level
  functions of \<open>team-access.ts\<close> it decides by. The record \<open>team_state\<close> holds the rows
  of the current Worktable in the team database; the access snapshot is a view of them, rebuilt
  whenever the policy revision moves, so decisions read the rows themselves. The record
  \<open>request\<close> holds what \<open>AsyncLocalStorage\<close> carries: the identity of the request and,
  for the holder of a share link, the Space the grant engine is reading.

  Maps and tables are association lists with one row per key; ids are never empty. The two JSON
  columns of an agent hold the lists they spell. Fresh ids and the clock are arguments. A
  statement that breaks a primary key throws \<open>ConstraintError\<close>, and a failed transaction
  leaves the state as it was.
\<close>

section \<open>Levels\<close>

datatype space_level = ReadLevel | EditLevel | ManageLevel

fun level_rank :: "space_level \<Rightarrow> nat" where
  "level_rank ReadLevel = 1"
| "level_rank EditLevel = 2"
| "level_rank ManageLevel = 3"

lemma level_rank_inj: "level_rank a = level_rank b \<longleftrightarrow> a = b"
  by (cases a; cases b) simp_all

instantiation space_level :: linorder
begin

definition less_eq_space_level :: "space_level \<Rightarrow> space_level \<Rightarrow> bool" where
  "a \<le> b \<longleftrightarrow> level_rank a \<le> level_rank b"

definition less_space_level :: "space_level \<Rightarrow> space_level \<Rightarrow> bool" where
  "a < b \<longleftrightarrow> level_rank a < level_rank b"

instance
  by standard (auto simp: less_eq_space_level_def less_space_level_def level_rank_inj)

end

definition levelAtLeast :: "space_level option \<Rightarrow> space_level \<Rightarrow> bool" where
  "levelAtLeast level access = (case level of None \<Rightarrow> False | Some l \<Rightarrow> level_rank l \<ge> level_rank access)"

lemma levelAtLeast_simps [simp]:
  "\<not> levelAtLeast None access" "levelAtLeast (Some l) access \<longleftrightarrow> access \<le> l"
  by (simp_all add: levelAtLeast_def less_eq_space_level_def)

lemma manage_top [simp]: "access \<le> ManageLevel" "ManageLevel \<le> access \<longleftrightarrow> access = ManageLevel"
  "ReadLevel \<le> access" "EditLevel \<le> access \<longleftrightarrow> access \<noteq> ReadLevel" "access \<le> ReadLevel \<longleftrightarrow> access = ReadLevel"
  by (cases access; simp add: less_eq_space_level_def)+

section \<open>Rows, identities and requests\<close>

datatype role = Owner | Member
datatype visibility = Shared | Restricted
datatype subject_type = MemberSubject | AgentSubject
datatype ownership = Personal | Team
datatype thread_access = ThreadsNone | ThreadsRead | ThreadsEdit
datatype principal_type = Human | Agent | SystemPrincipal
datatype credential_class = LocalCredential | BrowserCredential | ResourceCredential

datatype team_error = TeamAccessError string | TeamStateError string | ConstraintError

record team_member =
  member_id :: string
  user_id :: string
  actor_id :: string
  member_name :: string
  email :: string
  role :: role

record agent_row =
  row_id :: string
  row_actor :: string
  row_participant_key :: string
  row_name :: string
  row_platform :: string
  row_ownership :: ownership
  row_member :: "string option"
  row_space_ids :: "string list option"
  row_mode :: string
  row_active :: bool
  row_scope_ceiling :: "string list option"
  row_icon :: "string option"
  row_threads :: thread_access

record team_agent =
  ag_id :: string
  ag_actor :: string
  ag_name :: string
  ag_platform :: string
  ag_ownership :: ownership
  ag_member :: "string option"
  ag_space_ids :: "string list option"
  ag_active :: bool
  ag_mode :: string
  ag_scope_ceiling :: "string list option"
  ag_icon :: "string option"
  ag_threads :: thread_access

record credential =
  cr_agent :: string
  cr_sponsor :: "string option"
  cr_minimum :: int
  cr_active :: bool
  cr_disconnected :: "int option"

record team_claim =
  tc_worktable :: string
  tc_user :: "string option"
  tc_member :: "string option"
  tc_agent :: "string option"
  tc_credential :: "string option"

record token_identity =
  id_user :: string
  id_workspace :: string
  credential_class :: "credential_class option"
  id_scopes :: "string list"
  id_agent :: "string option"
  principal_id :: string
  principal_kind :: principal_type
  principal_name :: string
  principal_authorized :: "string option"
  principal_participant :: "string option"
  issued_at :: "int option"
  expires_at :: "int option"
  session_id :: "string option"
  id_team :: "team_claim option"
  operator_verification :: bool

type_synonym grant_key = "string \<times> subject_type \<times> string"

record team_state =
  worktable :: "string option"
  members :: "(string \<times> team_member) list"
  enrollments :: "(string \<times> string) list"
  sessions :: "(string \<times> (string \<times> int option)) list"
  space_policy :: "(string \<times> visibility) list"
  space_grants :: "(grant_key \<times> space_level) list"
  agents :: "(string \<times> agent_row) list"
  credentials :: "(string \<times> credential) list"
  start_spaces :: "(string \<times> string option) list"
  pending_reset :: "string option"
  policy_revision :: nat

record request =
  visitor :: "string option option"
  identity_of :: "token_identity option"
  clock :: int

section \<open>Request scopes\<close>

definition isSpaceIdShape :: "string \<Rightarrow> bool" where
  "isSpaceIdShape spaceId \<longleftrightarrow>
     spaceId \<noteq> [] \<and> spaceId \<noteq> ''.'' \<and> spaceId \<noteq> ''..''
     \<and> \<not> list_ex (\<lambda>c. c \<in> {CHR 0x5C, CHR ''/'', CHR 0x00}) spaceId"

definition runAsLinkVisitor :: "request \<Rightarrow> request" where
  "runAsLinkVisitor r = r\<lparr>visitor := Some None, identity_of := None\<rparr>"

definition withLinkGrantRead :: "string \<Rightarrow> request \<Rightarrow> team_error + request" where
  "withLinkGrantRead spaceId r =
     (if visitor r = None then Inl (TeamStateError ''withLinkGrantRead runs only inside runAsLinkVisitor'')
      else if \<not> isSpaceIdShape spaceId then Inl (TeamAccessError '''')
      else Inr (r\<lparr>visitor := Some (Some spaceId)\<rparr>))"

definition runWithTeamIdentity :: "token_identity \<Rightarrow> request \<Rightarrow> team_error + request" where
  "runWithTeamIdentity identity r =
     (if visitor r \<noteq> None then Inl (TeamAccessError '''')
      else Inr (r\<lparr>identity_of := Some identity\<rparr>))"

definition runWithoutTeamIdentity :: "request \<Rightarrow> request" where
  "runWithoutTeamIdentity r = r\<lparr>identity_of := None\<rparr>"

section \<open>Members and agents behind an identity\<close>

definition findTeamMemberById :: "team_state \<Rightarrow> string \<Rightarrow> team_member option" where
  "findTeamMemberById db memberId =
     (if worktable db = None then None else map_of (members db) memberId)"

definition session_stands :: "request \<Rightarrow> team_state \<Rightarrow> token_identity \<Rightarrow> team_claim \<Rightarrow> bool" where
  "session_stands r db identity claim =
     (case session_id identity of
        None \<Rightarrow> True
      | Some sessionId \<Rightarrow>
          (case map_of (sessions db) sessionId of
             None \<Rightarrow> False
           | Some (userId, expiresAt) \<Rightarrow>
               Some userId = tc_user claim
               \<and> (case expiresAt of None \<Rightarrow> False | Some t \<Rightarrow> \<not> t \<le> clock r)))"

definition teamMemberForIdentity :: "request \<Rightarrow> team_state \<Rightarrow> token_identity \<Rightarrow> team_member option" where
  "teamMemberForIdentity r db identity =
     (if visitor r \<noteq> None then None
      else (case (worktable db, id_team identity) of
        (Some w, Some claim) \<Rightarrow>
          if tc_worktable claim \<noteq> w \<or> principal_kind identity \<noteq> Human then None
          else (case tc_member claim of
            None \<Rightarrow> None
          | Some memberId \<Rightarrow>
              if \<not> session_stands r db identity claim then None
              else (case findTeamMemberById db memberId of
                None \<Rightarrow> None
              | Some member \<Rightarrow>
                  if Some (user_id member) = tc_user claim \<and> actor_id member = principal_id identity
                  then Some member else None))
      | _ \<Rightarrow> None))"

definition teamScopeCeiling :: "string list option \<Rightarrow> string list option" where
  "teamScopeCeiling stored = map_option currentScopesForStored stored"

definition parseAgent :: "agent_row \<Rightarrow> team_agent" where
  "parseAgent row =
     \<lparr>ag_id = row_id row, ag_actor = row_actor row, ag_name = row_name row,
      ag_platform = row_platform row, ag_ownership = row_ownership row, ag_member = row_member row,
      ag_space_ids = row_space_ids row, ag_active = row_active row, ag_mode = row_mode row,
      ag_scope_ceiling = teamScopeCeiling (row_scope_ceiling row), ag_icon = row_icon row,
      ag_threads = row_threads row\<rparr>"

text \<open>A personal agent works only while its member does.\<close>

definition member_missing :: "team_state \<Rightarrow> team_agent \<Rightarrow> bool" where
  "member_missing db agent \<longleftrightarrow>
     ag_ownership agent = Personal
     \<and> (case ag_member agent of None \<Rightarrow> True | Some m \<Rightarrow> findTeamMemberById db m = None)"

definition sponsor_gone :: "team_state \<Rightarrow> credential \<Rightarrow> bool" where
  "sponsor_gone db c =
     (case cr_sponsor c of None \<Rightarrow> False | Some m \<Rightarrow> map_of (members db) m = None)"

definition issued_too_early :: "token_identity \<Rightarrow> credential \<Rightarrow> bool" where
  "issued_too_early identity c \<longleftrightarrow>
     cr_minimum c > 0 \<and> (case issued_at identity of None \<Rightarrow> 0 | Some t \<Rightarrow> t) < cr_minimum c"

definition teamAgentForIdentity :: "request \<Rightarrow> team_state \<Rightarrow> token_identity \<Rightarrow> team_agent option" where
  "teamAgentForIdentity r db identity =
     (if visitor r \<noteq> None then None
      else (case (worktable db, id_team identity) of
        (Some w, Some claim) \<Rightarrow>
          if principal_kind identity \<noteq> Agent \<or> tc_worktable claim \<noteq> w then None
          else (case tc_agent claim of
            None \<Rightarrow> None
          | Some agentId \<Rightarrow>
              (case map_of (agents db) agentId of
                None \<Rightarrow> None
              | Some row \<Rightarrow>
                  if \<not> row_active row \<or> row_actor row \<noteq> principal_id identity then None
                  else (case tc_credential claim of
                    None \<Rightarrow> None
                  | Some key \<Rightarrow>
                      (case map_of (credentials db) key of
                        None \<Rightarrow> None
                      | Some c \<Rightarrow>
                          if \<not> cr_active c \<or> cr_agent c \<noteq> agentId \<or> sponsor_gone db c
                             \<or> issued_too_early identity c then None
                          else (let agent = parseAgent row
                                in if (case ag_scope_ceiling agent of None \<Rightarrow> False
                                       | Some ceiling \<Rightarrow>
                                           list_ex (\<lambda>scope. \<not> hasScope ceiling scope) (id_scopes identity))
                                   then None
                                   else if member_missing db agent then None
                                   else Some agent)))))
      | _ \<Rightarrow> None))"

text \<open>\<open>agentOrder\<close>: the rows by name, then id.\<close>

definition agent_rows :: "team_state \<Rightarrow> agent_row list" where
  "agent_rows db = sort_key (\<lambda>row. (row_name row, row_id row)) (map snd (agents db))"

definition teamAgentForParticipantKey :: "request \<Rightarrow> team_state \<Rightarrow> string \<Rightarrow> team_agent option" where
  "teamAgentForParticipantKey r db key =
     (if visitor r \<noteq> None \<or> worktable db = None then None
      else (case List.find (\<lambda>row. row_participant_key row = key) (agent_rows db) of
        None \<Rightarrow> None
      | Some row \<Rightarrow>
          if \<not> row_active row then None
          else (let agent = parseAgent row
                in if member_missing db agent then None
                   else if \<not> list_ex (\<lambda>(k, c). cr_active c \<and> cr_agent c = ag_id agent \<and> \<not> sponsor_gone db c)
                             (credentials db) then None
                   else Some agent)))"

definition assertCurrentTeamIdentity :: "request \<Rightarrow> team_state \<Rightarrow> token_identity \<Rightarrow> team_error + unit" where
  "assertCurrentTeamIdentity r db identity =
     (if visitor r \<noteq> None then Inl (TeamAccessError '''')
      else if worktable db = None \<or> operator_verification identity then Inr ()
      else if (case expires_at identity of None \<Rightarrow> False | Some t \<Rightarrow> t \<le> clock r)
      then Inl (TeamAccessError ''The connection has expired'')
      else if teamMemberForIdentity r db identity = None \<and> teamAgentForIdentity r db identity = None
      then Inl (TeamAccessError ''Worktable membership is required'')
      else Inr ())"

definition requireTeamHuman :: "request \<Rightarrow> team_state \<Rightarrow> token_identity \<Rightarrow> team_error + team_member" where
  "requireTeamHuman r db identity =
     (case teamMemberForIdentity r db identity of
        None \<Rightarrow> Inl (TeamAccessError ''A human member must perform this action'')
      | Some member \<Rightarrow> Inr member)"

definition requireTeamOwner :: "request \<Rightarrow> team_state \<Rightarrow> token_identity \<Rightarrow> team_error + team_member" where
  "requireTeamOwner r db identity =
     (case requireTeamHuman r db identity of
        Inl e \<Rightarrow> Inl e
      | Inr member \<Rightarrow>
          if role member \<noteq> Owner then Inl (TeamAccessError ''A Worktable owner must perform this action'')
          else Inr member)"

section \<open>Decisions\<close>

definition grantedLevel :: "team_state \<Rightarrow> string \<Rightarrow> subject_type \<Rightarrow> string \<Rightarrow> space_level option" where
  "grantedLevel db spaceId subjectType subjectId = map_of (space_grants db) (spaceId, subjectType, subjectId)"

definition memberLevel :: "team_state \<Rightarrow> team_member \<Rightarrow> string \<Rightarrow> space_level option" where
  "memberLevel db member spaceId =
     (if role member = Owner then Some ManageLevel
      else (let granted = grantedLevel db spaceId MemberSubject (member_id member)
            in if map_of (space_policy db) spaceId = Some Shared
               then (if granted = Some ManageLevel then Some ManageLevel else Some EditLevel)
               else granted))"

definition memberHasSpaceAccess :: "team_state \<Rightarrow> team_member \<Rightarrow> string \<Rightarrow> space_level \<Rightarrow> bool" where
  "memberHasSpaceAccess db member spaceId access \<longleftrightarrow>
     role member = Owner \<or> levelAtLeast (memberLevel db member spaceId) access"

definition teamAgentHasSpaceAccess ::
    "request \<Rightarrow> team_state \<Rightarrow> team_agent \<Rightarrow> string \<Rightarrow> space_level \<Rightarrow> bool" where
  "teamAgentHasSpaceAccess r db agent spaceId access =
     (if visitor r \<noteq> None then False
      else if ag_ownership agent = Personal then
        (if (case ag_space_ids agent of None \<Rightarrow> False | Some ids \<Rightarrow> spaceId \<notin> set ids) then False
         else (case ag_member agent of
           None \<Rightarrow> False
         | Some m \<Rightarrow>
             (case findTeamMemberById db m of
                None \<Rightarrow> False
              | Some owner \<Rightarrow> memberHasSpaceAccess db owner spaceId access)))
      else levelAtLeast (grantedLevel db spaceId AgentSubject (ag_id agent)) access)"

definition canAccessSpace ::
    "request \<Rightarrow> team_state \<Rightarrow> string \<Rightarrow> space_level \<Rightarrow> token_identity option \<Rightarrow> bool" where
  "canAccessSpace r db spaceId access identity =
     (case visitor r of
        Some grantRead \<Rightarrow> access = ReadLevel \<and> grantRead = Some spaceId
      | None \<Rightarrow>
          (case identity of
             None \<Rightarrow> True
           | Some idn \<Rightarrow>
               if worktable db = None then True
               else if \<not> isSpaceIdShape spaceId then False
               else if operator_verification idn then access = ReadLevel
               else (case teamMemberForIdentity r db idn of
                 Some member \<Rightarrow> memberHasSpaceAccess db member spaceId access
               | None \<Rightarrow>
                   (case teamAgentForIdentity r db idn of
                      None \<Rightarrow> False
                    | Some agent \<Rightarrow>
                        if access = ManageLevel then False
                        else teamAgentHasSpaceAccess r db agent spaceId access))))"

definition assertSpaceAccess ::
    "request \<Rightarrow> team_state \<Rightarrow> string \<Rightarrow> space_level \<Rightarrow> token_identity option \<Rightarrow> team_error + unit" where
  "assertSpaceAccess r db spaceId access identity =
     (if canAccessSpace r db spaceId access identity then Inr () else Inl (TeamAccessError ''''))"

definition agentWorktableThreadAccess :: "request \<Rightarrow> team_agent \<Rightarrow> thread_access" where
  "agentWorktableThreadAccess r agent =
     (if visitor r \<noteq> None then ThreadsNone
      else if ag_ownership agent = Personal
      then (if ag_space_ids agent = None then ThreadsEdit else ThreadsNone)
      else ag_threads agent)"

definition thread_level :: "thread_access \<Rightarrow> space_level option" where
  "thread_level t = (case t of ThreadsNone \<Rightarrow> None | ThreadsRead \<Rightarrow> Some ReadLevel | ThreadsEdit \<Rightarrow> Some EditLevel)"

definition canAccessWorktableThreads ::
    "request \<Rightarrow> team_state \<Rightarrow> space_level \<Rightarrow> token_identity option \<Rightarrow> bool" where
  "canAccessWorktableThreads r db access identity =
     (if visitor r \<noteq> None then False
      else (case identity of
        None \<Rightarrow> True
      | Some idn \<Rightarrow>
          if worktable db = None then True
          else if operator_verification idn then access = ReadLevel
          else if teamMemberForIdentity r db idn \<noteq> None then True
          else (case teamAgentForIdentity r db idn of
            None \<Rightarrow> False
          | Some agent \<Rightarrow> levelAtLeast (thread_level (agentWorktableThreadAccess r agent)) access)))"

definition assertWorktableThreadAccess ::
    "request \<Rightarrow> team_state \<Rightarrow> space_level \<Rightarrow> token_identity option \<Rightarrow> team_error + unit" where
  "assertWorktableThreadAccess r db access identity =
     (if canAccessWorktableThreads r db access identity then Inr () else Inl (TeamAccessError ''''))"

text \<open>\<open>None\<close> means every Space; the argument \<open>inventory\<close> lists the Spaces on disk.\<close>

definition readableSpaceIds ::
    "request \<Rightarrow> team_state \<Rightarrow> string list \<Rightarrow> token_identity option \<Rightarrow> string list option" where
  "readableSpaceIds r db inventory identity =
     (if visitor r \<noteq> None then Some []
      else (case identity of
        None \<Rightarrow> None
      | Some idn \<Rightarrow>
          if worktable db = None then None
          else if map_option role (teamMemberForIdentity r db idn) = Some Owner then None
          else Some (filter (\<lambda>spaceId. canAccessSpace r db spaceId ReadLevel identity) inventory)))"

definition commentAccess :: "request \<Rightarrow> team_state \<Rightarrow> token_identity option \<Rightarrow> space_level" where
  "commentAccess r db identity =
     (case identity of
        None \<Rightarrow> EditLevel
      | Some idn \<Rightarrow> if teamMemberForIdentity r db idn \<noteq> None then ReadLevel else EditLevel)"

definition canCreateTeamSpace :: "request \<Rightarrow> team_state \<Rightarrow> token_identity option \<Rightarrow> bool" where
  "canCreateTeamSpace r db identity =
     (if visitor r \<noteq> None then False
      else (case identity of
        None \<Rightarrow> True
      | Some idn \<Rightarrow>
          if worktable db = None then True
          else if \<not> hasScope (id_scopes idn) ''docs:write'' then False
          else if teamMemberForIdentity r db idn \<noteq> None then True
          else (case teamAgentForIdentity r db idn of
            None \<Rightarrow> False
          | Some agent \<Rightarrow> ag_ownership agent = Personal \<and> ag_space_ids agent = None)))"

section \<open>Graded access\<close>

text \<open>
  What the callers of an access check rely on: whoever holds a level holds the lower ones. Each
  check of this theory is an instance.
\<close>

locale graded_access =
  fixes allows :: "'a \<Rightarrow> space_level \<Rightarrow> bool"
  assumes lower: "allows x l \<Longrightarrow> k \<le> l \<Longrightarrow> allows x k"
begin

lemma manage_all: "allows x ManageLevel \<Longrightarrow> allows x l"
  by (erule lower) simp

lemma refused_read: "\<not> allows x ReadLevel \<Longrightarrow> \<not> allows x l"
  using lower [of x l ReadLevel] by auto

lemma edit_reads: "allows x EditLevel \<Longrightarrow> allows x ReadLevel"
  by (erule lower) simp

end

lemma levelAtLeast_lower: "levelAtLeast level l \<Longrightarrow> k \<le> l \<Longrightarrow> levelAtLeast level k"
  by (cases level) auto

interpretation member_access: graded_access "\<lambda>(db, member, spaceId). memberHasSpaceAccess db member spaceId"
  by unfold_locales (auto simp: memberHasSpaceAccess_def intro: levelAtLeast_lower)

interpretation agent_access: graded_access "\<lambda>(r, db, agent, spaceId). teamAgentHasSpaceAccess r db agent spaceId"
proof (unfold_locales, goal_cases)
  case (1 x l k)
  then show ?case
    using member_access.lower [of _ l k]
    by (auto simp: teamAgentHasSpaceAccess_def split: if_splits option.splits intro: levelAtLeast_lower)
qed

lemma read_or_manage: "k \<le> l \<Longrightarrow> l = ReadLevel \<Longrightarrow> k = ReadLevel" "k \<le> l \<Longrightarrow> k = ManageLevel \<Longrightarrow> l = ManageLevel"
  for k l :: space_level
  by simp_all

lemma canAccessSpace_lower:
  assumes "canAccessSpace r db spaceId l identity" "k \<le> l"
  shows "canAccessSpace r db spaceId k identity"
proof (cases "visitor r = None \<and> identity \<noteq> None \<and> worktable db \<noteq> None")
  case False
  with assms read_or_manage(1) [OF assms(2)] show ?thesis
    by (cases "visitor r"; cases identity) (simp_all add: canAccessSpace_def)
next
  case True
  then obtain idn where idn: "visitor r = None" "identity = Some idn" "worktable db \<noteq> None" by blast
  show ?thesis
  proof (cases "teamMemberForIdentity r db idn")
    case (Some member)
    with assms idn read_or_manage [OF assms(2)] member_access.lower [of "(db, member, spaceId)" l k] show ?thesis
      by (simp add: canAccessSpace_def split: if_split_asm)
  next
    case None
    with assms idn read_or_manage [OF assms(2)] agent_access.lower [of "(r, db, a, spaceId)" l k for a] show ?thesis
      by (cases "teamAgentForIdentity r db idn") (auto simp: canAccessSpace_def split: if_split_asm)
  qed
qed

lemma canAccessWorktableThreads_lower:
  assumes "canAccessWorktableThreads r db l identity" "k \<le> l"
  shows "canAccessWorktableThreads r db k identity"
proof (cases "visitor r = None \<and> identity \<noteq> None \<and> worktable db \<noteq> None")
  case False
  with assms show ?thesis
    by (cases "visitor r"; cases identity) (simp_all add: canAccessWorktableThreads_def)
next
  case True
  then obtain idn where idn: "visitor r = None" "identity = Some idn" "worktable db \<noteq> None" by blast
  with assms read_or_manage(1) [OF assms(2)] levelAtLeast_lower [OF _ assms(2)] show ?thesis
    by (cases "teamMemberForIdentity r db idn"; cases "teamAgentForIdentity r db idn")
       (simp_all add: canAccessWorktableThreads_def split: if_split_asm)
qed

interpretation space_access: graded_access "\<lambda>(r, db, spaceId, identity) access. canAccessSpace r db spaceId access identity"
  by unfold_locales (auto intro: canAccessSpace_lower)

interpretation thread_access: graded_access "\<lambda>(r, db, identity) access. canAccessWorktableThreads r db access identity"
  by unfold_locales (auto intro: canAccessWorktableThreads_lower)

section \<open>Properties of the checks\<close>

text \<open>The scopes a request can open from inside another.\<close>

inductive opens :: "request \<Rightarrow> request \<Rightarrow> bool" where
  as_visitor: "opens r (runAsLinkVisitor r)"
| grant_read: "withLinkGrantRead spaceId r = Inr r' \<Longrightarrow> opens r r'"
| with_identity: "runWithTeamIdentity identity r = Inr r' \<Longrightarrow> opens r r'"
| without_identity: "opens r (runWithoutTeamIdentity r)"

inductive_cases opensE: "opens r r'"

lemma opens_visitor:
  assumes "opens r r'" "visitor r \<noteq> None" "identity_of r = None"
  shows "visitor r' \<noteq> None \<and> identity_of r' = None"
  using assms
  by (cases rule: opens.cases)
     (auto simp: runAsLinkVisitor_def withLinkGrantRead_def runWithTeamIdentity_def
        runWithoutTeamIdentity_def split: if_splits)

lemma opens_visitor_trans:
  "opens\<^sup>*\<^sup>* r r' \<Longrightarrow> visitor r \<noteq> None \<Longrightarrow> identity_of r = None \<Longrightarrow> visitor r' \<noteq> None \<and> identity_of r' = None"
  by (induction rule: rtranclp_induct) (auto dest: opens_visitor)


definition trusted_request :: request where
  "trusted_request = \<lparr>visitor = None, identity_of = None, clock = 0\<rparr>"

definition solo_state :: team_state where
  "solo_state = \<lparr>worktable = None, members = [], enrollments = [], sessions = [], space_policy = [],
     space_grants = [], agents = [], credentials = [], start_spaces = [], pending_reset = None, policy_revision = 0\<rparr>"


text \<open>
  C15. A level implies the lower ones. An agent never manages a Space, and a personal agent
  reaches a Space only where its own member does and only within the Spaces it was narrowed to.
\<close>

theorem agent_access_bounded:
  assumes "canAccessSpace r db spaceId access (Some identity)" "worktable db \<noteq> None" "visitor r = None"
    and "\<not> operator_verification identity" "teamMemberForIdentity r db identity = None"
  shows "access \<noteq> ManageLevel \<and> canAccessSpace r db spaceId ReadLevel (Some identity)
    \<and> (\<exists>agent. teamAgentForIdentity r db identity = Some agent
        \<and> (ag_ownership agent = Personal \<longrightarrow>
             (\<exists>m owner. ag_member agent = Some m \<and> findTeamMemberById db m = Some owner
                \<and> memberHasSpaceAccess db owner spaceId access)
             \<and> (\<forall>ids. ag_space_ids agent = Some ids \<longrightarrow> spaceId \<in> set ids))
        \<and> (ag_ownership agent = Team \<longrightarrow>
             levelAtLeast (grantedLevel db spaceId AgentSubject (ag_id agent)) access))"
proof -
  from assms obtain agent where agent: "teamAgentForIdentity r db identity = Some agent"
    "access \<noteq> ManageLevel" "teamAgentHasSpaceAccess r db agent spaceId access"
    by (auto simp: canAccessSpace_def split: option.splits if_splits)
  moreover have "canAccessSpace r db spaceId ReadLevel (Some identity)"
    by (rule canAccessSpace_lower [OF assms(1)]) simp
  ultimately show ?thesis
    by (auto simp: teamAgentHasSpaceAccess_def split: if_splits option.splits)
qed

definition sample_member :: team_member where
  "sample_member = \<lparr>member_id = ''m1'', user_id = ''u1'', actor_id = ''h1'', member_name = ''Ada'', email = ''a'', role = Member\<rparr>"

definition sample_agent :: agent_row where
  "sample_agent = \<lparr>row_id = ''agt'', row_actor = ''agent:1'', row_participant_key = ''p'', row_name = ''bot'',
     row_platform = ''x'', row_ownership = Personal, row_member = Some ''m1'', row_space_ids = Some [''notes''],
     row_mode = ''on-demand'', row_active = True, row_scope_ceiling = None, row_icon = None, row_threads = ThreadsNone\<rparr>"

definition sample_state :: team_state where
  "sample_state = solo_state\<lparr>worktable := Some ''w'', members := [(''m1'', sample_member)],
     space_policy := [(''notes'', Shared)], agents := [(''agt'', sample_agent)],
     credentials := [(''k'', \<lparr>cr_agent = ''agt'', cr_sponsor = Some ''m1'', cr_minimum = 0, cr_active = True, cr_disconnected = None\<rparr>)]\<rparr>"

definition sample_identity :: token_identity where
  "sample_identity = \<lparr>id_user = ''m1'', id_workspace = ''w'', credential_class = Some LocalCredential, id_scopes = [''docs:read''],
     id_agent = Some ''x'', principal_id = ''agent:1'',
     principal_kind = Agent, principal_name = ''bot'', principal_authorized = None, principal_participant = None, issued_at = None,
     expires_at = None, session_id = None,
     id_team = Some \<lparr>tc_worktable = ''w'', tc_user = None, tc_member = Some ''m1'', tc_agent = Some ''agt'', tc_credential = Some ''k''\<rparr>,
     operator_verification = False\<rparr>"

lemmas sample_defs = sample_member_def sample_agent_def sample_state_def sample_identity_def
  solo_state_def trusted_request_def

theorem agent_access_bounded_witness:
  "canAccessSpace trusted_request sample_state ''notes'' ReadLevel (Some sample_identity)"
proof -
  have "canAccessSpace trusted_request sample_state ''notes'' EditLevel (Some sample_identity)" by code_simp
  moreover have "worktable sample_state \<noteq> None" by (simp add: sample_defs)
  moreover have "visitor trusted_request = None" "\<not> operator_verification sample_identity"
    by (simp_all add: sample_defs)
  moreover have "teamMemberForIdentity trusted_request sample_state sample_identity = None" by code_simp
  ultimately show ?thesis
    using agent_access_bounded [of trusted_request sample_state "''notes''" EditLevel sample_identity] by blast
qed

end
