(* ===== verification/TeamAdmin.thy ===== *)
theory TeamAdmin
  imports TeamPolicy
begin

text \<open>
  The operations of \<open>packages/server/src/team-policy.ts\<close> that change the team database:
  Space policies and grants, agents and their credentials, and the reset that follows a content
  replacement. Each returns the error it throws, or its value and the rows after its transaction.
\<close>

section \<open>Statements\<close>

definition advanceTeamPolicy :: "team_state \<Rightarrow> team_state" where
  "advanceTeamPolicy db = db\<lparr>policy_revision := policy_revision db + 1\<rparr>"

definition insert_grant :: "grant_key \<Rightarrow> space_level \<Rightarrow> team_state \<Rightarrow> team_error + team_state" where
  "insert_grant key level db =
     (if map_of (space_grants db) key \<noteq> None then Inl ConstraintError
      else Inr (db\<lparr>space_grants := space_grants db @ [(key, level)]\<rparr>))"

fun insert_grants :: "(grant_key \<times> space_level) list \<Rightarrow> team_state \<Rightarrow> team_error + team_state" where
  "insert_grants [] db = Inr db"
| "insert_grants ((key, level) # gs) db =
     (case insert_grant key level db of Inl e \<Rightarrow> Inl e | Inr db' \<Rightarrow> insert_grants gs db')"

definition delete_grants :: "(grant_key \<Rightarrow> bool) \<Rightarrow> team_state \<Rightarrow> team_state" where
  "delete_grants P db = db\<lparr>space_grants := filter (\<lambda>(key, level). \<not> P key) (space_grants db)\<rparr>"

definition update_agent :: "string \<Rightarrow> (agent_row \<Rightarrow> agent_row) \<Rightarrow> team_state \<Rightarrow> team_state" where
  "update_agent agentId f db =
     db\<lparr>agents := map (\<lambda>(k, row). (k, if k = agentId then f row else row)) (agents db)\<rparr>"

definition update_credentials :: "(string \<Rightarrow> credential \<Rightarrow> bool) \<Rightarrow> (credential \<Rightarrow> credential) \<Rightarrow> team_state \<Rightarrow> team_state" where
  "update_credentials P f db =
     db\<lparr>credentials := map (\<lambda>(k, c). (k, if P k c then f c else c)) (credentials db)\<rparr>"

section \<open>Space policies\<close>

text \<open>The grants a new Space starts with: its creator's, or its creator's agent's.\<close>

definition first_grants :: "request \<Rightarrow> team_state \<Rightarrow> string \<Rightarrow> (grant_key \<times> space_level) list" where
  "first_grants r db spaceId =
     (let human = Option.bind (identity_of r) (teamMemberForIdentity r db);
          agent = Option.bind (identity_of r) (teamAgentForIdentity r db);
          managerId = (case human of
              Some m \<Rightarrow> Some (member_id m)
            | None \<Rightarrow> (case agent of
                Some a \<Rightarrow> (if ag_ownership a = Personal then ag_member a else None)
              | None \<Rightarrow> None))
      in (case managerId of None \<Rightarrow> [] | Some m \<Rightarrow> [((spaceId, MemberSubject, m), ManageLevel)])
         @ (case agent of
              Some a \<Rightarrow> (if ag_ownership a = Team then [((spaceId, AgentSubject, ag_id a), EditLevel)] else [])
            | None \<Rightarrow> []))"

definition registerTeamSpace ::
    "request \<Rightarrow> string \<Rightarrow> bool \<Rightarrow> team_state \<Rightarrow> team_error + (bool \<times> team_state)" where
  "registerTeamSpace r spaceId existing db =
     (if visitor r \<noteq> None then Inl (TeamAccessError '''')
      else if worktable db = None then Inr (False, db)
      else if map_of (space_policy db) spaceId \<noteq> None then Inr (False, db)
      else (let vis = (if existing \<or> identity_of r = None then Restricted else Shared)
            in (case insert_grants (first_grants r db spaceId)
                       (db\<lparr>space_policy := space_policy db @ [(spaceId, vis)]\<rparr>) of
                  Inl e \<Rightarrow> Inl e
                | Inr db' \<Rightarrow> Inr (True, advanceTeamPolicy db'))))"

definition resetTeamSpacePolicyRows :: "string \<Rightarrow> team_state \<Rightarrow> team_state" where
  "resetTeamSpacePolicyRows worktableId db =
     advanceTeamPolicy (db\<lparr>space_grants := [], space_policy := [],
       start_spaces := map (\<lambda>(k, s). (k, None)) (start_spaces db),
       pending_reset := (if pending_reset db = Some worktableId then None else pending_reset db)\<rparr>)"

definition resetTeamSpacePoliciesAfterContentReplacement :: "team_state \<Rightarrow> team_state" where
  "resetTeamSpacePoliciesAfterContentReplacement db =
     (case worktable db of None \<Rightarrow> db | Some w \<Rightarrow> resetTeamSpacePolicyRows w db)"

definition prepareTeamSpacePolicyResetForMissingRootRecovery ::
    "string \<Rightarrow> team_state \<Rightarrow> team_error + team_state" where
  "prepareTeamSpacePolicyResetForMissingRootRecovery worktableId db =
     (case worktable db of
        None \<Rightarrow> Inr db
      | Some w \<Rightarrow>
          if w \<noteq> worktableId then Inl (TeamStateError ''Recovery belongs to another Worktable'')
          else Inr (db\<lparr>pending_reset := Some w\<rparr>))"

definition finalizePendingTeamSpacePolicyReset :: "team_state \<Rightarrow> team_error + team_state" where
  "finalizePendingTeamSpacePolicyReset db =
     (case pending_reset db of
        None \<Rightarrow> Inr db
      | Some p \<Rightarrow>
          if worktable db \<noteq> Some p
          then Inl (TeamStateError ''Content recovery belongs to another Worktable'')
          else Inr (resetTeamSpacePolicyRows p db))"

definition retireTeamSpacePolicy :: "string \<Rightarrow> team_state \<Rightarrow> team_state" where
  "retireTeamSpacePolicy spaceId db =
     (if worktable db = None then db
      else advanceTeamPolicy ((delete_grants (\<lambda>(s, t, i). s = spaceId) db)
        \<lparr>space_policy := filter (\<lambda>(s, v). s \<noteq> spaceId) (space_policy db),
         start_spaces := map (\<lambda>(k, s). (k, if s = Some spaceId then None else s)) (start_spaces db)\<rparr>))"

record space_access_policy =
  sp_space :: string
  sp_visibility :: visibility
  sp_grants :: "((subject_type \<times> string) \<times> space_level) list"

text \<open>\<open>ORDER BY subject_type, subject_id\<close>: \<open>agent\<close> comes before \<open>member\<close>.\<close>

definition subject_text :: "subject_type \<Rightarrow> string" where
  "subject_text t = (case t of MemberSubject \<Rightarrow> ''member'' | AgentSubject \<Rightarrow> ''agent'')"

definition space_grants_of :: "team_state \<Rightarrow> string \<Rightarrow> ((subject_type \<times> string) \<times> space_level) list" where
  "space_grants_of db spaceId =
     map (\<lambda>((s, t, i), level). ((t, i), level))
       (sort_key (\<lambda>((s, t, i), level). (subject_text t, i))
         (filter (\<lambda>((s, t, i), level). s = spaceId) (space_grants db)))"

definition getSpaceAccessPolicy ::
    "request \<Rightarrow> team_state \<Rightarrow> string \<Rightarrow> team_error + space_access_policy" where
  "getSpaceAccessPolicy r db spaceId =
     (case assertSpaceAccess r db spaceId ManageLevel (identity_of r) of
        Inl e \<Rightarrow> Inl e
      | Inr _ \<Rightarrow>
          if worktable db = None then Inl (TeamAccessError ''Enable Teams before managing Space access'')
          else Inr \<lparr>sp_space = spaceId,
                    sp_visibility = (case map_of (space_policy db) spaceId of None \<Rightarrow> Restricted | Some v \<Rightarrow> v),
                    sp_grants = space_grants_of db spaceId\<rparr>)"

text \<open>The loop that checks each grant of a new policy.\<close>

definition check_grant :: "team_state \<Rightarrow> (subject_type \<times> string) \<times> space_level \<Rightarrow> team_error + unit" where
  "check_grant db g =
     (case g of ((subjectType, subjectId), access) \<Rightarrow>
        (case subjectType of
           MemberSubject \<Rightarrow>
             (if findTeamMemberById db subjectId = None then Inl (TeamAccessError ''Unknown member'') else Inr ())
         | AgentSubject \<Rightarrow>
             (case map_of (agents db) subjectId of
                None \<Rightarrow> Inl (TeamAccessError ''Unknown team agent or invalid agent permission'')
              | Some row \<Rightarrow>
                  if row_ownership row = Team \<and> row_active row \<and> access \<noteq> ManageLevel then Inr ()
                  else Inl (TeamAccessError ''Unknown team agent or invalid agent permission''))))"

definition setSpaceAccessPolicy ::
    "request \<Rightarrow> space_access_policy \<Rightarrow> token_identity \<Rightarrow> team_state \<Rightarrow> team_error + team_state" where
  "setSpaceAccessPolicy r policy identity db =
     (case requireTeamHuman r db identity of
        Inl e \<Rightarrow> Inl e
      | Inr _ \<Rightarrow>
          (case assertSpaceAccess r db (sp_space policy) ManageLevel (Some identity) of
             Inl e \<Rightarrow> Inl e
           | Inr _ \<Rightarrow>
               (case traverse (check_grant db) (sp_grants policy) of
                  Inl e \<Rightarrow> Inl e
                | Inr _ \<Rightarrow>
                    (let db1 = db\<lparr>space_policy := AList.update (sp_space policy) (sp_visibility policy) (space_policy db)\<rparr>;
                         db2 = delete_grants (\<lambda>(s, t, i). s = sp_space policy) db1;
                         wanted = map (\<lambda>((t, i), level). ((sp_space policy, t, i), level)) (sp_grants policy)
                     in (case insert_grants wanted db2 of
                           Inl e \<Rightarrow> Inl e
                         | Inr db3 \<Rightarrow> Inr (advanceTeamPolicy db3))))))"

section \<open>Agents\<close>

text \<open>\<open>uuid\<close> and \<open>uuid'\<close> are the two fresh ids.\<close>

definition new_agent :: "string \<Rightarrow> string \<Rightarrow> string \<Rightarrow> ownership \<Rightarrow> string \<Rightarrow> string \<Rightarrow> team_agent" where
  "new_agent name platform memberId own uuid uuid' =
     \<lparr>ag_id = ''agt_'' @ uuid, ag_actor = ''agent:'' @ uuid', ag_name = name, ag_platform = platform,
      ag_ownership = own, ag_member = (if own = Personal then Some memberId else None),
      ag_space_ids = None, ag_active = True, ag_mode = ''on-demand'', ag_scope_ceiling = None,
      ag_icon = None, ag_threads = ThreadsNone\<rparr>"

definition agent_to_row :: "team_agent \<Rightarrow> agent_row" where
  "agent_to_row a =
     \<lparr>row_id = ag_id a, row_actor = ag_actor a, row_participant_key = ''principal:'' @ ag_actor a,
      row_name = ag_name a, row_platform = ag_platform a, row_ownership = ag_ownership a,
      row_member = ag_member a, row_space_ids = None, row_mode = ''on-demand'', row_active = True,
      row_scope_ceiling = None, row_icon = None, row_threads = ThreadsNone\<rparr>"

definition createTeamAgent ::
    "request \<Rightarrow> string \<Rightarrow> string \<Rightarrow> ownership \<Rightarrow> token_identity \<Rightarrow> string \<Rightarrow> string \<Rightarrow> team_state
       \<Rightarrow> team_error + (team_agent \<times> team_state)" where
  "createTeamAgent r name platform own identity uuid uuid' db =
     (case (if own = Team then requireTeamOwner r db identity else requireTeamHuman r db identity) of
        Inl e \<Rightarrow> Inl e
      | Inr member \<Rightarrow>
          (let agent = new_agent name platform (member_id member) own uuid uuid'
           in if map_of (agents db) (ag_id agent) \<noteq> None
                 \<or> list_ex (\<lambda>(k, row). row_actor row = ag_actor agent) (agents db)
              then Inl ConstraintError
              else Inr (agent, advanceTeamPolicy (db\<lparr>agents := agents db @ [(ag_id agent, agent_to_row agent)]\<rparr>))))"

definition listTeamAgents :: "request \<Rightarrow> team_state \<Rightarrow> token_identity \<Rightarrow> team_error + team_agent list" where
  "listTeamAgents r db identity =
     (case requireTeamHuman r db identity of
        Inl e \<Rightarrow> Inl e
      | Inr member \<Rightarrow>
          Inr (map parseAgent (filter (\<lambda>row. role member = Owner \<or> row_ownership row = Team
                \<or> row_member row = Some (member_id member)) (agent_rows db))))"

text \<open>Who may act on an active agent: its own member, or an owner for a team agent.\<close>

definition administers :: "team_member \<Rightarrow> agent_row \<Rightarrow> bool" where
  "administers member row \<longleftrightarrow>
     (if row_ownership row = Personal then row_member row = Some (member_id member) else role member = Owner)"

definition active_agent :: "team_state \<Rightarrow> string \<Rightarrow> agent_row option" where
  "active_agent db agentId =
     (case map_of (agents db) agentId of
        None \<Rightarrow> None
      | Some row \<Rightarrow> if row_active row then Some row else None)"

definition bindTeamAgentCredential ::
    "request \<Rightarrow> string \<Rightarrow> string \<Rightarrow> token_identity \<Rightarrow> bool \<Rightarrow> team_state \<Rightarrow> team_error + team_state" where
  "bindTeamAgentCredential r agentId key identity dependsOnMember db =
     (case requireTeamHuman r db identity of
        Inl e \<Rightarrow> Inl e
      | Inr member \<Rightarrow>
          (case active_agent db agentId of
             None \<Rightarrow> Inl (TeamAccessError ''You cannot connect this agent'')
           | Some row \<Rightarrow>
               if \<not> administers member row then Inl (TeamAccessError ''You cannot connect this agent'')
               else (let sponsor = (if dependsOnMember \<or> row_ownership row = Personal
                                    then Some (member_id member) else None)
                     in (case map_of (credentials db) key of
                           None \<Rightarrow>
                             Inr (advanceTeamPolicy (db\<lparr>credentials := credentials db @
                               [(key, \<lparr>cr_agent = agentId, cr_sponsor = sponsor, cr_minimum = 0,
                                       cr_active = True, cr_disconnected = None\<rparr>)]\<rparr>))
                         | Some c \<Rightarrow>
                             if cr_agent c \<noteq> agentId
                             then Inl (TeamAccessError ''This credential already belongs to another agent'')
                             else Inr (advanceTeamPolicy (update_credentials (\<lambda>k _. k = key)
                                    (\<lambda>c. c\<lparr>cr_active := True, cr_sponsor := sponsor\<rparr>) db))))))"

definition resolveTeamAgentCredential :: "request \<Rightarrow> team_state \<Rightarrow> token_identity \<Rightarrow> token_identity option" where
  "resolveTeamAgentCredential r db identity =
     (if visitor r \<noteq> None then None
      else (case worktable db of
        None \<Rightarrow> Some identity
      | Some w \<Rightarrow>
          (case map_of (credentials db) (principal_id identity) of
             None \<Rightarrow> None
           | Some c \<Rightarrow>
               (case map_of (agents db) (cr_agent c) of
                  None \<Rightarrow> None
                | Some row \<Rightarrow>
                    if \<not> cr_active c \<or> \<not> row_active row \<or> issued_too_early identity c \<or> sponsor_gone db c
                    then None
                    else (let agent = parseAgent row
                          in if member_missing db agent then None
                             else Some (identity\<lparr>
                               id_user := (case ag_member agent of None \<Rightarrow> ''team'' | Some m \<Rightarrow> m),
                               id_agent := Some (ag_platform agent),
                               id_scopes := (case ag_scope_ceiling agent of
                                   None \<Rightarrow> id_scopes identity
                                 | Some ceiling \<Rightarrow> filter (hasScope (id_scopes identity)) ceiling),
                               principal_id := ag_actor agent, principal_kind := Agent,
                               principal_name := ag_name agent, principal_authorized := None,
                               principal_participant := Some (row_participant_key row),
                               id_team := Some \<lparr>tc_worktable = w, tc_user = None,
                                 tc_member = ag_member agent, tc_agent = Some (ag_id agent),
                                 tc_credential = Some (principal_id identity)\<rparr>\<rparr>))))))"

definition requireTeamAgentAdministrator ::
    "request \<Rightarrow> team_state \<Rightarrow> string \<Rightarrow> token_identity \<Rightarrow> team_error + team_agent" where
  "requireTeamAgentAdministrator r db agentId identity =
     (case requireTeamHuman r db identity of
        Inl e \<Rightarrow> Inl e
      | Inr member \<Rightarrow>
          (case active_agent db agentId of
             None \<Rightarrow> Inl (TeamAccessError ''You cannot administer this agent'')
           | Some row \<Rightarrow>
               if administers member row then Inr (parseAgent row)
               else Inl (TeamAccessError ''You cannot administer this agent'')))"

text \<open>A field of a patch is \<open>None\<close> when it is absent.\<close>

record agent_patch =
  pa_name :: "string option"
  pa_space_ids :: "string list option option"
  pa_scope_ceiling :: "string list option option"
  pa_icon :: "string option option"
  pa_deactivate :: bool
  pa_threads :: "thread_access option"

definition patch_agent :: "agent_patch \<Rightarrow> team_agent \<Rightarrow> team_agent" where
  "patch_agent p a = a
     \<lparr>ag_name := case_option (ag_name a) id (pa_name p),
      ag_space_ids := case_option (ag_space_ids a) id (pa_space_ids p),
      ag_scope_ceiling := case_option (ag_scope_ceiling a) id (pa_scope_ceiling p),
      ag_icon := case_option (ag_icon a) id (pa_icon p),
      ag_active := (if pa_deactivate p then False else ag_active a),
      ag_threads := case_option (ag_threads a) id (pa_threads p)\<rparr>"

definition write_agent :: "team_agent \<Rightarrow> agent_row \<Rightarrow> agent_row" where
  "write_agent n row = row
     \<lparr>row_name := ag_name n, row_space_ids := ag_space_ids n, row_scope_ceiling := ag_scope_ceiling n,
      row_icon := ag_icon n, row_active := ag_active n, row_threads := ag_threads n\<rparr>"

definition updateTeamAgent ::
    "request \<Rightarrow> string \<Rightarrow> agent_patch \<Rightarrow> token_identity \<Rightarrow> team_state \<Rightarrow> team_error + (team_agent \<times> team_state)" where
  "updateTeamAgent r agentId p identity db =
     (case requireTeamAgentAdministrator r db agentId identity of
        Inl e \<Rightarrow> Inl e
      | Inr agent \<Rightarrow>
          if pa_space_ids p \<noteq> None \<and> ag_ownership agent \<noteq> Personal
          then Inl (TeamAccessError ''Team agents use explicit Space grants'')
          else if pa_threads p \<noteq> None \<and> ag_ownership agent \<noteq> Team
          then Inl (TeamAccessError ''Personal agents follow their member's thread access'')
          else (case traverse (\<lambda>spaceId. assertSpaceAccess r db spaceId ReadLevel (Some identity))
                       (case pa_space_ids p of Some (Some ids) \<Rightarrow> ids | _ \<Rightarrow> []) of
            Inl e \<Rightarrow> Inl e
          | Inr _ \<Rightarrow>
              (let n = patch_agent p agent;
                   db1 = update_agent agentId (write_agent n) db;
                   db2 = (if ag_active n then db1
                          else delete_grants (\<lambda>(s, t, i). t = AgentSubject \<and> i = agentId)
                                 (update_credentials (\<lambda>_ c. cr_agent c = agentId) (\<lambda>c. c\<lparr>cr_active := False\<rparr>) db1))
               in Inr (n, advanceTeamPolicy db2))))"

definition teamAgentForCredentialAdministration ::
    "request \<Rightarrow> team_state \<Rightarrow> string \<Rightarrow> token_identity \<Rightarrow> team_error + team_agent" where
  "teamAgentForCredentialAdministration r db key identity =
     (case map_of (credentials db) key of
        None \<Rightarrow> Inl (TeamAccessError ''This credential does not belong to your agents'')
      | Some c \<Rightarrow>
          if map_of (agents db) (cr_agent c) = None
          then Inl (TeamAccessError ''This credential does not belong to your agents'')
          else requireTeamAgentAdministrator r db (cr_agent c) identity)"

text \<open>\<open>LIKE 'oauth:%' OR LIKE 'workos-agent:%'\<close>, which SQLite matches in either case.\<close>

definition ascii_lower :: "char \<Rightarrow> char" where
  "ascii_lower c = (if CHR ''A'' \<le> c \<and> c \<le> CHR ''Z'' then char_of (of_char c + 32 :: nat) else c)"

definition cloud_key :: "string \<Rightarrow> bool" where
  "cloud_key key \<longleftrightarrow>
     prefix ''oauth:'' (map ascii_lower key) \<or> prefix ''workos-agent:'' (map ascii_lower key)"

definition reconnect_destination ::
    "request \<Rightarrow> agent_row \<Rightarrow> token_identity \<Rightarrow> string \<Rightarrow> string \<Rightarrow> team_state \<Rightarrow> team_error + (string \<times> team_state)" where
  "reconnect_destination r row identity uuid uuid' db =
     (let previous = parseAgent row
      in (case createTeamAgent r (row_name row) (row_platform row) Personal identity uuid uuid' db of
            Inl e \<Rightarrow> Inl e
          | Inr (replacement, db1) \<Rightarrow>
              (let kept = map_option (filter (\<lambda>spaceId. canAccessSpace r db1 spaceId ReadLevel (Some identity)))
                            (ag_space_ids previous);
                   p = \<lparr>pa_name = None, pa_space_ids = Some kept,
                        pa_scope_ceiling = Some (ag_scope_ceiling previous),
                        pa_icon = Some (row_icon row), pa_deactivate = False, pa_threads = None\<rparr>
               in (case updateTeamAgent r (ag_id replacement) p identity db1 of
                     Inl e \<Rightarrow> Inl e
                   | Inr (_, db2) \<Rightarrow>
                       Inr (ag_id replacement,
                            update_agent (ag_id replacement) (\<lambda>n. n\<lparr>row_mode := row_mode row\<rparr>) db2)))))"

text \<open>Its member's account gets a new agent when it joined again; otherwise the agent is turned on.\<close>

definition reconnect_target ::
    "request \<Rightarrow> string \<Rightarrow> agent_row \<Rightarrow> team_member \<Rightarrow> token_identity \<Rightarrow> string \<Rightarrow> string \<Rightarrow> team_state
       \<Rightarrow> team_error + (string \<times> team_state)" where
  "reconnect_target r agentId row member identity uuid uuid' db =
     (if row_member row \<noteq> Some (member_id member) then reconnect_destination r row identity uuid uuid' db
      else Inr (agentId, update_agent agentId (\<lambda>n. n\<lparr>row_active := True\<rparr>) db))"

definition reconnectCloudPersonalAgent ::
    "request \<Rightarrow> string \<Rightarrow> token_identity \<Rightarrow> string \<Rightarrow> string \<Rightarrow> team_state \<Rightarrow> team_error + team_state" where
  "reconnectCloudPersonalAgent r agentId identity uuid uuid' db =
     (case requireTeamHuman r db identity of
        Inl e \<Rightarrow> Inl e
      | Inr member \<Rightarrow>
          (case map_of (agents db) agentId of
             None \<Rightarrow> Inl (TeamAccessError ''Reconnect this agent from its member's account'')
           | Some row \<Rightarrow>
               if row_ownership row \<noteq> Personal
                  \<or> Option.bind (row_member row) (map_of (enrollments db)) \<noteq> Some (user_id member)
               then Inl (TeamAccessError ''Reconnect this agent from its member's account'')
               else if \<not> list_ex (\<lambda>(k, c). cr_agent c = agentId \<and> cloud_key k) (credentials db)
               then Inl (TeamAccessError ''Connect this agent again from Settings'')
               else (case reconnect_target r agentId row member identity uuid uuid' db of
                 Inl e \<Rightarrow> Inl e
               | Inr (destination, db1) \<Rightarrow>
                   Inr (advanceTeamPolicy (update_credentials (\<lambda>k c. cr_agent c = agentId \<and> cloud_key k)
                     (\<lambda>c. c\<lparr>cr_agent := destination, cr_active := True,
                            cr_minimum := - (- clock r div 1000) * 1000,
                            cr_sponsor := Some (member_id member), cr_disconnected := None\<rparr>) db1)))))"

section \<open>The invariant of the policy tables\<close>

definition row_ok :: "string \<Rightarrow> agent_row \<Rightarrow> bool" where
  "row_ok a row \<longleftrightarrow>
     row_id row = a \<and> (row_ownership row = Personal \<longleftrightarrow> row_member row \<noteq> None)
     \<and> (row_ownership row = Team \<longrightarrow> row_space_ids row = None)
     \<and> (row_ownership row = Personal \<longrightarrow> row_threads row = ThreadsNone)"

definition agents_ok :: "team_state \<Rightarrow> bool" where
  "agents_ok db \<longleftrightarrow> distinct (map fst (agents db)) \<and>
     (\<forall>a row. map_of (agents db) a = Some row \<longrightarrow> row_ok a row)"

text \<open>Only an active team agent holds a grant, and never to manage.\<close>

definition team_agent_active :: "team_state \<Rightarrow> string \<Rightarrow> bool" where
  "team_agent_active db a \<longleftrightarrow>
     (case map_of (agents db) a of None \<Rightarrow> False | Some row \<Rightarrow> row_ownership row = Team \<and> row_active row)"

definition grants_ok :: "team_state \<Rightarrow> bool" where
  "grants_ok db \<longleftrightarrow> distinct (map fst (space_grants db)) \<and>
     (\<forall>s a l. map_of (space_grants db) (s, AgentSubject, a) = Some l \<longrightarrow> l \<noteq> ManageLevel \<and> team_agent_active db a)"

text \<open>A credential that works belongs to an agent that does.\<close>

definition credentials_ok :: "team_state \<Rightarrow> bool" where
  "credentials_ok db \<longleftrightarrow> distinct (map fst (credentials db)) \<and>
     (\<forall>k c. map_of (credentials db) k = Some c \<longrightarrow> cr_active c \<longrightarrow> active_agent db (cr_agent c) \<noteq> None)"

lemma agents_okD: "agents_ok db \<Longrightarrow> map_of (agents db) a = Some row \<Longrightarrow> row_ok a row"
  by (simp add: agents_ok_def)

lemma agents_okI:
  "distinct (map fst (agents db)) \<Longrightarrow> (\<And>a row. map_of (agents db) a = Some row \<Longrightarrow> row_ok a row) \<Longrightarrow> agents_ok db"
  by (simp add: agents_ok_def)

lemma credentials_okD:
  "credentials_ok db \<Longrightarrow> map_of (credentials db) k = Some c \<Longrightarrow> cr_active c \<Longrightarrow> active_agent db (cr_agent c) \<noteq> None"
  by (simp add: credentials_ok_def)

lemma credentials_okI:
  "distinct (map fst (credentials db)) \<Longrightarrow>
     (\<And>k c. map_of (credentials db) k = Some c \<Longrightarrow> cr_active c \<Longrightarrow> active_agent db (cr_agent c) \<noteq> None) \<Longrightarrow>
     credentials_ok db"
  by (simp add: credentials_ok_def)

lemma credentials_ok_distinct: "credentials_ok db \<Longrightarrow> distinct (map fst (credentials db))"
  by (simp add: credentials_ok_def)

lemma agents_ok_distinct: "agents_ok db \<Longrightarrow> distinct (map fst (agents db))"
  by (simp add: agents_ok_def)

definition team_ok :: "team_state \<Rightarrow> bool" where
  "team_ok db \<longleftrightarrow> agents_ok db \<and> grants_ok db \<and> credentials_ok db"

lemma team_ok_cong:
  "agents db' = agents db \<Longrightarrow> space_grants db' = space_grants db \<Longrightarrow> credentials db' = credentials db \<Longrightarrow>
     team_ok db' = team_ok db"
  by (simp add: team_ok_def agents_ok_def grants_ok_def credentials_ok_def team_agent_active_def active_agent_def)

lemma advance_selectors [simp]:
  "agents (advanceTeamPolicy db) = agents db" "space_grants (advanceTeamPolicy db) = space_grants db"
  "credentials (advanceTeamPolicy db) = credentials db" "members (advanceTeamPolicy db) = members db"
  "worktable (advanceTeamPolicy db) = worktable db" "space_policy (advanceTeamPolicy db) = space_policy db"
  "enrollments (advanceTeamPolicy db) = enrollments db" "sessions (advanceTeamPolicy db) = sessions db"
  by (simp_all add: advanceTeamPolicy_def)

lemma advance_ok [simp]: "team_ok (advanceTeamPolicy db) = team_ok db"
  by (rule team_ok_cong) simp_all

lemma advance_parts [simp]:
  "agents_ok (advanceTeamPolicy db) = agents_ok db" "grants_ok (advanceTeamPolicy db) = grants_ok db"
  "credentials_ok (advanceTeamPolicy db) = credentials_ok db"
  by (simp_all add: agents_ok_def grants_ok_def credentials_ok_def team_agent_active_def active_agent_def)

lemma map_of_update_agent:
  "map_of (agents (update_agent a f db)) k = map_option (\<lambda>row. if k = a then f row else row) (map_of (agents db) k)"
proof -
  have "map_of (map (\<lambda>(k, row). (k, if k = a then f row else row)) xs) k
      = map_option (\<lambda>row. if k = a then f row else row) (map_of xs k)" for xs :: "(string \<times> agent_row) list"
    by (induction xs) auto
  then show ?thesis by (simp add: update_agent_def)
qed

lemma map_of_update_credentials:
  "map_of (credentials (update_credentials P f db)) k = map_option (\<lambda>c. if P k c then f c else c) (map_of (credentials db) k)"
proof -
  have "map_of (map (\<lambda>(k, c). (k, if P k c then f c else c)) xs) k
      = map_option (\<lambda>c. if P k c then f c else c) (map_of xs k)" for xs :: "(string \<times> credential) list"
    by (induction xs) auto
  then show ?thesis by (simp add: update_credentials_def)
qed

lemma update_selectors [simp]:
  "space_grants (update_agent a f db) = space_grants db" "credentials (update_agent a f db) = credentials db"
  "agents (update_credentials P g db) = agents db" "space_grants (update_credentials P g db) = space_grants db"
  "agents (delete_grants Q db) = agents db" "credentials (delete_grants Q db) = credentials db"
  "map fst (agents (update_agent a f db)) = map fst (agents db)"
  "map fst (credentials (update_credentials P g db)) = map fst (credentials db)"
  by (simp_all add: update_agent_def update_credentials_def delete_grants_def comp_def case_prod_beta)

lemma map_of_delete_grants:
  "map_of (space_grants (delete_grants Q db)) key = (if Q key then None else map_of (space_grants db) key)"
proof -
  have "map_of (filter (\<lambda>(key, level). \<not> Q key) xs) key = (if Q key then None else map_of xs key)"
    for xs :: "(grant_key \<times> space_level) list"
    by (induction xs) auto
  then show ?thesis by (simp add: delete_grants_def)
qed

lemma grants_ok_delete: "grants_ok db \<Longrightarrow> grants_ok (delete_grants Q db)"
proof -
  have "distinct (map fst (space_grants db)) \<Longrightarrow> distinct (map fst (space_grants (delete_grants Q db)))"
    by (simp add: delete_grants_def distinct_map_filter)
  then show "grants_ok db \<Longrightarrow> grants_ok (delete_grants Q db)"
    by (auto simp: grants_ok_def map_of_delete_grants team_agent_active_def split: if_splits)
qed

lemma insert_grant_Inr:
  "insert_grant key level db = Inr db' \<Longrightarrow>
     db' = db\<lparr>space_grants := space_grants db @ [(key, level)]\<rparr> \<and> map_of (space_grants db) key = None"
  by (auto simp: insert_grant_def split: if_splits)

lemma insert_grants_Inr:
  "insert_grants gs db = Inr db' \<Longrightarrow>
     db' = db\<lparr>space_grants := space_grants db @ gs\<rparr>
     \<and> distinct (map fst gs) \<and> (\<forall>key \<in> set (map fst gs). map_of (space_grants db) key = None)"
proof (induction gs db rule: insert_grants.induct)
  case (2 key level gs db)
  then obtain db1 where one: "insert_grant key level db = Inr db1" and more: "insert_grants gs db1 = Inr db'"
    by (auto split: sum.splits)
  note head = insert_grant_Inr [OF one]
  with "2.IH" [OF one more] have tail: "db' = db1\<lparr>space_grants := space_grants db1 @ gs\<rparr>"
    "distinct (map fst gs)" "\<forall>k \<in> set (map fst gs). map_of (space_grants db @ [(key, level)]) k = None"
    by auto
  then have "key \<notin> set (map fst gs)" "\<forall>k \<in> set (map fst gs). map_of (space_grants db) k = None"
    by (auto simp: map_add_def split: option.splits)
  with head tail show ?case by auto
qed simp

lemma grants_ok_insert:
  assumes "grants_ok db" "insert_grants gs db = Inr db'"
    and "\<forall>s a l. ((s, AgentSubject, a), l) \<in> set gs \<longrightarrow> l \<noteq> ManageLevel \<and> team_agent_active db a"
  shows "grants_ok db'"
proof -
  from insert_grants_Inr [OF assms(2)]
  have db': "db' = db\<lparr>space_grants := space_grants db @ gs\<rparr>"
    and distinct: "distinct (map fst gs)" "\<forall>key \<in> set (map fst gs). map_of (space_grants db) key = None"
    by auto
  have "map_of (space_grants db @ gs) key = Some l \<Longrightarrow> (key, l) \<in> set gs \<or> map_of (space_grants db) key = Some l" for key l
    by (auto simp: map_add_def dest: map_of_SomeD split: option.splits)
  moreover have "distinct (map fst (space_grants db @ gs))"
    using assms(1) distinct by (force simp: grants_ok_def map_of_eq_None_iff)
  ultimately show ?thesis
    using assms(1,3) unfolding db' grants_ok_def team_agent_active_def by (fastforce split: option.splits)
qed

section \<open>Every operation keeps the invariant\<close>

lemma parseAgent_simps [simp]:
  "ag_id (parseAgent row) = row_id row" "ag_ownership (parseAgent row) = row_ownership row"
  "ag_member (parseAgent row) = row_member row" "ag_space_ids (parseAgent row) = row_space_ids row"
  "ag_active (parseAgent row) = row_active row" "ag_threads (parseAgent row) = row_threads row"
  by (simp_all add: parseAgent_def)

lemma teamAgentForIdentity_row:
  assumes "teamAgentForIdentity r db identity = Some agent"
  shows "\<exists>a row. map_of (agents db) a = Some row \<and> row_active row \<and> agent = parseAgent row
     \<and> \<not> member_missing db agent \<and> visitor r = None"
  using assms by (auto simp: teamAgentForIdentity_def Let_def split: if_splits option.splits)

lemma agents_ok_id: "agents_ok db \<Longrightarrow> map_of (agents db) a = Some row \<Longrightarrow> row_id row = a"
  by (simp add: agents_ok_def row_ok_def)

lemma first_grants_agent:
  "((s, AgentSubject, a), l) \<in> set (first_grants r db spaceId) \<Longrightarrow> s = spaceId \<and> l = EditLevel \<and>
     (\<exists>identity agent. teamAgentForIdentity r db identity = Some agent \<and> ag_ownership agent = Team \<and> ag_id agent = a)"
  by (auto simp: first_grants_def Let_def bind_eq_Some_conv dest!: sym [of "Some _"]
      split: option.splits if_splits) blast

lemma registerTeamSpace_ok [keeps]:
  assumes "registerTeamSpace r spaceId existing db = Inr (b, db')" "team_ok db"
  shows "team_ok db'"
proof (cases "db' = db")
  case False
  with assms(1) obtain v db1 where
      ins: "insert_grants (first_grants r db spaceId) (db\<lparr>space_policy := v\<rparr>) = Inr db1"
    and db': "db' = advanceTeamPolicy db1"
    by (auto simp: registerTeamSpace_def Let_def split: if_splits sum.splits)
  have "\<forall>s a l. ((s, AgentSubject, a), l) \<in> set (first_grants r db spaceId) \<longrightarrow> l \<noteq> ManageLevel \<and> team_agent_active db a"
    using assms(2) by (fastforce simp: team_ok_def team_agent_active_def dest!: first_grants_agent
        teamAgentForIdentity_row dest: agents_ok_id)
  moreover have "grants_ok (db\<lparr>space_policy := v\<rparr>)"
    using assms(2) by (simp add: team_ok_def grants_ok_def team_agent_active_def)
  ultimately have "grants_ok db1"
    using grants_ok_insert [OF _ ins] by (simp add: team_agent_active_def)
  moreover have "agents_ok db1 = agents_ok db" "credentials_ok db1 = credentials_ok db"
    using insert_grants_Inr [OF ins] by (simp_all add: agents_ok_def credentials_ok_def active_agent_def)
  ultimately show ?thesis using assms(2) by (simp add: db' team_ok_def)
qed (use assms in simp)

lemma team_ok_no_grants: "team_ok db \<Longrightarrow> team_ok (db\<lparr>space_grants := []\<rparr>)"
  by (simp add: team_ok_def agents_ok_def grants_ok_def credentials_ok_def active_agent_def)

lemma resetTeamSpacePolicyRows_ok [keeps]:
  assumes "team_ok db"
  shows "team_ok (resetTeamSpacePolicyRows w db)"
proof -
  have "team_ok (resetTeamSpacePolicyRows w db) = team_ok (db\<lparr>space_grants := []\<rparr>)"
    by (rule team_ok_cong) (simp_all add: resetTeamSpacePolicyRows_def)
  with team_ok_no_grants [OF assms] show ?thesis by simp
qed

lemma team_ok_delete_grants:
  assumes "team_ok db"
  shows "team_ok (delete_grants Q db)"
  using assms grants_ok_delete [of db Q]
  by (simp add: team_ok_def agents_ok_def credentials_ok_def active_agent_def)

lemma retireTeamSpacePolicy_ok [keeps]:
  assumes "team_ok db"
  shows "team_ok (retireTeamSpacePolicy spaceId db)"
proof (cases "worktable db = None")
  case False
  then have "team_ok (retireTeamSpacePolicy spaceId db) = team_ok (delete_grants (\<lambda>(s, t, i). s = spaceId) db)"
    by (intro team_ok_cong) (auto simp: retireTeamSpacePolicy_def delete_grants_def)
  with team_ok_delete_grants [OF assms] show ?thesis by simp
qed (use assms in \<open>simp add: retireTeamSpacePolicy_def\<close>)

lemma check_grant_agent:
  assumes "check_grant db ((AgentSubject, a), l) = Inr ()"
  shows "l \<noteq> ManageLevel \<and> team_agent_active db a"
  using assms by (auto simp: check_grant_def team_agent_active_def split: option.splits if_splits)

text \<open>What a successful \<open>setSpaceAccessPolicy\<close> has checked and written.\<close>

lemma setSpaceAccessPolicy_Inr:
  assumes "setSpaceAccessPolicy r policy identity db = Inr db'"
  obtains db2 db3 where
    "teamMemberForIdentity r db identity \<noteq> None"
    "canAccessSpace r db (sp_space policy) ManageLevel (Some identity)"
    "list_all (\<lambda>g. check_grant db g = Inr ()) (sp_grants policy)"
    "db2 = delete_grants (\<lambda>(s, t, i). s = sp_space policy)
       (db\<lparr>space_policy := AList.update (sp_space policy) (sp_visibility policy) (space_policy db)\<rparr>)"
    "insert_grants (map (\<lambda>((t, i), level). ((sp_space policy, t, i), level)) (sp_grants policy)) db2 = Inr db3"
    "db' = advanceTeamPolicy db3"
proof -
  from assms obtain us where "traverse (check_grant db) (sp_grants policy) = Inr us"
    by (auto simp: setSpaceAccessPolicy_def split: sum.splits)
  then have "list_all (\<lambda>g. check_grant db g = Inr ()) (sp_grants policy)"
    by (auto simp: traverse_Inr_iff list_all2_conv_all_nth list_all_length)
  with assms that show ?thesis
    by (auto simp: setSpaceAccessPolicy_def requireTeamHuman_def assertSpaceAccess_def Let_def
        split: sum.splits option.splits if_splits)
qed

lemma setSpaceAccessPolicy_ok [keeps]:
  assumes "setSpaceAccessPolicy r policy identity db = Inr db'" "team_ok db"
  shows "team_ok db'"
  using assms(1)
proof (cases rule: setSpaceAccessPolicy_Inr)
  case (1 db2 db3)
  let ?db1 = "db\<lparr>space_policy := AList.update (sp_space policy) (sp_visibility policy) (space_policy db)\<rparr>"
  have "team_ok ?db1" using team_ok_cong [of ?db1 db] assms(2) by simp
  then have ok2: "team_ok db2" unfolding 1(4) by (rule team_ok_delete_grants)
  have active: "team_agent_active db2 a = team_agent_active db a" for a
    by (simp add: 1(4) team_agent_active_def)
  have "grants_ok db3"
  proof (rule grants_ok_insert [OF _ 1(5)])
    show "grants_ok db2" using ok2 by (simp add: team_ok_def)
    show "\<forall>s a l. ((s, AgentSubject, a), l) \<in> set (map (\<lambda>((t, i), level). ((sp_space policy, t, i), level)) (sp_grants policy))
        \<longrightarrow> l \<noteq> ManageLevel \<and> team_agent_active db2 a"
      using 1(3) check_grant_agent unfolding active by (fastforce simp: list_all_iff)
  qed
  moreover have "agents_ok db3 = agents_ok db2" "credentials_ok db3 = credentials_ok db2"
    using insert_grants_Inr [OF 1(5)] by (simp_all add: agents_ok_def credentials_ok_def active_agent_def)
  ultimately show ?thesis using ok2 by (simp add: 1(6) team_ok_def)
qed

lemma createTeamAgent_Inr:
  assumes "createTeamAgent r name platform own identity uuid uuid' db = Inr (agent, db')"
  obtains member where "teamMemberForIdentity r db identity = Some member"
    "own = Team \<longrightarrow> role member = Owner"
    "agent = new_agent name platform (member_id member) own uuid uuid'"
    "map_of (agents db) (ag_id agent) = None"
    "db' = advanceTeamPolicy (db\<lparr>agents := agents db @ [(ag_id agent, agent_to_row agent)]\<rparr>)"
  using assms
  by (auto simp: createTeamAgent_def requireTeamOwner_def requireTeamHuman_def Let_def
      split: if_splits sum.splits option.splits)

lemma grants_ok_mono:
  "grants_ok db \<Longrightarrow> space_grants db' = space_grants db \<Longrightarrow>
     (\<And>a. team_agent_active db a \<longrightarrow> team_agent_active db' a) \<Longrightarrow> grants_ok db'"
  by (simp add: grants_ok_def)

lemma credentials_ok_mono:
  "credentials_ok db \<Longrightarrow> credentials db' = credentials db \<Longrightarrow>
     (\<And>a. active_agent db a \<noteq> None \<longrightarrow> active_agent db' a \<noteq> None) \<Longrightarrow> credentials_ok db'"
  by (simp add: credentials_ok_def)

lemma createTeamAgent_ok [keeps]:
  assumes "createTeamAgent r name platform own identity uuid uuid' db = Inr (agent, db')" "team_ok db"
  shows "team_ok db'"
  using assms(1)
proof (cases rule: createTeamAgent_Inr)
  case (1 member)
  have map: "map_of (agents db') = (map_of (agents db))(ag_id agent \<mapsto> agent_to_row agent)"
    unfolding 1(5) using map_of_append_new [OF 1(4)] by simp
  have "distinct (map fst (agents db'))"
    unfolding 1(5) using distinct_append_new [OF _ 1(4)] assms(2) by (simp add: team_ok_def agents_ok_def)
  moreover have "row_ok (ag_id agent) (agent_to_row agent)"
    by (cases own) (simp_all add: 1(3) row_ok_def agent_to_row_def new_agent_def)
  ultimately have "agents_ok db'"
    using assms(2) by (intro agents_okI) (auto simp: team_ok_def map dest: agents_okD split: if_splits)
  moreover have "grants_ok db'"
  proof (rule grants_ok_mono)
    show "grants_ok db" using assms(2) by (simp add: team_ok_def)
    show "space_grants db' = space_grants db" by (simp add: 1(5))
    show "team_agent_active db a \<longrightarrow> team_agent_active db' a" for a
      using 1(4) unfolding team_agent_active_def map by (auto split: option.split)
  qed
  moreover have "credentials_ok db'"
  proof (rule credentials_ok_mono)
    show "credentials_ok db" using assms(2) by (simp add: team_ok_def)
    show "credentials db' = credentials db" by (simp add: 1(5))
    show "active_agent db a \<noteq> None \<longrightarrow> active_agent db' a \<noteq> None" for a
      using 1(4) unfolding active_agent_def map by (cases "a = ag_id agent") simp_all
  qed
  ultimately show ?thesis by (simp add: team_ok_def)
qed

lemma bindTeamAgentCredential_ok [keeps]:
  assumes "bindTeamAgentCredential r agentId key identity dep db = Inr db'" "team_ok db"
  shows "team_ok db'"
proof -
  from assms(1) have active: "active_agent db agentId \<noteq> None"
    by (auto simp: bindTeamAgentCredential_def split: sum.splits option.splits)
  show ?thesis
  proof (cases "map_of (credentials db) key")
    case None
    with assms(1) obtain sponsor where db': "db' = advanceTeamPolicy (db\<lparr>credentials := credentials db @
        [(key, \<lparr>cr_agent = agentId, cr_sponsor = sponsor, cr_minimum = 0, cr_active = True, cr_disconnected = None\<rparr>)]\<rparr>)"
      by (auto simp: bindTeamAgentCredential_def Let_def split: sum.splits option.splits if_splits)
    have "credentials_ok db'"
    proof (rule credentials_okI)
      show "distinct (map fst (credentials db'))"
        using assms(2) distinct_append_new [OF _ None] by (simp add: db' team_ok_def credentials_ok_distinct)
    next
      fix k c assume "map_of (credentials db') k = Some c" "cr_active c"
      with assms(2) active show "active_agent db' (cr_agent c) \<noteq> None"
        using credentials_okD [of db k c] map_of_append_new [OF None]
        by (auto simp: db' team_ok_def active_agent_def split: if_splits)
    qed
    with assms(2) show ?thesis
      by (simp add: db' team_ok_def agents_ok_def grants_ok_def team_agent_active_def)
  next
    case (Some c)
    with assms(1) obtain sponsor where db': "db' = advanceTeamPolicy (update_credentials (\<lambda>k _. k = key)
        (\<lambda>c. c\<lparr>cr_active := True, cr_sponsor := sponsor\<rparr>) db)" and same: "cr_agent c = agentId"
      by (auto simp: bindTeamAgentCredential_def Let_def split: sum.splits option.splits if_splits)
    have "credentials_ok db'"
    proof (rule credentials_okI)
      show "distinct (map fst (credentials db'))"
        using assms(2) by (simp add: db' team_ok_def credentials_ok_distinct)
    next
      fix k c' assume "map_of (credentials db') k = Some c'" "cr_active c'"
      with assms(2) active Some same show "active_agent db' (cr_agent c') \<noteq> None"
        using credentials_okD [of db k c']
        by (auto simp: db' team_ok_def active_agent_def map_of_update_credentials split: if_splits)
    qed
    with assms(2) show ?thesis
      by (simp add: db' team_ok_def agents_ok_def grants_ok_def team_agent_active_def)
  qed
qed

lemma updateTeamAgent_Inr:
  assumes "updateTeamAgent r agentId p identity db = Inr (n, db')"
  obtains member row where "teamMemberForIdentity r db identity = Some member"
    "active_agent db agentId = Some row" "administers member row"
    "n = patch_agent p (parseAgent row)"
    "pa_space_ids p \<noteq> None \<longrightarrow> row_ownership row = Personal"
    "pa_threads p \<noteq> None \<longrightarrow> row_ownership row = Team"
    "db' = advanceTeamPolicy (if ag_active n then update_agent agentId (write_agent n) db
       else delete_grants (\<lambda>(s, t, i). t = AgentSubject \<and> i = agentId)
         (update_credentials (\<lambda>_ c. cr_agent c = agentId) (\<lambda>c. c\<lparr>cr_active := False\<rparr>)
           (update_agent agentId (write_agent n) db)))"
  using assms
  by (auto simp: updateTeamAgent_def requireTeamAgentAdministrator_def requireTeamHuman_def Let_def
      split: if_splits sum.splits option.splits)

lemma active_agentD: "active_agent db a = Some row \<Longrightarrow> map_of (agents db) a = Some row \<and> row_active row"
  by (auto simp: active_agent_def split: option.splits if_splits)

lemma patch_row_ok:
  assumes "row_ok a row" "pa_space_ids p \<noteq> None \<longrightarrow> row_ownership row = Personal"
    and "pa_threads p \<noteq> None \<longrightarrow> row_ownership row = Team"
  shows "row_ok a (write_agent (patch_agent p (parseAgent row)) row)"
  using assms by (cases "row_ownership row") (auto simp: row_ok_def write_agent_def patch_agent_def split: option.split)

lemma update_agent_ok:
  assumes "agents_ok db" "\<And>row. map_of (agents db) a = Some row \<Longrightarrow> row_ok a (f row)"
  shows "agents_ok (update_agent a f db)"
proof (rule agents_okI)
  show "distinct (map fst (agents (update_agent a f db)))" using assms(1) by (simp add: agents_ok_distinct)
  fix k row assume "map_of (agents (update_agent a f db)) k = Some row"
  with assms(2) agents_okD [OF assms(1)] show "row_ok k row" by (auto simp: map_of_update_agent)
qed

lemma active_agent_update:
  "active_agent (update_agent a f db) k =
     (if k = a then (case map_of (agents db) a of None \<Rightarrow> None | Some row \<Rightarrow> if row_active (f row) then Some (f row) else None)
      else active_agent db k)"
  by (auto simp: active_agent_def map_of_update_agent split: option.split)

lemma team_agent_active_update:
  "team_agent_active (update_agent a f db) k =
     (if k = a then (case map_of (agents db) a of None \<Rightarrow> False
        | Some row \<Rightarrow> row_ownership (f row) = Team \<and> row_active (f row))
      else team_agent_active db k)"
  by (auto simp: team_agent_active_def map_of_update_agent split: option.split)

lemma updateTeamAgent_ok [keeps]:
  assumes "updateTeamAgent r agentId p identity db = Inr (n, db')" "team_ok db"
  shows "team_ok db'"
  using assms(1)
proof (cases rule: updateTeamAgent_Inr)
  case (1 member row)
  let ?db1 = "update_agent agentId (write_agent n) db"
  from assms(2) have ok: "agents_ok db" "grants_ok db" "credentials_ok db" by (simp_all add: team_ok_def)
  have row: "map_of (agents db) agentId = Some row" "row_active row" using active_agentD [OF 1(2)] by auto
  have "row_ok agentId (write_agent n row)"
    unfolding 1(4) by (rule patch_row_ok [OF agents_okD [OF ok(1) row(1)] 1(5,6)])
  then have agents1: "agents_ok ?db1"
    by (intro update_agent_ok [OF ok(1)]) (use row(1) in \<open>simp only: option.inject\<close>)
  have owner: "row_ownership (write_agent n row) = row_ownership row" "row_active (write_agent n row) = ag_active n"
    by (simp_all add: write_agent_def)
  show ?thesis
  proof (cases "ag_active n")
    case True
    have "grants_ok ?db1"
    proof (rule grants_ok_mono [OF ok(2)])
      show "team_agent_active db a \<longrightarrow> team_agent_active ?db1 a" for a
        using True row owner unfolding team_agent_active_def map_of_update_agent by (auto split: option.splits)
    qed simp
    moreover have "credentials_ok ?db1"
    proof (rule credentials_ok_mono [OF ok(3)])
      show "active_agent db a \<noteq> None \<longrightarrow> active_agent ?db1 a \<noteq> None" for a
        using True row owner unfolding active_agent_def map_of_update_agent by (auto split: option.splits)
    qed simp
    ultimately show ?thesis using agents1 True by (simp add: 1(7) team_ok_def)
  next
    case False
    let ?db2 = "update_credentials (\<lambda>_ c. cr_agent c = agentId) (\<lambda>c. c\<lparr>cr_active := False\<rparr>) ?db1"
    let ?db3 = "delete_grants (\<lambda>(s, t, i). t = AgentSubject \<and> i = agentId) ?db2"
    have "agents_ok ?db3" using agents1 by (simp add: agents_ok_def)
    moreover have "grants_ok ?db3"
      unfolding grants_ok_def
    proof (intro conjI allI impI)
      show "distinct (map fst (space_grants ?db3))"
        using ok(2) by (simp add: delete_grants_def distinct_map_filter grants_ok_def)
      fix s a l assume "map_of (space_grants ?db3) (s, AgentSubject, a) = Some l"
      then have "a \<noteq> agentId" "map_of (space_grants db) (s, AgentSubject, a) = Some l"
        by (auto simp: map_of_delete_grants split: if_splits)
      with ok(2) have "l \<noteq> ManageLevel \<and> team_agent_active ?db1 a"
        unfolding grants_ok_def team_agent_active_update by simp
      then show "l \<noteq> ManageLevel" "team_agent_active ?db3 a" by (simp_all add: team_agent_active_def)
    qed
    moreover have "credentials_ok ?db3"
    proof (rule credentials_okI)
      show "distinct (map fst (credentials ?db3))" using ok(3) by (simp add: credentials_ok_distinct)
      fix k c assume look: "map_of (credentials ?db3) k = Some c" and "cr_active c"
      from look obtain c0 where c0: "map_of (credentials db) k = Some c0"
        "c = (if cr_agent c0 = agentId then c0\<lparr>cr_active := False\<rparr> else c0)"
        unfolding update_selectors map_of_update_credentials by (elim map_option_eq_Some [THEN iffD1, elim_format]) blast
      with \<open>cr_active c\<close> have "map_of (credentials db) k = Some c" "cr_agent c \<noteq> agentId"
        by (cases "cr_agent c0 = agentId"; simp)+
      with credentials_okD [OF ok(3) _ \<open>cr_active c\<close>] have "active_agent ?db1 (cr_agent c) \<noteq> None"
        by (simp only: active_agent_update if_False not_False_eq_True)
      then show "active_agent ?db3 (cr_agent c) \<noteq> None" by (simp add: active_agent_def)
    qed
    ultimately show ?thesis using False by (simp add: 1(7) team_ok_def)
  qed
qed

lemma update_agent_same_ok:
  assumes "team_ok db" "\<And>row. row_ok a row \<Longrightarrow> row_ok a (f row)"
    and "\<And>row. row_active row \<Longrightarrow> row_active (f row)" "\<And>row. row_ownership (f row) = row_ownership row"
  shows "team_ok (update_agent a f db)"
proof -
  from assms(1) have ok: "agents_ok db" "grants_ok db" "credentials_ok db" by (simp_all add: team_ok_def)
  have "agents_ok (update_agent a f db)"
    by (rule update_agent_ok [OF ok(1)]) (rule assms(2), rule agents_okD [OF ok(1)])
  moreover have "grants_ok (update_agent a f db)"
  proof (rule grants_ok_mono [OF ok(2)])
    show "team_agent_active db k \<longrightarrow> team_agent_active (update_agent a f db) k" for k
      using assms(3,4) unfolding team_agent_active_def map_of_update_agent by (auto split: option.splits)
  qed simp
  moreover have "credentials_ok (update_agent a f db)"
  proof (rule credentials_ok_mono [OF ok(3)])
    show "active_agent db k \<noteq> None \<longrightarrow> active_agent (update_agent a f db) k \<noteq> None" for k
      using assms(3) unfolding active_agent_def map_of_update_agent by (auto split: option.splits)
  qed simp
  ultimately show ?thesis by (simp add: team_ok_def)
qed

lemma row_kept:
  "row_ok a row \<Longrightarrow> row_ok a (row\<lparr>row_active := v\<rparr>)" "row_ok a row \<Longrightarrow> row_ok a (row\<lparr>row_mode := m\<rparr>)"
  by (simp_all add: row_ok_def)

text \<open>Moving credentials to an agent that is active keeps the invariant.\<close>

lemma move_credentials_ok:
  assumes "team_ok db" "active_agent db d \<noteq> None" "\<And>c. cr_agent (f c) = d"
  shows "team_ok (update_credentials P f db)"
proof -
  have "credentials_ok (update_credentials P f db)"
  proof (rule credentials_okI)
    show "distinct (map fst (credentials (update_credentials P f db)))"
      using assms(1) by (simp add: team_ok_def credentials_ok_distinct)
    fix k c assume "map_of (credentials (update_credentials P f db)) k = Some c" "cr_active c"
    with assms credentials_okD [of db k c] show "active_agent (update_credentials P f db) (cr_agent c) \<noteq> None"
      by (auto simp: map_of_update_credentials team_ok_def active_agent_def split: if_splits)
  qed
  with assms(1) show ?thesis by (simp add: team_ok_def agents_ok_def grants_ok_def team_agent_active_def)
qed

lemma reconnect_destination_ok:
  assumes "reconnect_destination r row identity uuid uuid' db = Inr (d, db')" "team_ok db"
  shows "team_ok db' \<and> active_agent db' d \<noteq> None"
proof -
  from assms(1) obtain replacement db1 p n db2 where
      create: "createTeamAgent r (row_name row) (row_platform row) Personal identity uuid uuid' db = Inr (replacement, db1)"
    and upd: "updateTeamAgent r (ag_id replacement) p identity db1 = Inr (n, db2)"
    and p: "pa_deactivate p = False"
    and d: "d = ag_id replacement" "db' = update_agent (ag_id replacement) (\<lambda>n. n\<lparr>row_mode := row_mode row\<rparr>) db2"
    by (fastforce simp: reconnect_destination_def Let_def split: sum.splits)
  have ok2: "team_ok db2" by (rule updateTeamAgent_ok [OF upd createTeamAgent_ok [OF create assms(2)]])
  then have "team_ok db'" unfolding d(2) by (rule update_agent_same_ok) (simp_all add: row_kept)
  moreover have "active_agent db2 d \<noteq> None"
    using upd
  proof (cases rule: updateTeamAgent_Inr)
    case (1 member row')
    with active_agentD [OF 1(2)] p have "ag_active n" by (simp add: patch_agent_def)
    with 1 active_agentD [OF 1(2)] show ?thesis
      by (simp add: d(1) active_agent_def map_of_update_agent write_agent_def)
  qed
  ultimately show ?thesis
    unfolding d(2) active_agent_update using d(1) by (auto simp: active_agent_def split: option.splits)
qed

lemma reconnectCloudPersonalAgent_ok [keeps]:
  assumes "reconnectCloudPersonalAgent r agentId identity uuid uuid' db = Inr db'" "team_ok db"
  shows "team_ok db'"
proof -
  from assms(1) obtain member row d db1 where
      row: "map_of (agents db) agentId = Some row"
    and moved: "reconnect_target r agentId row member identity uuid uuid' db = Inr (d, db1)"
    and db': "db' = advanceTeamPolicy (update_credentials (\<lambda>k c. cr_agent c = agentId \<and> cloud_key k)
        (\<lambda>c. c\<lparr>cr_agent := d, cr_active := True, cr_minimum := - (- clock r div 1000) * 1000,
               cr_sponsor := Some (member_id member), cr_disconnected := None\<rparr>) db1)"
    by (auto simp: reconnectCloudPersonalAgent_def split: sum.splits option.splits if_splits)
  have "team_ok db1 \<and> active_agent db1 d \<noteq> None"
  proof (cases "row_member row \<noteq> Some (member_id member)")
    case True
    with moved show ?thesis using reconnect_destination_ok [OF _ assms(2)] by (simp add: reconnect_target_def)
  next
    case False
    with moved have d: "d = agentId" "db1 = update_agent agentId (\<lambda>n. n\<lparr>row_active := True\<rparr>) db"
      by (auto simp: reconnect_target_def)
    have "team_ok db1" unfolding d(2) by (rule update_agent_same_ok [OF assms(2)]) (simp_all add: row_kept)
    moreover have "active_agent db1 d \<noteq> None" unfolding d active_agent_update using row by simp
    ultimately show ?thesis by simp
  qed
  then show ?thesis unfolding db' advance_ok by (intro move_credentials_ok [where d = d]) auto
qed

section \<open>Runs of the team database\<close>

text \<open>
  One operation, by any request at any time. The last rule stands for the rest of the program:
  sign-ups, sign-ins and the people of the team, which this file only reads.
\<close>

inductive team_step :: "team_state \<Rightarrow> team_state \<Rightarrow> bool" where
  register: "registerTeamSpace r spaceId existing db = Inr (b, db') \<Longrightarrow> team_step db db'"
| reset: "team_step db (resetTeamSpacePolicyRows w db)"
| prepare: "prepareTeamSpacePolicyResetForMissingRootRecovery w db = Inr db' \<Longrightarrow> team_step db db'"
| finalize: "finalizePendingTeamSpacePolicyReset db = Inr db' \<Longrightarrow> team_step db db'"
| retire: "team_step db (retireTeamSpacePolicy spaceId db)"
| set_policy: "setSpaceAccessPolicy r policy identity db = Inr db' \<Longrightarrow> team_step db db'"
| create: "createTeamAgent r name platform own identity uuid uuid' db = Inr (agent, db') \<Longrightarrow> team_step db db'"
| bind: "bindTeamAgentCredential r agentId key identity dep db = Inr db' \<Longrightarrow> team_step db db'"
| update: "updateTeamAgent r agentId p identity db = Inr (n, db') \<Longrightarrow> team_step db db'"
| reconnect: "reconnectCloudPersonalAgent r agentId identity uuid uuid' db = Inr db' \<Longrightarrow> team_step db db'"
| people: "team_step db (db\<lparr>members := ms, enrollments := es, sessions := ss\<rparr>)"

lemma prepare_ok [keeps]:
  "prepareTeamSpacePolicyResetForMissingRootRecovery w db = Inr db' \<Longrightarrow> team_ok db \<Longrightarrow> team_ok db'"
  by (auto simp: prepareTeamSpacePolicyResetForMissingRootRecovery_def team_ok_cong [of "db\<lparr>pending_reset := v\<rparr>" db for v]
      split: option.splits if_splits)

lemma finalize_ok [keeps]:
  "finalizePendingTeamSpacePolicyReset db = Inr db' \<Longrightarrow> team_ok db \<Longrightarrow> team_ok db'"
  by (auto simp: finalizePendingTeamSpacePolicyReset_def resetTeamSpacePolicyRows_ok split: option.splits if_splits)

lemma people_ok: "team_ok (db\<lparr>members := ms, enrollments := es, sessions := ss\<rparr>) = team_ok db"
  by (rule team_ok_cong) simp_all

lemma team_step_ok: "team_step db db' \<Longrightarrow> team_ok db \<Longrightarrow> team_ok db'"
  by (induction rule: team_step.induct) (auto intro: keeps simp: people_ok)

lemma team_steps_ok: "team_step\<^sup>*\<^sup>* db db' \<Longrightarrow> team_ok db \<Longrightarrow> team_ok db'"
  by (induction rule: rtranclp_induct) (auto dest: team_step_ok)

definition fresh_team :: "string \<Rightarrow> team_state" where
  "fresh_team w = solo_state\<lparr>worktable := Some w\<rparr>"

lemma fresh_team_ok: "team_ok (fresh_team w)"
  by (simp add: fresh_team_def solo_state_def team_ok_def agents_ok_def grants_ok_def credentials_ok_def)

section \<open>Properties\<close>



text \<open>
  C16. Setting a Space's policy needs someone who manages the Space, leaves exactly the
  policy's grants and visibility on it, and touches no other Space.
\<close>

theorem setSpaceAccessPolicy_exact:
  assumes "setSpaceAccessPolicy r policy identity db = Inr db'"
  shows "canAccessSpace r db (sp_space policy) ManageLevel (Some identity)
    \<and> map_of (space_policy db') (sp_space policy) = Some (sp_visibility policy)
    \<and> (\<forall>t i. grantedLevel db' (sp_space policy) t i = map_of (sp_grants policy) (t, i))
    \<and> (\<forall>s t i. s \<noteq> sp_space policy \<longrightarrow> grantedLevel db' s t i = grantedLevel db s t i
          \<and> map_of (space_policy db') s = map_of (space_policy db) s)"
  using assms
proof (cases rule: setSpaceAccessPolicy_Inr)
  case (1 db2 db3)
  let ?wanted = "map (\<lambda>((t, i), level). ((sp_space policy, t, i), level)) (sp_grants policy)"
  have db3: "db3 = db2\<lparr>space_grants := space_grants db2 @ ?wanted\<rparr>"
    using insert_grants_Inr [OF 1(5)] by blast
  have wanted: "map_of (map (\<lambda>((t, i), level). ((q, t, i), level)) gs) (s, t, i)
      = (if s = q then map_of gs (t, i) else None)" for gs :: "((subject_type \<times> string) \<times> space_level) list" and q s t i
    by (induction gs) auto
  have none: "map_of (space_grants db2) (sp_space policy, t, i) = None" for t i
    by (simp add: 1(4) map_of_delete_grants)
  have other: "map_of (space_grants db2) (s, t, i) = map_of (space_grants db) (s, t, i)" if "s \<noteq> sp_space policy" for s t i
    using that by (simp add: 1(4) map_of_delete_grants)
  have policy: "space_policy db' = AList.update (sp_space policy) (sp_visibility policy) (space_policy db)"
    by (simp add: 1(4,6) db3 delete_grants_def)
  have grants: "map_of (space_grants db') key = (map_of (space_grants db2) ++ map_of ?wanted) key" for key
  proof -
    have "map_of (space_grants db2 @ ?wanted) key = (map_of ?wanted ++ map_of (space_grants db2)) key" by simp
    moreover have "map_of ?wanted key = None \<or> map_of (space_grants db2) key = None"
      using none by (cases key) (auto simp: wanted)
    ultimately show ?thesis by (auto simp: 1(6) db3 map_add_def split: option.splits)
  qed
  show ?thesis
    using 1(2) none other
    by (auto simp: grantedLevel_def grants policy wanted map_add_def update_conv' split: option.splits)
qed

definition owner_member :: team_member where
  "owner_member = sample_member\<lparr>member_id := ''m0'', user_id := ''u0'', actor_id := ''h0'', role := Owner\<rparr>"

definition owner_identity :: token_identity where
  "owner_identity = sample_identity\<lparr>id_agent := None, principal_id := ''h0'', principal_kind := Human,
     id_team := Some \<lparr>tc_worktable = ''w'', tc_user = Some ''u0'', tc_member = Some ''m0'', tc_agent = None, tc_credential = None\<rparr>\<rparr>"

definition owned_state :: team_state where
  "owned_state = sample_state\<lparr>members := [(''m0'', owner_member), (''m1'', sample_member)]\<rparr>"

definition sample_policy :: space_access_policy where
  "sample_policy = \<lparr>sp_space = ''notes'', sp_visibility = Restricted, sp_grants = [((MemberSubject, ''m1''), ReadLevel)]\<rparr>"

definition outcome :: "'e + 's \<Rightarrow> 's \<Rightarrow> 's" where
  "outcome res d = (case res of Inl _ \<Rightarrow> d | Inr s \<Rightarrow> s)"

lemma sample_policy_set:
  "setSpaceAccessPolicy trusted_request sample_policy owner_identity owned_state =
     Inr (outcome (setSpaceAccessPolicy trusted_request sample_policy owner_identity owned_state) owned_state)"
  by code_simp

theorem setSpaceAccessPolicy_exact_witness:
  "grantedLevel (outcome (setSpaceAccessPolicy trusted_request sample_policy owner_identity owned_state) owned_state)
     ''notes'' MemberSubject ''m1'' = Some ReadLevel"
  using setSpaceAccessPolicy_exact [OF sample_policy_set] by (simp add: sample_policy_def)

text \<open>
  C17. Disconnecting an agent takes effect everywhere at once: from then on none of its
  credentials resolves, no identity acts as it, and it holds no grant.
\<close>

theorem deactivated_agent_shut_out:
  assumes "updateTeamAgent r agentId p identity db = Inr (n, db')" "pa_deactivate p"
  shows "(\<forall>r' idn claim. id_team idn = Some claim \<and> tc_agent claim = Some agentId
            \<longrightarrow> teamAgentForIdentity r' db' idn = None)
    \<and> (\<forall>r' idn c. worktable db' \<noteq> None \<and> map_of (credentials db') (principal_id idn) = Some c \<and> cr_agent c = agentId
            \<longrightarrow> resolveTeamAgentCredential r' db' idn = None)
    \<and> (\<forall>spaceId. grantedLevel db' spaceId AgentSubject agentId = None)"
  using assms(1)
proof (cases rule: updateTeamAgent_Inr)
  case (1 member row)
  have off: "\<not> ag_active n" by (simp add: 1(4) patch_agent_def assms(2))
  have row': "map_of (agents db') agentId = Some (write_agent n row)"
    using off active_agentD [OF 1(2)] by (simp add: 1(7) map_of_update_agent)
  moreover have "\<not> row_active (write_agent n row)" using off by (simp add: write_agent_def)
  moreover have "grantedLevel db' spaceId AgentSubject agentId = None" for spaceId
    using off by (simp add: 1(7) grantedLevel_def map_of_delete_grants)
  ultimately show ?thesis
    by (auto simp: teamAgentForIdentity_def resolveTeamAgentCredential_def split: option.split)
qed

definition agent_owner_identity :: token_identity where
  "agent_owner_identity = owner_identity\<lparr>principal_id := ''h1'',
     id_team := Some \<lparr>tc_worktable = ''w'', tc_user = Some ''u1'', tc_member = Some ''m1'', tc_agent = None, tc_credential = None\<rparr>\<rparr>"

definition disconnect :: agent_patch where
  "disconnect = \<lparr>pa_name = None, pa_space_ids = None, pa_scope_ceiling = None, pa_icon = None,
     pa_deactivate = True, pa_threads = None\<rparr>"

definition disconnected_state :: team_state where
  "disconnected_state = snd (outcome (updateTeamAgent trusted_request ''agt'' disconnect agent_owner_identity sample_state)
     (parseAgent sample_agent, sample_state))"

lemma disconnect_runs:
  "updateTeamAgent trusted_request ''agt'' disconnect agent_owner_identity sample_state =
     Inr (patch_agent disconnect (parseAgent sample_agent), disconnected_state)"
  by code_simp

theorem deactivated_agent_shut_out_witness:
  "teamAgentForIdentity trusted_request sample_state sample_identity \<noteq> None
   \<and> teamAgentForIdentity trusted_request disconnected_state sample_identity = None"
proof
  show "teamAgentForIdentity trusted_request sample_state sample_identity \<noteq> None" by code_simp
  show "teamAgentForIdentity trusted_request disconnected_state sample_identity = None"
    using deactivated_agent_shut_out [OF disconnect_runs] by (simp add: disconnect_def sample_identity_def)
qed

text \<open>
  C18. Once a content replacement has reset the policies, nobody reaches a Space through an old
  grant: only owners, and personal agents that follow an owner, have access.
\<close>

theorem reset_leaves_owners:
  assumes "worktable db \<noteq> None" "visitor r = None" "\<not> operator_verification identity"
    and "canAccessSpace r (resetTeamSpacePoliciesAfterContentReplacement db) spaceId access (Some identity)"
  shows "\<exists>owner. role owner = Owner \<and>
     (teamMemberForIdentity r db identity = Some owner
      \<or> (\<exists>agent m. teamAgentForIdentity r db identity = Some agent \<and> ag_ownership agent = Personal
           \<and> ag_member agent = Some m \<and> findTeamMemberById db m = Some owner))"
proof -
  let ?db' = "resetTeamSpacePoliciesAfterContentReplacement db"
  obtain w where w: "worktable db = Some w" using assms(1) by blast
  have same: "worktable ?db' = Some w" "members ?db' = members db" "sessions ?db' = sessions db"
    "agents ?db' = agents db" "credentials ?db' = credentials db" "space_policy ?db' = []" "space_grants ?db' = []"
    using w by (simp_all add: resetTeamSpacePoliciesAfterContentReplacement_def resetTeamSpacePolicyRows_def)
  have find: "findTeamMemberById ?db' m = findTeamMemberById db m" for m
    by (simp add: findTeamMemberById_def same w)
  have who: "teamMemberForIdentity r ?db' identity = teamMemberForIdentity r db identity"
    "teamAgentForIdentity r ?db' identity = teamAgentForIdentity r db identity"
    unfolding teamMemberForIdentity_def teamAgentForIdentity_def session_stands_def member_missing_def
      sponsor_gone_def find same w by (rule refl)+
  have level: "\<not> levelAtLeast (grantedLevel ?db' spaceId t i) access" for t i
    by (simp add: grantedLevel_def same)
  have owner: "memberHasSpaceAccess ?db' m spaceId access \<Longrightarrow> role m = Owner" for m
    by (auto simp: memberHasSpaceAccess_def memberLevel_def grantedLevel_def same split: if_splits)
  show ?thesis
  proof (cases "teamMemberForIdentity r db identity")
    case (Some m)
    with assms same have "memberHasSpaceAccess ?db' m spaceId access"
      by (simp add: canAccessSpace_def who split: if_split_asm)
    with owner Some show ?thesis by blast
  next
    case None
    with assms same obtain agent where agent: "teamAgentForIdentity r db identity = Some agent"
      "teamAgentHasSpaceAccess r ?db' agent spaceId access"
      by (auto simp: canAccessSpace_def who split: if_split_asm option.splits)
    from agent(2) level have "ag_ownership agent = Personal"
      by (auto simp: teamAgentHasSpaceAccess_def split: if_split_asm)
    with agent(2) find owner obtain m o' where "ag_member agent = Some m" "findTeamMemberById db m = Some o'" "role o' = Owner"
      by (auto simp: teamAgentHasSpaceAccess_def split: if_split_asm option.splits)
    with agent(1) \<open>ag_ownership agent = Personal\<close> show ?thesis by blast
  qed
qed

theorem reset_leaves_owners_witness:
  "\<exists>owner. role owner = Owner \<and>
     (teamMemberForIdentity trusted_request owned_state owner_identity = Some owner
      \<or> (\<exists>agent m. teamAgentForIdentity trusted_request owned_state owner_identity = Some agent \<and> ag_ownership agent = Personal
           \<and> ag_member agent = Some m \<and> findTeamMemberById owned_state m = Some owner))"
proof (rule reset_leaves_owners)
  show "worktable owned_state \<noteq> None" "visitor trusted_request = None" "\<not> operator_verification owner_identity"
    by (simp_all add: owned_state_def owner_identity_def sample_defs)
  show "canAccessSpace trusted_request (resetTeamSpacePoliciesAfterContentReplacement owned_state) ''notes'' ManageLevel (Some owner_identity)"
    by code_simp
qed

end
