(* ===== verification/SharePolicy.thy ===== *)
theory SharePolicy
  imports TeamPolicy
begin

text \<open>
  Who may do what with share links, \<open>packages/server/src/share-policy.ts\<close>: every decision
  about making and managing links, and why a link does not open now. The owner policy is an
  argument, as the code reads it once per decision; a store that cannot be read is \<open>None\<close>.
  Times are milliseconds. Levels and document kinds are the strings the store holds, since a
  later version may have written one this version does not know.
\<close>

section \<open>Policy, links and answers\<close>

datatype who_may_share = Owners | SpaceManagers | Editors

datatype policy_spaces = AllSpaces | SelectedSpaces "string list"

record sharing_policy =
  paused :: bool
  whoMayShare :: who_may_share
  policy_spaces :: policy_spaces
  requirePassword :: bool
  maxExpiryDays :: "int option"
  levels :: "string list"
  liveLinks :: bool
  recordsScoped :: bool

record stored_link =
  link_space :: string
  link_level :: string
  createdById :: string
  createdAt :: int
  link_expiresAt :: "int option"
  hasPassword :: bool
  hasGrant :: bool
  servable :: bool

datatype blocked_by = ByPause | BySpace | BySharer | ByPassword | ByLevel | ByExpiryCap

datatype share_action = Read | Create | Manage | Oversee

datatype denial = Forbidden | NotASharer | Paused | SpaceNotAllowed | LevelNotAvailable

datatype decision = Allowed | Denied denial

definition AVAILABLE_LEVELS :: "string list" where
  "AVAILABLE_LEVELS = [''view'', ''comment'']"

definition DAY_MS :: int where
  "DAY_MS = 86400000"

section \<open>The policy in force\<close>

definition spaceAllowed :: "sharing_policy \<Rightarrow> string option \<Rightarrow> bool" where
  "spaceAllowed policy spaceId =
     (case policy_spaces policy of
        AllSpaces \<Rightarrow> True
      | SelectedSpaces ids \<Rightarrow> (case spaceId of None \<Rightarrow> False | Some s \<Rightarrow> s \<in> set ids))"

definition capOf :: "int \<Rightarrow> sharing_policy \<Rightarrow> int option" where
  "capOf created policy =
     (case maxExpiryDays policy of None \<Rightarrow> None | Some days \<Rightarrow> Some (created + days * DAY_MS))"

definition effectiveExpiresAt :: "int \<Rightarrow> int option \<Rightarrow> sharing_policy \<Rightarrow> int option" where
  "effectiveExpiresAt created expiresAt policy =
     (case capOf created policy of
        None \<Rightarrow> expiresAt
      | Some cap \<Rightarrow> (case expiresAt of None \<Rightarrow> Some cap | Some t \<Rightarrow> Some (min t cap)))"

definition expiryAllowed :: "int option \<Rightarrow> sharing_policy \<Rightarrow> int \<Rightarrow> bool" where
  "expiryAllowed expiresAt policy now =
     (case maxExpiryDays policy of
        None \<Rightarrow> True
      | Some days \<Rightarrow>
          (case expiresAt of None \<Rightarrow> False | Some t \<Rightarrow> t \<le> now + days * DAY_MS + 60 * 60000))"

section \<open>Sharers\<close>

definition memberMayShare :: "team_state \<Rightarrow> team_member \<Rightarrow> string \<Rightarrow> sharing_policy \<Rightarrow> bool" where
  "memberMayShare db member spaceId policy =
     (if role member = Owner then True
      else (let level = memberLevel db member spaceId
            in case whoMayShare policy of
                 Owners \<Rightarrow> False
               | SpaceManagers \<Rightarrow> levelAtLeast level ManageLevel
               | Editors \<Rightarrow> levelAtLeast level EditLevel))"

definition creatorMayShare :: "team_state \<Rightarrow> string \<Rightarrow> string \<Rightarrow> sharing_policy \<Rightarrow> bool" where
  "creatorMayShare db creator spaceId policy =
     (if worktable db = None \<or> creator = [] \<or> CHR '':'' \<in> set creator then True
      else (case map_of (members db) creator of
              None \<Rightarrow> False
            | Some member \<Rightarrow> memberMayShare db member spaceId policy))"

definition sharerOf :: "request \<Rightarrow> team_state \<Rightarrow> token_identity \<Rightarrow> string \<times> string" where
  "sharerOf r db identity =
     (case (if worktable db \<noteq> None then teamMemberForIdentity r db identity else None) of
        Some member \<Rightarrow> (member_id member, member_name member)
      | None \<Rightarrow> (principal_id identity, principal_name identity))"

section \<open>Decisions\<close>

definition linkBlockedBy :: "team_state \<Rightarrow> stored_link \<Rightarrow> sharing_policy \<Rightarrow> int \<Rightarrow> blocked_by option" where
  "linkBlockedBy db link policy now =
     (if paused policy then Some ByPause
      else if \<not> spaceAllowed policy (Some (link_space link)) then Some BySpace
      else if \<not> servable link then Some (if hasPassword link then ByPassword else ByLevel)
      else if hasGrant link \<and> \<not> liveLinks policy then Some ByLevel
      else if link_level link \<notin> set (levels policy) then Some ByLevel
      else if requirePassword policy \<and> \<not> hasPassword link then Some ByPassword
      else if \<not> creatorMayShare db (createdById link) (link_space link) policy then Some BySharer
      else (case capOf (createdAt link) policy of
              None \<Rightarrow> None
            | Some cap \<Rightarrow> if cap \<le> now then Some ByExpiryCap else None))"

text \<open>A time of creation that does not parse is \<open>None\<close> (\<open>NaN\<close>), which is before no time.\<close>

definition legacyShareHeldBack :: "string \<Rightarrow> int option \<Rightarrow> sharing_policy option \<Rightarrow> int \<Rightarrow> bool" where
  "legacyShareHeldBack spaceId created stored now =
     (case stored of
        None \<Rightarrow> True
      | Some policy \<Rightarrow>
          paused policy
          \<or> \<not> spaceAllowed policy (Some spaceId)
          \<or> requirePassword policy
          \<or> ''view'' \<notin> set (levels policy)
          \<or> (case maxExpiryDays policy of
               None \<Rightarrow> False
             | Some days \<Rightarrow>
                 (case created of None \<Rightarrow> True | Some c \<Rightarrow> \<not> c + days * DAY_MS > now)))"

definition policyAllowsLinks :: "sharing_policy \<Rightarrow> string option \<Rightarrow> decision" where
  "policyAllowsLinks policy spaceId =
     (if paused policy then Denied Paused
      else if \<not> spaceAllowed policy spaceId then Denied SpaceNotAllowed
      else Allowed)"

text \<open>The level the action asks for: a new link's, or the one an edit gives.\<close>

definition asked_level :: "share_action \<Rightarrow> string option \<Rightarrow> string option" where
  "asked_level action level =
     (case action of
        Create \<Rightarrow> Some (case level of None \<Rightarrow> ''view'' | Some l \<Rightarrow> l)
      | Manage \<Rightarrow> level
      | _ \<Rightarrow> None)"

definition allow_if :: "bool \<Rightarrow> decision" where
  "allow_if b = (if b then Allowed else Denied Forbidden)"

definition space_check :: "request \<Rightarrow> team_state \<Rightarrow> string option \<Rightarrow> space_level \<Rightarrow> token_identity \<Rightarrow> bool" where
  "space_check r db spaceId access identity =
     (case spaceId of None \<Rightarrow> False | Some s \<Rightarrow> canAccessSpace r db s access (Some identity))"

definition authorizeShareAction ::
    "request \<Rightarrow> team_state \<Rightarrow> token_identity option \<Rightarrow> share_action \<Rightarrow> string option \<Rightarrow> string option
       \<Rightarrow> string option \<Rightarrow> sharing_policy \<Rightarrow> decision" where
  "authorizeShareAction r db who action spaceId level creatorId policy =
     (case who of
        None \<Rightarrow> Denied Forbidden
      | Some identity \<Rightarrow>
          if id_agent identity \<noteq> None \<or> principal_kind identity \<noteq> Human \<or> operator_verification identity
          then Denied Forbidden
          else if (case asked_level action level of
                     None \<Rightarrow> False
                   | Some l \<Rightarrow> l \<notin> set AVAILABLE_LEVELS \<or> l \<notin> set (levels policy))
          then Denied LevelNotAvailable
          else if worktable db = None
          then (if action = Create then policyAllowsLinks policy spaceId else Allowed)
          else (case teamMemberForIdentity r db identity of
            None \<Rightarrow> Denied Forbidden
          | Some member \<Rightarrow>
              (let owner = (role member = Owner)
               in case action of
                    Read \<Rightarrow> allow_if (owner \<or> space_check r db spaceId ReadLevel identity)
                  | Oversee \<Rightarrow> allow_if (owner \<or> space_check r db spaceId ManageLevel identity)
                  | Manage \<Rightarrow>
                      allow_if (owner \<or> space_check r db spaceId ManageLevel identity
                        \<or> (case spaceId of None \<Rightarrow> False
                           | Some s \<Rightarrow> creatorId = Some (member_id member) \<and> memberMayShare db member s policy))
                  | Create \<Rightarrow>
                      (case spaceId of
                         None \<Rightarrow> Denied NotASharer
                       | Some s \<Rightarrow>
                           if \<not> memberMayShare db member s policy then Denied NotASharer
                           else policyAllowsLinks policy spaceId))))"

definition pageShareAccess ::
    "request \<Rightarrow> team_state \<Rightarrow> token_identity \<Rightarrow> string \<Rightarrow> sharing_policy option \<Rightarrow> bool option" where
  "pageShareAccess r db identity spaceId stored =
     (case stored of
        None \<Rightarrow> None
      | Some policy \<Rightarrow>
          if authorizeShareAction r db (Some identity) Read (Some spaceId) None None policy \<noteq> Allowed then None
          else Some (authorizeShareAction r db (Some identity) Create (Some spaceId) None None policy = Allowed))"

section \<open>Tightening a policy\<close>

definition share_rank :: "who_may_share \<Rightarrow> nat" where
  "share_rank w = (case w of Owners \<Rightarrow> 0 | SpaceManagers \<Rightarrow> 1 | Editors \<Rightarrow> 2)"

definition spaces_within :: "policy_spaces \<Rightarrow> policy_spaces \<Rightarrow> bool" where
  "spaces_within a b =
     (case b of AllSpaces \<Rightarrow> True
      | SelectedSpaces bs \<Rightarrow> (case a of AllSpaces \<Rightarrow> False | SelectedSpaces as \<Rightarrow> set as \<subseteq> set bs))"

definition tighter :: "sharing_policy \<Rightarrow> sharing_policy \<Rightarrow> bool" where
  "tighter p q \<longleftrightarrow>
     (paused q \<longrightarrow> paused p) \<and> share_rank (whoMayShare p) \<le> share_rank (whoMayShare q)
     \<and> spaces_within (policy_spaces p) (policy_spaces q) \<and> (requirePassword q \<longrightarrow> requirePassword p)
     \<and> (case maxExpiryDays q of None \<Rightarrow> True
        | Some dq \<Rightarrow> (case maxExpiryDays p of None \<Rightarrow> False | Some dp \<Rightarrow> dp \<le> dq))
     \<and> set (levels p) \<subseteq> set (levels q) \<and> (liveLinks p \<longrightarrow> liveLinks q)"

lemma spaceAllowed_tighter: "tighter p q \<Longrightarrow> spaceAllowed p s \<Longrightarrow> spaceAllowed q s"
  by (auto simp: tighter_def spaces_within_def spaceAllowed_def split: policy_spaces.splits option.splits)

lemma memberMayShare_tighter: "tighter p q \<Longrightarrow> memberMayShare db m s p \<Longrightarrow> memberMayShare db m s q"
  by (auto simp: tighter_def share_rank_def memberMayShare_def Let_def
      intro: levelAtLeast_lower [of _ ManageLevel] split: who_may_share.splits if_splits)

lemma creatorMayShare_tighter: "tighter p q \<Longrightarrow> creatorMayShare db c s p \<Longrightarrow> creatorMayShare db c s q"
  by (auto simp: creatorMayShare_def memberMayShare_tighter split: option.splits if_splits)

lemma capOf_tighter:
  assumes "tighter p q" "capOf c q = Some cap"
  shows "\<exists>cap'. capOf c p = Some cap' \<and> cap' \<le> cap"
  using assms by (auto simp: tighter_def capOf_def DAY_MS_def split: option.splits)

lemma linkBlockedBy_None_iff:
  "linkBlockedBy db link p now = None \<longleftrightarrow>
     \<not> paused p \<and> spaceAllowed p (Some (link_space link)) \<and> servable link \<and> (hasGrant link \<longrightarrow> liveLinks p)
     \<and> link_level link \<in> set (levels p) \<and> (requirePassword p \<longrightarrow> hasPassword link)
     \<and> creatorMayShare db (createdById link) (link_space link) p
     \<and> (case capOf (createdAt link) p of None \<Rightarrow> True | Some cap \<Rightarrow> now < cap)"
  by (auto simp: linkBlockedBy_def split: option.split)

text \<open>
  C19. Tightening the owner policy never opens a link and never lets anyone do more: what the
  tighter policy lets open or decide, the looser one does too.
\<close>

theorem tightening_only_closes:
  assumes "tighter p q"
  shows "(linkBlockedBy db link p now = None \<longrightarrow> linkBlockedBy db link q now = None)
    \<and> (authorizeShareAction r db who action spaceId level creatorId p = Allowed \<longrightarrow>
         authorizeShareAction r db who action spaceId level creatorId q = Allowed)"
proof
  show "linkBlockedBy db link p now = None \<longrightarrow> linkBlockedBy db link q now = None"
    using assms spaceAllowed_tighter [OF assms] creatorMayShare_tighter [OF assms] capOf_tighter [OF assms]
    unfolding linkBlockedBy_None_iff by (fastforce simp: tighter_def split: option.splits)
next
  have "policyAllowsLinks p s = Allowed \<Longrightarrow> policyAllowsLinks q s = Allowed" for s
    using assms spaceAllowed_tighter [OF assms] by (auto simp: policyAllowsLinks_def tighter_def split: if_splits)
  moreover have "set (levels p) \<subseteq> set (levels q)" using assms by (simp add: tighter_def)
  ultimately show "authorizeShareAction r db who action spaceId level creatorId p = Allowed \<longrightarrow>
         authorizeShareAction r db who action spaceId level creatorId q = Allowed"
    using memberMayShare_tighter [OF assms]
    by (cases action)
       (auto simp: authorizeShareAction_def Let_def allow_if_def asked_level_def split: option.splits if_splits)
qed

definition open_policy :: sharing_policy where
  "open_policy = \<lparr>paused = False, whoMayShare = Editors, policy_spaces = AllSpaces, requirePassword = False,
     maxExpiryDays = None, levels = [''view'', ''comment''], liveLinks = True, recordsScoped = True\<rparr>"

definition strict_policy :: sharing_policy where
  "strict_policy = open_policy\<lparr>whoMayShare := Owners, policy_spaces := SelectedSpaces [''notes''],
     maxExpiryDays := Some 7, levels := [''view'']\<rparr>"

definition sample_link :: stored_link where
  "sample_link = \<lparr>link_space = ''notes'', link_level = ''view'', createdById = [], createdAt = 0,
     link_expiresAt = None, hasPassword = False, hasGrant = False, servable = True\<rparr>"

theorem tightening_only_closes_witness:
  "linkBlockedBy sample_state sample_link strict_policy 1000 = None
   \<and> linkBlockedBy sample_state sample_link open_policy 1000 = None"
proof -
  have "tighter strict_policy open_policy"
    by (simp add: tighter_def strict_policy_def open_policy_def share_rank_def spaces_within_def)
  moreover have "linkBlockedBy sample_state sample_link strict_policy 1000 = None" by code_simp
  ultimately show ?thesis
    using tightening_only_closes [of strict_policy open_policy sample_state sample_link 1000] by blast
qed

text \<open>
  Only people decide about links: an agent, an operator check or a request without an
  identity is refused every action. And what a person is allowed to make does open: a link
  made by an allowed member, with a password where one is required, is not held back.
\<close>

lemma allowed_links_open:
  assumes "authorizeShareAction r db (Some identity) action spaceId level creatorId policy = Allowed"
  shows "id_agent identity = None \<and> principal_kind identity = Human \<and> \<not> operator_verification identity
    \<and> (action = Create \<and> worktable db \<noteq> None \<longrightarrow>
        (\<exists>s member. spaceId = Some s \<and> teamMemberForIdentity r db identity = Some member \<and>
          (\<forall>link now. link_space link = s \<and> Some (link_level link) = asked_level Create level
             \<and> map_of (members db) (createdById link) = Some member
             \<and> servable link \<and> \<not> hasGrant link
             \<and> (requirePassword policy \<longrightarrow> hasPassword link)
             \<and> (case effectiveExpiresAt (createdAt link) None policy of None \<Rightarrow> True | Some t \<Rightarrow> now < t)
           \<longrightarrow> linkBlockedBy db link policy now = None)))"
proof -
  from assms have who: "id_agent identity = None \<and> principal_kind identity = Human \<and> \<not> operator_verification identity"
    by (auto simp: authorizeShareAction_def split: if_splits)
  moreover
  { assume create: "action = Create" "worktable db \<noteq> None"
    with assms obtain s member where found: "spaceId = Some s" "teamMemberForIdentity r db identity = Some member"
      "memberMayShare db member s policy" "policyAllowsLinks policy (Some s) = Allowed"
      "\<forall>l. asked_level Create level = Some l \<longrightarrow> l \<in> set (levels policy)"
      by (auto simp: authorizeShareAction_def Let_def split: if_splits option.splits)
    have "linkBlockedBy db link policy now = None"
      if "link_space link = s" "Some (link_level link) = asked_level Create level"
        "map_of (members db) (createdById link) = Some member" "servable link" "\<not> hasGrant link"
        "requirePassword policy \<longrightarrow> hasPassword link"
        "case effectiveExpiresAt (createdAt link) None policy of None \<Rightarrow> True | Some t \<Rightarrow> now < t" for link now
      using found that unfolding linkBlockedBy_None_iff
      by (auto simp: creatorMayShare_def policyAllowsLinks_def effectiveExpiresAt_def split: if_splits option.splits)
    with found have "\<exists>s member. spaceId = Some s \<and> teamMemberForIdentity r db identity = Some member \<and>
          (\<forall>link now. link_space link = s \<and> Some (link_level link) = asked_level Create level
             \<and> map_of (members db) (createdById link) = Some member
             \<and> servable link \<and> \<not> hasGrant link
             \<and> (requirePassword policy \<longrightarrow> hasPassword link)
             \<and> (case effectiveExpiresAt (createdAt link) None policy of None \<Rightarrow> True | Some t \<Rightarrow> now < t)
           \<longrightarrow> linkBlockedBy db link policy now = None)" by blast }
  ultimately show ?thesis by blast
qed

definition member_identity :: token_identity where
  "member_identity = sample_identity\<lparr>id_agent := None, principal_id := ''h1'', principal_kind := Human,
     id_team := Some \<lparr>tc_worktable = ''w'', tc_user = Some ''u1'', tc_member = Some ''m1'', tc_agent = None, tc_credential = None\<rparr>\<rparr>"

end
