(* ===== verification/ReplyOutbox.thy ===== *)
theory ReplyOutbox
  imports Json
begin

text \<open>
  The outbox in which the OpenClaw plugin keeps a reply until Worktable has it,
  \<open>packages/openclaw-plugin/src/reply-outbox.ts\<close>: one on disk, behind a file lock, and one
  in memory for tests and hosts without a state directory. Both serve the interface
  \<open>ReplyOutbox\<close>, stated here as a locale and proved for both.

  A reply is the JSON object the caller passes. Every operation runs under the lock, so it is
  one step. The time an entry was retained is kept as the number its ISO text names;
  \<open>parse_time\<close> stands for \<open>Date.parse\<close> where a stored file is checked.
\<close>

section \<open>Entries and errors\<close>

datatype outbox_error = Unavailable | Conflict | Full

definition MAX_RETAINED_REPLIES :: nat where
  "MAX_RETAINED_REPLIES = 2000"

definition OUTBOX_TTL_MS :: int where
  "OUTBOX_TTL_MS = 30 * 24 * 60 * 60 * 1000"

record reply_entry =
  eventId :: string
  reply :: json
  retainedAt :: int

type_synonym outbox_file = "reply_entry list"

section \<open>Checking a stored file\<close>

definition isRetainedReply :: "json option \<Rightarrow> bool" where
  "isRetainedReply value =
     (if \<not> is_object value then False
      else (let location = field ''location'' value;
                loc_kind = field ''kind'' location;
                validLocation = loc_kind = Some (JStr ''worktable'')
                  \<or> (loc_kind = Some (JStr ''space'') \<and> is_string (field ''spaceId'' location))
            in (validLocation \<or> is_string (field ''spaceId'' value))
               \<and> is_string (field ''threadId'' value)
               \<and> is_string (field ''inReplyTo'' value)
               \<and> ((is_string (field ''responseTo'' value) \<and> is_string (field ''authorIdentityId'' value))
                  \<or> is_string (field ''to'' value))
               \<and> is_string (field ''body'' value)
               \<and> is_string (field ''idempotencyKey'' value)))"

definition parse_entry :: "(string \<Rightarrow> int option) \<Rightarrow> json \<Rightarrow> reply_entry option" where
  "parse_entry parse_time entry =
     (if \<not> is_object (Some entry) then None
      else (case (field ''eventId'' (Some entry), field ''retainedAt'' (Some entry), field ''reply'' (Some entry)) of
        (Some (JStr event), Some (JStr stamp), Some r) \<Rightarrow>
          (case parse_time stamp of
             None \<Rightarrow> None
           | Some t \<Rightarrow>
               if isRetainedReply (Some r) then Some \<lparr>eventId = event, reply = r, retainedAt = t\<rparr> else None)
      | _ \<Rightarrow> None))"

definition parseOutbox :: "(string \<Rightarrow> int option) \<Rightarrow> json \<Rightarrow> outbox_error + outbox_file" where
  "parseOutbox parse_time value =
     (if field ''type'' (Some value) = Some (JStr ''worktable.openclaw-reply-outbox'')
         \<and> field ''version'' (Some value) = Some (JNum 1)
      then (case field ''replies'' (Some value) of
              Some (JArr entries) \<Rightarrow>
                traverse (\<lambda>e. case parse_entry parse_time e of None \<Rightarrow> Inl Unavailable | Some x \<Rightarrow> Inr x) entries
            | _ \<Rightarrow> Inl Unavailable)
      else Inl Unavailable)"

text \<open>\<open>locked\<close>: an absent file is an empty outbox.\<close>

definition load_outbox :: "(string \<Rightarrow> int option) \<Rightarrow> json option \<Rightarrow> outbox_error + outbox_file" where
  "load_outbox parse_time stored =
     (case stored of None \<Rightarrow> Inr [] | Some value \<Rightarrow> parseOutbox parse_time value)"

section \<open>The outbox on disk\<close>

definition pruneExpired :: "int \<Rightarrow> outbox_file \<Rightarrow> outbox_file" where
  "pruneExpired now box = filter (\<lambda>entry. now - retainedAt entry \<le> OUTBOX_TTL_MS) box"

definition sameReply :: "json \<Rightarrow> json \<Rightarrow> bool" where
  "sameReply left right \<longleftrightarrow>
     field ''location'' (Some left) = field ''location'' (Some right)
     \<and> list_all (\<lambda>k. strict_eq (field k (Some left)) (field k (Some right)))
         [''spaceId'', ''threadId'', ''to'', ''inReplyTo'', ''responseTo'', ''authorIdentityId'', ''body'',
          ''idempotencyKey'']"

definition find_entry :: "string \<Rightarrow> outbox_file \<Rightarrow> reply_entry option" where
  "find_entry event box = List.find (\<lambda>entry. eventId entry = event) box"

definition file_get :: "int \<Rightarrow> string \<Rightarrow> outbox_file \<Rightarrow> json option \<times> outbox_file" where
  "file_get now event box =
     (let box' = pruneExpired now box in (map_option reply (find_entry event box'), box'))"

definition file_put :: "int \<Rightarrow> string \<Rightarrow> json \<Rightarrow> outbox_file \<Rightarrow> outbox_error + outbox_file" where
  "file_put now event r box =
     (let box' = pruneExpired now box
      in (case find_entry event box' of
            Some existing \<Rightarrow> if \<not> sameReply (reply existing) r then Inl Conflict else Inr box'
          | None \<Rightarrow>
              if length box' \<ge> MAX_RETAINED_REPLIES then Inl Full
              else Inr (box' @ [\<lparr>eventId = event, reply = r, retainedAt = now\<rparr>])))"

definition file_delete :: "int \<Rightarrow> string \<Rightarrow> outbox_file \<Rightarrow> outbox_file" where
  "file_delete now event box = pruneExpired now (filter (\<lambda>entry. eventId entry \<noteq> event) box)"

section \<open>The outbox in memory\<close>

type_synonym memory_outbox = "(string \<times> json) list"

definition memory_get :: "string \<Rightarrow> memory_outbox \<Rightarrow> json option" where
  "memory_get event replies = map_of replies event"

definition memory_put :: "string \<Rightarrow> json \<Rightarrow> memory_outbox \<Rightarrow> outbox_error + memory_outbox" where
  "memory_put event r replies =
     (case map_of replies event of
        Some existing \<Rightarrow> if \<not> sameReply existing r then Inl Conflict else Inr (AList.update event r replies)
      | None \<Rightarrow> Inr (AList.update event r replies))"

definition memory_delete :: "string \<Rightarrow> memory_outbox \<Rightarrow> memory_outbox" where
  "memory_delete event replies = AList.delete event replies"

section \<open>The interface\<close>

text \<open>
  What a client relies on at one moment: a reply put is there afterwards, whole or in the
  agreed fields; a second reply under the same event is refused unless it is the same; deleting
  takes away that reply only.
\<close>

locale reply_outbox =
  fixes lookup :: "string \<Rightarrow> 's \<Rightarrow> json option"
    and put :: "string \<Rightarrow> json \<Rightarrow> 's \<Rightarrow> outbox_error + 's"
    and discard :: "string \<Rightarrow> 's \<Rightarrow> 's"
  assumes put_lookup: "put e r s = Inr s' \<Longrightarrow> \<exists>r'. lookup e s' = Some r' \<and> (r' = r \<or> sameReply r' r)"
    and put_other: "put e r s = Inr s' \<Longrightarrow> e' \<noteq> e \<Longrightarrow> lookup e' s' = lookup e' s"
    and put_conflict: "lookup e s = Some r' \<Longrightarrow> put e r s = Inl Conflict \<longleftrightarrow> \<not> sameReply r' r"
    and put_again: "lookup e s = Some r' \<Longrightarrow> sameReply r' r \<Longrightarrow> \<exists>s'. put e r s = Inr s'"
    and discard_lookup: "lookup e' (discard e s) = (if e' = e then None else lookup e' s)"
begin

text \<open>Retrying a put that succeeded succeeds again.\<close>

lemma put_idempotent: "sameReply r r \<Longrightarrow> put e r s = Inr s' \<Longrightarrow> \<exists>s''. put e r s' = Inr s''"
  using put_lookup put_again by (metis (full_types))

lemma discard_twice: "lookup e' (discard e (discard e s)) = lookup e' (discard e s)"
  by (simp add: discard_lookup)

text \<open>A reply stays until it is discarded, whatever else is put.\<close>

fun put_all :: "(string \<times> json) list \<Rightarrow> 's \<Rightarrow> 's" where
  "put_all [] s = s"
| "put_all ((e, r) # ps) s = put_all ps (case put e r s of Inl _ \<Rightarrow> s | Inr s' \<Rightarrow> s')"

lemma put_all_keeps:
  "lookup e s = Some r \<Longrightarrow> e \<notin> fst ` set ps \<Longrightarrow> lookup e (put_all ps s) = Some r"
proof (induction ps s rule: put_all.induct)
  case (2 e' r' ps s)
  then have "e \<noteq> e'" "e \<notin> fst ` set ps" by auto
  then have "lookup e (case put e' r' s of Inl _ \<Rightarrow> s | Inr s' \<Rightarrow> s') = Some r"
    using "2.prems"(1) put_other [of e' r' s _ e] by (auto split: sum.split)
  with "2.IH" \<open>e \<notin> fst ` set ps\<close> show ?case by simp
qed simp

end

section \<open>Both outboxes serve it\<close>

lemma find_entry_filter:
  "find_entry e (filter (\<lambda>x. eventId x \<noteq> e') box) = (if e = e' then None else find_entry e box)"
  by (induction box) (auto simp: find_entry_def)

lemma prune_prune [simp]: "pruneExpired now (pruneExpired now box) = pruneExpired now box"
  by (simp add: pruneExpired_def)

lemma prune_append: "pruneExpired now (box @ [\<lparr>eventId = e, reply = r, retainedAt = now\<rparr>])
    = pruneExpired now box @ [\<lparr>eventId = e, reply = r, retainedAt = now\<rparr>]"
  by (simp add: pruneExpired_def OUTBOX_TTL_MS_def)

lemma find_entry_append:
  "find_entry e (box @ [x]) = (case find_entry e box of Some y \<Rightarrow> Some y | None \<Rightarrow> if eventId x = e then Some x else None)"
  by (induction box) (auto simp: find_entry_def)

lemma prune_filter_commute:
  "pruneExpired now (filter P box) = filter P (pruneExpired now box)"
  by (simp add: pruneExpired_def conj_commute)

interpretation disk: reply_outbox "\<lambda>e s. fst (file_get now e s)" "file_put now" "file_delete now" for now :: int
proof (unfold_locales, goal_cases)
  case (1 e r s s')
  then show ?case
    by (auto simp: file_put_def file_get_def Let_def prune_append find_entry_append split: option.splits if_splits)
next
  case (2 e r s s' e')
  then show ?case
    by (auto simp: file_put_def file_get_def Let_def prune_append find_entry_append split: option.splits if_splits)
next
  case (3 e s r' r)
  then show ?case by (auto simp: file_put_def file_get_def Let_def)
next
  case (4 e s r' r)
  then show ?case by (auto simp: file_put_def file_get_def Let_def)
next
  case (5 e' e s)
  then show ?case by (auto simp: file_delete_def file_get_def Let_def prune_filter_commute find_entry_filter)
qed

interpretation memory: reply_outbox memory_get memory_put memory_delete
proof (unfold_locales, goal_cases)
  case (5 e' e s)
  then show ?case by (simp add: memory_get_def memory_delete_def delete_conv')
qed (auto simp: memory_get_def memory_put_def update_conv' split: option.splits if_splits)

section \<open>Properties\<close>

text \<open>Entries that \<open>put\<close> has written: one per event, no more than the outbox holds.\<close>

definition outbox_ok :: "outbox_file \<Rightarrow> bool" where
  "outbox_ok box \<longleftrightarrow> distinct (map eventId box) \<and> length box \<le> MAX_RETAINED_REPLIES"

lemma outbox_ok_filter: "outbox_ok box \<Longrightarrow> outbox_ok (filter P box)"
  by (auto simp: outbox_ok_def distinct_map_filter intro: order_trans [OF length_filter_le])

datatype outbox_call = Get string | Put string json | Delete string

fun outbox_step :: "int \<times> outbox_call \<Rightarrow> outbox_file \<Rightarrow> outbox_file" where
  "outbox_step (now, Get e) box = snd (file_get now e box)"
| "outbox_step (now, Put e r) box = (case file_put now e r box of Inl _ \<Rightarrow> box | Inr box' \<Rightarrow> box')"
| "outbox_step (now, Delete e) box = file_delete now e box"

lemma find_entry_None: "find_entry e box = None \<longleftrightarrow> e \<notin> eventId ` set box"
  by (auto simp: find_entry_def find_None_iff)

lemma outbox_step_ok: "outbox_ok box \<Longrightarrow> outbox_ok (outbox_step c box)"
proof (cases "(c, box)" rule: outbox_step.cases)
  case (2 now e r box')
  assume ok: "outbox_ok box"
  then have pruned: "outbox_ok (pruneExpired now box)" by (simp add: pruneExpired_def outbox_ok_filter)
  show ?thesis
  proof (cases "find_entry e (pruneExpired now box)")
    case None
    then have "e \<notin> eventId ` set (pruneExpired now box)" by (simp add: find_entry_None)
    with None pruned ok 2 show ?thesis by (auto simp: file_put_def Let_def outbox_ok_def)
  next
    case (Some x)
    with pruned ok 2 show ?thesis by (simp add: file_put_def Let_def)
  qed
qed (auto simp: file_get_def file_delete_def pruneExpired_def Let_def outbox_ok_filter)

interpretation outbox_runs: kept_by_steps outbox_step outbox_ok
  by unfold_locales (rule outbox_step_ok)


definition sample_reply :: json where
  "sample_reply = JObj [(''spaceId'', JStr ''s''), (''threadId'', JStr ''t''), (''inReplyTo'', JStr ''m''),
     (''to'', JStr ''a''), (''body'', JStr ''hi''), (''idempotencyKey'', JStr ''k'')]"


end
