(* ===== verification/Pairing.thy ===== *)
theory Pairing
  imports Prelude
begin

text \<open>
  Pairing sessions, \<open>packages/server/src/pairing-store.ts\<close>: a code shown once and stored as
  its hash, redeemed once while it is fresh, then reported on and completed by the connector.

  Every mutation runs under the store's queue and lock, so it is one step on the list of
  sessions read from the file, with one reading of the clock. Times are the milliseconds their ISO
  texts name; \<open>hash\<close> stands
  for the SHA-256 of \<open>node:crypto\<close>, and the random bytes are an argument.
\<close>

section \<open>Sessions\<close>

definition PAIRING_TTL_MS :: int where "PAIRING_TTL_MS = 15 * 60 * 1000"
definition PURGE_AFTER_MS :: int where "PURGE_AFTER_MS = 24 * 60 * 60 * 1000"
definition MAX_EVENTS :: nat where "MAX_EVENTS = 50"
definition MAX_DETAIL_LENGTH :: nat where "MAX_DETAIL_LENGTH = 500"
definition CODE_ALPHABET :: string where "CODE_ALPHABET = ''0123456789ABCDEFGHJKMNPQRSTVWXYZ''"
definition CODE_LENGTH :: nat where "CODE_LENGTH = 10"

datatype progress = Redeemed | ConfigWritten | Verifying | Verified | Failed | RolledBack | FailedNoConfig

definition CONNECTOR_PROGRESS_EVENTS :: "progress list" where
  "CONNECTOR_PROGRESS_EVENTS = [ConfigWritten, Verifying, Failed, RolledBack, FailedNoConfig]"

record pairing_event =
  pe_at :: int
  pe_event :: progress
  pe_detail :: "string option"

record pairing_redeemer =
  pr_hostname :: "string option"
  pr_client :: "string option"
  pr_installation :: "string option"
  pr_all :: bool

datatype pairing_target =
    McpClient "string option" "string option" "string option"
  | AgentAdapter string string "string option" "string option"

record team_binding =
  tb_agent :: string
  tb_created :: bool
  tb_credential :: string

datatype outcome = OutcomeVerified | OutcomeFailed

record pairing_base =
  ps_id :: string
  requestedClient :: "string option"
  ps_target :: pairing_target
  ps_scopes :: "string list"
  ps_mcpUrl :: string
  ps_createdAt :: int
  ps_expiresAt :: int
  redeemedAt :: "int option"
  redeemedBy :: "pairing_redeemer option"
  tokenId :: "string option"
  teamBinding :: "team_binding option"
  ps_outcome :: "outcome option"
  ps_events :: "pairing_event list"

record pairing_session = pairing_base +
  codeHash :: string

datatype pairing_status = Pending | Expired | StatusRedeemed | StatusVerified | StatusFailed

type_synonym pairing_view = "pairing_base \<times> pairing_status"

datatype pairing_failure = NotFound | WasExpired | AlreadyRedeemed | NotRedeemed | TokenMismatch | AlreadyFailed | CallbackThrew

type_synonym sessions = "pairing_session list"

definition loadSessions :: "int \<Rightarrow> sessions \<Rightarrow> sessions" where
  "loadSessions now stored = filter (\<lambda>s. ps_expiresAt s > now - PURGE_AFTER_MS) stored"

section \<open>Codes\<close>

text \<open>Presented codes are read as ASCII text: letters that only some other script folds to A-Z are not modelled.\<close>

definition code_char :: "char \<Rightarrow> bool" where
  "code_char c \<longleftrightarrow> CHR ''0'' \<le> c \<and> c \<le> CHR ''9'' \<or> CHR ''A'' \<le> c \<and> c \<le> CHR ''Z''"

definition normalizePairingCode :: "string \<Rightarrow> string" where
  "normalizePairingCode raw = filter code_char (map upper raw)"

definition formatPairingCode :: "string \<Rightarrow> string" where
  "formatPairingCode code =
     (let normalized = normalizePairingCode code; mid = (length normalized + 1) div 2
      in take mid normalized @ ''-'' @ drop mid normalized)"

definition generateCode :: "nat list \<Rightarrow> string" where
  "generateCode bytes = map (\<lambda>byte. CODE_ALPHABET ! (byte mod 32)) bytes"

definition hashCode :: "(string \<Rightarrow> string) \<Rightarrow> string \<Rightarrow> string" where
  "hashCode hash code = hash code"

text \<open>Every stored hash is compared; the last match wins.\<close>

definition findByCode :: "(string \<Rightarrow> string) \<Rightarrow> sessions \<Rightarrow> string \<Rightarrow> pairing_session option" where
  "findByCode hash stored rawCode =
     (let presented = hashCode hash (normalizePairingCode rawCode)
      in fold (\<lambda>s found. if codeHash s = presented then Some s else found) stored None)"

text \<open>Writing through the reference \<open>findByCode\<close> returned.\<close>

definition update_by_code :: "(string \<Rightarrow> string) \<Rightarrow> string \<Rightarrow> (pairing_session \<Rightarrow> pairing_session) \<Rightarrow> sessions \<Rightarrow> sessions" where
  "update_by_code hash rawCode f stored =
     update_last (\<lambda>s. codeHash s = hashCode hash (normalizePairingCode rawCode)) f stored"

section \<open>Views\<close>

definition statusOf :: "pairing_session \<Rightarrow> int \<Rightarrow> pairing_status" where
  "statusOf session now =
     (if ps_outcome session = Some OutcomeVerified then StatusVerified
      else if ps_outcome session = Some OutcomeFailed then StatusFailed
      else if redeemedAt session \<noteq> None then StatusRedeemed
      else if ps_expiresAt session \<le> now then Expired
      else Pending)"

definition toView :: "int \<Rightarrow> pairing_session \<Rightarrow> pairing_view" where
  "toView now session = (pairing_base.truncate session, statusOf session now)"

section \<open>Operations\<close>

record pairing_options =
  po_client :: "string option"
  po_target :: "pairing_target option"
  po_scopes :: "string list"
  po_mcpUrl :: string
  po_ttlMs :: "int option"

definition new_session ::
    "(string \<Rightarrow> string) \<Rightarrow> int \<Rightarrow> string \<Rightarrow> string \<Rightarrow> pairing_options \<Rightarrow> pairing_session" where
  "new_session hash now sid code options =
     \<lparr>ps_id = sid, requestedClient = po_client options,
      ps_target = (case po_target options of Some t \<Rightarrow> t | None \<Rightarrow> McpClient (po_client options) None None),
      ps_scopes = po_scopes options, ps_mcpUrl = po_mcpUrl options, ps_createdAt = now,
      ps_expiresAt = now + (case po_ttlMs options of Some t \<Rightarrow> t | None \<Rightarrow> PAIRING_TTL_MS),
      redeemedAt = None, redeemedBy = None, tokenId = None, teamBinding = None, ps_outcome = None,
      ps_events = [], codeHash = hashCode hash code\<rparr>"

definition createPairingSession ::
    "(string \<Rightarrow> string) \<Rightarrow> int \<Rightarrow> string \<Rightarrow> nat list \<Rightarrow> pairing_options \<Rightarrow> sessions
       \<Rightarrow> (string \<times> pairing_view) \<times> sessions" where
  "createPairingSession hash now sid bytes options stored =
     (let code = generateCode bytes; session = new_session hash now sid code options
      in ((formatPairingCode code, toView now session), loadSessions now stored @ [session]))"

definition getPairingSession :: "int \<Rightarrow> string \<Rightarrow> sessions \<Rightarrow> pairing_view option" where
  "getPairingSession now sid stored =
     map_option (toView now) (List.find (\<lambda>s. ps_id s = sid) (loadSessions now stored))"

definition getPairingTarget ::
    "(string \<Rightarrow> string) \<Rightarrow> int \<Rightarrow> string \<Rightarrow> sessions \<Rightarrow> pairing_failure + (string option \<times> pairing_target)" where
  "getPairingTarget hash now rawCode stored =
     (case findByCode hash (loadSessions now stored) rawCode of
        None \<Rightarrow> Inl NotFound
      | Some session \<Rightarrow>
          if redeemedAt session \<noteq> None then Inl AlreadyRedeemed
          else if ps_expiresAt session \<le> now then Inl WasExpired
          else Inr (requestedClient session, ps_target session))"

definition redeem_session :: "int \<Rightarrow> pairing_redeemer \<Rightarrow> pairing_session \<Rightarrow> pairing_session" where
  "redeem_session now by s = s\<lparr>redeemedAt := Some now, redeemedBy := Some by,
     ps_events := ps_events s @ [\<lparr>pe_at = now, pe_event = Redeemed, pe_detail = None\<rparr>]\<rparr>"

definition redeemPairingSession ::
    "(string \<Rightarrow> string) \<Rightarrow> int \<Rightarrow> string \<Rightarrow> pairing_redeemer \<Rightarrow> sessions
       \<Rightarrow> (pairing_failure + pairing_view) \<times> sessions" where
  "redeemPairingSession hash now rawCode by stored =
     (let loaded = loadSessions now stored
      in case findByCode hash loaded rawCode of
           None \<Rightarrow> (Inl NotFound, stored)
         | Some session \<Rightarrow>
             if redeemedAt session \<noteq> None then (Inl AlreadyRedeemed, stored)
             else if ps_expiresAt session \<le> now then (Inl WasExpired, stored)
             else (Inr (toView now (redeem_session now by session)),
                   update_by_code hash rawCode (redeem_session now by) loaded))"

definition attach_token :: "string \<Rightarrow> team_binding option \<Rightarrow> pairing_session \<Rightarrow> pairing_session" where
  "attach_token token binding s =
     s\<lparr>tokenId := Some token, teamBinding := (case binding of Some b \<Rightarrow> Some b | None \<Rightarrow> teamBinding s)\<rparr>"

definition attachPairingToken :: "int \<Rightarrow> string \<Rightarrow> string \<Rightarrow> team_binding option \<Rightarrow> sessions \<Rightarrow> sessions" where
  "attachPairingToken now sid token binding stored =
     (let loaded = loadSessions now stored
      in if list_ex (\<lambda>s. ps_id s = sid) loaded
         then update_first (\<lambda>s. ps_id s = sid) (attach_token token binding) loaded else stored)"

definition complete_session :: "int \<Rightarrow> pairing_session \<Rightarrow> pairing_session" where
  "complete_session now s =
     s\<lparr>ps_events := (if ps_outcome s \<noteq> Some OutcomeVerified \<and> length (ps_events s) < MAX_EVENTS
                     then ps_events s @ [\<lparr>pe_at = now, pe_event = Verified, pe_detail = None\<rparr>]
                     else ps_events s),
       ps_outcome := Some OutcomeVerified\<rparr>"

text \<open>\<open>beforeCommit\<close> says whether the callback returned; when it throws, nothing is saved.\<close>

definition completePairingSession ::
    "(string \<Rightarrow> string) \<Rightarrow> int \<Rightarrow> string \<Rightarrow> string \<Rightarrow> (pairing_view \<Rightarrow> bool) \<Rightarrow> sessions
       \<Rightarrow> (pairing_failure + pairing_view) \<times> sessions" where
  "completePairingSession hash now rawCode token beforeCommit stored =
     (let loaded = loadSessions now stored
      in case findByCode hash loaded rawCode of
           None \<Rightarrow> (Inl NotFound, stored)
         | Some session \<Rightarrow>
             if redeemedAt session = None then (Inl NotRedeemed, stored)
             else if tokenId session = None \<or> tokenId session = Some [] \<or> tokenId session \<noteq> Some token
             then (Inl TokenMismatch, stored)
             else if ps_outcome session = Some OutcomeFailed then (Inl AlreadyFailed, stored)
             else if \<not> beforeCommit (toView now session) then (Inl CallbackThrew, stored)
             else (Inr (toView now (complete_session now session)),
                   update_by_code hash rawCode (complete_session now) loaded))"

definition revokes :: "progress \<Rightarrow> bool" where
  "revokes event \<longleftrightarrow> event = RolledBack \<or> event = FailedNoConfig"

definition progress_session :: "int \<Rightarrow> progress \<Rightarrow> string option \<Rightarrow> pairing_session \<Rightarrow> pairing_session" where
  "progress_session now event detail s =
     (let duplicate = revokes event \<and> list_ex (\<lambda>e. pe_event e = event) (ps_events s);
          note = (case detail of None \<Rightarrow> None | Some d \<Rightarrow> if d = [] then None else Some (take MAX_DETAIL_LENGTH d))
      in s\<lparr>ps_events := (if \<not> duplicate \<and> length (ps_events s) < MAX_EVENTS
                         then ps_events s @ [\<lparr>pe_at = now, pe_event = event, pe_detail = note\<rparr>]
                         else ps_events s),
           ps_outcome := (if (event = Failed \<or> revokes event) \<and> ps_outcome s = None
                          then Some OutcomeFailed else ps_outcome s)\<rparr>)"

definition recordPairingProgress ::
    "(string \<Rightarrow> string) \<Rightarrow> int \<Rightarrow> string \<Rightarrow> progress \<Rightarrow> string option \<Rightarrow> sessions
       \<Rightarrow> (pairing_failure + pairing_view) \<times> sessions" where
  "recordPairingProgress hash now rawCode event detail stored =
     (let loaded = loadSessions now stored
      in case findByCode hash loaded rawCode of
           None \<Rightarrow> (Inl NotFound, stored)
         | Some session \<Rightarrow>
             if redeemedAt session = None then (Inl NotRedeemed, stored)
             else (Inr (toView now (progress_session now event detail session)),
                   update_by_code hash rawCode (progress_session now event detail) loaded))"

section \<open>Calls\<close>

datatype pairing_call =
    CreatePairing string "nat list" pairing_options
  | Redeem string pairing_redeemer
  | Attach string string "team_binding option"
  | Complete string string bool
  | Progress string progress "string option"

text \<open>The store after a call, and whether it was a successful redemption of which code.\<close>

fun pairing_step :: "(string \<Rightarrow> string) \<Rightarrow> int \<times> pairing_call \<Rightarrow> sessions \<Rightarrow> sessions" where
  "pairing_step hash (now, CreatePairing sid bytes options) stored = snd (createPairingSession hash now sid bytes options stored)"
| "pairing_step hash (now, Redeem code by) stored = snd (redeemPairingSession hash now code by stored)"
| "pairing_step hash (now, Attach sid token binding) stored = attachPairingToken now sid token binding stored"
| "pairing_step hash (now, Complete code token ok) stored = snd (completePairingSession hash now code token (\<lambda>_. ok) stored)"
| "pairing_step hash (now, Progress code event detail) stored =
     (if event \<in> set CONNECTOR_PROGRESS_EVENTS
      then snd (recordPairingProgress hash now code event detail stored) else stored)"

fun redeems :: "(string \<Rightarrow> string) \<Rightarrow> string \<Rightarrow> int \<times> pairing_call \<Rightarrow> sessions \<Rightarrow> bool" where
  "redeems hash h (now, Redeem code by) stored \<longleftrightarrow>
     hashCode hash (normalizePairingCode code) = h \<and> (\<exists>v. fst (redeemPairingSession hash now code by stored) = Inr v)"
| "redeems hash h _ stored = False"

fun redemptions :: "(string \<Rightarrow> string) \<Rightarrow> string \<Rightarrow> (int \<times> pairing_call) list \<Rightarrow> sessions \<Rightarrow> nat" where
  "redemptions hash h [] stored = 0"
| "redemptions hash h (c # cs) stored =
     (if redeems hash h c stored then 1 else 0) + redemptions hash h cs (pairing_step hash c stored)"

fun created_hashes :: "(string \<Rightarrow> string) \<Rightarrow> (int \<times> pairing_call) list \<Rightarrow> string list" where
  "created_hashes hash [] = []"
| "created_hashes hash ((now, CreatePairing sid bytes options) # cs) =
     hashCode hash (generateCode bytes) # created_hashes hash cs"
| "created_hashes hash (_ # cs) = created_hashes hash cs"

section \<open>The session invariant\<close>

definition session_ok :: "pairing_session \<Rightarrow> bool" where
  "session_ok s \<longleftrightarrow>
     (redeemedAt s = None \<longrightarrow> ps_outcome s = None \<and> ps_events s = [] \<and> redeemedBy s = None)
     \<and> (\<forall>t. redeemedAt s = Some t \<longrightarrow> t < ps_expiresAt s \<and> redeemedBy s \<noteq> None)
     \<and> (ps_outcome s = Some OutcomeVerified \<longrightarrow> tokenId s \<noteq> None)
     \<and> length (ps_events s) \<le> MAX_EVENTS
     \<and> (\<forall>e \<in> set (ps_events s). case pe_detail e of None \<Rightarrow> True | Some d \<Rightarrow> length d \<le> MAX_DETAIL_LENGTH)"

lemma fold_last_match:
  "fold (\<lambda>s found. if P s then Some s else found) xs z =
     (case rev (filter P xs) of [] \<Rightarrow> z | s # _ \<Rightarrow> Some s)"
proof (induction xs arbitrary: z)
  case (Cons x xs)
  then show ?case by (auto split: list.split)
qed simp

lemma findByCode_Some:
  "findByCode hash stored code = Some s \<Longrightarrow> s \<in> set stored \<and> codeHash s = hashCode hash (normalizePairingCode code)"
proof -
  assume "findByCode hash stored code = Some s"
  then obtain ys where "rev (filter (\<lambda>s. codeHash s = hashCode hash (normalizePairingCode code)) stored) = s # ys"
    by (auto simp: findByCode_def Let_def fold_last_match split: list.splits)
  then have "s \<in> set (rev (filter (\<lambda>s. codeHash s = hashCode hash (normalizePairingCode code)) stored))"
    by (simp only: list.set_intros(1))
  then show ?thesis by simp
qed

lemma update_by_code_set:
  assumes "findByCode hash stored code = Some s"
  shows "set (update_by_code hash code f stored) \<subseteq> insert (f s) (set stored)"
proof -
  let ?P = "\<lambda>s. codeHash s = hashCode hash (normalizePairingCode code)"
  from assms obtain ys where "rev (filter ?P stored) = s # ys"
    by (auto simp: findByCode_def Let_def fold_last_match split: list.splits)
  from update_last_filter [OF this] show ?thesis by (simp add: update_by_code_def)
qed

definition store_ok :: "sessions \<Rightarrow> bool" where
  "store_ok stored \<longleftrightarrow> (\<forall>s \<in> set stored. session_ok s)"

lemma store_ok_load: "store_ok stored \<Longrightarrow> store_ok (loadSessions now stored)"
  by (simp add: store_ok_def loadSessions_def)

lemma store_ok_update:
  "findByCode hash stored code = Some s \<Longrightarrow> store_ok stored \<Longrightarrow> session_ok (f s) \<Longrightarrow>
     store_ok (update_by_code hash code f stored)"
  using update_by_code_set unfolding store_ok_def by fast

lemma redeem_ok [keeps]:
  "redeemedAt s = None \<Longrightarrow> session_ok s \<Longrightarrow> now < ps_expiresAt s \<Longrightarrow> session_ok (redeem_session now by s)"
  by (simp add: session_ok_def redeem_session_def MAX_EVENTS_def)

lemma attach_ok [keeps]: "session_ok s \<Longrightarrow> session_ok (attach_token token binding s)"
  by (simp add: session_ok_def attach_token_def)

lemma complete_ok [keeps]:
  "redeemedAt s \<noteq> None \<Longrightarrow> tokenId s \<noteq> None \<Longrightarrow> session_ok s \<Longrightarrow> session_ok (complete_session now s)"
  by (auto simp: session_ok_def complete_session_def)

lemma progress_ok [keeps]:
  "redeemedAt s \<noteq> None \<Longrightarrow> session_ok s \<Longrightarrow> session_ok (progress_session now event detail s)"
  by (auto simp: session_ok_def progress_session_def Let_def split: option.splits if_splits)

lemma pairing_step_ok: "store_ok stored \<Longrightarrow> store_ok (pairing_step hash c stored)"
proof (cases "(hash, c, stored)" rule: pairing_step.cases)
  case (1 hash now sid bytes options stored')
  assume "store_ok stored"
  with 1 show ?thesis
    using store_ok_load [of stored now]
    by (auto simp: createPairingSession_def Let_def store_ok_def new_session_def session_ok_def)
next
  case (2 hash now code who stored')
  assume ok: "store_ok stored"
  note load = store_ok_load [OF ok, of now]
  show ?thesis
  proof (cases "findByCode hash (loadSessions now stored) code")
    case None
    with ok 2 show ?thesis by (simp add: redeemPairingSession_def Let_def)
  next
    case (Some s)
    then have "session_ok s" using load findByCode_Some [OF Some] by (simp add: store_ok_def)
    with Some ok load store_ok_update [OF Some load, of "redeem_session now who"] 2 show ?thesis
      by (auto simp: redeemPairingSession_def Let_def redeem_ok not_le)
  qed
next
  case (3 hash now sid token binding stored')
  assume ok: "store_ok stored"
  with 3 store_ok_load [OF ok, of now] update_first_set [of "\<lambda>s. ps_id s = sid" "attach_token token binding" "loadSessions now stored"]
  show ?thesis
    by (auto simp: attachPairingToken_def Let_def store_ok_def dest!: subsetD intro: keeps)
next
  case (4 hash now code token ok' stored')
  assume ok: "store_ok stored"
  note load = store_ok_load [OF ok, of now]
  show ?thesis
  proof (cases "findByCode hash (loadSessions now stored) code")
    case None
    with ok 4 show ?thesis by (simp add: completePairingSession_def Let_def)
  next
    case (Some s)
    then have "session_ok s" using load findByCode_Some [OF Some] by (simp add: store_ok_def)
    with Some ok load store_ok_update [OF Some load, of "complete_session now"] 4 show ?thesis
      by (auto simp: completePairingSession_def Let_def intro: keeps)
  qed
next
  case (5 hash now code event detail stored')
  assume ok: "store_ok stored"
  note load = store_ok_load [OF ok, of now]
  show ?thesis
  proof (cases "findByCode hash (loadSessions now stored) code")
    case None
    with ok 5 show ?thesis by (simp add: recordPairingProgress_def Let_def)
  next
    case (Some s)
    then have "session_ok s" using load findByCode_Some [OF Some] by (simp add: store_ok_def)
    with Some ok load store_ok_update [OF Some load, of "progress_session now event detail"] 5 show ?thesis
      by (auto simp: recordPairingProgress_def Let_def intro: keeps)
  qed
qed

interpretation pairing_runs: kept_by_steps "pairing_step hash" store_ok for hash :: "string \<Rightarrow> string"
  by unfold_locales (rule pairing_step_ok)

section \<open>Codes survive being read aloud\<close>

lemma code_char_alphabet: "byte < 32 \<Longrightarrow> code_char (CODE_ALPHABET ! byte)"
proof -
  have "list_all (\<lambda>b. code_char (CODE_ALPHABET ! b)) [0..<32]" by code_simp
  then show "byte < 32 \<Longrightarrow> ?thesis" by (simp add: list_all_iff)
qed

lemma upper_code_char: "code_char c \<Longrightarrow> upper c = c"
  by (auto simp: code_char_def upper_def less_eq_char_def)

lemma normalize_code_chars: "list_all code_char w \<Longrightarrow> normalizePairingCode w = w"
  by (induction w) (auto simp: normalizePairingCode_def upper_code_char)

lemma normalize_is_code: "list_all code_char (normalizePairingCode raw)"
  by (simp add: normalizePairingCode_def list_all_iff)

lemma normalize_append: "normalizePairingCode (v @ w) = normalizePairingCode v @ normalizePairingCode w"
  by (simp add: normalizePairingCode_def)

lemma normalize_idem: "normalizePairingCode (normalizePairingCode raw) = normalizePairingCode raw"
  by (rule normalize_code_chars [OF normalize_is_code])

lemma generated_code: "list_all code_char (generateCode bytes)"
  by (simp add: generateCode_def list_all_iff code_char_alphabet)

definition lower :: "char \<Rightarrow> char" where
  "lower c = (if CHR ''A'' \<le> c \<and> c \<le> CHR ''Z'' then char_of (of_char c + 32 :: nat) else c)"

lemma upper_lower: "code_char c \<Longrightarrow> upper (lower c) = c"
  by (auto simp: code_char_def upper_def lower_def less_eq_char_def)

lemma normalize_lower: "list_all code_char w \<Longrightarrow> normalizePairingCode (map lower w) = w"
  by (induction w) (auto simp: normalizePairingCode_def upper_lower)

section \<open>A code redeems once\<close>

definition fresh_with :: "string \<Rightarrow> sessions \<Rightarrow> bool" where
  "fresh_with h stored \<longleftrightarrow> (\<exists>s \<in> set stored. codeHash s = h \<and> redeemedAt s = None)"

definition hashes :: "sessions \<Rightarrow> string list" where
  "hashes stored = map codeHash stored"

lemma update_last_hashes:
  "(\<And>s. codeHash (f s) = codeHash s) \<Longrightarrow> map codeHash (update_last P f xs) = map codeHash xs"
  by (induction xs) auto

lemma update_first_hashes:
  "(\<And>s. codeHash (f s) = codeHash s) \<Longrightarrow> map codeHash (update_first P f xs) = map codeHash xs"
  by (induction xs) auto

lemma hash_kept [simp]:
  "codeHash (redeem_session now who s) = codeHash s" "codeHash (attach_token t b s) = codeHash s"
  "codeHash (complete_session now s) = codeHash s" "codeHash (progress_session now e d s) = codeHash s"
  by (simp_all add: redeem_session_def attach_token_def complete_session_def progress_session_def Let_def)

lemma redeemed_kept [simp]:
  "redeemedAt (attach_token t b s) = redeemedAt s" "redeemedAt (complete_session now s) = redeemedAt s"
  "redeemedAt (progress_session now e d s) = redeemedAt s" "redeemedAt (redeem_session now who s) = Some now"
  by (simp_all add: redeem_session_def attach_token_def complete_session_def progress_session_def Let_def)

lemma load_subset: "set (loadSessions now stored) \<subseteq> set stored"
  by (auto simp: loadSessions_def)

lemma subseq_load: "subseq (hashes (loadSessions now stored)) (hashes stored)"
  unfolding hashes_def loadSessions_def by (intro subseq_map subseq_filter_left)

text \<open>What one call does to the stored hashes and to the sessions still open under one of them.\<close>

lemma pairing_step_hashes:
  "\<exists>kept. subseq kept (hashes stored) \<and> hashes (pairing_step hash c stored) = kept @ created_hashes hash [c]"
proof (cases "(hash, c, stored)" rule: pairing_step.cases)
  case (1 hash now sid bytes options stored')
  then show ?thesis
    using subseq_load [of now stored]
    by (auto simp: createPairingSession_def Let_def new_session_def hashes_def)
next
  case (2 hash now code who stored')
  have "hashes (update_by_code hash code (redeem_session now who) (loadSessions now stored)) = hashes (loadSessions now stored)"
    by (simp add: update_by_code_def hashes_def update_last_hashes)
  with 2 subseq_load [of now stored] show ?thesis
    by (auto simp: redeemPairingSession_def Let_def split: option.split)
next
  case (3 hash now sid token binding stored')
  have "hashes (update_first (\<lambda>s. ps_id s = sid) (attach_token token binding) (loadSessions now stored)) = hashes (loadSessions now stored)"
    by (simp add: hashes_def update_first_hashes)
  with 3 subseq_load [of now stored] show ?thesis
    by (auto simp: attachPairingToken_def Let_def)
next
  case (4 hash now code token ok' stored')
  have "hashes (update_by_code hash code (complete_session now) (loadSessions now stored)) = hashes (loadSessions now stored)"
    by (simp add: update_by_code_def hashes_def update_last_hashes)
  with 4 subseq_load [of now stored] show ?thesis
    by (auto simp: completePairingSession_def Let_def split: option.split)
next
  case (5 hash now code event detail stored')
  have "hashes (update_by_code hash code (progress_session now event detail) (loadSessions now stored)) = hashes (loadSessions now stored)"
    by (simp add: update_by_code_def hashes_def update_last_hashes)
  with 5 subseq_load [of now stored] show ?thesis
    by (auto simp: recordPairingProgress_def Let_def split: option.split)
qed

lemma update_last_distinct:
  assumes "distinct (map codeHash xs)"
  shows "update_last (\<lambda>s. codeHash s = h) f xs = map (\<lambda>s. if codeHash s = h then f s else s) xs"
  using assms
proof (induction xs)
  case (Cons x xs)
  let ?g = "\<lambda>s. if codeHash s = h then f s else s"
  show ?case
  proof (cases "list_ex (\<lambda>s. codeHash s = h) xs")
    case True
    then have "codeHash x \<noteq> h" using Cons.prems by (auto simp: list_ex_iff)
    with True Cons show ?thesis by simp
  next
    case False
    then have "map ?g xs = xs" by (intro map_idI) (auto simp: list_ex_iff)
    with False show ?thesis by simp
  qed
qed simp

lemma created_hashes_Cons: "created_hashes hash (c # cs) = created_hashes hash [c] @ created_hashes hash cs"
  by (cases "(hash, [c])" rule: created_hashes.cases) auto

lemma fresh_with_step:
  assumes "fresh_with h (pairing_step hash c stored)"
  shows "fresh_with h stored \<or> h \<in> set (created_hashes hash [c])"
proof (cases "(hash, c, stored)" rule: pairing_step.cases)
  case (1 hash now sid bytes options stored')
  with assms load_subset [of now stored] show ?thesis
    by (auto simp: createPairingSession_def Let_def fresh_with_def new_session_def)
next
  case (2 hash now code who stored')
  with assms load_subset [of now stored] update_by_code_set [of hash "loadSessions now stored" code _ "redeem_session now who"]
  show ?thesis
    by (fastforce simp: redeemPairingSession_def Let_def fresh_with_def split: option.splits if_splits)
next
  case (3 hash now sid token binding stored')
  with assms load_subset [of now stored] update_first_set [of "\<lambda>s. ps_id s = sid" "attach_token token binding" "loadSessions now stored"]
  show ?thesis
    by (fastforce simp: attachPairingToken_def Let_def fresh_with_def split: if_splits)
next
  case (4 hash now code token ok' stored')
  with assms load_subset [of now stored] update_by_code_set [of hash "loadSessions now stored" code _ "complete_session now"]
    findByCode_Some [of hash "loadSessions now stored" code]
  show ?thesis
    by (fastforce simp: completePairingSession_def Let_def fresh_with_def split: option.splits if_splits)
next
  case (5 hash now code event detail stored')
  with assms load_subset [of now stored] update_by_code_set [of hash "loadSessions now stored" code _ "progress_session now event detail"]
    findByCode_Some [of hash "loadSessions now stored" code]
  show ?thesis
    by (fastforce simp: recordPairingProgress_def Let_def fresh_with_def split: option.splits if_splits)
qed

lemma redeemed_map: "fresh_with h (map (\<lambda>s. if codeHash s = h then redeem_session now who s else s) xs) = False"
  by (induction xs) (simp_all add: fresh_with_def)

fun_cases redeemsE: "redeems hash h c stored"

lemma redeems_uses_up:
  assumes "redeems hash h c stored" "distinct (hashes stored)"
  shows "fresh_with h stored \<and> \<not> fresh_with h (pairing_step hash c stored)"
proof -
  from assms(1) obtain now code who where c: "c = (now, Redeem code who)"
    and h: "h = hashCode hash (normalizePairingCode code)"
    by (rule redeemsE) auto
  let ?loaded = "loadSessions now stored"
  from assms(1) obtain s where s: "findByCode hash ?loaded code = Some s" "redeemedAt s = None" "\<not> ps_expiresAt s \<le> now"
    by (auto simp: c redeemPairingSession_def Let_def split: option.splits if_splits)
  have "s \<in> set stored" "codeHash s = h" using findByCode_Some [OF s(1)] load_subset unfolding h by blast+
  with s(2) have fresh: "fresh_with h stored" by (auto simp: fresh_with_def)
  have "distinct (map codeHash ?loaded)"
    using assms(2) by (simp add: hashes_def loadSessions_def distinct_map_filter)
  then have "pairing_step hash c stored = map (\<lambda>s. if codeHash s = h then redeem_session now who s else s) ?loaded"
    unfolding c h pairing_step.simps redeemPairingSession_def Let_def update_by_code_def
    by (simp only: s option.case update_last_distinct not_True_eq_False if_False simp_thms snd_conv)
  then have "\<not> fresh_with h (pairing_step hash c stored)" by (simp only: redeemed_map not_False_eq_True)
  with fresh show ?thesis by blast
qed

lemma subseq_kept: "subseq ks xs \<Longrightarrow> set ks \<subseteq> set xs \<and> (distinct xs \<longrightarrow> distinct ks)"
  by (induction rule: list_emb.induct) auto

lemma redemptions_bound:
  "distinct (hashes stored @ created_hashes hash cs) \<Longrightarrow>
     redemptions hash h cs stored \<le> (if fresh_with h stored \<or> h \<in> set (created_hashes hash cs) then 1 else 0)"
proof (induction cs arbitrary: stored)
  case (Cons c cs)
  let ?stored' = "pairing_step hash c stored"
  obtain kept where kept: "subseq kept (hashes stored)" "hashes ?stored' = kept @ created_hashes hash [c]"
    using pairing_step_hashes by blast
  have sub: "set kept \<subseteq> set (hashes stored)" "distinct kept"
    using subseq_kept [OF kept(1)] Cons.prems by simp_all
  have "distinct (hashes ?stored' @ created_hashes hash cs)"
    using Cons.prems sub unfolding kept(2) created_hashes_Cons [of hash c cs] by auto
  note IH = Cons.IH [OF this]
  show ?case
  proof (cases "redeems hash h c stored")
    case True
    have "distinct (hashes stored)" using Cons.prems by simp
    note used = redeems_uses_up [OF True this]
    then have "h \<in> set (hashes stored)" by (auto simp: fresh_with_def hashes_def)
    with Cons.prems have "h \<notin> set (created_hashes hash cs)"
      unfolding created_hashes_Cons [of hash c cs] by auto
    with IH used True show ?thesis by simp
  next
    case False
    with IH fresh_with_step [of h hash c stored] show ?thesis
      unfolding created_hashes_Cons [of hash c cs] by (auto split: if_splits)
  qed
qed simp

section \<open>Properties\<close>

text \<open>
  C22. A pairing code is single-use: in any run of the store in which the generated codes hash
  apart, at most one redemption of a given code succeeds, however calls are interleaved.
\<close>

theorem pairing_code_single_use:
  assumes "distinct (created_hashes hash cs)"
  shows "redemptions hash (hashCode hash (normalizePairingCode code)) cs [] \<le> 1"
  using redemptions_bound [of "[]" hash cs "hashCode hash (normalizePairingCode code)"] assms
  by (simp add: hashes_def split: if_splits)

definition sample_options :: pairing_options where
  "sample_options = \<lparr>po_client = None, po_target = None, po_scopes = [''docs:read''], po_mcpUrl = ''u'', po_ttlMs = None\<rparr>"

definition sample_redeemer :: pairing_redeemer where
  "sample_redeemer = \<lparr>pr_hostname = None, pr_client = None, pr_installation = None, pr_all = False\<rparr>"

definition sample_run :: "(int \<times> pairing_call) list" where
  "sample_run = [(0, CreatePairing ''p1'' [10, 11] sample_options), (5, Redeem ''a-b'' sample_redeemer),
     (9, Redeem ''AB'' sample_redeemer)]"

theorem pairing_code_single_use_witness:
  "redemptions id (hashCode id (normalizePairingCode ''ab'')) sample_run [] \<le> 1"
  by (rule pairing_code_single_use) (simp add: sample_run_def)

text \<open>
  In every run a session is redeemed before it expires, has an outcome only once redeemed,
  is verified only with a token attached, and its log stays within its caps.
\<close>

lemma pairing_sessions_sound:
  "list_all session_ok (fold (pairing_step hash) cs [])"
  using pairing_runs.run_keeps [of "[]" hash cs] by (simp add: store_ok_def list_all_iff)

text \<open>
  A code survives being displayed and retyped: grouped with a hyphen, in lower case, it
  normalizes back to what was generated, so it finds the same session.
\<close>

lemma pairing_code_roundtrip:
  "normalizePairingCode (formatPairingCode (generateCode bytes)) = generateCode bytes
   \<and> normalizePairingCode (map lower (formatPairingCode (generateCode bytes))) = generateCode bytes
   \<and> findByCode hash stored (map lower (formatPairingCode (generateCode bytes)))
       = findByCode hash stored (generateCode bytes)"
proof -
  let ?code = "generateCode bytes"
  have norm: "normalizePairingCode ?code = ?code" by (rule normalize_code_chars [OF generated_code])
  have dash: "normalizePairingCode ''-'' = []" "normalizePairingCode (map lower ''-'') = []" by code_simp+
  have parts: "list_all code_char (take n ?code)" "list_all code_char (drop n ?code)" for n
    using generated_code [of bytes] by (auto simp: list_all_iff dest: in_set_takeD in_set_dropD)
  have one: "normalizePairingCode (formatPairingCode ?code) = ?code"
    unfolding formatPairingCode_def Let_def norm normalize_append dash
    by (simp add: normalize_code_chars parts)
  have two: "normalizePairingCode (map lower (formatPairingCode ?code)) = ?code"
    unfolding formatPairingCode_def Let_def norm map_append normalize_append dash
    by (simp add: normalize_lower parts take_map drop_map)
  show ?thesis using one two norm by (simp add: findByCode_def)
qed

end
