(* ===== verification/ConnectionRequests.thy ===== *)
theory ConnectionRequests
  imports Pairing AgentScopes
begin

text \<open>
  Connection requests, \<open>packages/server/src/connection-request-store.ts\<close>: an agent asks, the
  owner settles the request by its code, and the agent's poll then gets the code of a pairing.

  The state is the stored list and the in-memory map of delivered codes. A mutation is one step, as
  in \<open>Pairing\<close>; \<open>hash\<close> stands for SHA-256, the random bytes and the poll token are arguments,
  and \<open>createPairing\<close> is the caller's function on the state \<open>'s\<close> it works on, \<open>None\<close> where it throws.
\<close>

section \<open>Requests\<close>

definition REQUEST_TTL_MS :: int where "REQUEST_TTL_MS = 15 * 60 * 1000"
definition REQUEST_PURGE_AFTER_MS :: int where "REQUEST_PURGE_AFTER_MS = 24 * 60 * 60 * 1000"
definition MAX_PENDING_PER_SOURCE :: nat where "MAX_PENDING_PER_SOURCE = 3"
definition MAX_PENDING_UNIDENTIFIED :: nat where "MAX_PENDING_UNIDENTIFIED = 20"
definition MAX_PENDING :: nat where "MAX_PENDING = 100"
definition USER_CODE_ALPHABET :: string where "USER_CODE_ALPHABET = ''BCDFGHJKLMNPQRSTVWXZ''"
definition USER_CODE_LENGTH :: nat where "USER_CODE_LENGTH = 8"

datatype request_target = AdapterTarget string string | ClientTarget "string option"

record approval =
  teamMemberId :: "string option"
  displayName :: string
  ap_icon :: "string option"
  ap_access :: agent_access

datatype request_status = PendingRequest | ApprovedRequest | DeniedRequest | DeliveredRequest

record request_view =
  vw_userCode :: string
  vw_target :: request_target
  vw_hostname :: "string option"
  vw_suggestedName :: "string option"
  vw_createdAt :: int
  vw_expiresAt :: int

record request =
  userCodeHash :: string
  pollTokenHash :: string
  rq_target :: request_target
  rq_hostname :: "string option"
  suggestedName :: "string option"
  rq_createdAt :: int
  rq_expiresAt :: int
  rq_status :: request_status
  rq_approval :: "approval option"
  sourceHash :: "string option"

datatype request_poll = PollPending | PollDenied | PollExpired | PollApproved string

record request_state =
  stored :: "request list"
  deliveredCodes :: "(string \<times> string \<times> int) list"

datatype request_error = SourceLimit | PendingLimit | CreatePairingThrew

section \<open>Reading the store\<close>

definition loadRequests :: "int \<Rightarrow> request_state \<Rightarrow> request list" where
  "loadRequests now st = filter (\<lambda>r. rq_expiresAt r > now - REQUEST_PURGE_AFTER_MS) (stored st)"

definition isLive :: "request \<Rightarrow> int \<Rightarrow> bool" where
  "isLive r now \<longleftrightarrow> rq_expiresAt r > now"

definition waiting :: "int \<Rightarrow> request \<Rightarrow> bool" where
  "waiting now r \<longleftrightarrow> rq_status r = PendingRequest \<and> isLive r now"

definition generateUserCode :: "nat list \<Rightarrow> string" where
  "generateUserCode bytes = map (\<lambda>byte. USER_CODE_ALPHABET ! (byte mod length USER_CODE_ALPHABET)) bytes"

definition request_toView :: "request \<Rightarrow> string \<Rightarrow> request_view" where
  "request_toView r userCode =
     \<lparr>vw_userCode = formatPairingCode userCode, vw_target = rq_target r, vw_hostname = rq_hostname r,
      vw_suggestedName = suggestedName r, vw_createdAt = rq_createdAt r, vw_expiresAt = rq_expiresAt r\<rparr>"

definition findByUserCode :: "(string \<Rightarrow> string) \<Rightarrow> request list \<Rightarrow> string \<Rightarrow> request option" where
  "findByUserCode hash rs rawCode =
     (let presented = hash (normalizePairingCode rawCode)
      in fold (\<lambda>r found. if userCodeHash r = presented then Some r else found) rs None)"

section \<open>Operations\<close>

record request_input =
  in_target :: request_target
  in_hostname :: "string option"
  in_suggestedName :: "string option"
  in_source :: "string option"

definition source_limit :: "string option \<Rightarrow> nat" where
  "source_limit h = (case h of Some _ \<Rightarrow> MAX_PENDING_PER_SOURCE | None \<Rightarrow> MAX_PENDING_UNIDENTIFIED)"

definition new_request ::
    "(string \<Rightarrow> string) \<Rightarrow> int \<Rightarrow> request_input \<Rightarrow> string option \<Rightarrow> string \<Rightarrow> string \<Rightarrow> request" where
  "new_request hash now i source userCode pollToken =
     \<lparr>userCodeHash = hash userCode, pollTokenHash = hash pollToken, rq_target = in_target i,
      rq_hostname = in_hostname i, suggestedName = in_suggestedName i, rq_createdAt = now,
      rq_expiresAt = now + REQUEST_TTL_MS, rq_status = PendingRequest, rq_approval = None, sourceHash = source\<rparr>"

definition createConnectionRequest ::
    "(string \<Rightarrow> string) \<Rightarrow> int \<Rightarrow> request_input \<Rightarrow> nat list \<Rightarrow> string \<Rightarrow> request_state
       \<Rightarrow> (request_error + (string \<times> string \<times> int)) \<times> request_state" where
  "createConnectionRequest hash now i bytes pollToken st =
     (let requests = loadRequests now st;
          pending = filter (waiting now) requests;
          source = map_option (\<lambda>s. hash (''source:'' @ s)) (in_source i);
          fromSame = length (filter (\<lambda>r. sourceHash r = source) pending)
      in if fromSame \<ge> source_limit source then (Inl SourceLimit, st)
         else if length pending \<ge> MAX_PENDING then (Inl PendingLimit, st)
         else
           (let userCode = generateUserCode bytes; expiresAt = now + REQUEST_TTL_MS
            in (Inr (formatPairingCode userCode, pollToken, expiresAt),
                st\<lparr>stored := requests @ [new_request hash now i source userCode pollToken]\<rparr>)))"

definition getConnectionRequest :: "(string \<Rightarrow> string) \<Rightarrow> int \<Rightarrow> string \<Rightarrow> request_state \<Rightarrow> request_view option" where
  "getConnectionRequest hash now rawCode st =
     (case findByUserCode hash (loadRequests now st) rawCode of
        Some r \<Rightarrow> if waiting now r then Some (request_toView r (normalizePairingCode rawCode)) else None
      | None \<Rightarrow> None)"

definition settled_request :: "approval option \<Rightarrow> request \<Rightarrow> request" where
  "settled_request a r =
     (case a of Some ap \<Rightarrow> r\<lparr>rq_status := ApprovedRequest, rq_approval := Some ap\<rparr> | None \<Rightarrow> r\<lparr>rq_status := DeniedRequest\<rparr>)"

definition settleConnectionRequest ::
    "(string \<Rightarrow> string) \<Rightarrow> int \<Rightarrow> string \<Rightarrow> approval option \<Rightarrow> request_state \<Rightarrow> request_view option \<times> request_state" where
  "settleConnectionRequest hash now rawCode a st =
     (let requests = loadRequests now st
      in case findByUserCode hash requests rawCode of
           None \<Rightarrow> (None, st)
         | Some r \<Rightarrow>
             if \<not> waiting now r then (None, st)
             else (Some (request_toView r (normalizePairingCode rawCode)),
                   st\<lparr>stored := update_last (\<lambda>r. userCodeHash r = hash (normalizePairingCode rawCode)) (settled_request a) requests\<rparr>))"

definition drop_delivered :: "int \<Rightarrow> request_state \<Rightarrow> request_state" where
  "drop_delivered now st = st\<lparr>deliveredCodes := filter (\<lambda>(key, code, until). \<not> until \<le> now) (deliveredCodes st)\<rparr>"

definition pollConnectionRequest ::
    "(string \<Rightarrow> string) \<Rightarrow> int \<Rightarrow> string \<Rightarrow> (request_target \<Rightarrow> approval \<Rightarrow> 's \<Rightarrow> string option \<times> 's) \<Rightarrow> request_state \<Rightarrow> 's
       \<Rightarrow> (request_error + request_poll option) \<times> request_state \<times> 's" where
  "pollConnectionRequest hash now pollToken createPairing st s =
     (let requests = loadRequests now st; presented = hash pollToken
      in case List.find (\<lambda>r. pollTokenHash r = presented) requests of
           None \<Rightarrow> (Inr None, st, s)
         | Some r \<Rightarrow>
             if rq_status r = DeniedRequest then (Inr (Some PollDenied), st, s)
             else
               (let st = drop_delivered now st
                in if rq_status r = DeliveredRequest
                   then (Inr (Some (case map_of (deliveredCodes st) (pollTokenHash r) of
                                      Some (code, _) \<Rightarrow> PollApproved code
                                    | None \<Rightarrow> PollExpired)), st, s)
                   else if \<not> isLive r now then (Inr (Some PollExpired), st, s)
                   else if rq_status r = PendingRequest then (Inr (Some PollPending), st, s)
                   else (case rq_approval r of
                           None \<Rightarrow> (Inr (Some PollPending), st, s)
                         | Some a \<Rightarrow>
                             (case createPairing (rq_target r) a s of
                                (None, s) \<Rightarrow> (Inl CreatePairingThrew, st, s)
                              | (Some code, s) \<Rightarrow>
                                  (Inr (Some (PollApproved code)),
                                   st\<lparr>stored := update_first (\<lambda>r. pollTokenHash r = presented) (\<lambda>r. r\<lparr>rq_status := DeliveredRequest\<rparr>) requests,
                                      deliveredCodes := AList.update (pollTokenHash r) (code, rq_expiresAt r) (deliveredCodes st)\<rparr>, s)))))"

text \<open>Calls by agents and owners, each with the time its clock reads; a poll carries what \<open>createPairing\<close>
  would answer.\<close>

datatype request_call =
    Create request_input "nat list" string
  | Settle string "approval option"
  | Poll string "request_target \<Rightarrow> approval \<Rightarrow> string option"

fun request_step :: "(string \<Rightarrow> string) \<Rightarrow> int \<times> request_call \<Rightarrow> request_state \<Rightarrow> request_state" where
  "request_step hash (now, Create i bytes token) st = snd (createConnectionRequest hash now i bytes token st)"
| "request_step hash (now, Settle code a) st = snd (settleConnectionRequest hash now code a st)"
| "request_step hash (now, Poll token create) st =
     fst (snd (pollConnectionRequest hash now token (\<lambda>t a u. (create t a, u)) st ()))"

definition fresh_requests :: request_state where
  "fresh_requests = \<lparr>stored = [], deliveredCodes = []\<rparr>"

section \<open>Waiting requests are bounded\<close>

definition pending_from :: "int \<Rightarrow> string option \<Rightarrow> request list \<Rightarrow> nat" where
  "pending_from now h rs = length (filter (\<lambda>r. sourceHash r = h) (filter (waiting now) rs))"

definition bounded :: "int \<Rightarrow> request_state \<Rightarrow> bool" where
  "bounded now st \<longleftrightarrow>
     length (filter (waiting now) (stored st)) \<le> MAX_PENDING
     \<and> (\<forall>h. pending_from now h (stored st) \<le> source_limit h)"

lemma length_filter_mono: "(\<And>x. x \<in> set xs \<Longrightarrow> P x \<Longrightarrow> Q x) \<Longrightarrow> length (filter P xs) \<le> length (filter Q xs)"
  by (induction xs) auto

lemma pending_from_count: "pending_from now h rs = length (filter (\<lambda>r. waiting now r \<and> sourceHash r = h) rs)"
  by (simp add: pending_from_def)

text \<open>A change that makes no request wait that did not wait before keeps the bounds.\<close>

definition fewer :: "int \<Rightarrow> request list \<Rightarrow> int \<Rightarrow> request list \<Rightarrow> bool" where
  "fewer now rs' t rs \<longleftrightarrow>
     (\<forall>P. length (filter (\<lambda>r. waiting now r \<and> P (sourceHash r)) rs') \<le> length (filter (\<lambda>r. waiting t r \<and> P (sourceHash r)) rs))"

lemma fewer_bounded: "fewer now (stored st') t (stored st) \<Longrightarrow> bounded t st \<Longrightarrow> bounded now st'"
proof -
  assume f: "fewer now (stored st') t (stored st)" and b: "bounded t st"
  have "length (filter (waiting now) (stored st')) \<le> length (filter (waiting t) (stored st))"
    using f [unfolded fewer_def, rule_format, of "\<lambda>_. True"] by simp
  moreover have "pending_from now h (stored st') \<le> pending_from t h (stored st)" for h
    using f [unfolded fewer_def, rule_format, of "\<lambda>x. x = h"] by (simp add: pending_from_count)
  ultimately show ?thesis using b unfolding bounded_def by (meson order_trans)
qed

lemma waiting_later: "t \<le> now \<Longrightarrow> waiting now r \<Longrightarrow> waiting t r"
  by (simp add: waiting_def isLive_def)

lemma fewer_refl: "t \<le> now \<Longrightarrow> fewer now rs t rs"
  by (auto simp: fewer_def intro!: length_filter_mono dest: waiting_later)

lemma fewer_load: "t \<le> now \<Longrightarrow> fewer now (loadRequests now st) t (stored st)"
  unfolding fewer_def loadRequests_def filter_filter
  by (auto intro!: length_filter_mono dest: waiting_later)

lemma fewer_trans: "fewer now rs'' now rs' \<Longrightarrow> fewer now rs' t rs \<Longrightarrow> fewer now rs'' t rs"
  unfolding fewer_def by (meson order_trans)

lemma fewer_update:
  assumes "\<And>r. \<not> waiting now (f r)"
  shows "fewer now (update_last Q f rs) now rs" "fewer now (update_first Q f rs) now rs"
  using assms by (auto simp: fewer_def intro!: count_update_last count_update_first)

lemma bounded_create:
  assumes "bounded t st" "t \<le> now"
  shows "bounded now (snd (createConnectionRequest hash now i bytes token st))"
proof -
  let ?rs = "loadRequests now st"
  have loaded: "bounded now (st\<lparr>stored := ?rs\<rparr>)"
    by (rule fewer_bounded [OF _ assms(1)]) (simp add: fewer_load assms(2))
  let ?source = "map_option (\<lambda>s. hash (''source:'' @ s)) (in_source i)"
  show ?thesis
  proof (cases "source_limit ?source \<le> pending_from now ?source ?rs \<or> MAX_PENDING \<le> length (filter (waiting now) ?rs)")
    case True
    then have "snd (createConnectionRequest hash now i bytes token st) = st"
      by (auto simp: createConnectionRequest_def Let_def pending_from_def)
    then show ?thesis using fewer_bounded [OF fewer_refl [OF assms(2)] assms(1)] by simp
  next
    case False
    let ?r = "new_request hash now i ?source (generateUserCode bytes) token"
    have r: "sourceHash ?r = ?source" "stored (snd (createConnectionRequest hash now i bytes token st)) = ?rs @ [?r]"
      using False by (simp_all add: createConnectionRequest_def Let_def pending_from_def new_request_def)
    have "pending_from now h (?rs @ [?r]) \<le> source_limit h" for h
      using loaded False r(1) by (cases "h = ?source") (auto simp: bounded_def pending_from_def)
    with loaded False r show ?thesis by (simp add: bounded_def)
  qed
qed

lemma bounded_step: "bounded t st \<Longrightarrow> t \<le> now \<Longrightarrow> bounded now (request_step hash (now, c) st)"
proof (cases c)
  case (Create i bytes token)
  then show "bounded t st \<Longrightarrow> t \<le> now \<Longrightarrow> ?thesis" by (simp add: bounded_create)
next
  case (Settle code a)
  assume "bounded t st" and le: "t \<le> now"
  have settled: "\<not> waiting now (settled_request a r)" for r
    by (cases a) (simp_all add: settled_request_def waiting_def)
  note gone = fewer_trans [OF fewer_update(1) [where f = "settled_request a", OF settled] fewer_load [OF le]]
  have "fewer now (stored (snd (settleConnectionRequest hash now code a st))) t (stored st)"
    by (simp add: settleConnectionRequest_def Let_def gone fewer_refl [OF le] split: option.split)
  with Settle \<open>bounded t st\<close> show ?thesis by (auto intro: fewer_bounded)
next
  case (Poll token create)
  assume "bounded t st" and le: "t \<le> now"
  have "\<not> waiting now (r\<lparr>rq_status := DeliveredRequest\<rparr>)" for r by (simp add: waiting_def)
  note gone = fewer_trans [OF fewer_update(2) [where f = "\<lambda>r. r\<lparr>rq_status := DeliveredRequest\<rparr>", OF this] fewer_load [OF le]]
  have "fewer now (stored (fst (snd (pollConnectionRequest hash now token (\<lambda>t a u. (create t a, u)) st ())))) t (stored st)"
    by (simp add: pollConnectionRequest_def Let_def drop_delivered_def gone fewer_refl [OF le] split: option.split)
  with Poll \<open>bounded t st\<close> show ?thesis by (auto intro: fewer_bounded)
qed

lemma bounded_run:
  "sorted (map fst cs @ [now]) \<Longrightarrow> bounded now (fold (request_step hash) cs fresh_requests)"
proof (induction cs arbitrary: now rule: rev_induct)
  case Nil
  then show ?case by (simp add: bounded_def fresh_requests_def pending_from_def)
next
  case (snoc c cs)
  obtain t call where c: "c = (t, call)" by (cases c)
  from snoc.prems have "sorted (map fst cs @ [t])" "t \<le> now" by (auto simp: c sorted_append)
  with snoc.IH have "bounded t (fold (request_step hash) cs fresh_requests)" by blast
  from bounded_step [OF this, of t] have "bounded t (fold (request_step hash) (cs @ [c]) fresh_requests)" by (simp add: c)
  then show ?case using fewer_bounded [OF fewer_refl [OF \<open>t \<le> now\<close>]] by blast
qed

section \<open>A delivered code stays the answer\<close>

definition delivered_as :: "string \<Rightarrow> string \<Rightarrow> int \<Rightarrow> request_state \<Rightarrow> bool" where
  "delivered_as h code expiry st \<longleftrightarrow>
     (\<exists>r. List.find (\<lambda>r. pollTokenHash r = h) (stored st) = Some r \<and> rq_status r = DeliveredRequest \<and> rq_expiresAt r = expiry)
     \<and> map_of (deliveredCodes st) h = Some (code, expiry)"

lemma find_filter_Some: "List.find P xs = Some r \<Longrightarrow> Q r \<Longrightarrow> List.find P (filter Q xs) = Some r"
  by (induction xs) (auto split: if_splits)

lemma find_append_Some: "List.find P xs = Some r \<Longrightarrow> List.find P (xs @ ys) = Some r"
  by (induction xs) (auto split: if_splits)

lemma find_load:
  "List.find P (stored st) = Some r \<Longrightarrow> now < rq_expiresAt r \<Longrightarrow> List.find P (loadRequests now st) = Some r"
  unfolding loadRequests_def by (rule find_filter_Some) (simp_all add: REQUEST_PURGE_AFTER_MS_def)

lemma map_of_drop_delivered:
  "map_of (deliveredCodes st) h = Some (code, expiry) \<Longrightarrow> now < expiry \<Longrightarrow>
     map_of (deliveredCodes (drop_delivered now st)) h = Some (code, expiry)"
proof -
  have "map_of m h = Some (code, expiry) \<Longrightarrow> now < expiry \<Longrightarrow>
      map_of (filter (\<lambda>(key, code, until). \<not> until \<le> now) m) h = Some (code, expiry)" for m :: "(string \<times> string \<times> int) list"
    by (induction m) (auto split: if_splits)
  then show "map_of (deliveredCodes st) h = Some (code, expiry) \<Longrightarrow> now < expiry \<Longrightarrow> ?thesis"
    by (simp add: drop_delivered_def)
qed

lemma delivered_as_D:
  assumes "delivered_as h code expiry st" "now < expiry"
  obtains r where "List.find (\<lambda>r. pollTokenHash r = h) (stored st) = Some r"
    "List.find (\<lambda>r. pollTokenHash r = h) (loadRequests now st) = Some r"
    "rq_status r = DeliveredRequest" "rq_expiresAt r = expiry"
    "map_of (deliveredCodes st) h = Some (code, expiry)"
    "map_of (deliveredCodes (drop_delivered now st)) h = Some (code, expiry)"
  using assms map_of_drop_delivered unfolding delivered_as_def by (metis find_load)

lemma poll_delivered:
  assumes "delivered_as (hash token) code expiry st" "now < expiry"
  shows "pollConnectionRequest hash now token create st s = (Inr (Some (PollApproved code)), drop_delivered now st, s)"
proof -
  obtain r where r: "List.find (\<lambda>r. pollTokenHash r = hash token) (loadRequests now st) = Some r" "rq_status r = DeliveredRequest"
    "map_of (deliveredCodes (drop_delivered now st)) (hash token) = Some (code, expiry)"
    using assms by (rule delivered_as_D)
  moreover have "pollTokenHash r = hash token" using r(1) by (auto simp: find_Some_iff)
  ultimately show ?thesis by (simp add: pollConnectionRequest_def Let_def)
qed

lemma delivered_as_step:
  assumes "delivered_as h code expiry st" "now < expiry"
  shows "delivered_as h code expiry (request_step hash (now, c) st)"
proof -
  obtain r where r: "List.find (\<lambda>r. pollTokenHash r = h) (stored st) = Some r"
    "List.find (\<lambda>r. pollTokenHash r = h) (loadRequests now st) = Some r"
    "rq_status r = DeliveredRequest" "rq_expiresAt r = expiry"
    "map_of (deliveredCodes st) h = Some (code, expiry)"
    "map_of (deliveredCodes (drop_delivered now st)) h = Some (code, expiry)"
    using assms by (rule delivered_as_D)
  have intro: "delivered_as h code expiry st'"
    if "List.find (\<lambda>r. pollTokenHash r = h) (stored st') = Some r" "map_of (deliveredCodes st') h = Some (code, expiry)" for st'
    using that r by (auto simp: delivered_as_def)
  show ?thesis
  proof (cases c)
    case (Create i bytes token)
    show ?thesis
      unfolding Create request_step.simps
      by (rule intro) (simp_all add: createConnectionRequest_def Let_def r find_append_Some)
  next
    case (Settle rawCode a)
    let ?Q = "\<lambda>r. userCodeHash r = hash (normalizePairingCode rawCode)"
    show ?thesis
    proof (cases "findByUserCode hash (loadRequests now st) rawCode")
      case None
      with assms(1) Settle show ?thesis by (simp add: settleConnectionRequest_def Let_def)
    next
      case (Some r\<^sub>0)
      then obtain ys where last: "rev (filter ?Q (loadRequests now st)) = r\<^sub>0 # ys"
        by (auto simp: findByUserCode_def Let_def fold_last_match split: list.splits)
      have "List.find (\<lambda>r. pollTokenHash r = h) (update_last ?Q (settled_request a) (loadRequests now st)) = Some r"
        if "waiting now r\<^sub>0"
        using that r(2,3) last
        by (intro find_update_last) (auto simp: waiting_def settled_request_def split: option.split)
      with Some Settle assms(1) r(5) show ?thesis
        by (auto simp: settleConnectionRequest_def Let_def intro: intro)
    qed
  next
    case (Poll token create)
    show ?thesis
    proof (cases "hash token = h")
      case True
      have "delivered_as h code expiry (drop_delivered now st)"
        by (rule intro) (simp_all add: r, simp add: drop_delivered_def r)
      with True assms Poll poll_delivered [of hash token code expiry st now "\<lambda>t a u. (create t a, u)" "()"] show ?thesis by simp
    next
      case False
      let ?P = "\<lambda>r. pollTokenHash r = h"
      let ?Q = "\<lambda>r. pollTokenHash r = hash token" and ?f = "\<lambda>r. r\<lparr>rq_status := DeliveredRequest\<rparr>"
      have "List.find ?P (update_first ?Q ?f (loadRequests now st)) = List.find ?P (loadRequests now st)"
        using False by (intro find_update_first) auto
      then have updated: "List.find ?P (update_first ?Q ?f (loadRequests now st)) = Some r" using r(2) by simp
      have same: "stored (drop_delivered now st) = stored st" by (simp add: drop_delivered_def)
      have key: "pollTokenHash q = hash token" if "List.find ?Q rs = Some q" for q rs
        using that by (auto simp: find_Some_iff)
      show ?thesis
        unfolding Poll request_step.simps
        by (rule intro)
          (auto simp: pollConnectionRequest_def Let_def same r updated update_conv' False not_sym [OF False] key split: option.split)
    qed
  qed
qed

lemma delivered_as_run:
  "delivered_as h code expiry st \<Longrightarrow> list_all (\<lambda>c. fst c < expiry) cs \<Longrightarrow>
     delivered_as h code expiry (fold (request_step hash) cs st)"
proof (induction cs arbitrary: st)
  case (Cons c cs)
  then show ?case using delivered_as_step [of h code expiry st "fst c" hash "snd c"] by simp
qed simp

section \<open>Properties\<close>

text \<open>
  C32. However agents ask, as the clock advances: at most a hundred requests wait at a time, at
  most three of them from one sender and at most twenty from senders that cannot be told apart.
\<close>

theorem pending_requests_bounded:
  assumes "sorted (map fst cs @ [now])"
  shows "length (filter (waiting now) (stored (fold (request_step hash) cs fresh_requests))) \<le> 100
    \<and> pending_from now (Some source) (stored (fold (request_step hash) cs fresh_requests)) \<le> 3
    \<and> pending_from now None (stored (fold (request_step hash) cs fresh_requests)) \<le> 20"
  using bounded_run [OF assms, of hash]
  by (auto simp: bounded_def source_limit_def MAX_PENDING_def MAX_PENDING_PER_SOURCE_def MAX_PENDING_UNIDENTIFIED_def
      dest: spec [of _ "Some source"] spec [of _ "None :: string option"])

definition sample_input :: request_input where
  "sample_input = \<lparr>in_target = ClientTarget None, in_hostname = None, in_suggestedName = None, in_source = Some ''ip''\<rparr>"

theorem pending_requests_bounded_witness:
  "pending_from 9 (Some ''source:ip'') (stored (fold (request_step id)
      [(1, Create sample_input [] ''a''), (2, Create sample_input [] ''b''), (3, Create sample_input [] ''c''),
       (4, Create sample_input [] ''d'')] fresh_requests)) \<le> 3"
  using pending_requests_bounded [of "[(1, Create sample_input [] ''a''), (2, Create sample_input [] ''b''),
      (3, Create sample_input [] ''c''), (4, Create sample_input [] ''d'')]" 9 id "''source:ip''"]
  by simp

text \<open>
  C33. The poll of an approved request makes one pairing. Whatever calls follow before the request
  expires, a later poll answers the same code and makes nothing more.
\<close>

theorem poll_delivers_once:
  assumes "List.find (\<lambda>r. pollTokenHash r = hash token) (stored st) = Some r"
    and "rq_status r = ApprovedRequest" "rq_approval r = Some a" "now < rq_expiresAt r"
    and "createPairing (rq_target r) a s = (Some code, s')"
    and "list_all (\<lambda>c. fst c < rq_expiresAt r) cs" "later < rq_expiresAt r"
  shows "\<exists>st' st''. pollConnectionRequest hash now token createPairing st s = (Inr (Some (PollApproved code)), st', s')
    \<and> pollConnectionRequest hash later token anotherPairing (fold (request_step hash) cs st') z
        = (Inr (Some (PollApproved code)), st'', z)"
proof -
  let ?P = "\<lambda>r. pollTokenHash r = hash token"
  have found: "List.find ?P (loadRequests now st) = Some r" by (rule find_load [OF assms(1,4)])
  have key: "pollTokenHash r = hash token" using found by (auto simp: find_Some_iff)
  let ?st' = "(drop_delivered now st)\<lparr>stored := update_first ?P (\<lambda>r. r\<lparr>rq_status := DeliveredRequest\<rparr>) (loadRequests now st),
     deliveredCodes := AList.update (hash token) (code, rq_expiresAt r) (deliveredCodes (drop_delivered now st))\<rparr>"
  have poll: "pollConnectionRequest hash now token createPairing st s = (Inr (Some (PollApproved code)), ?st', s')"
    using found assms(2-5) by (simp add: pollConnectionRequest_def Let_def isLive_def key)
  have "delivered_as (hash token) code (rq_expiresAt r) ?st'"
    using find_update_same [OF found, of "\<lambda>r. r\<lparr>rq_status := DeliveredRequest\<rparr>"] key
    by (simp add: delivered_as_def update_conv')
  note again = poll_delivered [where hash = hash and token = token, OF delivered_as_run [OF this assms(6), of hash] assms(7)]
  show ?thesis by (intro exI conjI, rule poll, rule again)
qed

definition sample_approved :: request where
  "sample_approved = (new_request id 0 sample_input None ''u'' ''t'')\<lparr>rq_status := ApprovedRequest,
     rq_approval := Some \<lparr>teamMemberId = None, displayName = ''Bot'', ap_icon = None,
       ap_access = \<lparr>threads = True, read_access = True, edit_access = False\<rparr>\<rparr>\<rparr>"

text \<open>The state counts the pairings made.\<close>

theorem poll_delivers_once_witness:
  "\<exists>st' st''.
     pollConnectionRequest id 20 ''t'' (\<lambda>_ _ n. (Some ''FIRST'', Suc n)) \<lparr>stored = [sample_approved], deliveredCodes = []\<rparr> 0
       = (Inr (Some (PollApproved ''FIRST'')), st', 1)
     \<and> pollConnectionRequest id 60 ''t'' (\<lambda>_ _ n. (Some ''SECOND'', Suc n))
         (fold (request_step id) [(30, Poll ''t'' (\<lambda>_ _. None)), (40, Settle ''u'' None)] st') (1::nat)
       = (Inr (Some (PollApproved ''FIRST'')), st'', 1)"
  by (rule poll_delivers_once [where r = sample_approved]) (simp_all add: sample_approved_def new_request_def REQUEST_TTL_MS_def)

end
