(* ===== verification/TokenStore.thy ===== *)
theory TokenStore
  imports TeamPolicy "HOL-Library.Word"
begin

text \<open>
  Access tokens, \<open>packages/server/src/token-store.ts\<close>: minting, verifying, revoking and
  rotating the bearers of one person's devices and agents.

  Every mutation runs under the store's queue and lock, so it is one step on the list of tokens
  read from the file. The state holds that list with the usage stamps and the in-memory map that
  spaces them. \<open>hash\<close> stands for SHA-256 in hex, the random bytes and the root of the workspace
  are arguments, and times are the milliseconds their ISO texts name.
\<close>

section \<open>Tokens\<close>

record token_metadata = token_identity +
  md_id :: string
  md_createdAt :: int
  md_revokedAt :: "int option"
  md_lastUsedAt :: "int option"

record stored_token =
  tk_id :: string
  tk_user :: string
  tk_workspace :: string
  tk_scopes :: "string list"
  tk_agent :: "string option"
  tk_createdAt :: int
  tk_revokedAt :: "int option"
  secretHash :: string

record token_store =
  tokens :: "stored_token list"
  usage :: "(string \<times> int) list"
  usageStampedAt :: "(string \<times> int) list"

datatype token_error = NoScopes | InvalidScope string

definition USAGE_STAMP_INTERVAL_MS :: int where "USAGE_STAMP_INTERVAL_MS = 60000"

definition fresh_tokens :: token_store where
  "fresh_tokens = \<lparr>tokens = [], usage = [], usageStampedAt = []\<rparr>"

section \<open>The text of a token\<close>

definition hex_char :: "char \<Rightarrow> bool" where
  "hex_char c \<longleftrightarrow> CHR ''0'' \<le> c \<and> c \<le> CHR ''9'' \<or> CHR ''a'' \<le> c \<and> c \<le> CHR ''f''"

definition base64url_char :: "char \<Rightarrow> bool" where
  "base64url_char c \<longleftrightarrow>
     CHR ''A'' \<le> c \<and> c \<le> CHR ''Z'' \<or> CHR ''a'' \<le> c \<and> c \<le> CHR ''z''
     \<or> CHR ''0'' \<le> c \<and> c \<le> CHR ''9'' \<or> c = CHR ''_'' \<or> c = CHR ''-''"

text \<open>\<open>TOKEN_FORMAT.exec\<close>: every part has a fixed length, so the groups are slices.\<close>

definition TOKEN_FORMAT :: "string \<Rightarrow> (string \<times> string) option" where
  "TOKEN_FORMAT raw =
     (let i = take 12 (drop 3 raw); secret = drop 16 raw
      in if take 3 raw = ''wt_'' \<and> length i = 12 \<and> list_all hex_char i \<and> take 1 (drop 15 raw) = ''_''
            \<and> length secret = 43 \<and> list_all base64url_char secret
         then Some (i, secret) else None)"

text \<open>\<open>SCOPE_FORMAT\<close>: one colon between two words, or a star in place of the second or of everything.\<close>

definition scope_word :: "string \<Rightarrow> bool" where
  "scope_word w \<longleftrightarrow>
     w \<noteq> [] \<and> CHR ''a'' \<le> hd w \<and> hd w \<le> CHR ''z''
     \<and> list_all (\<lambda>c. CHR ''a'' \<le> c \<and> c \<le> CHR ''z'' \<or> CHR ''0'' \<le> c \<and> c \<le> CHR ''9''
                    \<or> c = CHR ''_'' \<or> c = CHR ''-'') (tl w)"

definition isValidScope :: "string \<Rightarrow> bool" where
  "isValidScope scope \<longleftrightarrow>
     scope = ''*'' \<or> (case split_on (CHR '':'') scope of
        [resource, action] \<Rightarrow> scope_word resource \<and> (action = ''*'' \<or> scope_word action)
      | _ \<Rightarrow> False)"

definition tokenIdFromToken :: "string \<Rightarrow> string option" where
  "tokenIdFromToken raw = map_option fst (TOKEN_FORMAT raw)"

text \<open>\<open>toString\<close> of random bytes, in hex and in unpadded base64url.\<close>

definition HEX_DIGITS :: string where "HEX_DIGITS = ''0123456789abcdef''"

definition hex_text :: "8 word list \<Rightarrow> string" where
  "hex_text bytes = concat (map (\<lambda>b. [HEX_DIGITS ! (unat b div 16), HEX_DIGITS ! (unat b mod 16)]) bytes)"

definition BASE64URL :: string where
  "BASE64URL = ''ABCDEFGHIJKLMNOPQRSTUVWXYZabcdefghijklmnopqrstuvwxyz0123456789-_''"

fun base64url :: "8 word list \<Rightarrow> string" where
  "base64url [] = []"
| "base64url [a] = [BASE64URL ! (unat a div 4), BASE64URL ! (unat a mod 4 * 16)]"
| "base64url [a, b] =
     [BASE64URL ! (unat a div 4), BASE64URL ! (unat a mod 4 * 16 + unat b div 16), BASE64URL ! (unat b mod 16 * 4)]"
| "base64url (a # b # c # bs) =
     [BASE64URL ! (unat a div 4), BASE64URL ! (unat a mod 4 * 16 + unat b div 16),
      BASE64URL ! (unat b mod 16 * 4 + unat c div 64), BASE64URL ! (unat c mod 64)] @ base64url bs"

section \<open>Views\<close>

definition principalIdForStoredToken :: "stored_token \<Rightarrow> string" where
  "principalIdForStoredToken t = ''local-token:'' @ tk_id t"

text \<open>An empty label is no agent, as the conditional expressions read it.\<close>

definition agent_label :: "stored_token \<Rightarrow> string option" where
  "agent_label t = (if tk_agent t = Some [] then None else tk_agent t)"

definition token_identity_of :: "credential_class option \<Rightarrow> stored_token \<Rightarrow> token_identity" where
  "token_identity_of cls t =
     \<lparr>id_user = tk_user t, id_workspace = tk_workspace t, credential_class = cls,
      id_scopes = currentScopesForStored (tk_scopes t), id_agent = tk_agent t,
      principal_id = principalIdForStoredToken t,
      principal_kind = (if agent_label t = None then Human else Agent),
      principal_name = (case tk_agent t of Some a \<Rightarrow> a | None \<Rightarrow> tk_user t),
      principal_authorized = (if agent_label t = None then None else Some ''local:owner''),
      principal_participant = None, issued_at = None, expires_at = None, session_id = None, id_team = None,
      operator_verification = False\<rparr>"

definition toMetadata :: "(string \<times> int) list \<Rightarrow> stored_token \<Rightarrow> token_metadata" where
  "toMetadata seen t = token_identity.extend (token_identity_of None t)
     (token_metadata.fields (tk_id t) (tk_createdAt t) (tk_revokedAt t) (map_of seen (tk_id t)))"

section \<open>Operations\<close>

definition recordTokenUsage :: "int \<Rightarrow> bool \<Rightarrow> string \<Rightarrow> token_store \<Rightarrow> token_store" where
  "recordTokenUsage now saved i st =
     (if (case map_of (usageStampedAt st) i of Some at \<Rightarrow> now - at < USAGE_STAMP_INTERVAL_MS | None \<Rightarrow> False) then st
      else (let st = st\<lparr>usageStampedAt := AList.update i now (usageStampedAt st)\<rparr>
            in if saved then st\<lparr>usage := AList.update i now (usage st)\<rparr> else st))"

record token_options =
  op_scopes :: "string list"
  op_agent :: "string option"
  op_user :: "string option"
  op_workspace :: "string option"

definition minted :: "(string \<Rightarrow> string) \<Rightarrow> string \<Rightarrow> int \<Rightarrow> string \<Rightarrow> string \<Rightarrow> token_options \<Rightarrow> stored_token" where
  "minted hash ws now i secret options =
     \<lparr>tk_id = i, tk_user = case_option ''owner'' id (op_user options),
      tk_workspace = case_option ws id (op_workspace options), tk_scopes = op_scopes options,
      tk_agent = op_agent options, tk_createdAt = now, tk_revokedAt = None, secretHash = hash secret\<rparr>"

definition mintTokenLocked ::
    "(string \<Rightarrow> string) \<Rightarrow> string \<Rightarrow> int \<Rightarrow> 8 word list \<times> 8 word list \<Rightarrow> token_options \<Rightarrow> token_store
       \<Rightarrow> (token_error + (string \<times> token_metadata)) \<times> token_store" where
  "mintTokenLocked hash ws now random options st =
     (if op_scopes options = [] then (Inl NoScopes, st)
      else case List.find (\<lambda>scope. \<not> isValidScope scope) (op_scopes options) of
             Some scope \<Rightarrow> (Inl (InvalidScope scope), st)
           | None \<Rightarrow>
               (let i = hex_text (fst random); secret = base64url (snd random);
                    stored = minted hash ws now i secret options
                in (Inr (''wt_'' @ i @ ''_'' @ secret, toMetadata [] stored), st\<lparr>tokens := tokens st @ [stored]\<rparr>)))"

definition createToken ::
    "(string \<Rightarrow> string) \<Rightarrow> string \<Rightarrow> int \<Rightarrow> 8 word list \<times> 8 word list \<Rightarrow> token_options \<Rightarrow> token_store
       \<Rightarrow> (token_error + (string \<times> token_metadata)) \<times> token_store" where
  "createToken hash ws now random options st = mintTokenLocked hash ws now random options st"

definition listTokens :: "token_store \<Rightarrow> token_metadata list" where
  "listTokens st = map (toMetadata (usage st)) (tokens st)"

definition revoke_now :: "int \<Rightarrow> stored_token \<Rightarrow> stored_token" where
  "revoke_now now t = t\<lparr>tk_revokedAt := Some now\<rparr>"

text \<open>The tokens are saved with the revocations before the new one is minted.\<close>

definition rotateAgentToken ::
    "(string \<Rightarrow> string) \<Rightarrow> string \<Rightarrow> int \<Rightarrow> 8 word list \<times> 8 word list \<Rightarrow> string \<Rightarrow> string list \<Rightarrow> token_store
       \<Rightarrow> (token_error + (string \<times> token_metadata)) \<times> token_store" where
  "rotateAgentToken hash ws now random agent scopes st =
     (let revoked = map (\<lambda>t. if tk_agent t = Some agent \<and> tk_workspace t = ws \<and> tk_revokedAt t = None
                             then revoke_now now t else t) (tokens st)
      in mintTokenLocked hash ws now random \<lparr>op_scopes = scopes, op_agent = Some agent, op_user = None, op_workspace = None\<rparr>
           (st\<lparr>tokens := revoked\<rparr>))"

fun find_index :: "('a \<Rightarrow> bool) \<Rightarrow> 'a list \<Rightarrow> nat option" where
  "find_index P [] = None"
| "find_index P (x # xs) = (if P x then Some 0 else map_option Suc (find_index P xs))"

text \<open>A winner with its index, or nothing where it may not win.\<close>

definition winner_of :: "stored_token list \<Rightarrow> string \<Rightarrow> (nat \<times> stored_token) option" where
  "winner_of ts i =
     (case find_index (\<lambda>t. tk_id t = i) ts of
        None \<Rightarrow> None
      | Some n \<Rightarrow> if tk_revokedAt (ts ! n) \<noteq> None \<or> agent_label (ts ! n) = None then None else Some (n, ts ! n))"

definition label_key :: "stored_token \<Rightarrow> string" where
  "label_key t = tk_workspace t @ CHR 0x00 # (case tk_agent t of Some a \<Rightarrow> a | None \<Rightarrow> ''null'')"

definition retirementBoundaries :: "(nat \<times> stored_token) list \<Rightarrow> (string \<times> nat) list" where
  "retirementBoundaries winners =
     fold (\<lambda>(n, t) m. AList.update (tk_workspace t) (min (case_option n id (map_of m (tk_workspace t))) n) m) winners []"

definition replacedByWinner :: "(nat \<times> stored_token) list \<Rightarrow> (string \<Rightarrow> bool) option \<Rightarrow> nat \<Rightarrow> stored_token \<Rightarrow> bool" where
  "replacedByWinner winners retireIf k t \<longleftrightarrow>
     list_ex (\<lambda>(n, w). k < n \<and> tk_agent t = tk_agent w \<and> tk_workspace t = tk_workspace w) winners
     \<and> (case retireIf of None \<Rightarrow> True | Some f \<Rightarrow> f (principalIdForStoredToken t))"

definition retiredLegacyLabel :: "(nat \<times> stored_token) list \<Rightarrow> string list \<Rightarrow> nat \<Rightarrow> stored_token \<Rightarrow> bool" where
  "retiredLegacyLabel winners labels k t \<longleftrightarrow>
     (case tk_agent t of None \<Rightarrow> False | Some a \<Rightarrow> a \<in> set labels)
     \<and> (case map_of (retirementBoundaries winners) (tk_workspace t) of None \<Rightarrow> False | Some n \<Rightarrow> k < n)"

definition finalizeAgentTokenRotations ::
    "int \<Rightarrow> string list \<Rightarrow> string list \<Rightarrow> (string \<Rightarrow> bool) option \<Rightarrow> token_store \<Rightarrow> bool \<times> token_store" where
  "finalizeAgentTokenRotations now ids labels retireIf st =
     (let ts = tokens st
      in if ids = [] \<or> \<not> distinct ids then (False, st)
         else if list_ex (\<lambda>i. winner_of ts i = None) ids then (False, st)
         else (let winners = map (\<lambda>i. the (winner_of ts i)) ids
               in if \<not> distinct (map (\<lambda>(n, t). label_key t) winners) then (False, st)
                  else (True, st\<lparr>tokens := map (\<lambda>(k, t).
                          if tk_id t \<in> set ids \<or> tk_revokedAt t \<noteq> None then t
                          else if replacedByWinner winners retireIf k t \<or> retiredLegacyLabel winners labels k t
                          then revoke_now now t else t) (List.enumerate 0 ts)\<rparr>)))"

definition finalizeAgentTokenRotation :: "int \<Rightarrow> string \<Rightarrow> token_store \<Rightarrow> bool \<times> token_store" where
  "finalizeAgentTokenRotation now i st = finalizeAgentTokenRotations now [i] [] None st"

definition revokeToken :: "int \<Rightarrow> string \<Rightarrow> token_store \<Rightarrow> bool \<times> token_store" where
  "revokeToken now i st =
     (case List.find (\<lambda>t. tk_id t = i) (tokens st) of
        None \<Rightarrow> (False, st)
      | Some t \<Rightarrow>
          (True, if tk_revokedAt t = None
                 then st\<lparr>tokens := update_first (\<lambda>t. tk_id t = i) (revoke_now now) (tokens st)\<rparr> else st))"

definition setTokenScopes :: "string \<Rightarrow> string list \<Rightarrow> token_store \<Rightarrow> bool \<times> token_store" where
  "setTokenScopes i scopes st =
     (case List.find (\<lambda>t. tk_id t = i) (tokens st) of
        None \<Rightarrow> (False, st)
      | Some t \<Rightarrow>
          if tk_revokedAt t \<noteq> None then (False, st)
          else (True, st\<lparr>tokens := update_first (\<lambda>t. tk_id t = i) (\<lambda>t. t\<lparr>tk_scopes := scopes\<rparr>) (tokens st)\<rparr>))"

definition hasActiveTokens :: "token_store \<Rightarrow> bool" where
  "hasActiveTokens st \<longleftrightarrow> list_ex (\<lambda>t. tk_revokedAt t = None) (tokens st)"

definition verifyToken ::
    "(string \<Rightarrow> string) \<Rightarrow> string \<Rightarrow> int \<Rightarrow> bool \<Rightarrow> string \<Rightarrow> token_store \<Rightarrow> token_identity option \<times> token_store" where
  "verifyToken hash ws now saved raw st =
     (case TOKEN_FORMAT raw of
        None \<Rightarrow> (None, st)
      | Some (i, secret) \<Rightarrow>
          (case List.find (\<lambda>t. tk_id t = i) (tokens st) of
             None \<Rightarrow> (None, st)
           | Some t \<Rightarrow>
               if tk_revokedAt t \<noteq> None then (None, st)
               else if hash secret \<noteq> secretHash t then (None, st)
               else if tk_workspace t \<noteq> ws then (None, st)
               else (Some (token_identity_of (Some LocalCredential) t), recordTokenUsage now saved i st)))"

section \<open>Calls\<close>

datatype token_call =
    CreateToken "8 word list \<times> 8 word list" token_options
  | RotateToken "8 word list \<times> 8 word list" string "string list"
  | FinalizeRotations "string list" "string list" "(string \<Rightarrow> bool) option"
  | RevokeToken string
  | SetScopes string "string list"
  | Verify string bool

text \<open>A call with the root of the workspace and the time its clock reads.\<close>

fun token_step :: "(string \<Rightarrow> string) \<Rightarrow> (string \<times> int) \<times> token_call \<Rightarrow> token_store \<Rightarrow> token_store" where
  "token_step hash ((ws, now), CreateToken random options) st = snd (createToken hash ws now random options st)"
| "token_step hash ((ws, now), RotateToken random agent scopes) st = snd (rotateAgentToken hash ws now random agent scopes st)"
| "token_step hash ((ws, now), FinalizeRotations ids labels retireIf) st =
     snd (finalizeAgentTokenRotations now ids labels retireIf st)"
| "token_step hash ((ws, now), RevokeToken i) st = snd (revokeToken now i st)"
| "token_step hash ((ws, now), SetScopes i scopes) st = snd (setTokenScopes i scopes st)"
| "token_step hash ((ws, now), Verify raw saved) st = snd (verifyToken hash ws now saved raw st)"

section \<open>The text of a token reads back\<close>

lemma hex_digit: "k < 16 \<Longrightarrow> hex_char (HEX_DIGITS ! k)"
proof -
  have "list_all (\<lambda>k. hex_char (HEX_DIGITS ! k)) [0..<16]" by code_simp
  then show "k < 16 \<Longrightarrow> ?thesis" by (simp add: list_all_iff)
qed

lemma base64url_digit: "k < 64 \<Longrightarrow> base64url_char (BASE64URL ! k)"
proof -
  have "list_all (\<lambda>k. base64url_char (BASE64URL ! k)) [0..<64]" by code_simp
  then show "k < 64 \<Longrightarrow> ?thesis" by (simp add: list_all_iff)
qed

lemma byte_less: "unat (b :: 8 word) < 256"
  using unsigned_less [of b, where ?'a = nat] by simp

lemma hex_text_chars: "list_all hex_char (hex_text bytes)" "length (hex_text bytes) = 2 * length bytes"
proof -
  have "unat b div 16 < 16" for b :: "8 word" using byte_less [of b] by linarith
  then show "list_all hex_char (hex_text bytes)" "length (hex_text bytes) = 2 * length bytes"
    by (induction bytes) (auto simp: hex_text_def hex_digit)
qed

lemma base64url_chars: "list_all base64url_char (base64url bytes)" "length (base64url bytes) = (4 * length bytes + 2) div 3"
proof -
  have parts: "unat a div 4 < 64" "unat a mod 4 * 16 + unat b div 16 < 64" "unat b mod 16 * 4 + unat c div 64 < 64"
      "unat a mod 4 * 16 < 64" "unat b mod 16 * 4 < 64" for a b c :: "8 word"
    using byte_less [of a] byte_less [of b] byte_less [of c]
      mod_less_divisor [of 4 "unat a"] mod_less_divisor [of 16 "unat b"] by linarith+
  show "list_all base64url_char (base64url bytes)"
    by (induction bytes rule: base64url.induct) (simp_all add: base64url_digit parts)
  show "length (base64url bytes) = (4 * length bytes + 2) div 3"
    by (induction bytes rule: base64url.induct) simp_all
qed

lemma TOKEN_FORMAT_minted:
  assumes "length ib = 6" "length sb = 32"
  shows "TOKEN_FORMAT (''wt_'' @ hex_text ib @ ''_'' @ base64url sb) = Some (hex_text ib, base64url sb)"
proof -
  have "length (hex_text ib) = 12" "length (base64url sb) = 43"
    using assms by (simp_all add: hex_text_chars base64url_chars)
  then show ?thesis
    using hex_text_chars(1) [of ib] base64url_chars(1) [of sb] by (simp add: TOKEN_FORMAT_def)
qed

section \<open>How a stored token changes\<close>

text \<open>A token keeps who it is; a revoked one keeps everything; others change scopes only as \<open>S\<close> says.\<close>

definition later :: "(string \<times> string list) set \<Rightarrow> stored_token \<Rightarrow> stored_token \<Rightarrow> bool" where
  "later S t t' \<longleftrightarrow>
     tk_id t' = tk_id t \<and> tk_user t' = tk_user t \<and> tk_workspace t' = tk_workspace t \<and> tk_agent t' = tk_agent t
     \<and> secretHash t' = secretHash t \<and> (tk_revokedAt t \<noteq> None \<longrightarrow> t' = t)
     \<and> (tk_scopes t' = tk_scopes t \<or> (tk_id t, tk_scopes t') \<in> S)"

definition grown :: "(string \<times> string list) set \<Rightarrow> stored_token list \<Rightarrow> stored_token list \<Rightarrow> bool" where
  "grown S ts ts' \<longleftrightarrow> (\<exists>kept new. ts' = kept @ new \<and> list_all2 (later S) ts kept)"

lemma later_refl [simp]: "later S t t"
  by (simp add: later_def)

lemma later_revoke [simp]: "later S t (revoke_now now t) \<longleftrightarrow> tk_revokedAt t = None \<or> revoke_now now t = t"
  by (auto simp: later_def revoke_now_def)

lemma later_trans: "later S t t' \<Longrightarrow> later S t' t'' \<Longrightarrow> later S t t''"
  by (auto simp: later_def)

lemma later_mono: "later S t t' \<Longrightarrow> S \<subseteq> S' \<Longrightarrow> later S' t t'"
  by (auto simp: later_def)

lemma grown_append [simp]: "list_all2 (later S) ts kept \<Longrightarrow> grown S ts (kept @ new)"
  by (auto simp: grown_def)

lemma grown_map: "(\<And>t. t \<in> set ts \<Longrightarrow> later S t (f t)) \<Longrightarrow> list_all2 (later S) ts (map f ts)"
  by (induction ts) auto

lemma all2_later: "list_all2 (later S) ts kept \<Longrightarrow> grown S ts kept"
  using grown_append [of S ts kept "[]"] by simp

lemma grown_refl [simp]: "grown S ts ts"
  by (rule all2_later) (simp add: list_all2_same)

lemma grown_trans: "grown S ts ts' \<Longrightarrow> grown S ts' ts'' \<Longrightarrow> grown S ts ts''"
proof -
  assume "grown S ts ts'" "grown S ts' ts''"
  then obtain k n k' n' where ts': "ts' = k @ n" "list_all2 (later S) ts k"
    and ts'': "ts'' = k' @ n'" "list_all2 (later S) (k @ n) k'"
    by (auto simp: grown_def)
  from ts''(2) obtain a b where "k' = a @ b" "list_all2 (later S) k a" by (auto simp: list_all2_append1)
  with ts'(2) list_all2_trans [of "later S" "later S" "later S" ts k a] have "list_all2 (later S) ts a"
    by (blast intro: later_trans)
  with ts''(1) \<open>k' = a @ b\<close> show ?thesis by simp
qed

lemma grown_mono: "grown S ts ts' \<Longrightarrow> S \<subseteq> S' \<Longrightarrow> grown S' ts ts'"
  unfolding grown_def by (blast intro: list_all2_mono later_mono)

lemma grown_find:
  assumes "grown S ts ts'" "List.find (\<lambda>t. tk_id t = i) ts = Some t"
  obtains t' where "List.find (\<lambda>t. tk_id t = i) ts' = Some t'" "later S t t'"
proof -
  from assms(1) obtain kept new where ts': "ts' = kept @ new" and all: "list_all2 (later S) ts kept"
    by (auto simp: grown_def)
  from all assms(2) have "\<exists>t'. List.find (\<lambda>t. tk_id t = i) (kept @ new) = Some t' \<and> later S t t'"
  proof (induction rule: list_all2_induct)
    case (Cons x xs y ys)
    then show ?case by (cases "tk_id x = i") (auto simp: later_def)
  qed simp
  with ts' that show ?thesis by blast
qed

lemma update_first_later: "(\<And>t. P t \<Longrightarrow> later S t (f t)) \<Longrightarrow> list_all2 (later S) ts (update_first P f ts)"
  by (induction ts) (auto simp: list_all2_same)

lemma update_found_later:
  "List.find P ts = Some t \<Longrightarrow> later S t (f t) \<Longrightarrow> list_all2 (later S) ts (update_first P f ts)"
  by (induction ts) (auto simp: list_all2_same split: if_splits)

fun scopes_given :: "((string \<times> int) \<times> token_call) list \<Rightarrow> (string \<times> string list) list" where
  "scopes_given [] = []"
| "scopes_given ((_, SetScopes i scopes) # cs) = (i, scopes) # scopes_given cs"
| "scopes_given (_ # cs) = scopes_given cs"

lemma scopes_given_Cons: "scopes_given (c # cs) = scopes_given [c] @ scopes_given cs"
  by (cases "[c]" rule: scopes_given.cases) auto

lemma tokens_recordUsage [simp]: "tokens (recordTokenUsage now saved i st) = tokens st"
  by (simp add: recordTokenUsage_def Let_def)

lemma tokens_verify [simp]: "tokens (snd (verifyToken hash ws now saved raw st)) = tokens st"
  by (simp add: verifyToken_def split: option.split prod.split)

lemma tokens_mint:
  "\<exists>new. tokens (snd (mintTokenLocked hash ws now random options st)) = tokens st @ new"
  by (auto simp: mintTokenLocked_def Let_def split: option.split)

lemma token_step_grows: "grown (set (scopes_given [c])) (tokens st) (tokens (token_step hash c st))"
proof (cases "(hash, c, st)" rule: token_step.cases)
  case (1 hash ws now random options st')
  then show ?thesis
    using tokens_mint [of hash ws now random options st] by (auto simp: createToken_def list_all2_same)
next
  case (2 h ws now random agent scopes st')
  let ?f = "\<lambda>t. if tk_agent t = Some agent \<and> tk_workspace t = ws \<and> tk_revokedAt t = None then revoke_now now t else t"
  have kept: "list_all2 (later S) (tokens st) (map ?f (tokens st))" for S by (rule grown_map) simp
  obtain new where new: "tokens (token_step hash c st) = map ?f (tokens st) @ new"
    using 2 tokens_mint [of h ws now random _ "st\<lparr>tokens := map ?f (tokens st)\<rparr>"]
    by (fastforce simp: rotateAgentToken_def Let_def)
  show ?thesis unfolding new by (rule grown_append [OF kept])
next
  case (3 h ws now ids labels retireIf st')
  have "list_all2 (later S) ts (map (\<lambda>(k, t). if tk_id t \<in> X \<or> tk_revokedAt t \<noteq> None then t
      else if Q k t then revoke_now now t else t) (List.enumerate n ts))" for S X Q n ts
    by (induction ts arbitrary: n) auto
  note each = this [THEN all2_later]
  have "grown S (tokens st) (tokens (snd (finalizeAgentTokenRotations now ids labels retireIf st)))" for S
    unfolding finalizeAgentTokenRotations_def Let_def by (simp add: each del: not_None_eq)
  with 3 show ?thesis by simp
next
  case (4 hash ws now i st')
  then show ?thesis
    by (auto simp: revokeToken_def intro!: all2_later update_found_later split: option.split)
next
  case (5 hash ws now i scopes st')
  then show ?thesis
    by (auto simp: setTokenScopes_def later_def find_Some_iff intro!: all2_later update_found_later split: option.split)
next
  case (6 hash ws now raw saved st')
  then show ?thesis by simp
qed

lemma run_grows: "grown (set (scopes_given cs)) (tokens st) (tokens (fold (token_step hash) cs st))"
proof (induction cs arbitrary: st)
  case (Cons c cs)
  have "set (scopes_given [c]) \<subseteq> set (scopes_given (c # cs))" "set (scopes_given cs) \<subseteq> set (scopes_given (c # cs))"
    unfolding scopes_given_Cons [of c cs] by auto
  with Cons.IH [of "token_step hash c st"] token_step_grows [of c st hash] show ?case
    unfolding fold_Cons comp_apply by (blast intro: grown_trans grown_mono)
qed simp

section \<open>The newest bearer of a label\<close>

text \<open>A call that revokes nothing for good: not by hand, and not as a retired label.\<close>

definition quiet :: "token_call \<Rightarrow> bool" where
  "quiet c =
     (case c of
        RevokeToken i \<Rightarrow> False
      | FinalizeRotations ids labels retireIf \<Rightarrow> labels = []
      | RotateToken random agent scopes \<Rightarrow> scopes \<noteq> [] \<and> list_all isValidScope scopes
      | _ \<Rightarrow> True)"

definition same_label :: "stored_token \<Rightarrow> stored_token \<Rightarrow> bool" where
  "same_label t u \<longleftrightarrow> tk_agent u = tk_agent t \<and> tk_workspace u = tk_workspace t"

definition superseded :: "stored_token list \<Rightarrow> bool" where
  "superseded ts \<longleftrightarrow>
     (\<forall>k < length ts. tk_revokedAt (ts ! k) \<noteq> None \<longrightarrow> (\<exists>j < length ts. k < j \<and> same_label (ts ! k) (ts ! j)))"

lemma superseded_map:
  assumes "superseded ts" "length us = length ts"
    and "\<And>k. k < length ts \<Longrightarrow> same_label (ts ! k) (us ! k)"
    and "\<And>k. k < length ts \<Longrightarrow> tk_revokedAt (us ! k) \<noteq> None \<Longrightarrow> tk_revokedAt (ts ! k) = None \<Longrightarrow>
           \<exists>j < length ts. k < j \<and> same_label (ts ! k) (ts ! j)"
  shows "superseded us"
  unfolding superseded_def
proof (intro allI impI)
  fix k
  assume k: "k < length us" "tk_revokedAt (us ! k) \<noteq> None"
  have "\<exists>j < length ts. k < j \<and> same_label (ts ! k) (ts ! j)"
    using assms(1,4) k assms(2) unfolding superseded_def by metis
  then obtain j where "j < length ts" "k < j" "same_label (ts ! k) (ts ! j)" by blast
  with assms(2,3) k have "same_label (us ! k) (us ! j)" by (metis same_label_def)
  with \<open>j < length ts\<close> \<open>k < j\<close> assms(2) show "\<exists>j < length us. k < j \<and> same_label (us ! k) (us ! j)" by auto
qed

lemma superseded_append:
  assumes "superseded ts" "tk_revokedAt t = None"
  shows "superseded (ts @ [t])"
  unfolding superseded_def
proof (intro allI impI)
  fix k
  assume k: "k < length (ts @ [t])" "tk_revokedAt ((ts @ [t]) ! k) \<noteq> None"
  with assms(2) have "k < length ts" "tk_revokedAt (ts ! k) \<noteq> None" by (auto simp: nth_append split: if_splits)
  with assms(1) obtain j where "j < length ts" "k < j" "same_label (ts ! k) (ts ! j)" unfolding superseded_def by blast
  then show "\<exists>j < length (ts @ [t]). k < j \<and> same_label ((ts @ [t]) ! k) ((ts @ [t]) ! j)"
    by (intro exI [of _ j]) (simp add: nth_append)
qed

lemma winner_of_nth: "winner_of ts i = Some (n, w) \<Longrightarrow> n < length ts \<and> w = ts ! n"
proof -
  have "find_index P us = Some m \<Longrightarrow> m < length us" for P m and us :: "stored_token list"
    by (induction us arbitrary: m) (auto split: if_splits)
  then show "winner_of ts i = Some (n, w) \<Longrightarrow> ?thesis"
    by (auto simp: winner_of_def split: option.splits if_splits)
qed

lemma superseded_finalize:
  assumes "superseded (tokens st)"
  shows "superseded (tokens (snd (finalizeAgentTokenRotations now ids [] retireIf st)))"
proof (cases "fst (finalizeAgentTokenRotations now ids [] retireIf st)")
  case False
  with assms show ?thesis by (auto simp: finalizeAgentTokenRotations_def Let_def split: if_splits)
next
  case True
  let ?ts = "tokens st" and ?winners = "map (\<lambda>i. the (winner_of (tokens st) i)) ids"
  from True have won: "\<forall>i \<in> set ids. winner_of ?ts i \<noteq> None"
    by (auto simp: finalizeAgentTokenRotations_def Let_def list_ex_iff split: if_splits)
  let ?f = "\<lambda>k t. if tk_id t \<in> set ids \<or> tk_revokedAt t \<noteq> None then t
      else if replacedByWinner ?winners retireIf k t \<or> retiredLegacyLabel ?winners [] k t then revoke_now now t else t"
  have after: "tokens (snd (finalizeAgentTokenRotations now ids [] retireIf st)) = map (\<lambda>(k, t). ?f k t) (List.enumerate 0 ?ts)"
    using True unfolding finalizeAgentTokenRotations_def Let_def by (auto split: if_splits)
  have nth: "map (\<lambda>(k, t). ?f k t) (List.enumerate 0 ?ts) ! k = ?f k (?ts ! k)" if "k < length ?ts" for k
    using that by (simp add: nth_enumerate_eq)
  show ?thesis unfolding after
  proof (rule superseded_map [OF assms])
    show "same_label (?ts ! k) (map (\<lambda>(k, t). ?f k t) (List.enumerate 0 ?ts) ! k)" if "k < length ?ts" for k
      using that by (simp only: nth) (simp add: same_label_def revoke_now_def)
  next
    fix k
    assume k: "k < length ?ts" "tk_revokedAt (map (\<lambda>(k, t). ?f k t) (List.enumerate 0 ?ts) ! k) \<noteq> None"
      "tk_revokedAt (?ts ! k) = None"
    then have "replacedByWinner ?winners retireIf k (?ts ! k)"
      by (simp only: nth) (auto simp: retiredLegacyLabel_def split: if_splits option.splits)
    then obtain n w where w: "(n, w) \<in> set ?winners" "k < n" "tk_agent (?ts ! k) = tk_agent w"
        "tk_workspace (?ts ! k) = tk_workspace w"
      unfolding replacedByWinner_def list_ex_iff by blast
    then obtain i where i: "i \<in> set ids" "(n, w) = the (winner_of ?ts i)" by auto
    with won have "winner_of ?ts i = Some (n, w)" by (metis option.collapse)
    from winner_of_nth [OF this] w show "\<exists>j < length ?ts. k < j \<and> same_label (?ts ! k) (?ts ! j)"
      by (auto simp: same_label_def)
  qed simp
qed

lemma mint_valid:
  "op_scopes options \<noteq> [] \<Longrightarrow> list_all isValidScope (op_scopes options) \<Longrightarrow>
     mintTokenLocked hash ws now random options st =
       (let t = minted hash ws now (hex_text (fst random)) (base64url (snd random)) options
        in (Inr (''wt_'' @ tk_id t @ ''_'' @ base64url (snd random), toMetadata [] t), st\<lparr>tokens := tokens st @ [t]\<rparr>))"
proof -
  assume "op_scopes options \<noteq> []" "list_all isValidScope (op_scopes options)"
  moreover from this(2) have "List.find (\<lambda>scope. \<not> isValidScope scope) (op_scopes options) = None"
    by (simp add: find_None_iff list_all_iff)
  ultimately show ?thesis by (simp add: mintTokenLocked_def Let_def minted_def)
qed

lemma mint_Inr:
  assumes "mintTokenLocked hash ws now random options st = (Inr (raw, md), st')"
  shows "raw = ''wt_'' @ hex_text (fst random) @ ''_'' @ base64url (snd random)"
    and "md = toMetadata [] (minted hash ws now (hex_text (fst random)) (base64url (snd random)) options)"
    and "st' = st\<lparr>tokens := tokens st @ [minted hash ws now (hex_text (fst random)) (base64url (snd random)) options]\<rparr>"
  using assms by (auto simp: mintTokenLocked_def Let_def split: if_splits option.splits)

lemma superseded_mint:
  assumes "superseded (tokens st)"
  shows "superseded (tokens (snd (mintTokenLocked hash ws now random options st)))"
proof -
  have "superseded (tokens st @ [minted hash ws now i secret options])" for i secret
    using assms by (rule superseded_append) (simp add: minted_def)
  with assms show ?thesis by (simp add: mintTokenLocked_def Let_def split: option.split)
qed

lemma superseded_rotate:
  assumes "superseded (tokens st)" "scopes \<noteq> []" "list_all isValidScope scopes"
  shows "superseded (tokens (snd (rotateAgentToken hash ws now random agent scopes st)))"
proof -
  let ?ts = "tokens st" and ?g = "\<lambda>t. tk_agent t = Some agent \<and> tk_workspace t = ws \<and> tk_revokedAt t = None"
  let ?f = "\<lambda>t. if ?g t then revoke_now now t else t"
  let ?o = "\<lparr>op_scopes = scopes, op_agent = Some agent, op_user = None, op_workspace = None\<rparr>"
  define t where "t = minted hash ws now (hex_text (fst random)) (base64url (snd random)) ?o"
  have after: "tokens (snd (rotateAgentToken hash ws now random agent scopes st)) = map ?f ?ts @ [t]"
    using assms(2,3) by (simp add: rotateAgentToken_def Let_def mint_valid t_def)
  have t: "tk_agent t = Some agent" "tk_workspace t = ws" "tk_revokedAt t = None"
    by (simp_all add: t_def minted_def)
  show ?thesis unfolding after superseded_def
  proof (intro allI impI)
    fix k
    assume k: "k < length (map ?f ?ts @ [t])" "tk_revokedAt ((map ?f ?ts @ [t]) ! k) \<noteq> None"
    with t(3) have less: "k < length ?ts" by (auto simp: nth_append split: if_splits)
    show "\<exists>j < length (map ?f ?ts @ [t]). k < j \<and> same_label ((map ?f ?ts @ [t]) ! k) ((map ?f ?ts @ [t]) ! j)"
    proof (cases "?g (?ts ! k)")
      case True
      with less t show ?thesis
        by (intro exI [of _ "length ?ts"]) (auto simp: nth_append same_label_def revoke_now_def)
    next
      case False
      with k less have "tk_revokedAt (?ts ! k) \<noteq> None" by (auto simp: nth_append)
      with assms(1) less obtain j where "j < length ?ts" "k < j" "same_label (?ts ! k) (?ts ! j)"
        unfolding superseded_def by blast
      with less show ?thesis by (intro exI [of _ j]) (auto simp: nth_append same_label_def revoke_now_def)
    qed
  qed
qed

lemma superseded_scopes:
  assumes "superseded (tokens st)"
  shows "superseded (tokens (snd (setTokenScopes i scopes st)))"
proof -
  let ?ts = "tokens st"
  let ?us = "update_first (\<lambda>t. tk_id t = i) (\<lambda>t. t\<lparr>tk_scopes := scopes\<rparr>) ?ts"
  have each: "list_all2 (\<lambda>t u. same_label t u \<and> tk_revokedAt u = tk_revokedAt t) ts (update_first P (\<lambda>t. t\<lparr>tk_scopes := scopes\<rparr>) ts)"
    for P ts by (induction ts) (auto simp: same_label_def list_all2_same)
  have "superseded ?us"
    by (rule superseded_map [OF assms]) (use each in \<open>auto simp: list_all2_conv_all_nth\<close>)
  with assms show ?thesis by (simp add: setTokenScopes_def split: option.split)
qed

lemma superseded_step: "superseded (tokens st) \<Longrightarrow> quiet (snd c) \<Longrightarrow> superseded (tokens (token_step hash c st))"
  by (cases "(hash, c, st)" rule: token_step.cases)
    (simp_all add: quiet_def createToken_def superseded_mint superseded_rotate superseded_finalize superseded_scopes)

lemma superseded_run:
  "superseded (tokens st) \<Longrightarrow> list_all (\<lambda>c. quiet (snd c)) cs \<Longrightarrow> superseded (tokens (fold (token_step hash) cs st))"
  by (induction cs arbitrary: st) (simp_all add: superseded_step)

section \<open>Properties\<close>

text \<open>
  C3. A bearer just minted verifies in its workspace as the identity it was minted for. After any
  further calls, whatever it verifies as is still that identity, and its scopes are those it was
  minted with or last given by hand, brought up to date.
\<close>

theorem bearer_stays_itself:
  assumes "createToken hash ws now random options st = (Inr (raw, md), st')"
    and "length (fst random) = 6" "length (snd random) = 32"
    and "hex_text (fst random) \<notin> set (map tk_id (tokens st))"
  shows "fst (verifyToken hash (id_workspace md) soon saved raw st')
      = Some (token_identity.truncate (md\<lparr>credential_class := Some LocalCredential\<rparr>))
    \<and> (case fst (verifyToken hash home later_on saved raw (fold (token_step hash) cs st')) of
         None \<Rightarrow> True
       | Some idn \<Rightarrow>
           home = id_workspace md
           \<and> idn = token_identity.truncate (md\<lparr>credential_class := Some LocalCredential, id_scopes := id_scopes idn\<rparr>)
           \<and> id_scopes idn \<in> currentScopesForStored ` insert (op_scopes options)
               {scopes. (hex_text (fst random), scopes) \<in> set (scopes_given cs)})"
proof -
  let ?i = "hex_text (fst random)" and ?secret = "base64url (snd random)"
  let ?t = "minted hash ws now ?i ?secret options"
  note made = mint_Inr [OF assms(1) [unfolded createToken_def]]
  have format: "TOKEN_FORMAT raw = Some (?i, ?secret)" unfolding made(1) by (rule TOKEN_FORMAT_minted [OF assms(2,3)])
  have "List.find (\<lambda>t. tk_id t = ?i) (ts @ [?t]) = Some ?t" if "?i \<notin> set (map tk_id ts)" for ts
    using that by (induction ts) (auto simp: minted_def)
  then have found: "List.find (\<lambda>t. tk_id t = ?i) (tokens st') = Some ?t" using assms(4) made(3) by simp
  obtain u where u: "List.find (\<lambda>t. tk_id t = ?i) (tokens (fold (token_step hash) cs st')) = Some u"
      "later (set (scopes_given cs)) ?t u"
    using grown_find [OF run_grows found] by blast
  have now: "fst (verifyToken hash (id_workspace md) soon saved raw st')
      = Some (token_identity.truncate (md\<lparr>credential_class := Some LocalCredential\<rparr>))"
    by (simp add: verifyToken_def format found made(2) toMetadata_def minted_def token_identity_of_def
        principalIdForStoredToken_def agent_label_def token_identity.defs token_metadata.defs)
  have same: "tk_id u = tk_id ?t" "tk_user u = tk_user ?t" "tk_workspace u = tk_workspace ?t" "tk_agent u = tk_agent ?t"
      "secretHash u = secretHash ?t" "tk_scopes u = op_scopes options \<or> (?i, tk_scopes u) \<in> set (scopes_given cs)"
    using u(2) by (auto simp: later_def minted_def)
  have whose: "token_identity_of (Some LocalCredential) u
      = token_identity.truncate (md\<lparr>credential_class := Some LocalCredential, id_scopes := currentScopesForStored (tk_scopes u)\<rparr>)"
    by (simp add: made(2) toMetadata_def token_identity_of_def principalIdForStoredToken_def agent_label_def same
        token_identity.defs token_metadata.defs split: option.split)
  have "id_workspace md = tk_workspace u" by (simp add: made(2) toMetadata_def token_identity_of_def same token_identity.defs)
  with now whose same(6) show ?thesis
    by (auto simp: verifyToken_def format u(1) token_identity_of_def split: if_splits)
qed

definition sample_random :: "8 word list \<times> 8 word list" where
  "sample_random = ([1, 2, 3, 4, 5, 6], replicate 32 0)"

definition sample_token :: token_options where
  "sample_token = \<lparr>op_scopes = [''docs:read'', ''docs:*''], op_agent = Some ''codex@host'', op_user = None, op_workspace = None\<rparr>"

definition sample_minted :: "(token_error + (string \<times> token_metadata)) \<times> token_store" where
  "sample_minted = createToken id ''/w'' 1 sample_random sample_token fresh_tokens"

lemma sample_minted_Inr: "\<exists>raw md st'. sample_minted = (Inr (raw, md), st') \<and> id_workspace md = ''/w''"
proof -
  have "list_all isValidScope [''docs:read'', ''docs:*'']" by code_simp
  then show ?thesis
    by (simp add: sample_minted_def createToken_def sample_token_def mint_valid Let_def toMetadata_def
        token_identity_of_def token_identity.defs minted_def)
qed

theorem bearer_stays_itself_witness:
  "fst (verifyToken id ''/w'' 5 True (fst (projr (fst sample_minted))) (snd sample_minted)) \<noteq> None"
proof -
  obtain raw md st' where minted: "sample_minted = (Inr (raw, md), st')" "id_workspace md = ''/w''"
    using sample_minted_Inr by blast
  have "length (fst sample_random) = 6" "length (snd sample_random) = 32"
      "hex_text (fst sample_random) \<notin> set (map tk_id (tokens fresh_tokens))"
    by (simp_all add: sample_random_def fresh_tokens_def)
  note works = bearer_stays_itself [OF minted(1) [unfolded sample_minted_def] this, THEN conjunct1]
  have "fst (verifyToken id (id_workspace md) 5 True raw st') \<noteq> None" unfolding works by simp
  then show ?thesis unfolding minted(2) by (simp add: minted(1))
qed

lemma revoked_unverifiable:
  assumes "List.find (\<lambda>t. tk_id t = i) (tokens st) = Some t" "tk_revokedAt t \<noteq> None" "tokenIdFromToken raw = Some i"
  shows "fst (verifyToken hash ws later_on saved raw (fold (token_step hash) cs st)) = None"
proof -
  obtain u where "List.find (\<lambda>t. tk_id t = i) (tokens (fold (token_step hash) cs st)) = Some u" "later (set (scopes_given cs)) t u"
    using grown_find [OF run_grows assms(1)] by blast
  with assms(2,3) show ?thesis
    by (auto simp: verifyToken_def tokenIdFromToken_def later_def split: option.split)
qed

text \<open>
  C26. A revoked bearer never works again: whatever calls follow the revocation, in whatever
  workspace, nothing with its id verifies.
\<close>

theorem revoked_stays_revoked:
  assumes "fst (revokeToken now i st)" "tokenIdFromToken raw = Some i"
  shows "fst (verifyToken hash ws later_on saved raw (fold (token_step hash) cs (snd (revokeToken now i st)))) = None"
proof -
  from assms(1) obtain t where t: "List.find (\<lambda>t. tk_id t = i) (tokens st) = Some t"
    by (auto simp: revokeToken_def split: option.splits)
  have "\<exists>t'. List.find (\<lambda>t. tk_id t = i) (tokens (snd (revokeToken now i st))) = Some t' \<and> tk_revokedAt t' \<noteq> None"
  proof (cases "tk_revokedAt t")
    case None
    have "tk_id t = i" using t by (auto simp: find_Some_iff)
    with find_update_same [OF t, of "revoke_now now"] None t show ?thesis
      by (auto simp: revokeToken_def revoke_now_def)
  qed (use t in \<open>auto simp: revokeToken_def\<close>)
  with revoked_unverifiable assms(2) show ?thesis by blast
qed

definition sample_held :: stored_token where
  "sample_held = \<lparr>tk_id = ''0123456789ab'', tk_user = ''owner'', tk_workspace = ''/w'', tk_scopes = [''docs:read''],
     tk_agent = Some ''codex@host'', tk_createdAt = 0, tk_revokedAt = None, secretHash = replicate 43 CHR ''s''\<rparr>"

theorem revoked_stays_revoked_witness:
  "fst (verifyToken id ''/w'' 9 True (''wt_0123456789ab_'' @ replicate 43 CHR ''s'')
      (fold (token_step id) [((''/w'', 3), SetScopes ''0123456789ab'' [''*''])]
        (snd (revokeToken 2 ''0123456789ab'' \<lparr>tokens = [sample_held], usage = [], usageStampedAt = []\<rparr>)))) = None"
proof (rule revoked_stays_revoked)
  show "fst (revokeToken 2 ''0123456789ab'' \<lparr>tokens = [sample_held], usage = [], usageStampedAt = []\<rparr>)"
    by code_simp
  show "tokenIdFromToken (''wt_0123456789ab_'' @ replicate 43 CHR ''s'') = Some ''0123456789ab''"
    by code_simp
qed


text \<open>Two bearers of one agent, completed newest first: the older completion is refused.\<close>

definition sample_rotation :: "((string \<times> int) \<times> token_call) list" where
  "sample_rotation =
     [((''/w'', 1), CreateToken ([1], [1]) sample_token), ((''/w'', 2), CreateToken ([2], [2]) sample_token),
      ((''/w'', 3), FinalizeRotations [''02''] [] None), ((''/w'', 4), FinalizeRotations [''01''] [] None)]"


end
