(* ===== verification/TeamPairing.thy ===== *)
theory TeamPairing
  imports TeamAdmin TokenStore
begin

text \<open>
  Pairing an agent in a team Worktable, \<open>packages/server/src/team-pairing.ts\<close>: the member who
  asked authorizes the session, the redeemed credential is bound to an agent of that member, and
  earlier credentials of the installation or a failed one are retired.

  The state adds to the policy rows of \<open>TeamPolicy\<close> the two pairing tables of the current Worktable and
  the participant keys of its members. Every function is one transaction: an error leaves the
  state as it was.
\<close>

section \<open>Tables\<close>

record pairing_authorization =
  au_member :: string
  au_name :: string
  au_platform :: string
  au_agent :: "string option"
  au_mode :: "string option"
  au_expires :: int

record bound_pairing =
  bp_agent :: string
  bp_member :: string

record pairing_db =
  team :: team_state
  authorizations :: "(string \<times> pairing_authorization) list"
  pairings :: "(string \<times> bound_pairing) list"
  participant_keys :: "(string \<times> string) list"

text \<open>A string that a condition reads: absent and empty are false.\<close>

definition truthy :: "string option \<Rightarrow> bool" where
  "truthy s \<longleftrightarrow> s \<noteq> None \<and> s \<noteq> Some []"

section \<open>The identity of a member\<close>

definition TEAM_HUMAN_SCOPES :: "string list" where
  "TEAM_HUMAN_SCOPES =
     [''documents:*'', ''docs:*'', ''widgets:*'', ''records:*'', ''annotations:*'', ''threads:*'',
      ''search:read'', ''workspace:export'', ''tokens:manage'']"

definition identityForTeamMember ::
    "string \<Rightarrow> credential_class \<Rightarrow> team_member \<Rightarrow> pairing_db \<Rightarrow> team_error + token_identity" where
  "identityForTeamMember ws cls member w =
     (case (worktable (team w), map_of (participant_keys w) (member_id member)) of
        (Some worktableId, Some key) \<Rightarrow>
          if key = [] then Inl (TeamStateError '''')
          else Inr \<lparr>id_user = user_id member, id_workspace = ws, credential_class = Some cls,
                    id_scopes = TEAM_HUMAN_SCOPES, id_agent = None, principal_id = actor_id member,
                    principal_kind = Human, principal_name = member_name member, principal_authorized = None,
                    principal_participant = Some key, issued_at = None, expires_at = None, session_id = None,
                    id_team = Some \<lparr>tc_worktable = worktableId, tc_user = Some (user_id member),
                      tc_member = Some (member_id member), tc_agent = None, tc_credential = None\<rparr>,
                    operator_verification = False\<rparr>
      | _ \<Rightarrow> Inl (TeamStateError ''''))"

section \<open>Authorizing a session\<close>

record pairing_input =
  pi_name :: string
  pi_platform :: string
  pi_agent :: "string option"
  pi_mode :: "string option"
  pi_expires :: int

definition registerTeamPairing ::
    "request \<Rightarrow> string \<Rightarrow> pairing_input \<Rightarrow> token_identity \<Rightarrow> pairing_db \<Rightarrow> team_error + pairing_db" where
  "registerTeamPairing r sessionId i identity w =
     (case requireTeamHuman r (team w) identity of
        Inl e \<Rightarrow> Inl e
      | Inr member \<Rightarrow>
          (case (if truthy (pi_agent i)
                 then map_sum id (\<lambda>_. ()) (requireTeamAgentAdministrator r (team w) (the (pi_agent i)) identity)
                 else Inr ()) of
             Inl e \<Rightarrow> Inl e
           | Inr _ \<Rightarrow>
               (let kept = filter (\<lambda>(s, a). \<not> au_expires a \<le> clock r) (authorizations w)
                in if map_of kept sessionId \<noteq> None then Inl ConstraintError
                   else Inr (w\<lparr>authorizations := kept @
                     [(sessionId, \<lparr>au_member = member_id member, au_name = pi_name i, au_platform = pi_platform i,
                                   au_agent = pi_agent i, au_mode = pi_mode i, au_expires = pi_expires i\<rparr>)]\<rparr>))))"

section \<open>Binding the credential\<close>

text \<open>The agents of the member that hold one of the earlier credentials, with the credential.\<close>

definition candidates :: "team_state \<Rightarrow> string \<Rightarrow> string list \<Rightarrow> (string \<times> string) list" where
  "candidates db memberId previous =
     map (\<lambda>(key, c). (cr_agent c, key))
       (filter (\<lambda>(key, c). cr_active c \<and> key \<in> set previous
                  \<and> (case map_of (agents db) (cr_agent c) of None \<Rightarrow> False
                     | Some row \<Rightarrow> row_ownership row = Personal \<and> row_member row = Some memberId \<and> row_active row))
          (credentials db))"

definition reused_agent :: "(string \<times> string) list \<Rightarrow> string list \<Rightarrow> string option" where
  "reused_agent rows previous =
     (case List.find truthy (map (\<lambda>key. map_option fst (List.find (\<lambda>(a, k). k = key) rows)) (rev previous)) of
        Some found \<Rightarrow> found
      | None \<Rightarrow> None)"

text \<open>The agent to bind, created where there is none, and whether it was.\<close>

definition agent_to_bind ::
    "request \<Rightarrow> token_identity \<Rightarrow> string \<Rightarrow> string \<Rightarrow> bound_pairing option \<Rightarrow> pairing_authorization option \<Rightarrow> string option
       \<Rightarrow> team_state \<Rightarrow> team_error + (string \<times> team_state)" where
  "agent_to_bind r identity uuid uuid' existing pending reused db =
     (case map_option bp_agent existing of
        Some a \<Rightarrow> Inr (a, db)
      | None \<Rightarrow> (case Option.bind pending au_agent of
          Some a \<Rightarrow> Inr (a, db)
        | None \<Rightarrow> (case reused of
            Some a \<Rightarrow> Inr (a, db)
          | None \<Rightarrow> (case pending of
              None \<Rightarrow> Inl (TeamStateError '''')
            | Some p \<Rightarrow> map_sum id (\<lambda>(agent, db). (ag_id agent, db))
                 (createTeamAgent r (au_name p) (au_platform p) Personal identity uuid uuid' db)))))"

definition set_icon :: "string \<Rightarrow> string \<Rightarrow> team_state \<Rightarrow> team_state" where
  "set_icon agentId icon db = update_agent agentId (\<lambda>row. if row_icon row = None then row\<lparr>row_icon := Some icon\<rparr> else row) db"

definition set_mode :: "string \<Rightarrow> string \<Rightarrow> team_state \<Rightarrow> team_state" where
  "set_mode agentId mode db = update_agent agentId (\<lambda>row. row\<lparr>row_mode := mode\<rparr>) db"

text \<open>Outside a team Worktable \<open>currentTeamWorktable()!\<close> is read as null and throws.\<close>

definition bindTeamPairingCredential ::
    "request \<Rightarrow> string \<Rightarrow> string \<Rightarrow> string \<Rightarrow> string list \<Rightarrow> string option \<Rightarrow> string \<Rightarrow> string \<Rightarrow> pairing_db
       \<Rightarrow> team_error + ((string \<times> bool) \<times> pairing_db)" where
  "bindTeamPairingCredential r ws sessionId key previous icon uuid uuid' w =
     (let pending = map_of (authorizations w) sessionId; existing = map_of (pairings w) sessionId
      in if worktable (team w) = None then Inl (TeamStateError '''')
         else (case findTeamMemberById (team w)
                 (case pending of Some p \<Rightarrow> au_member p | None \<Rightarrow> (case existing of Some b \<Rightarrow> bp_member b | None \<Rightarrow> [])) of
           None \<Rightarrow> Inl (TeamAccessError ''The member who authorized this connection is no longer available'')
         | Some member \<Rightarrow>
             if existing = None \<and> (case pending of None \<Rightarrow> True | Some p \<Rightarrow> au_expires p \<le> clock r)
             then Inl (TeamAccessError ''The member who authorized this connection is no longer available'')
             else (case identityForTeamMember ws LocalCredential member w of
               Inl e \<Rightarrow> Inl e
             | Inr identity \<Rightarrow>
                 (let rows = (if existing = None \<and> \<not> truthy (Option.bind pending au_agent) \<and> previous \<noteq> []
                              then candidates (team w) (member_id member) previous else []);
                      reused = reused_agent rows previous
                  in (case agent_to_bind r identity uuid uuid' existing pending reused (team w) of
                    Inl e \<Rightarrow> Inl e
                  | Inr (agentId, db) \<Rightarrow>
                      (let createdAgent = (\<not> truthy (map_option bp_agent existing)
                             \<and> \<not> truthy (Option.bind pending au_agent) \<and> \<not> truthy reused);
                           db = (if createdAgent \<and> truthy icon then set_icon agentId (the icon) db else db)
                       in (case requireTeamAgentAdministrator r db agentId identity of
                         Inl e \<Rightarrow> Inl e
                       | Inr _ \<Rightarrow>
                           (let mode = Option.bind pending au_mode;
                                db = (if truthy mode then set_mode agentId (the mode) db else db)
                            in (case bindTeamAgentCredential r agentId key identity False db of
                              Inl e \<Rightarrow> Inl e
                            | Inr db \<Rightarrow>
                                Inr ((agentId, createdAgent),
                                     w\<lparr>team := db,
                                       pairings := (if existing = None
                                         then pairings w @ [(sessionId, \<lparr>bp_agent = agentId, bp_member = member_id member\<rparr>)]
                                         else pairings w),
                                       authorizations := AList.delete sessionId (authorizations w)\<rparr>))))))))))"

section \<open>Finishing and failing\<close>

definition retire_credentials :: "string \<Rightarrow> string list \<Rightarrow> team_state \<Rightarrow> team_state" where
  "retire_credentials agentId keys db =
     update_credentials (\<lambda>k c. k \<in> set keys \<and> cr_agent c = agentId) (\<lambda>c. c\<lparr>cr_active := False\<rparr>) db"

definition finalizeTeamCredentialRotation ::
    "int \<Rightarrow> string \<Rightarrow> string \<Rightarrow> token_store \<Rightarrow> pairing_db \<Rightarrow> token_store \<times> pairing_db" where
  "finalizeTeamCredentialRotation now tokenId agentId st w =
     (let active = map md_id (filter (\<lambda>t. md_revokedAt t = None) (listTokens st));
          ownedBy = (\<lambda>key. map_option cr_agent (map_of (credentials (team w)) key));
          st' = snd (finalizeAgentTokenRotations now [tokenId] [] (Some (\<lambda>principalId. ownedBy principalId = Some agentId)) st);
          retired = filter (\<lambda>t. md_id t \<in> set active \<and> md_revokedAt t \<noteq> None \<and> md_id t \<noteq> tokenId) (listTokens st')
      in if retired = [] then (st', w)
         else (st', w\<lparr>team := advanceTeamPolicy (retire_credentials agentId (map principal_id retired) (team w))\<rparr>))"

definition requireTeamPairingAdministrator ::
    "request \<Rightarrow> string \<Rightarrow> token_identity \<Rightarrow> pairing_db \<Rightarrow> team_error + unit" where
  "requireTeamPairingAdministrator r sessionId identity w =
     (case requireTeamHuman r (team w) identity of
        Inl e \<Rightarrow> Inl e
      | Inr member \<Rightarrow>
          (case map_of (authorizations w) sessionId of
             Some p \<Rightarrow>
               if au_member p \<noteq> member_id member \<and> role member \<noteq> Owner then Inl (TeamAccessError '''')
               else if truthy (au_agent p)
               then map_sum id (\<lambda>_. ()) (requireTeamAgentAdministrator r (team w) (the (au_agent p)) identity)
               else Inr ()
           | None \<Rightarrow>
               (case map_of (pairings w) sessionId of
                  None \<Rightarrow> Inl (TeamAccessError ''This connection is no longer available'')
                | Some b \<Rightarrow>
                    if bp_member b \<noteq> member_id member \<and> role member \<noteq> Owner then Inl (TeamAccessError '''')
                    else Inr ())))"

definition retireFailedTeamPairingCredential :: "string \<Rightarrow> bool \<Rightarrow> string \<Rightarrow> pairing_db \<Rightarrow> pairing_db" where
  "retireFailedTeamPairingCredential agentId createdAgent key w =
     (let db = retire_credentials agentId [key] (team w);
          db = (if createdAgent \<and> \<not> list_ex (\<lambda>(k, c). cr_agent c = agentId \<and> cr_active c) (credentials db)
                then update_agent agentId (\<lambda>row. if row_ownership row = Personal then row\<lparr>row_active := False\<rparr> else row) db
                else db)
      in w\<lparr>team := advanceTeamPolicy db\<rparr>)"

section \<open>The member behind a session\<close>

definition authorizer :: "pairing_db \<Rightarrow> string \<Rightarrow> string" where
  "authorizer w sessionId =
     (case map_of (authorizations w) sessionId of Some p \<Rightarrow> au_member p
      | None \<Rightarrow> (case map_of (pairings w) sessionId of Some b \<Rightarrow> bp_member b | None \<Rightarrow> []))"

text \<open>Members are listed under their ids.\<close>

definition members_keyed :: "team_state \<Rightarrow> bool" where
  "members_keyed db \<longleftrightarrow> list_all (\<lambda>(m, x). member_id x = m) (members db)"

lemma members_keyedD: "members_keyed db \<Longrightarrow> map_of (members db) m = Some x \<Longrightarrow> member_id x = m"
  by (auto simp: members_keyed_def list_all_iff dest: map_of_SomeD)

text \<open>Changes that keep the people and whether and whose every agent is.\<close>

definition same_people :: "team_state \<Rightarrow> team_state \<Rightarrow> bool" where
  "same_people db db' \<longleftrightarrow> members db' = members db \<and> worktable db' = worktable db"

lemma member_of_identity:
  assumes "identityForTeamMember ws cls member w = Inr identity" "same_people (team w) db"
    and "findTeamMemberById (team w) m = Some member" "members_keyed (team w)"
    and "requireTeamHuman r db identity = Inr human"
  shows "human = member"
proof -
  from assms(5) obtain claim n where n: "id_team identity = Some claim" "tc_member claim = Some n"
      "map_of (members db) n = Some human"
    by (auto simp: requireTeamHuman_def teamMemberForIdentity_def findTeamMemberById_def split: option.splits if_splits)
  from assms(1) obtain claim' where "id_team identity = Some claim'" "tc_member claim' = Some (member_id member)"
    by (auto simp: identityForTeamMember_def split: option.splits if_splits)
  moreover have "map_of (members (team w)) m = Some member" using assms(3) by (simp add: findTeamMemberById_def split: if_splits)
  moreover from this have "member_id member = m" by (rule members_keyedD [OF assms(4)])
  ultimately show ?thesis using n assms(2) by (simp add: same_people_def)
qed

lemma set_selectors [simp]:
  "members (update_agent a f db) = members db" "worktable (update_agent a f db) = worktable db"
  "members (update_credentials P g db) = members db" "worktable (update_credentials P g db) = worktable db"
  by (simp_all add: update_agent_def update_credentials_def)

lemma set_ok:
  "team_ok db \<Longrightarrow> team_ok (set_icon a icon db)" "team_ok db \<Longrightarrow> team_ok (set_mode a mode db)"
  unfolding set_icon_def set_mode_def by (rule update_agent_same_ok; simp add: row_ok_def)+

text \<open>At most the agent \<open>a\<close> changes.\<close>

definition only_agent :: "string \<Rightarrow> team_state \<Rightarrow> team_state \<Rightarrow> bool" where
  "only_agent a db db' \<longleftrightarrow> same_people db db' \<and> credentials db' = credentials db
     \<and> (\<forall>k. k \<noteq> a \<longrightarrow> map_of (agents db') k = map_of (agents db) k)"

lemma only_agent_refl [simp]: "only_agent a db db"
  by (simp add: only_agent_def same_people_def)

lemma only_agent_trans: "only_agent a db db' \<Longrightarrow> only_agent a db' db'' \<Longrightarrow> only_agent a db db''"
  unfolding only_agent_def same_people_def by simp

lemma only_agent_set [simp]: "only_agent a db (set_icon a icon db)" "only_agent a db (set_mode a mode db)"
  by (simp_all add: only_agent_def set_icon_def set_mode_def same_people_def map_of_update_agent option.map_ident)

lemma agent_to_bind_Inr:
  assumes "agent_to_bind r identity uuid uuid' existing pending reused db = Inr (a, db')"
  obtains (kept) "db' = db" "existing \<noteq> None \<or> Option.bind pending au_agent \<noteq> None \<or> reused \<noteq> None"
  | (created) p agent where "pending = Some p" "existing = None" "Option.bind pending au_agent = None" "reused = None"
      "createTeamAgent r (au_name p) (au_platform p) Personal identity uuid uuid' db = Inr (agent, db')" "a = ag_id agent"
proof (cases "existing = None \<and> Option.bind pending au_agent = None \<and> reused = None")
  case True
  with assms show ?thesis
    by (cases pending) (auto simp: agent_to_bind_def map_sum_def intro: created split: sum.splits prod.splits)
next
  case False
  with assms show ?thesis
    by (intro kept) (auto simp: agent_to_bind_def split: option.splits)
qed

lemma bindTeamPairingCredential_Inr:
  assumes "bindTeamPairingCredential r ws s key previous icon uuid uuid' w = Inr ((a, created), w')"
  obtains member identity reused db0 db1 db2 db3 where
    "findTeamMemberById (team w) (authorizer w s) = Some member"
    "identityForTeamMember ws LocalCredential member w = Inr identity"
    "agent_to_bind r identity uuid uuid' (map_of (pairings w) s) (map_of (authorizations w) s) reused (team w) = Inr (a, db0)"
    "created \<longleftrightarrow> \<not> truthy (map_option bp_agent (map_of (pairings w) s))
       \<and> \<not> truthy (Option.bind (map_of (authorizations w) s) au_agent) \<and> \<not> truthy reused"
    "db1 = db0 \<or> (\<exists>i. db1 = set_icon a i db0)" "\<exists>x. requireTeamAgentAdministrator r db1 a identity = Inr x"
    "db2 = db1 \<or> (\<exists>m. db2 = set_mode a m db1)"
    "bindTeamAgentCredential r a key identity False db2 = Inr db3"
    "team w' = db3" "authorizations w' = AList.delete s (authorizations w)"
    "map_of (pairings w') s \<noteq> None"
proof -
  let ?pending = "map_of (authorizations w) s" and ?existing = "map_of (pairings w) s"
  note step = assms [unfolded bindTeamPairingCredential_def Let_def, folded authorizer_def]
  from step obtain member where member: "findTeamMemberById (team w) (authorizer w s) = Some member"
    by (cases "findTeamMemberById (team w) (authorizer w s)") (simp_all split: if_splits)
  note step = step [unfolded member option.case]
  from step obtain identity where identity: "identityForTeamMember ws LocalCredential member w = Inr identity"
    by (auto split: if_splits sum.splits)
  define reused where "reused = reused_agent
     (if ?existing = None \<and> \<not> truthy (Option.bind ?pending au_agent) \<and> previous \<noteq> []
      then candidates (team w) (member_id member) previous else []) previous"
  from step obtain a' db0 where bind: "agent_to_bind r identity uuid uuid' ?existing ?pending reused (team w) = Inr (a', db0)"
    unfolding identity reused_def by (auto split: if_splits sum.splits)
  let ?created = "\<not> truthy (map_option bp_agent ?existing) \<and> \<not> truthy (Option.bind ?pending au_agent) \<and> \<not> truthy reused"
  let ?db1 = "if ?created \<and> truthy icon then set_icon a' (the icon) db0 else db0"
  let ?mode = "Option.bind ?pending au_mode"
  let ?db2 = "if truthy ?mode then set_mode a' (the ?mode) ?db1 else ?db1"
  note step = step [unfolded identity sum.case, folded reused_def, unfolded bind sum.case prod.case]
  from step obtain x where admin: "requireTeamAgentAdministrator r ?db1 a' identity = Inr x"
    by (cases "requireTeamAgentAdministrator r ?db1 a' identity") (simp_all split: if_splits)
  note step = step [unfolded admin sum.case]
  from step obtain db3 where bound: "bindTeamAgentCredential r a' key identity False ?db2 = Inr db3"
    by (cases "bindTeamAgentCredential r a' key identity False ?db2") (simp_all split: if_splits)
  note step = step [unfolded bound sum.case]
  from step have res: "a' = a" "created = ?created" "team w' = db3" "authorizations w' = AList.delete s (authorizations w)"
      "map_of (pairings w') s \<noteq> None"
    by (auto simp: map_add_def split: if_splits option.split)
  have "?db1 = db0 \<or> (\<exists>i. ?db1 = set_icon a i db0)" "\<exists>x. requireTeamAgentAdministrator r ?db1 a identity = Inr x"
      "?db2 = ?db1 \<or> (\<exists>m. ?db2 = set_mode a m ?db1)"
    using admin unfolding res(1) by auto
  note changes = this [unfolded res(1)]
  show thesis
    by (rule that [OF member identity bind [unfolded res(1)] res(2) changes bound [unfolded res(1)] res(3-5)])
qed

section \<open>Properties\<close>

lemma bind_credential_effect:
  assumes "bindTeamAgentCredential r a key identity dep db = Inr db'"
  obtains human row c where "requireTeamHuman r db identity = Inr human" "active_agent db a = Some row" "administers human row"
    "agents db' = agents db" "members db' = members db" "worktable db' = worktable db"
    "map_of (credentials db') = (map_of (credentials db))(key \<mapsto> c)" "cr_active c" "cr_agent c = a"
proof -
  from assms obtain human row where ok: "requireTeamHuman r db identity = Inr human" "active_agent db a = Some row" "administers human row"
    by (auto simp: bindTeamAgentCredential_def split: sum.splits option.splits if_splits)
  define sponsor where "sponsor = (if dep \<or> row_ownership row = Personal then Some (member_id human) else None)"
  show ?thesis
  proof (cases "map_of (credentials db) key")
    case None
    with assms ok have "db' = advanceTeamPolicy (db\<lparr>credentials := credentials db @
        [(key, \<lparr>cr_agent = a, cr_sponsor = sponsor, cr_minimum = 0, cr_active = True, cr_disconnected = None\<rparr>)]\<rparr>)"
      by (simp add: bindTeamAgentCredential_def sponsor_def Let_def)
    with ok map_of_append_new [OF None] show ?thesis by (intro that) auto
  next
    case (Some c)
    with assms ok have db': "db' = advanceTeamPolicy (update_credentials (\<lambda>k _. k = key)
        (\<lambda>c. c\<lparr>cr_active := True, cr_sponsor := sponsor\<rparr>) db)" and same: "cr_agent c = a"
      by (auto simp: bindTeamAgentCredential_def sponsor_def Let_def split: if_splits)
    have "map_of (credentials db') = (map_of (credentials db))(key \<mapsto> c\<lparr>cr_active := True, cr_sponsor := sponsor\<rparr>)"
      using Some by (auto simp: db' map_of_update_credentials fun_eq_iff option.map_ident)
    with ok same show ?thesis by (intro that [of human row "c\<lparr>cr_active := True, cr_sponsor := sponsor\<rparr>"]) (auto simp: db')
  qed
qed

lemma agent_to_bind_effect:
  assumes "agent_to_bind r identity uuid uuid' existing pending reused db = Inr (a, db')" "team_ok db"
  shows "team_ok db' \<and> only_agent a db db' \<and> (existing = None \<or> map_option bp_agent existing = Some a)"
  using assms(1)
proof (cases rule: agent_to_bind_Inr)
  case kept
  moreover have "existing = None \<or> map_option bp_agent existing = Some a"
    using assms(1) by (cases existing) (auto simp: agent_to_bind_def)
  ultimately show ?thesis using assms(2) by simp
next
  case (created p agent)
  from created(5) show ?thesis
  proof (cases rule: createTeamAgent_Inr)
    case (1 member)
    from 1(5) map_of_append_new [OF 1(4)] createTeamAgent_ok [OF created(5) assms(2)] show ?thesis
      by (auto simp: only_agent_def same_people_def created(2,6))
  qed
qed

text \<open>
  C10. Redeeming a team pairing connects an agent of the member who asked: the credential works for
  an active agent that this member administers, which a repeated redemption finds again, every other
  agent and credential is as it was, and the authorization is used up.
\<close>

theorem pairing_binds_to_its_member:
  assumes "bindTeamPairingCredential r ws s key previous icon uuid uuid' w = Inr ((a, created), w')"
    and "team_ok (team w)" "members_keyed (team w)"
  shows "(\<exists>member row c. findTeamMemberById (team w) (authorizer w s) = Some member
      \<and> active_agent (team w') a = Some row \<and> administers member row
      \<and> map_of (credentials (team w')) = (map_of (credentials (team w)))(key \<mapsto> c) \<and> cr_active c \<and> cr_agent c = a)
    \<and> (map_of (pairings w) s = None \<or> map_option bp_agent (map_of (pairings w) s) = Some a)
    \<and> (\<forall>k. k \<noteq> a \<longrightarrow> map_of (agents (team w')) k = map_of (agents (team w)) k)
    \<and> team_ok (team w') \<and> map_of (authorizations w') s = None \<and> map_of (pairings w') s \<noteq> None"
  using assms(1)
proof (cases rule: bindTeamPairingCredential_Inr)
  case (1 member identity reused db0 db1 db2 db3)
  note start = agent_to_bind_effect [OF 1(3) assms(2)]
  have "team_ok db1" "only_agent a db0 db1" using 1(5) start by (auto simp: set_ok)
  moreover from this have "team_ok db2" "only_agent a db1 db2" using 1(7) by (auto simp: set_ok)
  ultimately have db2: "team_ok db2" "only_agent a (team w) db2" using start by (blast intro: only_agent_trans)+
  from 1(8) show ?thesis
  proof (cases rule: bind_credential_effect)
    case (1 human row c)
    have "human = member"
      by (rule member_of_identity [OF \<open>identityForTeamMember ws LocalCredential member w = Inr identity\<close> _
            \<open>findTeamMemberById (team w) (authorizer w s) = Some member\<close> assms(3) 1(1)])
        (use db2 in \<open>simp add: only_agent_def\<close>)
    with 1 bindTeamAgentCredential_ok [OF \<open>bindTeamAgentCredential r a key identity False db2 = Inr db3\<close>] db2 start
      \<open>team w' = db3\<close> \<open>authorizations w' = _\<close> \<open>map_of (pairings w') s \<noteq> None\<close>
      \<open>findTeamMemberById (team w) (authorizer w s) = Some member\<close>
    show ?thesis by (auto simp: active_agent_def delete_conv' only_agent_def)
  qed
qed

definition sample_pairing_db :: pairing_db where
  "sample_pairing_db = \<lparr>team = sample_state,
     authorizations = [(''s'', \<lparr>au_member = ''m1'', au_name = ''Codex'', au_platform = ''codex'', au_agent = None,
       au_mode = Some ''on-demand'', au_expires = 100\<rparr>)],
     pairings = [], participant_keys = [(''m1'', ''principal:h'')]\<rparr>"

definition sample_bound :: "team_error + ((string \<times> bool) \<times> pairing_db)" where
  "sample_bound = bindTeamPairingCredential trusted_request ''/w'' ''s'' ''local-token:1'' [] (Some ''bot'') ''a'' ''b'' sample_pairing_db"

theorem pairing_binds_to_its_member_witness:
  "case sample_bound of Inl e \<Rightarrow> False | Inr ((a, created), w') \<Rightarrow> a = ''agt_a'' \<and> active_agent (team w') a \<noteq> None"
proof -
  have "case sample_bound of Inl e \<Rightarrow> False | Inr ((a, created), w') \<Rightarrow> a = ''agt_a''"
    by code_simp
  then obtain created w' where bound: "sample_bound = Inr ((''agt_a'', created), w')"
    by (auto split: sum.splits)
  have "team_ok sample_state"
    by (simp add: team_ok_def sample_defs agents_ok_def grants_ok_def credentials_ok_def row_ok_def active_agent_def)
  then have "team_ok (team sample_pairing_db)" "members_keyed (team sample_pairing_db)"
    by (simp_all add: sample_pairing_db_def members_keyed_def) (simp add: sample_defs)
  from pairing_binds_to_its_member [OF bound [unfolded sample_bound_def] this]
  have "active_agent (team w') ''agt_a'' \<noteq> None" by auto
  then show ?thesis by (simp add: bound)
qed

end
