(* ===== verification/WorkspaceAdmission.thy ===== *)
theory WorkspaceAdmission
  imports Prelude
begin

text \<open>
  Admission of requests to the workspace,
  \<open>packages/server/src/workspace-request-lifecycle.ts\<close>: which drain a request belongs to, and
  the module's state as requests come and go while captures and replacements drain it.

  The module's variables are the record \<open>admission\<close>. A request is the number of its symbol. A
  promise that waits is an entry with its phase: \<open>Waiting\<close> in the list of resolvers,
  \<open>Woken\<close> once resolved, until its continuation runs. Every stretch of code between two
  awaits is one event.
\<close>

section \<open>Which drain a request belongs to\<close>

datatype request_kind = ReadRequest | WriteRequest

definition SAFE_METHODS :: "string list" where
  "SAFE_METHODS = [''GET'', ''HEAD'', ''OPTIONS'']"

text \<open>\<open>pathname === base || pathname.startsWith(`${base}/`)\<close>.\<close>

definition under :: "string \<Rightarrow> string \<Rightarrow> bool" where
  "under base p \<longleftrightarrow> p = base \<or> prefix (base @ ''/'') p"

definition isStaticOrShell :: "string \<Rightarrow> bool" where
  "isStaticOrShell p \<longleftrightarrow>
     p = ''/health'' \<or> \<not> (p = ''/mcp'' \<or> prefix ''/mcp/'' p \<or> prefix ''/api/'' p)"

text \<open>\<open>/^\/api\/spaces\/[^/]+\/<part>(?:\/|$)/\<close>.\<close>

definition space_part :: "string \<Rightarrow> string \<Rightarrow> bool" where
  "space_part part p =
     (case split_on (CHR ''/'') p of
        [] # a # s # x # q # rest \<Rightarrow> a = ''api'' \<and> s = ''spaces'' \<and> x \<noteq> [] \<and> q = part
      | _ \<Rightarrow> False)"

text \<open>\<open>/^\/api\/workspace\/transfers\/exports\/[^/]+\/download$/\<close>.\<close>

definition export_download :: "string \<Rightarrow> bool" where
  "export_download p =
     (case split_on (CHR ''/'') p of
        [[], a, w, t, e, x, q] \<Rightarrow>
          a = ''api'' \<and> w = ''workspace'' \<and> t = ''transfers'' \<and> e = ''exports'' \<and> x \<noteq> [] \<and> q = ''download''
      | _ \<Rightarrow> False)"

definition write_bases :: "string list" where
  "write_bases = [''/mcp'', ''/api/mcp'', ''/api/workspace'', ''/api/shares'', ''/api/linked'',
     ''/api/agent-connections'', ''/api/grok-bot'', ''/api/pairing'', ''/api/team'', ''/api/tokens'',
     ''/api/spaces'', ''/api/threads'']"

definition classify_safe :: "string \<Rightarrow> string \<Rightarrow> bool \<Rightarrow> request_kind option" where
  "classify_safe verb p teamMode =
     (if verb = ''GET'' \<and> export_download p then Some ReadRequest
      else if verb = ''GET'' \<and> p = ''/api/linked/account/callback'' then Some WriteRequest
      else if prefix ''/api/file-links/'' p then Some ReadRequest
      else if verb = ''GET'' \<and>
        (p = ''/api/profile'' \<or> p = ''/api/pending'' \<or> p = ''/api/threads'' \<or> prefix ''/api/threads/'' p
         \<or> space_part ''threads'' p) then Some ReadRequest
      else if \<not> isStaticOrShell p \<and> teamMode then Some ReadRequest
      else None)"

definition classifyWorkspaceRequest :: "string \<Rightarrow> string \<Rightarrow> bool \<Rightarrow> request_kind option" where
  "classifyWorkspaceRequest method p teamMode =
     (let verb = map upper method
      in if (p = ''/public/share'' \<or> p = ''/public/share/content'') \<and> (verb = ''GET'' \<or> verb = ''HEAD'')
         then Some ReadRequest
         else if (p = ''/public/share/bridge'' \<or> p = ''/public/share/unlock'') \<and> verb = ''POST''
         then Some ReadRequest
         else if p = ''/public/share/comments''
         then (if verb = ''GET'' \<or> verb = ''HEAD'' then Some ReadRequest
               else if verb = ''POST'' then Some WriteRequest else None)
         else if (verb = ''GET'' \<or> verb = ''HEAD'') \<and> space_part ''visitor-comments'' p
         then Some ReadRequest
         else if verb \<in> set SAFE_METHODS then classify_safe verb p teamMode
         else if list_ex (\<lambda>base. under base p) write_bases \<or> p = ''/api/profile'' \<or> prefix ''/api/file-links/'' p
         then Some WriteRequest
         else None)"

definition isWorkspaceRequest :: "string \<Rightarrow> string \<Rightarrow> bool \<Rightarrow> bool" where
  "isWorkspaceRequest method p teamMode \<longleftrightarrow> classifyWorkspaceRequest method p teamMode \<noteq> None"

section \<open>The module's state\<close>

datatype phase = Waiting | Woken | Finished

record drain_wait =
  kinds :: "request_kind list"
  drain_phase :: phase
  reopened :: bool \<comment> \<open>admission was resumed since the drain began\<close>

record reopen_wait =
  waits_for :: request_kind
  reopen_phase :: phase

record admission =
  active :: "request_kind \<Rightarrow> nat list"
  accepting :: "request_kind \<Rightarrow> bool"
  drains :: "(nat \<times> drain_wait) list"
  reopenWaiters :: "(nat \<times> reopen_wait) list"
  drainListeners :: "nat list"
  next_request :: nat

definition fresh_admission :: admission where
  "fresh_admission = \<lparr>active = (\<lambda>_. []), accepting = (\<lambda>_. True), drains = [], reopenWaiters = [],
     drainListeners = [], next_request = 0\<rparr>"

section \<open>Operations\<close>

definition admitWorkspaceRequest :: "request_kind \<Rightarrow> admission \<Rightarrow> nat option \<times> admission" where
  "admitWorkspaceRequest kind s =
     (if \<not> accepting s kind then (None, s)
      else (Some (next_request s),
            s\<lparr>active := (active s)(kind := active s kind @ [next_request s]), next_request := next_request s + 1\<rparr>))"

definition wake_drain :: "drain_wait \<Rightarrow> drain_wait" where
  "wake_drain d = (if drain_phase d = Waiting then d\<lparr>drain_phase := Woken\<rparr> else d)"

text \<open>The closure an admission returns; a second call does nothing.\<close>

definition release :: "request_kind \<Rightarrow> nat \<Rightarrow> admission \<Rightarrow> admission" where
  "release kind r s =
     (if r \<notin> set (active s kind) then s
      else s\<lparr>active := (active s)(kind := filter (\<lambda>x. x \<noteq> r) (active s kind)),
             drains := map (\<lambda>(i, d). (i, wake_drain d)) (drains s)\<rparr>)"

definition busy :: "admission \<Rightarrow> request_kind list \<Rightarrow> bool" where
  "busy s ks = list_ex (\<lambda>kind. active s kind \<noteq> []) ks"

text \<open>The call of \<open>drain\<close> up to its first await, and the listeners it notifies.\<close>

definition start_drain :: "nat \<Rightarrow> request_kind list \<Rightarrow> admission \<Rightarrow> nat list \<times> admission" where
  "start_drain i ks s =
     (drainListeners s,
      s\<lparr>accepting := (\<lambda>kind. accepting s kind \<and> kind \<notin> set ks),
        drains := AList.update i \<lparr>kinds = ks, drain_phase = (if busy s ks then Waiting else Finished), reopened = False\<rparr>
                    (drains s)\<rparr>)"

definition stopWorkspaceMutationsAndDrain :: "nat \<Rightarrow> admission \<Rightarrow> nat list \<times> admission" where
  "stopWorkspaceMutationsAndDrain i s = start_drain i [WriteRequest] s"

definition stopWorkspaceRequestAdmissionAndDrain :: "nat \<Rightarrow> admission \<Rightarrow> nat list \<times> admission" where
  "stopWorkspaceRequestAdmissionAndDrain i s = start_drain i [WriteRequest, ReadRequest] s"

text \<open>A woken drain re-checks the sets it is waiting for.\<close>

definition recheck :: "admission \<Rightarrow> drain_wait \<Rightarrow> drain_wait" where
  "recheck s d = (if drain_phase d = Woken then d\<lparr>drain_phase := (if busy s (kinds d) then Waiting else Finished)\<rparr> else d)"

definition continue_drain :: "nat \<Rightarrow> admission \<Rightarrow> admission" where
  "continue_drain i s = s\<lparr>drains := map (\<lambda>(j, d). (j, if j = i then recheck s d else d)) (drains s)\<rparr>"

definition resumeWorkspaceRequestAdmission :: "admission \<Rightarrow> admission" where
  "resumeWorkspaceRequestAdmission s =
     s\<lparr>accepting := (\<lambda>_. True),
       reopenWaiters := map (\<lambda>(i, w). (i, w\<lparr>reopen_phase := (if reopen_phase w = Waiting then Woken else reopen_phase w)\<rparr>))
         (reopenWaiters s),
       drains := map (\<lambda>(i, d). (i, d\<lparr>reopened := True\<rparr>)) (drains s)\<rparr>"

definition isWorkspaceRequestAdmissionOpen :: "admission \<Rightarrow> bool" where
  "isWorkspaceRequestAdmissionOpen s = accepting s WriteRequest"

definition isWorkspaceDraining :: "admission \<Rightarrow> bool" where
  "isWorkspaceDraining s \<longleftrightarrow> \<not> accepting s WriteRequest \<or> \<not> accepting s ReadRequest"

definition onWorkspaceDrain :: "nat \<Rightarrow> admission \<Rightarrow> admission" where
  "onWorkspaceDrain l s = s\<lparr>drainListeners := (if l \<in> set (drainListeners s) then drainListeners s else drainListeners s @ [l])\<rparr>"

definition unsubscribe :: "nat \<Rightarrow> admission \<Rightarrow> admission" where
  "unsubscribe l s = s\<lparr>drainListeners := filter (\<lambda>x. x \<noteq> l) (drainListeners s)\<rparr>"

text \<open>\<open>waitForWorkspaceAdmission\<close>: an answer at once, or a wait that a resume or the timer ends.\<close>

definition waitForWorkspaceAdmission :: "nat \<Rightarrow> request_kind \<Rightarrow> admission \<Rightarrow> bool option \<times> admission" where
  "waitForWorkspaceAdmission i kind s =
     (if accepting s kind then (Some True, s)
      else if \<not> accepting s ReadRequest then (Some False, s)
      else (None, s\<lparr>reopenWaiters := AList.update i \<lparr>waits_for = kind, reopen_phase = Waiting\<rparr> (reopenWaiters s)\<rparr>))"

definition wait_times_out :: "nat \<Rightarrow> admission \<Rightarrow> admission" where
  "wait_times_out i s =
     s\<lparr>reopenWaiters := map (\<lambda>(j, w). (j, if j = i \<and> reopen_phase w = Waiting then w\<lparr>reopen_phase := Woken\<rparr> else w))
       (reopenWaiters s)\<rparr>"

definition wait_answer :: "nat \<Rightarrow> admission \<Rightarrow> bool option \<times> admission" where
  "wait_answer i s =
     (case map_of (reopenWaiters s) i of
        Some w \<Rightarrow> if reopen_phase w = Woken
                  then (Some (accepting s (waits_for w)), s\<lparr>reopenWaiters := AList.delete i (reopenWaiters s)\<rparr>)
                  else (None, s)
      | None \<Rightarrow> (None, s))"

text \<open>Refuses while a request is active.\<close>

definition resetWorkspaceRequestLifecycleForTests :: "admission \<Rightarrow> admission option" where
  "resetWorkspaceRequestLifecycleForTests s =
     (if active s ReadRequest \<noteq> [] \<or> active s WriteRequest \<noteq> [] then None
      else Some (s\<lparr>accepting := (\<lambda>_. True), drains := filter (\<lambda>(i, d). drain_phase d \<noteq> Waiting) (drains s), reopenWaiters := []\<rparr>))"

datatype admission_event =
    Admit request_kind | Release request_kind nat | StopWrites nat | StopAll nat | ContinueDrain nat | Resume
  | Subscribe nat | Unsubscribe nat | WaitAdmission nat request_kind | TimesOut nat | AnswerWait nat

fun admission_step :: "admission_event \<Rightarrow> admission \<Rightarrow> admission" where
  "admission_step (Admit kind) s = snd (admitWorkspaceRequest kind s)"
| "admission_step (Release kind r) s = release kind r s"
| "admission_step (StopWrites i) s = snd (stopWorkspaceMutationsAndDrain i s)"
| "admission_step (StopAll i) s = snd (stopWorkspaceRequestAdmissionAndDrain i s)"
| "admission_step (ContinueDrain i) s = continue_drain i s"
| "admission_step Resume s = resumeWorkspaceRequestAdmission s"
| "admission_step (Subscribe l) s = onWorkspaceDrain l s"
| "admission_step (Unsubscribe l) s = unsubscribe l s"
| "admission_step (WaitAdmission i kind) s = snd (waitForWorkspaceAdmission i kind s)"
| "admission_step (TimesOut i) s = wait_times_out i s"
| "admission_step (AnswerWait i) s = snd (wait_answer i s)"

section \<open>Classification\<close>

text \<open>Team mode only adds reads, and only of paths that are neither static nor the shell.\<close>

lemma team_mode_adds_reads:
  "classifyWorkspaceRequest m p True = classifyWorkspaceRequest m p False
   \<or> classifyWorkspaceRequest m p False = None \<and> classifyWorkspaceRequest m p True = Some ReadRequest
     \<and> \<not> isStaticOrShell p \<and> map upper m \<in> set SAFE_METHODS"
  unfolding classifyWorkspaceRequest_def classify_safe_def Let_def by auto

section \<open>Draining\<close>

definition drain_ok :: "admission \<Rightarrow> drain_wait \<Rightarrow> bool" where
  "drain_ok s d \<longleftrightarrow>
     (\<not> reopened d \<longrightarrow> list_all (\<lambda>k. \<not> accepting s k) (kinds d))
     \<and> (drain_phase d = Waiting \<longrightarrow> busy s (kinds d))
     \<and> (\<not> reopened d \<and> drain_phase d = Finished \<longrightarrow> \<not> busy s (kinds d))"

definition admission_ok :: "admission \<Rightarrow> bool" where
  "admission_ok s \<longleftrightarrow> (\<forall>d \<in> snd ` set (drains s). drain_ok s d)"

lemma drain_ok_same: "active s' = active s \<Longrightarrow> accepting s' = accepting s \<Longrightarrow> drain_ok s' = drain_ok s"
  by (simp add: drain_ok_def busy_def fun_eq_iff)

lemma admission_ok_same:
  "drains s' = drains s \<Longrightarrow> active s' = active s \<Longrightarrow> accepting s' = accepting s \<Longrightarrow> admission_ok s' = admission_ok s"
  by (simp add: admission_ok_def drain_ok_same [of s' s])

lemma wake_drain_simps [simp]:
  "kinds (wake_drain d) = kinds d" "reopened (wake_drain d) = reopened d" "drain_phase (wake_drain d) \<noteq> Waiting"
  "drain_phase (wake_drain d) = Finished \<longleftrightarrow> drain_phase d = Finished"
  by (simp_all add: wake_drain_def)

lemma set_alist_update: "snd ` set (AList.update k v m) \<subseteq> insert v (snd ` set m)"
  by (induction m) auto

lemma busy_admit: "busy s ks \<Longrightarrow> busy (snd (admitWorkspaceRequest kind s)) ks"
  by (auto simp: admitWorkspaceRequest_def busy_def list_ex_iff)

lemma active_release: "active (release kind r s) k \<noteq> [] \<Longrightarrow> active s k \<noteq> []"
  by (auto simp: release_def split: if_splits)

lemma busy_release: "busy (release kind r s) ks \<Longrightarrow> busy s ks"
  unfolding busy_def list_ex_iff using active_release by blast

lemma admit_drain:
  assumes "drain_ok s d"
  shows "drain_ok (snd (admitWorkspaceRequest kind s)) d"
proof -
  let ?s = "snd (admitWorkspaceRequest kind s)"
  have "accepting ?s = accepting s" by (simp add: admitWorkspaceRequest_def)
  moreover have "\<not> busy ?s (kinds d)" if "\<not> busy s (kinds d)" "list_all (\<lambda>k. \<not> accepting s k) (kinds d)"
    using that by (auto simp: admitWorkspaceRequest_def busy_def list_ex_iff list_all_iff)
  ultimately show ?thesis using assms busy_admit by (simp add: drain_ok_def)
qed

lemma admit_ok [keeps]: "admission_ok s \<Longrightarrow> admission_ok (snd (admitWorkspaceRequest kind s))"
proof -
  have "drains (snd (admitWorkspaceRequest kind s)) = drains s" by (simp add: admitWorkspaceRequest_def)
  then show "admission_ok s \<Longrightarrow> ?thesis" by (simp add: admission_ok_def admit_drain)
qed

lemma release_drain: "drain_ok s d \<Longrightarrow> drain_ok (release kind r s) (wake_drain d)"
proof -
  have "accepting (release kind r s) = accepting s" by (simp add: release_def)
  then show "drain_ok s d \<Longrightarrow> ?thesis" using busy_release by (auto simp: drain_ok_def)
qed

lemma release_ok [keeps]: "admission_ok s \<Longrightarrow> admission_ok (release kind r s)"
proof (cases "r \<in> set (active s kind)")
  case True
  then have "drains (release kind r s) = map (\<lambda>(i, d). (i, wake_drain d)) (drains s)" by (simp add: release_def)
  then show "admission_ok s \<Longrightarrow> ?thesis" by (auto simp: admission_ok_def release_drain)
qed (simp add: release_def)

lemma start_drain_ok [keeps]: "admission_ok s \<Longrightarrow> admission_ok (snd (start_drain i ks s))"
proof -
  assume ok: "admission_ok s"
  let ?d = "\<lparr>kinds = ks, drain_phase = (if busy s ks then Waiting else Finished), reopened = False\<rparr>"
  let ?s = "snd (start_drain i ks s)"
  have "busy ?s = busy s" by (simp add: start_drain_def busy_def fun_eq_iff)
  moreover have "accepting ?s k \<longleftrightarrow> accepting s k \<and> k \<notin> set ks" for k by (simp add: start_drain_def)
  ultimately have new: "drain_ok ?s ?d" and old: "\<And>d. drain_ok s d \<Longrightarrow> drain_ok ?s d"
    by (simp_all add: drain_ok_def list_all_iff)
  have "drains ?s = AList.update i ?d (drains s)" by (simp add: start_drain_def)
  then have "snd ` set (drains ?s) \<subseteq> insert ?d (snd ` set (drains s))"
    using set_alist_update by (simp only:)
  then have "d = ?d \<or> d \<in> snd ` set (drains s)" if "d \<in> snd ` set (drains ?s)" for d
    using that by (meson insertE subsetD)
  with ok new old show ?thesis unfolding admission_ok_def by metis
qed

lemma continue_drain_ok [keeps]: "admission_ok s \<Longrightarrow> admission_ok (continue_drain i s)"
proof -
  have same: "drain_ok (continue_drain i s) = drain_ok s" by (rule drain_ok_same) (simp_all add: continue_drain_def)
  have "drain_ok s d \<Longrightarrow> drain_ok s (recheck s d)" for d by (auto simp: drain_ok_def recheck_def)
  then show "admission_ok s \<Longrightarrow> ?thesis" unfolding admission_ok_def same by (auto simp: continue_drain_def)
qed

lemma resume_ok [keeps]: "admission_ok s \<Longrightarrow> admission_ok (resumeWorkspaceRequestAdmission s)"
proof -
  have "drain_ok s d \<Longrightarrow> drain_ok (resumeWorkspaceRequestAdmission s) (d\<lparr>reopened := True\<rparr>)" for d
    by (simp add: drain_ok_def busy_def resumeWorkspaceRequestAdmission_def)
  then show "admission_ok s \<Longrightarrow> ?thesis"
    by (auto simp: admission_ok_def resumeWorkspaceRequestAdmission_def)
qed

lemma waiting_ok [keeps]:
  "admission_ok s \<Longrightarrow> admission_ok (onWorkspaceDrain l s)"
  "admission_ok s \<Longrightarrow> admission_ok (unsubscribe l s)"
  "admission_ok s \<Longrightarrow> admission_ok (snd (waitForWorkspaceAdmission i kind s))"
  "admission_ok s \<Longrightarrow> admission_ok (wait_times_out i s)"
  "admission_ok s \<Longrightarrow> admission_ok (snd (wait_answer i s))"
proof -
  have "admission_ok (s\<lparr>reopenWaiters := w\<rparr>) = admission_ok s" "admission_ok (s\<lparr>drainListeners := ls\<rparr>) = admission_ok s"
    for w ls by (rule admission_ok_same; simp)+
  then show "admission_ok s \<Longrightarrow> admission_ok (onWorkspaceDrain l s)"
    "admission_ok s \<Longrightarrow> admission_ok (unsubscribe l s)"
    "admission_ok s \<Longrightarrow> admission_ok (snd (waitForWorkspaceAdmission i kind s))"
    "admission_ok s \<Longrightarrow> admission_ok (wait_times_out i s)"
    "admission_ok s \<Longrightarrow> admission_ok (snd (wait_answer i s))"
    by (simp_all add: onWorkspaceDrain_def unsubscribe_def waitForWorkspaceAdmission_def wait_times_out_def wait_answer_def
      split: option.split)
qed

interpretation admissions: kept_by_steps admission_step admission_ok
proof
  show "admission_ok s \<Longrightarrow> admission_ok (admission_step e s)" for s e
    by (cases e) (simp_all add: keeps stopWorkspaceMutationsAndDrain_def stopWorkspaceRequestAdmissionAndDrain_def)
qed

lemma fresh_admission_ok: "admission_ok (fold admission_step es fresh_admission)"
  by (rule admissions.run_keeps) (simp add: admission_ok_def fresh_admission_def)

text \<open>What happens to a drain that nothing reopens: its kinds admit nothing, so their sets only shrink.\<close>

definition draining :: "nat \<Rightarrow> request_kind list \<Rightarrow> admission \<Rightarrow> bool" where
  "draining i ks s \<longleftrightarrow>
     list_all (\<lambda>k. \<not> accepting s k) ks \<and> (\<exists>d. map_of (drains s) i = Some d \<and> kinds d = ks \<and> \<not> reopened d)"

definition disturbs :: "nat \<Rightarrow> admission_event \<Rightarrow> bool" where
  "disturbs i e \<longleftrightarrow> e = Resume \<or> e = StopWrites i \<or> e = StopAll i"

lemma draining_start: "draining i ks s \<Longrightarrow> j \<noteq> i \<Longrightarrow> draining i ks (snd (start_drain j ks' s))"
  by (auto simp: draining_def start_drain_def update_conv' list_all_iff)

lemma draining_same:
  "draining i ks s \<Longrightarrow> accepting s' = accepting s \<Longrightarrow> drains s' = drains s \<Longrightarrow> draining i ks s'"
  by (simp add: draining_def)

lemma draining_map:
  assumes "draining i ks s" "accepting s' = accepting s" "drains s' = map (\<lambda>(j, d). (j, f j d)) (drains s)"
    and "\<And>j d. kinds (f j d) = kinds d \<and> reopened (f j d) = reopened d"
  shows "draining i ks s'"
  using assms by (auto simp: draining_def map_of_map_key)

lemma draining_step: "draining i ks s \<Longrightarrow> \<not> disturbs i e \<Longrightarrow> draining i ks (admission_step e s)"
proof (cases e)
  case (Release k r)
  assume "draining i ks s"
  with Release show ?thesis
    by (cases "r \<in> set (active s k)")
      (auto simp: release_def intro: draining_map [where f = "\<lambda>_. wake_drain"])
next
  case (ContinueDrain j)
  assume "draining i ks s"
  then have "draining i ks (continue_drain j s)"
    by (rule draining_map [where f = "\<lambda>j' d. if j' = j then recheck s d else d"])
      (simp_all add: continue_drain_def recheck_def)
  with ContinueDrain show ?thesis by simp
qed (auto simp: disturbs_def stopWorkspaceMutationsAndDrain_def stopWorkspaceRequestAdmissionAndDrain_def draining_start
      admitWorkspaceRequest_def onWorkspaceDrain_def unsubscribe_def waitForWorkspaceAdmission_def wait_times_out_def
      wait_answer_def split: option.split intro: draining_same)

lemma active_step:
  "draining i ks s \<Longrightarrow> k \<in> set ks \<Longrightarrow>
     set (active (admission_step e s) k) \<subseteq> set (active s k) - {r. e = Release k r}"
  by (cases e)
    (auto simp: draining_def list_all_iff stopWorkspaceMutationsAndDrain_def stopWorkspaceRequestAdmissionAndDrain_def
      start_drain_def release_def continue_drain_def resumeWorkspaceRequestAdmission_def admitWorkspaceRequest_def
      onWorkspaceDrain_def unsubscribe_def waitForWorkspaceAdmission_def wait_times_out_def wait_answer_def
      split: option.split if_splits)

lemma draining_run:
  "draining i ks s \<Longrightarrow> list_all (\<lambda>e. \<not> disturbs i e) es \<Longrightarrow>
     draining i ks (fold admission_step es s)
     \<and> (\<forall>k \<in> set ks. set (active (fold admission_step es s) k) \<subseteq> set (active s k) - {r. Release k r \<in> set es})"
proof (induction es arbitrary: s)
  case (Cons e es)
  note next_ok = draining_step [OF Cons.prems(1), of e]
  have "draining i ks (fold admission_step es (admission_step e s))
      \<and> (\<forall>k \<in> set ks. set (active (fold admission_step es (admission_step e s)) k)
           \<subseteq> set (active (admission_step e s) k) - {r. Release k r \<in> set es})"
    using Cons next_ok by simp
  with active_step [OF Cons.prems(1), of _ e] show ?case by fastforce
qed simp

section \<open>Properties\<close>

text \<open>
  C29. Once a drain has ended, and until admission is resumed, no request of the kinds it drained
  is active and none is admitted, whatever else happens meanwhile.
\<close>

theorem drained_stays_idle:
  assumes "map_of (drains (fold admission_step es fresh_admission)) i = Some d"
    and "drain_phase d = Finished" "\<not> reopened d" "k \<in> set (kinds d)"
  shows "active (fold admission_step es fresh_admission) k = []
    \<and> fst (admitWorkspaceRequest k (fold admission_step es fresh_admission)) = None"
proof -
  have "drain_ok (fold admission_step es fresh_admission) d"
    using fresh_admission_ok [of es] map_of_SomeD [OF assms(1)] by (force simp: admission_ok_def)
  with assms show ?thesis
    by (auto simp: drain_ok_def busy_def list_ex_iff list_all_iff admitWorkspaceRequest_def)
qed

theorem drained_stays_idle_witness:
  "fst (admitWorkspaceRequest WriteRequest (fold admission_step [Admit ReadRequest, StopWrites 7, Admit WriteRequest] fresh_admission)) = None"
  using drained_stays_idle [of "[Admit ReadRequest, StopWrites 7, Admit WriteRequest]" 7
      "\<lparr>kinds = [WriteRequest], drain_phase = Finished, reopened = False\<rparr>" WriteRequest]
  by (simp add: fresh_admission_def admitWorkspaceRequest_def stopWorkspaceMutationsAndDrain_def start_drain_def busy_def)

text \<open>
  C30. A drain ends: once every request of its kinds that was active has been released, its next
  turn finishes it, however the releases and other calls are interleaved, as long as admission is
  not resumed. No wake-up is lost.
\<close>

theorem drain_completes:
  fixes es\<^sub>0 :: "admission_event list"
  defines "s \<equiv> fold admission_step es\<^sub>0 fresh_admission"
  assumes "map_of (drains s) i = Some d" "\<not> reopened d" "list_all (\<lambda>e. \<not> disturbs i e) es"
    and "\<forall>k \<in> set (kinds d). \<forall>r \<in> set (active s k). Release k r \<in> set es"
  shows "\<exists>d'. map_of (drains (fold admission_step (es @ [ContinueDrain i]) s)) i = Some d'
    \<and> kinds d' = kinds d \<and> drain_phase d' = Finished"
proof -
  let ?s = "fold admission_step es s"
  have "drain_ok s d"
    using fresh_admission_ok map_of_SomeD [OF assms(2)] by (force simp: admission_ok_def s_def)
  with assms have "draining i (kinds d) s" by (auto simp: draining_def drain_ok_def)
  note run = draining_run [OF this assms(4)]
  have "active ?s k = []" if "k \<in> set (kinds d)" for k
  proof -
    have "set (active ?s k) \<subseteq> set (active s k) - {r. Release k r \<in> set es}" using run that by blast
    moreover have "set (active s k) \<subseteq> {r. Release k r \<in> set es}" using assms(5) that by blast
    ultimately show ?thesis by (cases "active ?s k") auto
  qed
  then have idle: "\<not> busy ?s (kinds d)" by (simp add: busy_def list_ex_iff)
  from run obtain d' where d': "map_of (drains ?s) i = Some d'" "kinds d' = kinds d" by (auto simp: draining_def)
  have "admission_ok ?s" using fresh_admission_ok [of "es\<^sub>0 @ es"] by (simp add: s_def)
  then have "drain_ok ?s d'" using map_of_SomeD [OF d'(1)] by (force simp: admission_ok_def)
  with idle d'(2) have "drain_phase (recheck ?s d') = Finished"
    by (cases "drain_phase d'") (auto simp: drain_ok_def recheck_def)
  moreover have "kinds (recheck ?s d') = kinds d" using d'(2) by (simp add: recheck_def)
  ultimately show ?thesis
    using d'(1) by (simp add: continue_drain_def map_of_map_key [where f = "\<lambda>j d. if j = i then recheck ?s d else d"])
qed

theorem drain_completes_witness:
  "\<exists>d'. map_of (drains (fold admission_step [Release WriteRequest 0, ContinueDrain 7]
        (fold admission_step [Admit WriteRequest, Admit ReadRequest, StopWrites 7] fresh_admission))) 7 = Some d'
    \<and> kinds d' = [WriteRequest] \<and> drain_phase d' = Finished"
  using drain_completes [of "[Admit WriteRequest, Admit ReadRequest, StopWrites 7]" 7
      "\<lparr>kinds = [WriteRequest], drain_phase = Waiting, reopened = False\<rparr>" "[Release WriteRequest 0]"]
  by (simp add: fresh_admission_def admitWorkspaceRequest_def stopWorkspaceMutationsAndDrain_def start_drain_def busy_def disturbs_def)

end
