(* ===== verification/WorkspaceReplacement.thy ===== *)
theory WorkspaceReplacement
  imports Prelude
begin

text \<open>
  Scheduling of a workspace replacement against running exports,
  \<open>packages/server/src/workspace-replacement-coordinator.ts\<close>, as a step relation: each step is
  a call, or the code a resolved promise runs next. An executor settles a replacement by calling
  one of the two callbacks it was given, once; one that throws has \<open>onFailed\<close> called for it.
\<close>

section \<open>State\<close>

text \<open>
  Where the scheduled replacement stands: its wait for the exports is in the list of resolvers,
  has been woken, or is over and the executor's turn comes next; then the executor has it.
\<close>

datatype 'x stage = Idle | AwaitingExports 'x | Rechecking 'x | Ready 'x | Executing 'x

record 'x coordinator =
  executor :: "'x option"
  replacementScheduled :: bool
  activeExports :: nat
  stage :: "'x stage"

datatype coordinator_error = NoExecutor | AlreadyScheduled | ExportUnavailable

definition fresh_coordinator :: "'x coordinator" where
  "fresh_coordinator = \<lparr>executor = None, replacementScheduled = False, activeExports = 0, stage = Idle\<rparr>"

section \<open>Operations\<close>

definition isWorkspaceReplacementScheduled :: "'x coordinator \<Rightarrow> bool" where
  "isWorkspaceReplacementScheduled s = replacementScheduled s"

definition setWorkspaceReplacementExecutor :: "'x option \<Rightarrow> 'x coordinator \<Rightarrow> 'x coordinator" where
  "setWorkspaceReplacementExecutor x s = s\<lparr>executor := x\<rparr>"

text \<open>\<open>waitForActiveWorkspaceExports\<close>, at its call and each time it is woken.\<close>

definition waitForActiveWorkspaceExports :: "'x \<Rightarrow> 'x coordinator \<Rightarrow> 'x coordinator" where
  "waitForActiveWorkspaceExports x s = s\<lparr>stage := (if activeExports s > 0 then AwaitingExports x else Ready x)\<rparr>"

definition scheduleWorkspaceReplacement :: "'x coordinator \<Rightarrow> coordinator_error + 'x coordinator" where
  "scheduleWorkspaceReplacement s =
     (case executor s of
        None \<Rightarrow> Inl NoExecutor
      | Some x \<Rightarrow>
          if replacementScheduled s then Inl AlreadyScheduled
          else Inr (waitForActiveWorkspaceExports x (s\<lparr>replacementScheduled := True\<rparr>)))"

definition settle :: "'x coordinator \<Rightarrow> 'x coordinator" where
  "settle s = s\<lparr>replacementScheduled := False, stage := Idle\<rparr>"

text \<open>\<open>withWorkspaceExportLease\<close> before its work and in its \<open>finally\<close>.\<close>

definition begin_export :: "'x coordinator \<Rightarrow> coordinator_error + 'x coordinator" where
  "begin_export s =
     (if replacementScheduled s then Inl ExportUnavailable else Inr (s\<lparr>activeExports := activeExports s + 1\<rparr>))"

definition end_export :: "'x coordinator \<Rightarrow> 'x coordinator" where
  "end_export s =
     (let s' = s\<lparr>activeExports := activeExports s - 1\<rparr>
      in if activeExports s' = 0
         then s'\<lparr>stage := (case stage s of AwaitingExports x \<Rightarrow> Rechecking x | p \<Rightarrow> p)\<rparr> else s')"

inductive coordinator_step :: "'x coordinator \<Rightarrow> 'x coordinator \<Rightarrow> bool" where
  set_executor: "coordinator_step s (setWorkspaceReplacementExecutor x s)"
| schedule: "scheduleWorkspaceReplacement s = Inr s' \<Longrightarrow> coordinator_step s s'"
| recheck: "stage s = Rechecking x \<Longrightarrow> coordinator_step s (waitForActiveWorkspaceExports x s)"
| execute: "stage s = Ready x \<Longrightarrow> coordinator_step s (s\<lparr>stage := Executing x\<rparr>)"
| settled: "stage s = Executing x \<Longrightarrow> coordinator_step s (settle s)"
| export_begins: "begin_export s = Inr s' \<Longrightarrow> coordinator_step s s'"
| export_ends: "0 < activeExports s \<Longrightarrow> coordinator_step s (end_export s)"

inductive_cases coordinator_stepE [elim!]: "coordinator_step s s'"

section \<open>Invariant\<close>

definition coordinator_ok :: "'x coordinator \<Rightarrow> bool" where
  "coordinator_ok s \<longleftrightarrow>
     (replacementScheduled s \<longleftrightarrow> stage s \<noteq> Idle)
     \<and> (case stage s of AwaitingExports _ \<Rightarrow> 0 < activeExports s | Ready _ \<Rightarrow> activeExports s = 0
          | Rechecking _ \<Rightarrow> activeExports s = 0 | Executing _ \<Rightarrow> activeExports s = 0 | Idle \<Rightarrow> True)"

lemma coordinator_step_ok: "coordinator_step s s' \<Longrightarrow> coordinator_ok s \<Longrightarrow> coordinator_ok s'"
  by (auto simp: coordinator_ok_def setWorkspaceReplacementExecutor_def scheduleWorkspaceReplacement_def
      waitForActiveWorkspaceExports_def settle_def begin_export_def end_export_def Let_def
      split: option.splits if_splits stage.splits)

lemma coordinator_reachable_ok: "coordinator_step\<^sup>*\<^sup>* fresh_coordinator s \<Longrightarrow> coordinator_ok s"
proof (induction rule: rtranclp_induct)
  case base
  show ?case by (simp add: coordinator_ok_def fresh_coordinator_def)
qed (rule coordinator_step_ok)

section \<open>Properties\<close>

text \<open>
  C31. While an executor replaces the workspace no export runs, and until it settles no export
  starts and no second replacement is scheduled.
\<close>

theorem replacement_runs_alone:
  assumes "coordinator_step\<^sup>*\<^sup>* fresh_coordinator s" "stage s = Executing x"
  shows "activeExports s = 0 \<and> begin_export s = Inl ExportUnavailable
    \<and> (\<forall>s'. scheduleWorkspaceReplacement s \<noteq> Inr s')"
  using coordinator_reachable_ok [OF assms(1)] assms(2)
  by (auto simp: coordinator_ok_def begin_export_def scheduleWorkspaceReplacement_def split: option.split)

theorem replacement_runs_alone_witness:
  "activeExports \<lparr>executor = Some True, replacementScheduled = True, activeExports = 0, stage = Executing True\<rparr> = 0"
proof -
  let ?a = "setWorkspaceReplacementExecutor (Some True) fresh_coordinator"
  let ?b = "?a\<lparr>activeExports := 1\<rparr>"
  let ?c = "?b\<lparr>replacementScheduled := True, stage := AwaitingExports True\<rparr>"
  let ?d = "?c\<lparr>activeExports := 0, stage := Rechecking True\<rparr>"
  have "coordinator_step fresh_coordinator ?a" by (rule set_executor)
  moreover have "coordinator_step ?a ?b"
    by (rule export_begins) (simp add: begin_export_def setWorkspaceReplacementExecutor_def fresh_coordinator_def)
  moreover have "coordinator_step ?b ?c"
    by (rule schedule) (simp add: scheduleWorkspaceReplacement_def waitForActiveWorkspaceExports_def
        setWorkspaceReplacementExecutor_def fresh_coordinator_def)
  moreover have "coordinator_step ?c ?d"
    using export_ends [of ?c] by (simp add: end_export_def)
  moreover have "coordinator_step ?d (?d\<lparr>stage := Ready True\<rparr>)"
    using recheck [of ?d True] by (simp add: waitForActiveWorkspaceExports_def)
  moreover have "coordinator_step (?d\<lparr>stage := Ready True\<rparr>) (?d\<lparr>stage := Executing True\<rparr>)"
    using execute [of "?d\<lparr>stage := Ready True\<rparr>" True] by simp
  ultimately have "coordinator_step\<^sup>*\<^sup>* fresh_coordinator (?d\<lparr>stage := Executing True\<rparr>)"
    by (meson rtranclp.rtrancl_into_rtrancl rtranclp.rtrancl_refl)
  from replacement_runs_alone [OF this, of True] show ?thesis by simp
qed

end
