(* ===== verification/FileTypes.thy ===== *)
theory FileTypes
  imports JsString
begin

text \<open>
  The file type table, \<open>packages/types/src/file-types.ts\<close>: what a plain file is by its name,
  and what each surface does with it. The object literal \<open>FILE_TYPES\<close> is the list of its
  keys and entries in order; a name is a JavaScript string, since the rule is about code units.
\<close>

section \<open>The table\<close>

datatype serve_policy = ServeInline | ServeDownload | ServeBytes
datatype page_policy = PageImage | PageFrame | PageTable | PageText | PageCard
datatype icon_policy =
    IconImage | IconSpreadsheet | IconDocument | IconCode | IconAudio | IconVideo | IconArchive | IconFile
datatype agent_policy = AgentImage | AgentText | AgentBytes
datatype share_policy = ShareInline | SharePlaceholder

record surface_policies =
  serve :: serve_policy
  page :: page_policy
  icon :: icon_policy
  agent :: agent_policy
  share :: share_policy
  drawing :: bool
  paste :: bool
  importable :: bool
  diffable :: bool

datatype file_family =
    ImageFamily | TableFamily | SpreadsheetFamily | TextFamily | DataFamily | CodeFamily
  | DocumentFamily | AudioFamily | VideoFamily | ArchiveFamily

record file_type_entry =
  extensions :: "js_string list"
  names :: "js_string list"
  mediaType :: js_string
  family :: file_family
  delimiter :: "code_unit option"
  surfaces :: surface_policies

datatype file_type =
    TypePng | TypeJpeg | TypeGif | TypeWebp | TypeAvif | TypeSvg | TypeHeic | TypeCsv | TypeTsv
  | TypeXls | TypeXlsx | TypeOds | TypeNumbers | TypeTxt | TypeLog | TypeJson | TypeJsonl | TypeYaml
  | TypeXml | TypeToml | TypeIni | TypeMarkdown | TypeHtml | TypeCss | TypeJavascript | TypeTypescript | TypeDockerfile
  | TypePdf | TypeRtf | TypeDoc | TypeDocx | TypeMp3 | TypeWav | TypeM4a | TypeOgg | TypeFlac
  | TypeMp4 | TypeWebm | TypeMov | TypeMkv | TypeZip | TypeTar | TypeGzip | SevenZ | TypeRar

definition comma :: code_unit where "comma = 44"
definition tab :: code_unit where "tab = 9"
definition dot :: code_unit where "dot = 46"
definition slash :: code_unit where "slash = 47"

text \<open>The policies entries spread; a spread that leaves surfaces open takes them as arguments.\<close>

definition NONE :: "serve_policy \<Rightarrow> page_policy \<Rightarrow> icon_policy \<Rightarrow> agent_policy \<Rightarrow> surface_policies" where
  "NONE s p i a = \<lparr>serve = s, page = p, icon = i, agent = a, share = SharePlaceholder, drawing = False,
     paste = False, importable = False, diffable = False\<rparr>"

definition RASTER :: surface_policies where
  "RASTER = \<lparr>serve = ServeInline, page = PageImage, icon = IconImage, agent = AgentImage, share = ShareInline,
     drawing = True, paste = True, importable = False, diffable = False\<rparr>"

definition CODE :: surface_policies where
  "CODE = NONE ServeBytes PageCard IconFile AgentText"

definition BINARY :: "serve_policy \<Rightarrow> icon_policy \<Rightarrow> surface_policies" where
  "BINARY s i = NONE s PageCard i AgentBytes"

definition entry ::
    "string list \<Rightarrow> string list \<Rightarrow> string \<Rightarrow> file_family \<Rightarrow> code_unit option \<Rightarrow> surface_policies \<Rightarrow> file_type_entry" where
  "entry exts ns media fam delim policies =
     \<lparr>extensions = map js exts, names = map js ns, mediaType = js media, family = fam, delimiter = delim,
      surfaces = policies\<rparr>"

definition image_types :: "(file_type \<times> file_type_entry) list" where
  "image_types =
     [(TypePng, entry [''png''] [] ''image/png''
        ImageFamily None RASTER),
      (TypeJpeg, entry [''jpg'', ''jpeg''] [] ''image/jpeg''
        ImageFamily None RASTER),
      (TypeGif, entry [''gif''] [] ''image/gif''
        ImageFamily None RASTER),
      (TypeWebp, entry [''webp''] [] ''image/webp''
        ImageFamily None RASTER),
      (TypeAvif, entry [''avif''] [] ''image/avif''
        ImageFamily None (RASTER\<lparr>agent := AgentBytes, share := SharePlaceholder, drawing := False\<rparr>)),
      (TypeSvg, entry [''svg''] [] ''image/svg+xml''
        ImageFamily None (RASTER\<lparr>agent := AgentText, share := SharePlaceholder, drawing := False\<rparr>)),
      (TypeHeic, entry [''heic''] [] ''image/heic''
        ImageFamily None ((BINARY ServeBytes IconImage)\<lparr>paste := True\<rparr>))]"

definition table_types :: "(file_type \<times> file_type_entry) list" where
  "table_types =
     [(TypeCsv, entry [''csv''] [] ''text/csv''
        TableFamily (Some comma) ((NONE ServeDownload PageTable IconSpreadsheet AgentText)\<lparr>importable := True\<rparr>)),
      (TypeTsv, entry [''tsv''] [] ''text/tab-separated-values''
        TableFamily (Some tab) ((NONE ServeDownload PageTable IconSpreadsheet AgentText)\<lparr>importable := True\<rparr>)),
      (TypeXls, entry [''xls''] [] ''application/vnd.ms-excel''
        SpreadsheetFamily None (BINARY ServeBytes IconSpreadsheet)),
      (TypeXlsx, entry [''xlsx''] [] ''application/vnd.openxmlformats-officedocument.spreadsheetml.sheet''
        SpreadsheetFamily None (BINARY ServeBytes IconSpreadsheet)),
      (TypeOds, entry [''ods''] [] ''application/vnd.oasis.opendocument.spreadsheet''
        SpreadsheetFamily None (BINARY ServeBytes IconSpreadsheet)),
      (TypeNumbers, entry [''numbers''] [] ''application/vnd.apple.numbers''
        SpreadsheetFamily None (BINARY ServeBytes IconSpreadsheet))]"

definition text_types :: "(file_type \<times> file_type_entry) list" where
  "text_types =
     [(TypeTxt, entry [''txt''] [] ''text/plain''
        TextFamily None (NONE ServeDownload PageText IconDocument AgentText)),
      (TypeLog, entry [''log''] [] ''text/plain''
        TextFamily None (NONE ServeBytes PageText IconDocument AgentText)),
      (TypeJson, entry [''json''] [] ''application/json''
        DataFamily None (NONE ServeBytes PageText IconCode AgentText)),
      (TypeJsonl, entry [''jsonl''] [] ''application/x-ndjson''
        DataFamily None ((NONE ServeDownload PageText IconCode AgentText)\<lparr>importable := True\<rparr>)),
      (TypeYaml, entry [''yaml'', ''yml''] [] ''application/yaml''
        DataFamily None (NONE ServeBytes PageText IconCode AgentText)),
      (TypeXml, entry [''xml''] [] ''application/xml''
        DataFamily None (NONE ServeBytes PageText IconCode AgentText)),
      (TypeToml, entry [''toml''] [] ''application/toml''
        DataFamily None (NONE ServeBytes PageText IconCode AgentText)),
      (TypeIni, entry [''ini''] [] ''text/plain''
        DataFamily None (NONE ServeBytes PageText IconCode AgentText))]"

definition code_types :: "(file_type \<times> file_type_entry) list" where
  "code_types =
     [(TypeMarkdown, entry [''md''] [] ''text/markdown''
        CodeFamily None CODE),
      (TypeHtml, entry [''html'', ''htm''] [] ''text/html''
        CodeFamily None (CODE\<lparr>serve := ServeInline, page := PageFrame\<rparr>)),
      (TypeCss, entry [''css''] [] ''text/css''
        CodeFamily None CODE),
      (TypeJavascript, entry [''js''] [] ''text/javascript''
        CodeFamily None CODE),
      (TypeTypescript, entry [''ts''] [] ''text/plain''
        CodeFamily None CODE),
      (TypeDockerfile, entry [] [''dockerfile''] ''text/plain''
        CodeFamily None (BINARY ServeBytes IconFile))]"

definition binary_types :: "(file_type \<times> file_type_entry) list" where
  "binary_types =
     [(TypePdf, entry [''pdf''] [] ''application/pdf''
        DocumentFamily None (BINARY ServeDownload IconDocument)),
      (TypeRtf, entry [''rtf''] [] ''application/rtf''
        DocumentFamily None (BINARY ServeBytes IconDocument)),
      (TypeDoc, entry [''doc''] [] ''application/msword''
        DocumentFamily None (BINARY ServeBytes IconDocument)),
      (TypeDocx, entry [''docx''] [] ''application/vnd.openxmlformats-officedocument.wordprocessingml.document''
        DocumentFamily None (BINARY ServeBytes IconDocument)),
      (TypeMp3, entry [''mp3''] [] ''audio/mpeg''
        AudioFamily None (BINARY ServeDownload IconAudio)),
      (TypeWav, entry [''wav''] [] ''audio/wav''
        AudioFamily None (BINARY ServeDownload IconAudio)),
      (TypeM4a, entry [''m4a''] [] ''audio/mp4''
        AudioFamily None (BINARY ServeBytes IconAudio)),
      (TypeOgg, entry [''ogg''] [] ''audio/ogg''
        AudioFamily None (BINARY ServeBytes IconAudio)),
      (TypeFlac, entry [''flac''] [] ''audio/flac''
        AudioFamily None (BINARY ServeBytes IconAudio)),
      (TypeMp4, entry [''mp4''] [] ''video/mp4''
        VideoFamily None (BINARY ServeDownload IconVideo)),
      (TypeWebm, entry [''webm''] [] ''video/webm''
        VideoFamily None (BINARY ServeDownload IconVideo)),
      (TypeMov, entry [''mov''] [] ''video/quicktime''
        VideoFamily None (BINARY ServeBytes IconVideo)),
      (TypeMkv, entry [''mkv''] [] ''video/x-matroska''
        VideoFamily None (BINARY ServeBytes IconVideo)),
      (TypeZip, entry [''zip''] [] ''application/zip''
        ArchiveFamily None (BINARY ServeDownload IconArchive)),
      (TypeTar, entry [''tar''] [] ''application/x-tar''
        ArchiveFamily None (BINARY ServeBytes IconArchive)),
      (TypeGzip, entry [''gz'', ''tgz''] [] ''application/gzip''
        ArchiveFamily None (BINARY ServeBytes IconArchive)),
      (SevenZ, entry [''7z''] [] ''application/x-7z-compressed''
        ArchiveFamily None (BINARY ServeBytes IconArchive)),
      (TypeRar, entry [''rar''] [] ''application/vnd.rar''
        ArchiveFamily None (BINARY ServeBytes IconArchive))]"

definition FILE_TYPES :: "(file_type \<times> file_type_entry) list" where
  "FILE_TYPES = image_types @ table_types @ text_types @ code_types @ binary_types"

definition UNKNOWN_FILE_POLICIES :: surface_policies where
  "UNKNOWN_FILE_POLICIES = \<lparr>serve = ServeBytes, page = PageCard, icon = IconFile, agent = AgentBytes,
     share = SharePlaceholder, drawing = False, paste = False, importable = False, diffable = False\<rparr>"

section \<open>Lookups\<close>

definition ENTRIES :: "file_type \<Rightarrow> file_type_entry" where
  "ENTRIES t = the (map_of FILE_TYPES t)"

text \<open>The maps the module fills as it loads, in table order; a later key overwrites an earlier one.\<close>

definition BY_EXTENSION :: "(js_string \<times> file_type) list" where
  "BY_EXTENSION = fold (\<lambda>(t, e) m. fold (\<lambda>x. AList.update x t) (extensions e) m) FILE_TYPES []"

definition BY_NAME :: "(js_string \<times> file_type) list" where
  "BY_NAME = fold (\<lambda>(t, e) m. fold (\<lambda>x. AList.update x t) (names e) m) FILE_TYPES []"

definition fold_unit :: "code_unit \<Rightarrow> code_unit" where
  "fold_unit u = (if 65 \<le> u \<and> u \<le> 90 then u + 32 else u)"

definition foldFileName :: "js_string \<Rightarrow> js_string" where
  "foldFileName name = map fold_unit name"

definition lastIndexOf :: "code_unit \<Rightarrow> js_string \<Rightarrow> int" where
  "lastIndexOf u s = (if u \<in> set s then int (length s) - 1 - int (length (takeWhile (\<lambda>v. v \<noteq> u) (rev s))) else - 1)"

definition fileTypeFor :: "js_string \<Rightarrow> file_type option" where
  "fileTypeFor name =
     (let base = foldFileName (drop (nat (lastIndexOf slash name + 1)) name)
      in case map_of BY_NAME base of
           Some named \<Rightarrow> Some named
         | None \<Rightarrow>
             (let i = lastIndexOf dot base
              in if i \<le> 0 then None else map_of BY_EXTENSION (drop (nat (i + 1)) base)))"

text \<open>A surface is the field of the policies it reads.\<close>

definition fileTypePolicy :: "file_type option \<Rightarrow> (surface_policies \<Rightarrow> 'p) \<Rightarrow> 'p" where
  "fileTypePolicy type surface =
     (case type of None \<Rightarrow> surface UNKNOWN_FILE_POLICIES | Some t \<Rightarrow> surface (surfaces (ENTRIES t)))"

definition filePolicy :: "js_string \<Rightarrow> (surface_policies \<Rightarrow> 'p) \<Rightarrow> 'p" where
  "filePolicy name surface = fileTypePolicy (fileTypeFor name) surface"

definition fileMediaTypesWhere :: "(surface_policies \<Rightarrow> 'p) \<Rightarrow> 'p \<Rightarrow> js_string list" where
  "fileMediaTypesWhere surface policy =
     map (\<lambda>t. mediaType (ENTRIES t)) (filter (\<lambda>t. surface (surfaces (ENTRIES t)) = policy) (map fst FILE_TYPES))"

definition regex_special :: "js_string" where
  "regex_special = js ''.*+?^${}()|[]'' @ [92]"

definition mediaTypeAlternation :: "(surface_policies \<Rightarrow> 'p) \<Rightarrow> 'p \<Rightarrow> js_string" where
  "mediaTypeAlternation surface policy =
     join_with (js_char CHR ''|'')
       (map (\<lambda>m. concat (map (\<lambda>u. if u \<in> set regex_special then [92, u] else [u]) m))
         (fileMediaTypesWhere surface policy))"

definition pastedFileType :: "js_string \<Rightarrow> file_type option" where
  "pastedFileType media =
     List.find (\<lambda>t. paste (surfaces (ENTRIES t)) \<and> mediaType (ENTRIES t) = media) (map fst FILE_TYPES)"

section \<open>The name rule\<close>

lemma js_inj: "js s = js t \<longleftrightarrow> s = t"
  unfolding js_def by (rule inj_map_eq_map) (simp add: inj_def js_char_inj)

lemmas file_type_tables = FILE_TYPES_def image_types_def table_types_def text_types_def code_types_def binary_types_def

lemma types_distinct: "distinct (map fst FILE_TYPES)"
  by (simp add: file_type_tables)

lemma types_complete: "t \<in> set (map fst FILE_TYPES)"
  by (cases t) (simp_all add: file_type_tables)

lemma in_types_iff: "(t, e) \<in> set FILE_TYPES \<longleftrightarrow> e = ENTRIES t"
proof
  assume "(t, e) \<in> set FILE_TYPES"
  then show "e = ENTRIES t" by (simp add: ENTRIES_def map_of_is_SomeI [OF types_distinct])
next
  assume "e = ENTRIES t"
  moreover have "map_of FILE_TYPES t \<noteq> None"
    using types_complete [of t] by (simp add: map_of_eq_None_iff)
  ultimately show "(t, e) \<in> set FILE_TYPES"
    by (auto simp: ENTRIES_def intro: map_of_SomeD)
qed

definition keys_of :: "(file_type_entry \<Rightarrow> js_string list) \<Rightarrow> (js_string \<times> file_type) list" where
  "keys_of f = concat (map (\<lambda>(t, e). map (\<lambda>x. (x, t)) (f e)) FILE_TYPES)"

lemma fold_update_new:
  "distinct (map fst (m @ kvs)) \<Longrightarrow> fold (\<lambda>(k, v). AList.update k v) kvs m = m @ kvs"
proof (induction kvs arbitrary: m)
  case (Cons kv kvs)
  then have "AList.update (fst kv) (snd kv) m = m @ [kv]"
    by (auto simp: update_keys split: prod.split) (induction m, auto)
  with Cons show ?case by (simp add: case_prod_beta)
qed simp

lemma fold_tables:
  "fold (\<lambda>(t, e) m. fold (\<lambda>x. AList.update x t) (f e) m) ts m =
     fold (\<lambda>(k, v). AList.update k v) (concat (map (\<lambda>(t, e). map (\<lambda>x. (x, t)) (f e)) ts)) m"
  by (induction ts arbitrary: m) (auto simp: fold_map comp_def)

lemma extension_keys: "distinct (map fst (keys_of extensions))"
  by (simp add: keys_of_def file_type_tables entry_def js_char_inj)

lemma name_keys: "distinct (map fst (keys_of names))"
  by (simp add: keys_of_def file_type_tables entry_def js_char_inj)

lemma map_of_keys: "distinct (map fst (keys_of f)) \<Longrightarrow> map_of (keys_of f) x = Some t \<longleftrightarrow> x \<in> set (f (ENTRIES t))"
  by (subst map_of_eq_Some_iff) (force simp: keys_of_def in_types_iff)+

lemma BY_EXTENSION_iff: "map_of BY_EXTENSION x = Some t \<longleftrightarrow> x \<in> set (extensions (ENTRIES t))"
  unfolding BY_EXTENSION_def fold_tables using map_of_keys [OF extension_keys] extension_keys
  by (subst fold_update_new) (simp_all add: keys_of_def)

lemma BY_NAME_iff: "map_of BY_NAME x = Some t \<longleftrightarrow> x \<in> set (names (ENTRIES t))"
  unfolding BY_NAME_def fold_tables using map_of_keys [OF name_keys] name_keys
  by (subst fold_update_new) (simp_all add: keys_of_def)

text \<open>Table keys are folded already, and hold neither separator.\<close>

definition plain_key :: "js_string \<Rightarrow> bool" where
  "plain_key x \<longleftrightarrow> foldFileName x = x \<and> dot \<notin> set x \<and> slash \<notin> set x"

lemma plain_js: "plain_key (js s) \<longleftrightarrow> list_all (\<lambda>c. fold_unit (js_char c) = js_char c \<and> js_char c \<noteq> dot \<and> js_char c \<noteq> slash) s"
  by (induction s) (auto simp: plain_key_def foldFileName_def)

lemma plain_tables: "list_all (\<lambda>(t, e). list_all plain_key (extensions e) \<and> list_all plain_key (names e)) FILE_TYPES"
  unfolding file_type_tables entry_def
  by (simp add: plain_js fold_unit_def js_char_def dot_def slash_def del: js_simps_list)

lemma plain_keys: "x \<in> set (extensions (ENTRIES t)) \<or> x \<in> set (names (ENTRIES t)) \<Longrightarrow> plain_key x"
  using plain_tables in_types_iff [of t "ENTRIES t"] by (auto simp: list_all_iff)

lemma last_sep_unique:
  "v @ x # w = v' @ x # w' \<Longrightarrow> x \<notin> set w \<Longrightarrow> x \<notin> set w' \<Longrightarrow> v = v' \<and> w = w'"
  by (auto simp: append_eq_append_conv2 append_eq_Cons_conv Cons_eq_append_conv)

lemma lastIndexOf_split: "u \<notin> set w \<Longrightarrow> lastIndexOf u (v @ u # w) = int (length v)"
proof -
  assume "u \<notin> set w"
  then have "takeWhile (\<lambda>v. v \<noteq> u) (rev w) = rev w" by (auto simp: takeWhile_eq_all_conv)
  then have "length (takeWhile (\<lambda>v. v \<noteq> u) (rev w)) = length w" by (simp only: length_rev)
  then show ?thesis by (simp add: lastIndexOf_def takeWhile_tail)
qed

lemma lastIndexOf_none: "u \<notin> set w \<Longrightarrow> lastIndexOf u w = - 1"
  by (simp add: lastIndexOf_def)

lemma fold_dot: "dot \<in> set (foldFileName w) \<longleftrightarrow> dot \<in> set w"
proof -
  have "fold_unit u = dot \<longleftrightarrow> u = dot" for u
    unfolding fold_unit_def dot_def
  proof (cases "65 \<le> u \<and> u \<le> 90")
    case True
    then have "u + 32 \<noteq> 46 \<and> u \<noteq> 46" by unat_arith
    with True show "((if 65 \<le> u \<and> u \<le> 90 then u + 32 else u) = 46) = (u = 46)" by simp
  qed auto
  then have "dot \<in> fold_unit ` A \<longleftrightarrow> dot \<in> A" for A by (metis image_iff)
  then show ?thesis by (simp add: foldFileName_def)
qed

definition base_of :: "js_string \<Rightarrow> js_string \<Rightarrow> bool" where
  "base_of name base \<longleftrightarrow> slash \<notin> set base \<and> (name = base \<or> (\<exists>dir. name = dir @ slash # base))"

lemma base_of_slice: "base_of name base \<longleftrightarrow> base = drop (nat (lastIndexOf slash name + 1)) name"
proof (cases "slash \<in> set name")
  case False
  then show ?thesis by (auto simp: base_of_def lastIndexOf_none)
next
  case True
  then obtain dir w where w: "name = dir @ slash # w" "slash \<notin> set w" by (auto dest: split_list_last)
  have "base_of name base \<longleftrightarrow> base = w"
  proof
    assume "base_of name base"
    then show "base = w" using True w by (auto simp: base_of_def dest: last_sep_unique)
  qed (use w in \<open>auto simp: base_of_def\<close>)
  moreover have "drop (nat (lastIndexOf slash name + 1)) name = w"
    by (simp add: w lastIndexOf_split nat_add_distrib)
  ultimately show ?thesis by simp
qed

text \<open>The extension rule: what follows the last dot, unless that dot starts the name.\<close>

lemma by_extension_iff:
  "(if lastIndexOf dot base \<le> 0 then None else map_of BY_EXTENSION (drop (nat (lastIndexOf dot base + 1)) base)) = Some t \<longleftrightarrow>
     (\<exists>stem ext. base = stem @ dot # ext \<and> stem \<noteq> [] \<and> ext \<in> set (extensions (ENTRIES t)))"
proof (cases "dot \<in> set base")
  case False
  then show ?thesis by (auto simp: lastIndexOf_none)
next
  case True
  then obtain stem ext where parts: "base = stem @ dot # ext" "dot \<notin> set ext" by (auto dest: split_list_last)
  have "stem' = stem \<and> ext' = ext" if "base = stem' @ dot # ext'" "ext' \<in> set (extensions (ENTRIES t))" for stem' ext'
  proof -
    have "dot \<notin> set ext'" using plain_keys [of ext' t] that(2) by (simp add: plain_key_def)
    with that(1) parts show ?thesis by (blast dest: last_sep_unique)
  qed
  then have "(\<exists>stem ext. base = stem @ dot # ext \<and> stem \<noteq> [] \<and> ext \<in> set (extensions (ENTRIES t)))
      \<longleftrightarrow> stem \<noteq> [] \<and> ext \<in> set (extensions (ENTRIES t))"
    using parts(1) by blast
  moreover have "lastIndexOf dot base = int (length stem)" "drop (nat (lastIndexOf dot base + 1)) base = ext"
    by (simp_all add: parts lastIndexOf_split nat_add_distrib)
  ultimately show ?thesis by (simp add: BY_EXTENSION_iff)
qed

section \<open>Properties\<close>

lemma names_no_dot: "w \<in> set (names (ENTRIES t)) \<Longrightarrow> dot \<notin> set w"
  using plain_keys [of w t] by (simp add: plain_key_def)

lemma fileTypeFor_iff:
  "fileTypeFor name = Some t \<longleftrightarrow>
     (\<exists>base. base_of name base \<and>
        (foldFileName base \<in> set (names (ENTRIES t))
         \<or> (\<exists>stem ext. foldFileName base = stem @ dot # ext \<and> stem \<noteq> [] \<and> ext \<in> set (extensions (ENTRIES t)))))"
proof -
  let ?base = "foldFileName (drop (nat (lastIndexOf slash name + 1)) name)"
  have "fileTypeFor name = Some t \<longleftrightarrow> ?base \<in> set (names (ENTRIES t))
      \<or> (\<exists>stem ext. ?base = stem @ dot # ext \<and> stem \<noteq> [] \<and> ext \<in> set (extensions (ENTRIES t)))"
  proof (cases "map_of BY_NAME ?base")
    case None
    then have "?base \<notin> set (names (ENTRIES t))" using BY_NAME_iff [of ?base t] by simp
    with None by_extension_iff [of ?base t] show ?thesis by (simp add: fileTypeFor_def Let_def)
  next
    case (Some t')
    then have "dot \<notin> set ?base" using names_no_dot BY_NAME_iff by blast
    with Some BY_NAME_iff [of ?base t] show ?thesis by (auto simp: fileTypeFor_def Let_def)
  qed
  then show ?thesis by (simp add: base_of_slice)
qed

text \<open>
  A name has a type exactly by the name rule: its base name, with A-Z folded, is one of the
  type's whole names, or is a non-empty stem, a dot and one of its extensions. No name has two.
\<close>

lemma file_type_by_name:
  "fileTypeFor name = Some t \<longleftrightarrow>
     (\<exists>base. base_of name base \<and>
        (foldFileName base \<in> set (names (ENTRIES t))
         \<or> (\<exists>stem ext. foldFileName base = stem @ dot # ext \<and> stem \<noteq> [] \<and> ext \<in> set (extensions (ENTRIES t)))))"
  by (rule fileTypeFor_iff)

text \<open>
  A pasted file named with the first extension of the type its media type names is a file
  of that type: the name rule reads back what the paste surface wrote.
\<close>

lemma pasted_name_roundtrip:
  assumes "pastedFileType media = Some t" "stem \<noteq> []" "slash \<notin> set stem"
  shows "mediaType (ENTRIES t) = media \<and> paste (surfaces (ENTRIES t))
    \<and> extensions (ENTRIES t) \<noteq> []
    \<and> fileTypeFor (stem @ dot # hd (extensions (ENTRIES t))) = Some t"
proof -
  from assms(1) have t: "paste (surfaces (ENTRIES t))" "mediaType (ENTRIES t) = media"
    by (auto simp: pastedFileType_def find_Some_iff)
  have "list_all (\<lambda>(t, e). paste (surfaces e) \<longrightarrow> extensions e \<noteq> []) FILE_TYPES"
    by (simp add: file_type_tables entry_def NONE_def RASTER_def CODE_def BINARY_def)
  with t(1) have some: "extensions (ENTRIES t) \<noteq> []"
    using in_types_iff [of t "ENTRIES t"] by (auto simp: list_all_iff)
  let ?ext = "hd (extensions (ENTRIES t))"
  let ?name = "stem @ dot # ?ext"
  have ext: "?ext \<in> set (extensions (ENTRIES t))" using some by simp
  then have plain: "plain_key ?ext" using plain_keys by blast
  have "base_of ?name ?name"
    using assms(3) plain by (auto simp: base_of_def plain_key_def dot_def slash_def)
  moreover have "foldFileName ?name = foldFileName stem @ dot # ?ext"
    using plain by (simp add: plain_key_def foldFileName_def fold_unit_def dot_def)
  moreover have "foldFileName stem \<noteq> []" using assms(2) by (simp add: foldFileName_def)
  ultimately have "fileTypeFor ?name = Some t" using ext unfolding fileTypeFor_iff by blast
  with t some show ?thesis by simp
qed

end
