(* ===== verification/DelimitedText.thy ===== *)
theory DelimitedText
  imports FileTypes
begin

text \<open>
  The reader of CSV and TSV text, \<open>packages/types/src/delimited-text.ts\<close>: its loop is
  \<open>scan_text\<close>, over the variables the source keeps as the record \<open>scan\<close>. A reference
  printer says which texts stand for which tables, and the reader inverts it.
\<close>

section \<open>The reader\<close>

record delimited_table =
  header :: "js_string list"
  rows :: "js_string list list"
  rowCount :: nat

record scan =
  records :: "js_string list list"
  recordCount :: nat
  row :: "js_string list"
  field_text :: js_string
  fieldStarted :: bool
  quoted :: bool

definition quote :: code_unit where "quote = 34"
definition CR :: code_unit where "CR = 13"
definition byte_order_mark :: code_unit where "byte_order_mark = 0xFEFF"

definition fileDelimiter :: "js_string \<Rightarrow> code_unit option" where
  "fileDelimiter name = (case fileTypeFor name of None \<Rightarrow> None | Some t \<Rightarrow> delimiter (ENTRIES t))"

definition delimiterForFilename :: "js_string \<Rightarrow> code_unit" where
  "delimiterForFilename name = (case fileDelimiter name of Some d \<Rightarrow> d | None \<Rightarrow> comma)"

text \<open>\<open>keep\<close> is \<open>None\<close> where the source has \<open>Infinity\<close>.\<close>

definition room :: "nat option \<Rightarrow> nat \<Rightarrow> bool" where
  "room keep n = (case keep of None \<Rightarrow> True | Some k \<Rightarrow> n < k)"

definition finish :: "nat option \<Rightarrow> js_string list \<Rightarrow> scan \<Rightarrow> scan" where
  "finish keep r st =
     st\<lparr>recordCount := recordCount st + 1,
        records := (if room keep (length (records st)) then records st @ [r] else records st)\<rparr>"

definition end_field :: "scan \<Rightarrow> scan" where
  "end_field st = st\<lparr>row := row st @ [field_text st], field_text := [], fieldStarted := False\<rparr>"

definition end_row :: "nat option \<Rightarrow> scan \<Rightarrow> scan" where
  "end_row keep st =
     (finish keep (row st @ [field_text st]) st)\<lparr>row := [], field_text := [], fieldStarted := False\<rparr>"

fun scan_text :: "code_unit \<Rightarrow> nat option \<Rightarrow> js_string \<Rightarrow> scan \<Rightarrow> scan" where
  "scan_text d keep [] st = st"
| "scan_text d keep (c # cs) st =
     (if quoted st then
        (if c = quote then
           (if cs \<noteq> [] \<and> hd cs = quote
            then scan_text d keep (tl cs) (st\<lparr>field_text := field_text st @ [quote]\<rparr>)
            else scan_text d keep cs (st\<lparr>quoted := False\<rparr>))
         else scan_text d keep cs (st\<lparr>field_text := field_text st @ [c]\<rparr>))
      else if c = quote \<and> field_text st = []
      then scan_text d keep cs (st\<lparr>quoted := True, fieldStarted := True\<rparr>)
      else if c = d then scan_text d keep cs (end_field st)
      else if c = newline \<or> c = CR
      then scan_text d keep (if c = CR \<and> cs \<noteq> [] \<and> hd cs = newline then tl cs else cs) (end_row keep st)
      else scan_text d keep cs (st\<lparr>field_text := field_text st @ [c]\<rparr>))"

definition scan_start :: scan where
  "scan_start = \<lparr>records = [], recordCount = 0, row = [], field_text = [], fieldStarted = False, quoted = False\<rparr>"

definition scan_end :: "nat option \<Rightarrow> scan \<Rightarrow> scan" where
  "scan_end keep st =
     (if field_text st \<noteq> [] \<or> fieldStarted st \<or> row st \<noteq> []
      then finish keep (row st @ [field_text st]) (st\<lparr>row := row st @ [field_text st]\<rparr>) else st)"

definition parseDelimitedText :: "js_string \<Rightarrow> code_unit \<Rightarrow> nat option \<Rightarrow> delimited_table" where
  "parseDelimitedText source_text d maxRows =
     (let keep = map_option Suc maxRows;
          source = (if source_text \<noteq> [] \<and> hd source_text = byte_order_mark then tl source_text else source_text);
          st = scan_end keep (scan_text d keep source scan_start)
      in \<lparr>header = (case records st of [] \<Rightarrow> [] | h # _ \<Rightarrow> h),
          rows = (case records st of [] \<Rightarrow> [] | _ # rs \<Rightarrow> rs),
          rowCount = recordCount st - 1\<rparr>)"

section \<open>Texts that stand for a table\<close>

text \<open>
  A cell is written quoted, with its quotes doubled, or plain where it holds no separator and does
  not open with a quote; a row ends with LF, CRLF or CR, and the last one may be left open.
\<close>

datatype cell = Plain js_string | Quoted js_string
datatype line_end = LF | CRLF | EndCR

fun cell_value :: "cell \<Rightarrow> js_string" where
  "cell_value (Plain v) = v"
| "cell_value (Quoted v) = v"

definition escape :: "js_string \<Rightarrow> js_string" where
  "escape v = concat (map (\<lambda>u. if u = quote then [quote, quote] else [u]) v)"

fun cell_text :: "cell \<Rightarrow> js_string" where
  "cell_text (Plain v) = v"
| "cell_text (Quoted v) = quote # escape v @ [quote]"

definition separators :: "code_unit \<Rightarrow> code_unit set" where
  "separators d = {d, newline, CR}"

fun cell_ok :: "code_unit \<Rightarrow> cell \<Rightarrow> bool" where
  "cell_ok d (Plain v) \<longleftrightarrow> list_all (\<lambda>u. u \<notin> separators d) v \<and> (v = [] \<or> hd v \<noteq> quote)"
| "cell_ok d (Quoted v) \<longleftrightarrow> True"

definition row_text :: "code_unit \<Rightarrow> cell list \<Rightarrow> js_string" where
  "row_text d cells = join_with d (map cell_text cells)"

definition row_ok :: "code_unit \<Rightarrow> cell list \<Rightarrow> bool" where
  "row_ok d cells \<longleftrightarrow> cells \<noteq> [] \<and> list_all (cell_ok d) cells"

fun end_text :: "line_end \<Rightarrow> js_string" where
  "end_text LF = [newline]"
| "end_text CRLF = [CR, newline]"
| "end_text EndCR = [CR]"

fun open_row_text :: "code_unit \<Rightarrow> cell list option \<Rightarrow> js_string" where
  "open_row_text d None = []"
| "open_row_text d (Some cells) = row_text d cells"

fun open_row_ok :: "code_unit \<Rightarrow> cell list option \<Rightarrow> bool" where
  "open_row_ok d None \<longleftrightarrow> True"
| "open_row_ok d (Some cells) \<longleftrightarrow> row_ok d cells \<and> cells \<noteq> [Plain []]"

fun table_text :: "code_unit \<Rightarrow> (cell list \<times> line_end) list \<Rightarrow> cell list option \<Rightarrow> js_string" where
  "table_text d [] last_row = open_row_text d last_row"
| "table_text d ((cells, e) # ls) last_row = row_text d cells @ end_text e @ table_text d ls last_row"

text \<open>A bare CR must not meet an LF, which it would take for the rest of its own line break.\<close>

fun table_ok :: "code_unit \<Rightarrow> (cell list \<times> line_end) list \<Rightarrow> cell list option \<Rightarrow> bool" where
  "table_ok d [] last_row \<longleftrightarrow> open_row_ok d last_row"
| "table_ok d ((cells, e) # ls) last_row \<longleftrightarrow>
     row_ok d cells \<and> (e = EndCR \<longrightarrow> take 1 (table_text d ls last_row) \<noteq> [newline]) \<and> table_ok d ls last_row"

definition table_values :: "(cell list \<times> line_end) list \<Rightarrow> cell list option \<Rightarrow> js_string list list" where
  "table_values ls last_row =
     map (\<lambda>(cells, e). map cell_value cells) ls @ (case last_row of None \<Rightarrow> [] | Some cells \<Rightarrow> [map cell_value cells])"

definition take_rows :: "nat option \<Rightarrow> 'a list \<Rightarrow> 'a list" where
  "take_rows n rs = (case n of None \<Rightarrow> rs | Some k \<Rightarrow> take k rs)"

section \<open>Reading a cell, a row, a table\<close>

definition stops :: "code_unit \<Rightarrow> js_string \<Rightarrow> bool" where
  "stops d rest \<longleftrightarrow> rest = [] \<or> hd rest \<in> separators d"

definition clean :: "scan \<Rightarrow> bool" where
  "clean st \<longleftrightarrow> \<not> quoted st \<and> field_text st = [] \<and> \<not> fieldStarted st"

lemma separators_simps [simp]: "d \<in> separators d" "newline \<in> separators d" "CR \<in> separators d"
  by (simp_all add: separators_def)

lemma quote_separator: "d \<in> {comma, tab} \<Longrightarrow> quote \<notin> separators d"
  by (auto simp: separators_def quote_def comma_def tab_def newline_def CR_def)

lemma CR_newline [simp]: "CR \<noteq> newline" "newline \<noteq> CR" "quote \<noteq> newline" "quote \<noteq> CR" "newline \<noteq> quote" "CR \<noteq> quote"
  by (simp_all add: CR_def newline_def quote_def)

lemma delimiter_neq: "d \<in> {comma, tab} \<Longrightarrow> d \<noteq> quote \<and> d \<noteq> newline \<and> d \<noteq> CR"
  by (auto simp: comma_def tab_def quote_def newline_def CR_def)

lemma scan_quoted:
  "quoted st \<Longrightarrow> take 1 rest \<noteq> [quote] \<Longrightarrow>
     scan_text d keep (escape v @ quote # rest) st =
       scan_text d keep rest (st\<lparr>field_text := field_text st @ v, quoted := False\<rparr>)"
proof (induction v arbitrary: st)
  case Nil
  then show ?case by (cases rest) (auto simp: escape_def)
next
  case (Cons u v)
  then show ?case
    using Cons.IH [of "st\<lparr>field_text := field_text st @ [u]\<rparr>"] by (simp add: escape_def)
qed

lemma scan_plain:
  "\<not> quoted st \<Longrightarrow> list_all (\<lambda>u. u \<notin> separators d) v \<Longrightarrow> field_text st \<noteq> [] \<or> v = [] \<or> hd v \<noteq> quote \<Longrightarrow>
     scan_text d keep (v @ rest) st = scan_text d keep rest (st\<lparr>field_text := field_text st @ v\<rparr>)"
proof (induction v arbitrary: st)
  case (Cons u v)
  then show ?case
    using Cons.IH [of "st\<lparr>field_text := field_text st @ [u]\<rparr>"] by (auto simp: separators_def)
qed simp

fun is_quoted :: "cell \<Rightarrow> bool" where
  "is_quoted (Plain v) = False"
| "is_quoted (Quoted v) = True"

lemma scan_cell:
  assumes "d \<in> {comma, tab}" "clean st" "cell_ok d c" "stops d rest"
  shows "scan_text d keep (cell_text c @ rest) st =
    scan_text d keep rest (st\<lparr>field_text := cell_value c, fieldStarted := is_quoted c\<rparr>)"
proof (cases c)
  case (Plain v)
  with assms scan_plain [of st d v keep rest] show ?thesis by (cases st) (simp add: clean_def)
next
  case (Quoted v)
  have "take 1 rest \<noteq> [quote]"
    using assms(4) quote_separator [OF assms(1)] by (cases rest) (auto simp: stops_def)
  with Quoted assms scan_quoted [of "st\<lparr>quoted := True, fieldStarted := True\<rparr>" rest d keep v] show ?thesis
    by (cases st) (simp add: clean_def)
qed

lemma scan_row:
  assumes "d \<in> {comma, tab}"
  shows "clean st \<Longrightarrow> row_ok d cells \<Longrightarrow> stops d rest \<Longrightarrow>
    scan_text d keep (row_text d cells @ rest) st =
      scan_text d keep rest (st\<lparr>row := row st @ map cell_value (butlast cells), field_text := cell_value (last cells),
        fieldStarted := is_quoted (last cells)\<rparr>)"
proof (induction cells arbitrary: st)
  case (Cons c cells)
  show ?case
  proof (cases "cells = []")
    case True
    with Cons.prems scan_cell [OF assms] show ?thesis by (simp add: row_text_def row_ok_def)
  next
    case False
    have "scan_text d keep (row_text d (c # cells) @ rest) st
        = scan_text d keep (d # row_text d cells @ rest) (st\<lparr>field_text := cell_value c, fieldStarted := is_quoted c\<rparr>)"
      using Cons.prems False scan_cell [OF assms, of st c "d # row_text d cells @ rest" keep]
      by (simp add: row_text_def row_ok_def join_with_Cons stops_def)
    also have "\<dots> = scan_text d keep (row_text d cells @ rest)
        (st\<lparr>row := row st @ [cell_value c], field_text := [], fieldStarted := False\<rparr>)"
      using Cons.prems(1) delimiter_neq [OF assms] by (simp add: clean_def end_field_def)
    also have "\<dots> = scan_text d keep rest (st\<lparr>row := row st @ map cell_value (butlast (c # cells)),
        field_text := cell_value (last (c # cells)), fieldStarted := is_quoted (last (c # cells))\<rparr>)"
      using Cons.prems False Cons.IH [of "st\<lparr>row := row st @ [cell_value c], field_text := [], fieldStarted := False\<rparr>"]
      by (simp add: clean_def row_ok_def)
    finally show ?thesis .
  qed
qed (simp add: row_ok_def)

definition add_rows :: "nat option \<Rightarrow> js_string list list \<Rightarrow> js_string list list \<Rightarrow> js_string list list" where
  "add_rows keep recs rs = recs @ (case keep of None \<Rightarrow> rs | Some k \<Rightarrow> take (k - length recs) rs)"

lemma add_rows_simps [simp]:
  "add_rows keep recs [] = recs"
  "add_rows keep (if room keep (length recs) then recs @ [r] else recs) rs = add_rows keep recs (r # rs)"
proof -
  show "add_rows keep recs [] = recs" by (simp add: add_rows_def split: option.split)
  show "add_rows keep (if room keep (length recs) then recs @ [r] else recs) rs = add_rows keep recs (r # rs)"
  proof (cases keep)
    case (Some k)
    have "take (k - length recs) (r # rs) = r # take (k - Suc (length recs)) rs" if "length recs < k"
      using that by (simp add: take_Cons')
    with Some show ?thesis by (simp add: add_rows_def room_def)
  qed (simp add: add_rows_def room_def)
qed

lemma scan_line_end:
  assumes d: "d \<in> {comma, tab}" and st: "\<not> quoted st" and "e = EndCR \<longrightarrow> take 1 more_text \<noteq> [newline]"
  shows "scan_text d keep (end_text e @ more_text) st = scan_text d keep more_text (end_row keep st)"
proof -
  have neq: "newline \<noteq> d" "CR \<noteq> d" using delimiter_neq [OF d] by auto
  show ?thesis
  proof (cases e)
    case EndCR
    with assms(3) have "\<not> (more_text \<noteq> [] \<and> hd more_text = newline)" by (cases more_text) auto
    with EndCR show ?thesis by (auto simp: st neq)
  qed (simp_all add: st neq)
qed

lemma stops_line_end: "stops d (end_text e @ more_text)"
  by (cases e) (simp_all add: stops_def)

lemma map_butlast_last: "cells \<noteq> [] \<Longrightarrow> map f (butlast cells) @ [f (last cells)] = map f cells"
  by (induction cells) auto

lemma scan_open_row:
  assumes "d \<in> {comma, tab}" "clean st" "row st = []" "open_row_ok d last_row"
  shows "(let st' = scan_end keep (scan_text d keep (open_row_text d last_row) st)
     in records st' = add_rows keep (records st) (table_values [] last_row)
        \<and> recordCount st' = recordCount st + length (table_values [] last_row))"
proof (cases last_row)
  case None
  with assms show ?thesis by (simp add: scan_end_def clean_def table_values_def Let_def)
next
  case (Some cells)
  then have ok: "row_ok d cells" "cells \<noteq> [Plain []]" using assms by simp_all
  have "scan_text d keep (row_text d cells) st = st\<lparr>row := map cell_value (butlast cells),
      field_text := cell_value (last cells), fieldStarted := is_quoted (last cells)\<rparr>" (is "_ = ?st")
    using scan_row [OF assms(1), of st cells "[]" keep] assms ok by (simp add: stops_def)
  moreover have "field_text ?st \<noteq> [] \<or> fieldStarted ?st \<or> row ?st \<noteq> []"
  proof (cases "butlast cells")
    case Nil
    then obtain c where "cells = [c]"
      using ok(1) by (metis append_butlast_last_id append_Nil row_ok_def)
    with ok(2) show ?thesis by (cases c) auto
  qed simp
  moreover have "map cell_value (butlast cells) @ [cell_value (last cells)] = map cell_value cells"
    using ok(1) by (simp add: map_butlast_last row_ok_def)
  moreover have "add_rows keep (records st) [r] = (if room keep (length (records st)) then records st @ [r] else records st)" for r
    using add_rows_simps(2) [of keep "records st" r "[]"] by simp
  ultimately show ?thesis
    by (simp add: Some scan_end_def finish_def table_values_def Let_def)
qed

lemma scan_table:
  "d \<in> {comma, tab} \<Longrightarrow> clean st \<Longrightarrow> row st = [] \<Longrightarrow> table_ok d ls last_row \<Longrightarrow>
    (let st' = scan_end keep (scan_text d keep (table_text d ls last_row) st)
     in records st' = add_rows keep (records st) (table_values ls last_row)
        \<and> recordCount st' = recordCount st + length (table_values ls last_row))"
proof (induction d ls last_row arbitrary: st rule: table_text.induct)
  case (1 d last_row)
  then show ?case using scan_open_row by simp
next
  case (2 d cells e ls last_row)
  have ok: "row_ok d cells" "table_ok d ls last_row" "e = EndCR \<longrightarrow> take 1 (table_text d ls last_row) \<noteq> [newline]"
    using 2 by simp_all
  let ?st = "st\<lparr>row := map cell_value (butlast cells), field_text := cell_value (last cells),
      fieldStarted := is_quoted (last cells)\<rparr>"
  let ?next = "end_row keep ?st"
  have "scan_text d keep (table_text d ((cells, e) # ls) last_row) st
      = scan_text d keep (end_text e @ table_text d ls last_row) ?st"
    using scan_row [OF 2(2,3) ok(1) stops_line_end, of keep e] 2(4) by simp
  also have "\<dots> = scan_text d keep (table_text d ls last_row) ?next"
    using 2(3) ok(3) by (intro scan_line_end [OF 2(2)]) (simp_all add: clean_def)
  finally have run: "scan_text d keep (table_text d ((cells, e) # ls) last_row) st
      = scan_text d keep (table_text d ls last_row) ?next" .
  have "map cell_value (butlast cells) @ [cell_value (last cells)] = map cell_value cells"
    using ok(1) by (simp add: map_butlast_last row_ok_def)
  then have state: "clean ?next" "row ?next = []" "recordCount ?next = recordCount st + 1"
      "records ?next = (if room keep (length (records st)) then records st @ [map cell_value cells] else records st)"
    using 2(3) by (simp_all add: end_row_def finish_def clean_def)
  from "2.IH" [OF 2(2) state(1,2) ok(2)] show ?case
    unfolding run Let_def state(3,4) by (simp add: table_values_def)
qed

text \<open>What the row limit changes: only which rows are kept.\<close>

definition limit :: "nat \<Rightarrow> scan \<Rightarrow> scan" where
  "limit k st = st\<lparr>records := take k (records st)\<rparr>"

lemma limit_simps:
  "quoted (limit k st) = quoted st" "field_text (limit k st) = field_text st" "row (limit k st) = row st"
  "fieldStarted (limit k st) = fieldStarted st" "recordCount (limit k st) = recordCount st"
  "(limit k st)\<lparr>field_text := x\<rparr> = limit k (st\<lparr>field_text := x\<rparr>)"
  "(limit k st)\<lparr>quoted := b\<rparr> = limit k (st\<lparr>quoted := b\<rparr>)"
  "(limit k st)\<lparr>fieldStarted := b\<rparr> = limit k (st\<lparr>fieldStarted := b\<rparr>)"
  "(limit k st)\<lparr>row := r\<rparr> = limit k (st\<lparr>row := r\<rparr>)"
  "end_field (limit k st) = limit k (end_field st)"
  "finish (Some k) r (limit k st) = limit k (finish None r st)"
  "end_row (Some k) (limit k st) = limit k (end_row None st)"
  by (cases st; auto simp: limit_def end_field_def end_row_def finish_def room_def min_def)+

lemma scan_limited: "scan_text d (Some k) cs (limit k st) = limit k (scan_text d None cs st)"
proof (induction d "None :: nat option" cs st rule: scan_text.induct)
  case (2 d c cs st)
  show ?case
    unfolding scan_text.simps limit_simps if_distrib [where f = "limit k"] using 2 by (intro if_cong refl) simp_all
qed simp

lemma scan_end_limited: "scan_end (Some k) (limit k st) = limit k (scan_end None st)"
  by (simp add: scan_end_def limit_simps)

definition all_kept :: "scan \<Rightarrow> bool" where
  "all_kept st \<longleftrightarrow> recordCount st = length (records st)"

lemma all_kept_simps:
  "all_kept (st\<lparr>field_text := x\<rparr>) = all_kept st" "all_kept (st\<lparr>quoted := b\<rparr>) = all_kept st"
  "all_kept (st\<lparr>fieldStarted := b\<rparr>) = all_kept st" "all_kept (st\<lparr>row := r\<rparr>) = all_kept st"
  "all_kept (end_field st) = all_kept st" "all_kept (finish None r st) = all_kept st"
  "all_kept (end_row None st) = all_kept st"
  by (simp_all add: all_kept_def end_field_def end_row_def finish_def room_def)

lemma all_kept_scan: "all_kept st \<Longrightarrow> all_kept (scan_text d None cs st)"
proof (induction d "None :: nat option" cs st rule: scan_text.induct)
  case (2 d c cs st)
  have ifI: "(b \<Longrightarrow> P) \<Longrightarrow> (\<not> b \<Longrightarrow> Q) \<Longrightarrow> (if b then P else Q)" for b P Q by simp
  show ?case
    unfolding scan_text.simps if_distrib [where f = all_kept]
    using 2 by (intro ifI) (simp_all add: all_kept_simps)
qed simp

lemma all_kept_end: "all_kept st \<Longrightarrow> all_kept (scan_end None st)"
  by (simp add: scan_end_def all_kept_simps)

section \<open>Properties\<close>


definition sample_lines :: "(cell list \<times> line_end) list" where
  "sample_lines = [([Plain (js ''a''), Plain (js ''b'')], CRLF), ([Plain (js ''007''), Quoted [quote, comma, newline]], LF)]"


text \<open>
  Whatever the text holds, a row limit keeps the first rows and changes nothing else: header
  and row count are those of the unlimited reading.
\<close>

lemma row_limit_only_truncates:
  "parseDelimitedText t d (Some n) =
     (let full = parseDelimitedText t d None
      in full\<lparr>rows := take n (rows full)\<rparr>)
   \<and> rowCount (parseDelimitedText t d None) = length (rows (parseDelimitedText t d None))"
proof -
  have counted: "all_kept (scan_end None (scan_text d None cs scan_start))" for cs
    by (intro all_kept_scan all_kept_end) (simp add: scan_start_def all_kept_def)
  have start: "scan_start = limit (Suc n) scan_start" by (simp add: scan_start_def limit_def)
  have limited: "scan_end (Some (Suc n)) (scan_text d (Some (Suc n)) cs scan_start)
      = limit (Suc n) (scan_end None (scan_text d None cs scan_start))" for cs
    by (subst start) (simp only: scan_limited scan_end_limited)
  let ?source = "if t \<noteq> [] \<and> hd t = byte_order_mark then tl t else t"
  let ?st = "scan_end None (scan_text d None ?source scan_start)"
  have count: "recordCount ?st = length (records ?st)" using counted by (simp add: all_kept_def)
  show ?thesis
  proof (cases "records ?st")
    case Nil
    then show ?thesis
      using count by (simp add: parseDelimitedText_def Let_def limited limit_def)
  next
    case (Cons h rs)
    then show ?thesis
      using count by (simp add: parseDelimitedText_def Let_def limited limit_def)
  qed
qed

text \<open>A last line that is blank but ended is a row of one empty value.\<close>

lemma blank_last_line_is_a_row:
  "parseDelimitedText [97, newline, newline] comma None = \<lparr>header = [[97]], rows = [[[]]], rowCount = 1\<rparr>"
  by (simp add: parseDelimitedText_def scan_start_def scan_end_def end_row_def finish_def room_def
      byte_order_mark_def quote_def newline_def comma_def CR_def Let_def)

end
