(* ===== verification/RecordPredicates.thy ===== *)
theory RecordPredicates
  imports Json
begin

text \<open>
  Row conditions: the predicate trees of \<open>packages/types/src/records.ts\<close> with the schema that
  stored ones must satisfy, and the parser of untrusted ones in
  \<open>packages/server/src/record-query.ts\<close>, which also reads the older flat filters.

  The input is a JSON value. A leaf's value is \<open>None\<close> where the source has \<open>undefined\<close>.
\<close>

section \<open>Fields and predicates\<close>

record field_spec =
  fs_type :: string
  fs_name :: "string option"
  fs_required :: bool
  fs_values :: "string list option"
  references :: "string option"
  many :: bool

type_synonym field_map = "(string \<times> field_spec) list"

definition normalizeRecordFieldType :: "string \<Rightarrow> string" where
  "normalizeRecordFieldType type =
     (if type = ''enum'' then ''select'' else if type = ''reference'' then ''relation'' else type)"

datatype predicate_op = OpEq | OpNeq | OpIn | OpContains | OpHas | OpGt | OpGte | OpLt | OpLte | OpIsEmpty

definition RECORD_PREDICATE_OPS :: "(string \<times> predicate_op) list" where
  "RECORD_PREDICATE_OPS = [(''eq'', OpEq), (''neq'', OpNeq), (''in'', OpIn), (''contains'', OpContains), (''has'', OpHas),
     (''gt'', OpGt), (''gte'', OpGte), (''lt'', OpLt), (''lte'', OpLte), (''isEmpty'', OpIsEmpty)]"

datatype predicate =
    And "predicate list"
  | Or "predicate list"
  | Not predicate
  | Leaf string predicate_op "json option"

definition RECORD_PREDICATE_MAX_DEPTH :: nat where
  "RECORD_PREDICATE_MAX_DEPTH = 20"

datatype value_problem = InNeedsArray | ContainsNeedsString | HasNeedsScalar | RangeNeedsValue | IsEmptyNeedsBoolean

definition is_range :: "predicate_op \<Rightarrow> bool" where
  "is_range op \<longleftrightarrow> op = OpGt \<or> op = OpGte \<or> op = OpLt \<or> op = OpLte"

definition missing :: "json option \<Rightarrow> bool" where
  "missing v \<longleftrightarrow> v = None \<or> v = Some JNull"

definition is_array :: "json option \<Rightarrow> bool" where
  "is_array v = (case v of Some (JArr _) \<Rightarrow> True | _ \<Rightarrow> False)"

text \<open>\<open>typeof value === "object"\<close>.\<close>

definition typeof_object :: "json option \<Rightarrow> bool" where
  "typeof_object v = (case v of Some JNull \<Rightarrow> True | Some (JArr _) \<Rightarrow> True | Some (JObj _) \<Rightarrow> True | _ \<Rightarrow> False)"

definition is_bool :: "json option \<Rightarrow> bool" where
  "is_bool v = (case v of Some (JBool _) \<Rightarrow> True | _ \<Rightarrow> False)"

definition predicateValueProblem :: "predicate_op \<Rightarrow> json option \<Rightarrow> value_problem option" where
  "predicateValueProblem op v =
     (if op = OpIn \<and> \<not> is_array v then Some InNeedsArray
      else if op = OpContains \<and> \<not> is_string v then Some ContainsNeedsString
      else if op = OpHas \<and> (missing v \<or> typeof_object v) then Some HasNeedsScalar
      else if is_range op \<and> missing v then Some RangeNeedsValue
      else if op = OpIsEmpty \<and> v \<noteq> None \<and> \<not> is_bool v then Some IsEmptyNeedsBoolean
      else None)"

definition leaf_ok :: "string \<Rightarrow> predicate_op \<Rightarrow> json option \<Rightarrow> bool" where
  "leaf_ok fld op v \<longleftrightarrow> fld \<noteq> [] \<and> predicateValueProblem op v = None"

text \<open>One schema per level; at the last one only leaves.\<close>

fun predicateSchemaAt :: "nat \<Rightarrow> predicate \<Rightarrow> bool" where
  "predicateSchemaAt depth (Leaf fld op v) \<longleftrightarrow> leaf_ok fld op v"
| "predicateSchemaAt depth (And ps) \<longleftrightarrow>
     depth < RECORD_PREDICATE_MAX_DEPTH \<and> ps \<noteq> [] \<and> list_all (predicateSchemaAt (depth + 1)) ps"
| "predicateSchemaAt depth (Or ps) \<longleftrightarrow>
     depth < RECORD_PREDICATE_MAX_DEPTH \<and> ps \<noteq> [] \<and> list_all (predicateSchemaAt (depth + 1)) ps"
| "predicateSchemaAt depth (Not p) \<longleftrightarrow> depth < RECORD_PREDICATE_MAX_DEPTH \<and> predicateSchemaAt (depth + 1) p"

section \<open>The parser\<close>

datatype shape_error =
    TooDeep | NotAnObject | EmptyPredicate | ConnectiveExtraKeys "string list" | NotOneConnective
  | ConnectiveNeedsArray string | EmptyConnective string | LeafNeedsField | UnknownOp
  | LeafExtraKeys "string list" | BadValue value_problem

type_synonym json_object = "(string \<times> json) list"

definition has :: "string \<Rightarrow> json_object \<Rightarrow> bool" where
  "has k node \<longleftrightarrow> k \<in> set (map fst node)"

definition isPredicateTree :: "json_object \<Rightarrow> field_map option \<Rightarrow> bool" where
  "isPredicateTree node flds =
     (if is_array (map_of node ''and'') \<or> is_array (map_of node ''or'') then True
      else if typeof_object (map_of node ''not'') \<and> map_of node ''not'' \<noteq> Some JNull then True
      else if \<not> is_string (map_of node ''field'') \<or> \<not> is_string (map_of node ''op'') then False
      else (case flds of
              Some fs \<Rightarrow>
                if map_of fs ''field'' \<noteq> None \<and> map_of fs ''op'' \<noteq> None
                then (case map_of node ''op'' of Some (JStr s) \<Rightarrow> map_of RECORD_PREDICATE_OPS s \<noteq> None | _ \<Rightarrow> False)
                else True
            | None \<Rightarrow> True))"

definition FLAT_OPS :: "string list" where
  "FLAT_OPS = [''in'', ''contains'', ''gt'', ''gte'', ''lt'', ''lte'']"

definition flat_leaf :: "string \<Rightarrow> string \<Rightarrow> json \<Rightarrow> json" where
  "flat_leaf fld op v = JObj [(''field'', JStr fld), (''op'', JStr op), (''value'', v)]"

definition flat_leaves :: "string \<Rightarrow> json \<Rightarrow> json list" where
  "flat_leaves fld expected =
     (case expected of
        JObj ops \<Rightarrow>
          (let present = filter (\<lambda>op. has op ops) FLAT_OPS
           in if present \<noteq> [] then map (\<lambda>op. flat_leaf fld op (the (map_of ops op))) present
              else [flat_leaf fld ''eq'' expected])
      | _ \<Rightarrow> [flat_leaf fld ''eq'' expected])"

definition flatWhereToPredicate :: "json_object \<Rightarrow> json option" where
  "flatWhereToPredicate node =
     (case concat (map (\<lambda>(fld, expected). flat_leaves fld expected) node) of
        [] \<Rightarrow> None
      | [leaf] \<Rightarrow> Some leaf
      | leaves \<Rightarrow> Some (JObj [(''and'', JArr leaves)]))"

definition connective_problem :: "json_object \<Rightarrow> shape_error option" where
  "connective_problem node =
     (if has ''and'' node \<or> has ''or'' node \<or> has ''not'' node then
        (let extras = filter (\<lambda>k. k \<noteq> ''and'' \<and> k \<noteq> ''or'' \<and> k \<noteq> ''not'') (map fst node)
         in if extras \<noteq> [] then Some (ConnectiveExtraKeys extras)
            else if length node \<noteq> 1 then Some NotOneConnective else None)
      else None)"

definition parse_leaf :: "json_object \<Rightarrow> shape_error + predicate" where
  "parse_leaf node =
     (case map_of node ''field'' of
        Some (JStr fld) \<Rightarrow>
          if fld = [] then Inl LeafNeedsField
          else (case map_of node ''op'' of
                  Some (JStr s) \<Rightarrow>
                    (case map_of RECORD_PREDICATE_OPS s of
                       None \<Rightarrow> Inl UnknownOp
                     | Some op \<Rightarrow>
                         (let extras = filter (\<lambda>k. k \<noteq> ''field'' \<and> k \<noteq> ''op'' \<and> k \<noteq> ''value'') (map fst node);
                              v = map_of node ''value''
                          in if extras \<noteq> [] then Inl (LeafExtraKeys extras)
                             else (case predicateValueProblem op v of Some e \<Rightarrow> Inl (BadValue e) | None \<Rightarrow> Inr (Leaf fld op v))))
                | _ \<Rightarrow> Inl UnknownOp)
      | _ \<Rightarrow> Inl LeafNeedsField)"

function parsePredicate :: "field_map option \<Rightarrow> nat \<Rightarrow> json \<Rightarrow> shape_error + predicate" where
  "parsePredicate flds depth input =
     (if depth > RECORD_PREDICATE_MAX_DEPTH then Inl TooDeep
      else (case input of
              JObj node \<Rightarrow>
                (if \<not> isPredicateTree node flds then
                   (case flatWhereToPredicate node of
                      None \<Rightarrow> Inl EmptyPredicate
                    | Some compiled \<Rightarrow> parsePredicate flds (depth + 1) compiled)
                 else
                   (case connective_problem node of
                      Some e \<Rightarrow> Inl e
                    | None \<Rightarrow>
                        (if has ''and'' node \<or> has ''or'' node then
                           (let key = (if has ''and'' node then ''and'' else ''or'')
                            in case map_of node key of
                                 Some (JArr cs) \<Rightarrow>
                                   (if cs = [] then Inl (EmptyConnective key)
                                    else (case traverse (parsePredicate flds (depth + 1)) cs of
                                            Inl e \<Rightarrow> Inl e
                                          | Inr ps \<Rightarrow> Inr (if key = ''and'' then And ps else Or ps)))
                               | _ \<Rightarrow> Inl (ConnectiveNeedsArray key))
                         else (case map_of node ''not'' of
                                 Some child \<Rightarrow>
                                   (case parsePredicate flds (depth + 1) child of Inl e \<Rightarrow> Inl e | Inr p \<Rightarrow> Inr (Not p))
                               | None \<Rightarrow> parse_leaf node))))
            | _ \<Rightarrow> Inl NotAnObject))"
  by pat_completeness auto

text \<open>Every call is one level deeper, and none is deeper than the last level.\<close>

termination
  by (relation "measure (\<lambda>(flds, depth, input). RECORD_PREDICATE_MAX_DEPTH + 1 - depth)") auto

declare parsePredicate.simps [simp del]

section \<open>What the parser returns satisfies the stored schema\<close>

lemma schema_deeper: "predicateSchemaAt (Suc depth) p \<Longrightarrow> predicateSchemaAt depth p"
proof (induction p arbitrary: depth)
  case (And ps)
  then show ?case by (auto simp: list_all_iff)
next
  case (Or ps)
  then show ?case by (auto simp: list_all_iff)
next
  case (Not p)
  then show ?case by auto
qed simp

lemma parse_leaf_ok: "parse_leaf node = Inr p \<Longrightarrow> predicateSchemaAt depth p"
  by (auto simp: parse_leaf_def leaf_ok_def Let_def split: option.splits json.splits if_splits)

lemma parse_below_max: "parsePredicate flds depth input = Inr p \<Longrightarrow> depth \<le> RECORD_PREDICATE_MAX_DEPTH"
  by (subst (asm) parsePredicate.simps) (simp split: if_splits)

lemma parse_object: "parsePredicate flds depth input = Inr p \<Longrightarrow> \<exists>node. input = JObj node"
  by (subst (asm) parsePredicate.simps) (simp split: if_splits json.splits)

lemma parse_flat:
  "\<not> isPredicateTree node flds \<Longrightarrow> parsePredicate flds depth (JObj node) = Inr p \<Longrightarrow>
     \<exists>compiled. flatWhereToPredicate node = Some compiled \<and> parsePredicate flds (depth + 1) compiled = Inr p"
  unfolding parsePredicate.simps [of flds depth "JObj node"] by (simp split: if_splits option.splits)

lemma parse_conj:
  assumes "isPredicateTree node flds" "has ''and'' node \<or> has ''or'' node" "parsePredicate flds depth (JObj node) = Inr p"
  shows "\<exists>cs ps. cs \<noteq> [] \<and> traverse (parsePredicate flds (depth + 1)) cs = Inr ps \<and> (p = And ps \<or> p = Or ps)"
proof -
  let ?key = "if has ''and'' node then ''and'' else ''or''"
  have below: "\<not> RECORD_PREDICATE_MAX_DEPTH < depth" using parse_below_max [OF assms(3)] by simp
  have "(case connective_problem node of Some e \<Rightarrow> Inl e
      | None \<Rightarrow> (case map_of node ?key of
           Some (JArr cs) \<Rightarrow>
             (if cs = [] then Inl (EmptyConnective ?key)
              else (case traverse (parsePredicate flds (depth + 1)) cs of
                      Inl e \<Rightarrow> Inl e
                    | Inr ps \<Rightarrow> Inr (if ?key = ''and'' then And ps else Or ps)))
         | _ \<Rightarrow> Inl (ConnectiveNeedsArray ?key))) = Inr p"
    using assms(3) unfolding parsePredicate.simps [of flds depth "JObj node"]
    by (simp only: below assms(1,2) if_False if_True not_True_eq_False json.case Let_def)
  then obtain cs where cs: "(if cs = [] then Inl (EmptyConnective ?key)
      else (case traverse (parsePredicate flds (depth + 1)) cs of
              Inl e \<Rightarrow> Inl e | Inr ps \<Rightarrow> Inr (if ?key = ''and'' then And ps else Or ps))) = Inr p"
    by (cases "connective_problem node"; cases "map_of node ?key") (auto split: json.splits)
  then show ?thesis by (cases "traverse (parsePredicate flds (depth + 1)) cs") (auto split: if_splits)
qed

lemma parse_single:
  assumes "isPredicateTree node flds" "\<not> has ''and'' node" "\<not> has ''or'' node" "parsePredicate flds depth (JObj node) = Inr p"
  shows "parse_leaf node = Inr p \<or> (\<exists>child q. parsePredicate flds (depth + 1) child = Inr q \<and> p = Not q)"
proof -
  have below: "\<not> RECORD_PREDICATE_MAX_DEPTH < depth" using parse_below_max [OF assms(4)] by simp
  have "(case connective_problem node of Some e \<Rightarrow> Inl e
      | None \<Rightarrow> (case map_of node ''not'' of
           Some child \<Rightarrow> (case parsePredicate flds (depth + 1) child of Inl e \<Rightarrow> Inl e | Inr p \<Rightarrow> Inr (Not p))
         | None \<Rightarrow> parse_leaf node)) = Inr p"
    using assms(4) unfolding parsePredicate.simps [of flds depth "JObj node"]
    by (simp only: below assms(1-3) if_False if_True not_True_eq_False json.case simp_thms)
  then show ?thesis by (simp split: option.splits sum.splits) metis
qed

lemma parsePredicate_schema: "parsePredicate flds depth input = Inr p \<Longrightarrow> predicateSchemaAt depth p"
proof (induction "RECORD_PREDICATE_MAX_DEPTH + 1 - depth" arbitrary: depth input p rule: less_induct)
  case less
  have below: "depth \<le> RECORD_PREDICATE_MAX_DEPTH" by (rule parse_below_max [OF less.prems])
  have deeper: "predicateSchemaAt (depth + 1) q \<and> depth < RECORD_PREDICATE_MAX_DEPTH"
    if "parsePredicate flds (depth + 1) child = Inr q" for child q
    using less.hyps [OF _ that] parse_below_max [OF that] below by simp
  obtain node where node: "input = JObj node" using parse_object [OF less.prems] by blast
  note prem = less.prems [unfolded node]
  show ?case
  proof (cases "isPredicateTree node flds")
    case False
    from parse_flat [OF this prem] deeper show ?thesis by (auto intro: schema_deeper)
  next
    case tree: True
    show ?thesis
    proof (cases "has ''and'' node \<or> has ''or'' node")
      case True
      from parse_conj [OF tree this prem] obtain cs ps
        where ps: "cs \<noteq> []" "list_all2 (\<lambda>c q. parsePredicate flds (depth + 1) c = Inr q) cs ps" "p = And ps \<or> p = Or ps"
        by (auto simp: traverse_Inr_iff)
      have some: "ps \<noteq> []" using ps(1) list_all2_lengthD [OF ps(2)] by (cases ps) simp_all
      have each: "predicateSchemaAt (depth + 1) q \<and> depth < RECORD_PREDICATE_MAX_DEPTH" if "q \<in> set ps" for q
      proof -
        from that obtain i where "i < length ps" "q = ps ! i" by (auto simp: in_set_conv_nth)
        with ps(2) have "parsePredicate flds (depth + 1) (cs ! i) = Inr q" by (simp add: list_all2_conv_all_nth)
        then show ?thesis by (rule deeper)
      qed
      have "depth < RECORD_PREDICATE_MAX_DEPTH" using each [OF hd_in_set [OF some]] by simp
      moreover have "list_all (predicateSchemaAt (depth + 1)) ps" using each by (simp add: list_all_iff)
      ultimately show ?thesis using ps(3) some by (elim disjE) simp_all
    next
      case False
      then have "\<not> has ''and'' node" "\<not> has ''or'' node" by simp_all
      from parse_single [OF tree this prem] show ?thesis
      proof
        assume "parse_leaf node = Inr p"
        then show ?thesis by (rule parse_leaf_ok)
      next
        assume "\<exists>child q. parsePredicate flds (depth + 1) child = Inr q \<and> p = Not q"
        then obtain child q where "parsePredicate flds (depth + 1) child = Inr q" "p = Not q" by blast
        with deeper show ?thesis by simp
      qed
    qed
  qed
qed

section \<open>Stored conditions have one spelling\<close>

definition op_name :: "predicate_op \<Rightarrow> string" where
  "op_name op = fst (the (List.find (\<lambda>(s, o'). o' = op) RECORD_PREDICATE_OPS))"

fun predicate_json :: "predicate \<Rightarrow> json" where
  "predicate_json (And ps) = JObj [(''and'', JArr (map predicate_json ps))]"
| "predicate_json (Or ps) = JObj [(''or'', JArr (map predicate_json ps))]"
| "predicate_json (Not p) = JObj [(''not'', predicate_json p)]"
| "predicate_json (Leaf fld op v) =
     JObj ([(''field'', JStr fld), (''op'', JStr (op_name op))] @ (case v of None \<Rightarrow> [] | Some x \<Rightarrow> [(''value'', x)]))"

lemma op_name_ops [simp]: "map_of RECORD_PREDICATE_OPS (op_name op) = Some op"
  by (cases op) (simp_all add: op_name_def RECORD_PREDICATE_OPS_def)

lemma predicate_json_object: "\<exists>node. predicate_json p = JObj node"
  by (cases p) simp_all

lemma parse_predicate_json:
  "predicateSchemaAt depth p \<Longrightarrow> depth \<le> RECORD_PREDICATE_MAX_DEPTH \<Longrightarrow>
     parsePredicate flds depth (predicate_json p) = Inr p"
proof (induction p arbitrary: depth)
  case (And ps)
  then have "traverse (parsePredicate flds (depth + 1)) (map predicate_json ps) = Inr ps"
    by (auto simp: traverse_Inr_iff list_all2_conv_all_nth list_all_iff)
  with And.prems show ?case
    by (subst parsePredicate.simps)
      (simp add: isPredicateTree_def connective_problem_def has_def is_array_def Let_def)
next
  case (Or ps)
  then have "traverse (parsePredicate flds (depth + 1)) (map predicate_json ps) = Inr ps"
    by (auto simp: traverse_Inr_iff list_all2_conv_all_nth list_all_iff)
  with Or.prems show ?case
    by (subst parsePredicate.simps)
      (simp add: isPredicateTree_def connective_problem_def has_def is_array_def Let_def)
next
  case (Not p)
  obtain node where node: "predicate_json p = JObj node" using predicate_json_object by blast
  from Not have "parsePredicate flds (depth + 1) (predicate_json p) = Inr p" by simp
  with Not.prems node show ?case
    by (subst parsePredicate.simps)
      (simp add: isPredicateTree_def connective_problem_def has_def is_array_def typeof_object_def)
next
  case (Leaf fld op v)
  have tree: "isPredicateTree node flds"
    if "map_of node ''field'' = Some (JStr fld)" "map_of node ''op'' = Some (JStr (op_name op))"
      for node using that by (simp add: isPredicateTree_def is_string_def split: option.split)
  show ?case
  proof (cases v)
    case None
    with Leaf tree show ?thesis
      by (subst parsePredicate.simps) (simp add: connective_problem_def has_def parse_leaf_def leaf_ok_def)
  next
    case (Some x)
    with Leaf tree show ?thesis
      by (subst parsePredicate.simps) (simp add: connective_problem_def has_def parse_leaf_def leaf_ok_def)
  qed
qed

section \<open>Properties\<close>

text \<open>
  C34. Whatever JSON the parser accepts, flat filters included, it returns a predicate of the type
  stored conditions must have: within the depth limit, no empty connective, every leaf with a field
  and a value its operator takes.
\<close>

theorem parsed_predicate_typed:
  assumes "parsePredicate flds 0 input = Inr p"
  shows "predicateSchemaAt 0 p"
  by (rule parsePredicate_schema [OF assms])

definition sample_where :: json where
  "sample_where = JObj [(''status'', JStr ''open''), (''due'', JObj [(''gte'', JNum 3), (''lt'', JNum 9)])]"

theorem parsed_predicate_typed_witness:
  "parsePredicate None 0 sample_where =
     Inr (And [Leaf ''status'' OpEq (Some (JStr ''open'')), Leaf ''due'' OpGte (Some (JNum 3)), Leaf ''due'' OpLt (Some (JNum 9))])
   \<and> predicateSchemaAt 0
     (And [Leaf ''status'' OpEq (Some (JStr ''open'')), Leaf ''due'' OpGte (Some (JNum 3)), Leaf ''due'' OpLt (Some (JNum 9))])"
proof -
  have "parsePredicate None 0 sample_where =
     Inr (And [Leaf ''status'' OpEq (Some (JStr ''open'')), Leaf ''due'' OpGte (Some (JNum 3)), Leaf ''due'' OpLt (Some (JNum 9))])"
    unfolding sample_where_def by code_simp
  from this parsed_predicate_typed [OF this] show ?thesis by blast
qed

end
