(* ===== verification/Abilities.thy ===== *)
theory Abilities
  imports RecordPredicates
begin

text \<open>
  What a tool or a share link can do, in plain sentences, and the intersection of record
  permissions: \<open>packages/types/src/abilities.ts\<close>.

  An object keyed by ids or field names is the list of its own entries in order.
  \<open>json_text\<close> stands for \<open>JSON.stringify\<close>, which also writes a number as
  \<open>String\<close> does; \<open>describe\<close> is the caller's \<open>describeValue\<close>.
\<close>

section \<open>Record permissions\<close>

datatype record_action = ReadRecords | CreateRecords | UpdateRecords | DeleteRecords

definition RECORD_ACTIONS :: "record_action list" where
  "RECORD_ACTIONS = [ReadRecords, CreateRecords, UpdateRecords, DeleteRecords]"

type_synonym action_entry = "(record_action \<times> bool) list"
type_synonym record_permissions = "(string \<times> action_entry) list"

definition says :: "action_entry option \<Rightarrow> record_action \<Rightarrow> bool" where
  "says e a = (case e of Some m \<Rightarrow> map_of m a = Some True | None \<Rightarrow> False)"

definition ownEntry :: "record_permissions \<Rightarrow> string \<Rightarrow> action_entry option" where
  "ownEntry records i = (case map_of records i of Some e \<Rightarrow> Some e | None \<Rightarrow> map_of records ''*'')"

definition allowedBoth :: "action_entry option \<Rightarrow> action_entry option \<Rightarrow> action_entry option" where
  "allowedBoth a b =
     (let out = map (\<lambda>action. (action, True)) (filter (\<lambda>action. says a action \<and> says b action) RECORD_ACTIONS)
      in if out \<noteq> [] then Some out else None)"

definition sameActions :: "action_entry \<Rightarrow> action_entry \<Rightarrow> bool" where
  "sameActions a b \<longleftrightarrow> list_all (\<lambda>action. says (Some a) action = says (Some b) action) RECORD_ACTIONS"

definition entry_for :: "action_entry option \<Rightarrow> record_permissions \<Rightarrow> record_permissions \<Rightarrow> string \<Rightarrow> (string \<times> action_entry) list" where
  "entry_for wildcard req cap i =
     (let e = (case allowedBoth (ownEntry req i) (ownEntry cap i) of Some e \<Rightarrow> e | None \<Rightarrow> [])
      in if (case wildcard of Some w \<Rightarrow> \<not> sameActions e w | None \<Rightarrow> e \<noteq> []) then [(i, e)] else [])"

definition intersectRecordPermissions ::
    "record_permissions option \<Rightarrow> record_permissions option \<Rightarrow> record_permissions" where
  "intersectRecordPermissions requested ceiling_records =
     (let req = (case requested of Some r \<Rightarrow> r | None \<Rightarrow> []);
          cap = (case ceiling_records of Some r \<Rightarrow> r | None \<Rightarrow> []);
          wildcard = allowedBoth (map_of req ''*'') (map_of cap ''*'');
          ids = filter (\<lambda>i. i \<noteq> ''*'') (uniq (map fst req @ map fst cap))
      in (case wildcard of Some w \<Rightarrow> [(''*'', w)] | None \<Rightarrow> []) @ concat (map (entry_for wildcard req cap) ids))"

section \<open>Words\<close>

record ability_collection =
  ac_name :: string
  ac_fields :: field_map

type_synonym ability_collections = "(string \<times> ability_collection) list"

definition LIST_MAX_ITEMS :: nat where "LIST_MAX_ITEMS = 10"
definition ABILITY_CONDITION_MAX_LENGTH :: nat where "ABILITY_CONDITION_MAX_LENGTH = 160"
definition LINK_SUBJECT :: string where "LINK_SUBJECT = ''Anyone with this link can''"

text \<open>\<open>items.join(sep)\<close>.\<close>

fun join_text :: "string \<Rightarrow> string list \<Rightarrow> string" where
  "join_text sep [] = []"
| "join_text sep [w] = w"
| "join_text sep (w # ws) = w @ sep @ join_text sep ws"

fun group_digits :: "string \<Rightarrow> string" where
  "group_digits (a # b # c # d # ds) = a # b # c # CHR '','' # group_digits (d # ds)"
| "group_digits ds = ds"

text \<open>\<open>toLocaleString("en-US")\<close> of a count.\<close>

definition grouped :: "nat \<Rightarrow> string" where
  "grouped n = rev (group_digits (rev (digits n)))"

definition collectionName :: "ability_collections \<Rightarrow> string \<Rightarrow> string" where
  "collectionName collections i = (case map_of collections i of Some c \<Rightarrow> ac_name c | None \<Rightarrow> i)"

definition fieldSpec :: "ability_collections \<Rightarrow> string \<Rightarrow> string \<Rightarrow> field_spec option" where
  "fieldSpec collections i key = (case map_of collections i of Some c \<Rightarrow> map_of (ac_fields c) key | None \<Rightarrow> None)"

definition fieldName :: "ability_collections \<Rightarrow> string \<Rightarrow> string \<Rightarrow> string" where
  "fieldName collections i key =
     (let fallback = (if key = ''id'' then ''ID'' else key)
      in case fieldSpec collections i key of
           Some spec \<Rightarrow> (case fs_name spec of Some n \<Rightarrow> n | None \<Rightarrow> fallback)
         | None \<Rightarrow> fallback)"

definition joinWords :: "string list \<Rightarrow> string \<Rightarrow> string" where
  "joinWords items word =
     (case items of [] \<Rightarrow> [] | [w] \<Rightarrow> w
      | _ \<Rightarrow> join_text '', '' (butlast items) @ '' '' @ word @ '' '' @ last items)"

definition listOverflow :: "string list \<Rightarrow> string" where
  "listOverflow items =
     join_text '', '' (take LIST_MAX_ITEMS items) @ '' and '' @ digits (length items - LIST_MAX_ITEMS) @ '' more''"

definition listNames :: "string list \<Rightarrow> string" where
  "listNames items = (if length items \<le> LIST_MAX_ITEMS then joinWords items ''and'' else listOverflow items)"

definition listFields :: "string list \<Rightarrow> string" where
  "listFields items = (if length items \<le> LIST_MAX_ITEMS then join_text '', '' items else listOverflow items)"

section \<open>Tools\<close>

fun TOOL_VERBS :: "record_action \<Rightarrow> string" where
  "TOOL_VERBS ReadRecords = ''Reads''"
| "TOOL_VERBS CreateRecords = ''Adds to''"
| "TOOL_VERBS UpdateRecords = ''Changes''"
| "TOOL_VERBS DeleteRecords = ''Deletes from''"

definition collectionsAllowing ::
    "record_permissions \<Rightarrow> record_action \<Rightarrow> ability_collections \<Rightarrow> string option" where
  "collectionsAllowing records action collections =
     (let ids = filter (\<lambda>i. i \<noteq> ''*'') (map fst records)
      in if says (map_of records ''*'') action then
           (let except = map (collectionName collections) (filter (\<lambda>i. \<not> says (map_of records i) action) ids)
            in Some (if except \<noteq> [] then ''every collection except '' @ listNames except else ''every collection''))
         else
           (let allowed = map (collectionName collections) (filter (\<lambda>i. says (map_of records i) action) ids)
            in if allowed \<noteq> [] then Some (listNames allowed) else None))"

record tool_permissions =
  network :: bool
  tool_records :: "record_permissions option"

definition network_sentence :: "bool \<Rightarrow> string" where
  "network_sentence open_network =
     (if open_network then ''Can send data outside this Worktable.'' else ''Can''@ [CHR 0x27] @ ''t send anything outside this Worktable.'')"

definition tool_sentence :: "record_permissions \<Rightarrow> ability_collections \<Rightarrow> record_action \<Rightarrow> string option" where
  "tool_sentence records collections action =
     map_option (\<lambda>reach. TOOL_VERBS action @ '' '' @ reach @ ''.'') (collectionsAllowing records action collections)"

definition toolSentences :: "tool_permissions option \<Rightarrow> ability_collections \<Rightarrow> string list" where
  "toolSentences permissions collections =
     (let records = (case permissions of Some p \<Rightarrow> (case tool_records p of Some r \<Rightarrow> r | None \<Rightarrow> []) | None \<Rightarrow> [])
      in List.map_filter (tool_sentence records collections) RECORD_ACTIONS
         @ [network_sentence (case permissions of Some p \<Rightarrow> network p | None \<Rightarrow> False)])"

section \<open>Links\<close>

record write_boundary =
  wb_create :: bool
  wb_update :: bool
  wb_fields :: "string list"
  wb_forced :: "(string \<times> json) list"

record collection_grant =
  cg_rows :: "predicate option"
  cg_fields :: "string list"
  timestamps :: bool
  writes :: "write_boundary option"

record grant_limits =
  rowsPerQuery :: nat
  queriesPerMinute :: nat
  rowsPerHour :: nat

datatype grant_state = NoState | VisitorState | TeamReadState

record link_grant =
  grant_collections :: "(string \<times> collection_grant) list"
  grant_limits :: grant_limits
  grant_state :: grant_state

type_synonym describe_value = "(string \<Rightarrow> string \<Rightarrow> json \<Rightarrow> string) option"

record link_input =
  li_grant :: "link_grant option"
  li_collections :: ability_collections
  li_counts :: "(string \<times> nat) list option"

definition countedRecordsName :: "string \<Rightarrow> nat option \<Rightarrow> bool \<Rightarrow> string" where
  "countedRecordsName nm count filtered =
     (case count of
        None \<Rightarrow> if filtered then nm else ''all '' @ nm
      | Some n \<Rightarrow>
          if n = 1 then ''1 record in '' @ nm
          else if filtered \<or> n = 0 then grouped n @ '' '' @ nm
          else ''all '' @ grouped n @ '' '' @ nm)"

definition fieldLists :: "string \<Rightarrow> collection_grant \<Rightarrow> ability_collections \<Rightarrow> string list \<times> string list" where
  "fieldLists i grant collections =
     (let label = (\<lambda>(key, spec). case fs_name spec of Some n \<Rightarrow> n | None \<Rightarrow> key);
          times = [''Created'', ''Updated''];
          (shown, hidden) =
            (case map_of collections i of
               None \<Rightarrow> (cg_fields grant, [])
             | Some c \<Rightarrow>
                 (map label (filter (\<lambda>(key, spec). key \<in> set (cg_fields grant)) (ac_fields c)),
                  map label (filter (\<lambda>(key, spec). key \<notin> set (cg_fields grant)) (ac_fields c))))
      in if timestamps grant then (shown @ times, hidden) else (shown, hidden @ times))"

definition writeSentences :: "string \<Rightarrow> string \<Rightarrow> collection_grant \<Rightarrow> ability_collections \<Rightarrow> string list" where
  "writeSentences i nm grant collections =
     (case writes grant of
        None \<Rightarrow> []
      | Some w \<Rightarrow>
          (if wb_create w then [LINK_SUBJECT @ '' add to '' @ nm @ ''.''] else [])
          @ (if wb_update w then
               [if wb_fields w \<noteq> []
                then LINK_SUBJECT @ '' change '' @ listNames (map (fieldName collections i) (wb_fields w)) @ '' on '' @ nm @ ''.''
                else LINK_SUBJECT @ '' change '' @ nm @ ''.'']
             else []))"

section \<open>Conditions\<close>

fun conjunction :: "predicate \<Rightarrow> (string \<times> predicate_op \<times> json option) list option" where
  "conjunction (Or ps) = None"
| "conjunction (Not p) = None"
| "conjunction (Leaf fld op v) = Some [(fld, op, v)]"
| "conjunction (And ps) =
     (if list_all (\<lambda>p. conjunction p \<noteq> None) ps then Some (concat (map (\<lambda>p. the (conjunction p)) ps)) else None)"

fun countLeaves :: "predicate \<Rightarrow> nat" where
  "countLeaves (And ps) = sum_list (map countLeaves ps)"
| "countLeaves (Or ps) = sum_list (map countLeaves ps)"
| "countLeaves (Not p) = countLeaves p"
| "countLeaves (Leaf fld op v) = 1"

text \<open>The words for a range operator, for values and for times.\<close>

fun RANGE_WORDS :: "predicate_op \<Rightarrow> (string \<times> string) option" where
  "RANGE_WORDS OpGt = Some (''is more than'', ''is after'')"
| "RANGE_WORDS OpGte = Some (''is at least'', ''is on or after'')"
| "RANGE_WORDS OpLt = Some (''is less than'', ''is before'')"
| "RANGE_WORDS OpLte = Some (''is at most'', ''is on or before'')"
| "RANGE_WORDS _ = None"

definition isBlank :: "json option \<Rightarrow> bool" where
  "isBlank v \<longleftrightarrow> v = None \<or> v = Some JNull \<or> v = Some (JStr [])"

definition plainValue :: "(json \<Rightarrow> string) \<Rightarrow> json \<Rightarrow> string" where
  "plainValue json_text v =
     (case v of JStr s \<Rightarrow> s | JBool b \<Rightarrow> (if b then ''true'' else ''false'') | _ \<Rightarrow> json_text v)"

text \<open>The values a leaf compares with; \<open>None\<close> when \<open>in\<close> has no list.\<close>

definition leaf_values :: "predicate_op \<Rightarrow> json option \<Rightarrow> json option list option" where
  "leaf_values op v =
     (if op = OpIn then (case v of Some (JArr vs) \<Rightarrow> Some (map Some vs) | _ \<Rightarrow> None) else Some [v])"

definition describeLeaf ::
    "(json \<Rightarrow> string) \<Rightarrow> describe_value \<Rightarrow> ability_collections \<Rightarrow> string \<Rightarrow> string \<times> predicate_op \<times> json option \<Rightarrow> string option" where
  "describeLeaf json_text describe collections i leaf =
     (case leaf of (fld, op, v) \<Rightarrow>
       (let nm = fieldName collections i fld
        in if op = OpIsEmpty then Some (if v = Some (JBool False) then nm @ '' is not empty'' else nm @ '' is empty'')
           else (case leaf_values op v of
                   None \<Rightarrow> None
                 | Some raw \<Rightarrow>
                     if raw = [] \<or> list_ex isBlank raw then None
                     else if 3 * length raw > ABILITY_CONDITION_MAX_LENGTH then None
                     else
                       (let vals = map (\<lambda>w. case describe of Some d \<Rightarrow> d i fld (the w) | None \<Rightarrow> plainValue json_text (the w)) raw;
                            first = hd vals
                        in case op of
                             OpEq \<Rightarrow> Some (nm @ '' is '' @ first)
                           | OpNeq \<Rightarrow> Some (nm @ '' is not '' @ first)
                           | OpIn \<Rightarrow> Some (nm @ '' is '' @ joinWords vals ''or'')
                           | OpHas \<Rightarrow> Some (nm @ '' includes '' @ first)
                           | OpContains \<Rightarrow> Some (nm @ '' contains '' @ first)
                           | _ \<Rightarrow>
                               map_option (\<lambda>(value_words, time_words).
                                 nm @ '' '' @
                                 (case fieldSpec collections i fld of
                                    Some spec \<Rightarrow> if fs_type spec = ''date'' \<or> fs_type spec = ''datetime'' then time_words else value_words
                                  | None \<Rightarrow> value_words) @ '' '' @ first) (RANGE_WORDS op)))))"

fun say_leaves :: "(string \<times> predicate_op \<times> json option \<Rightarrow> string option) \<Rightarrow> string
    \<Rightarrow> (string \<times> predicate_op \<times> json option) list \<Rightarrow> string option" where
  "say_leaves describe said [] = Some said"
| "say_leaves describe said (leaf # leaves) =
     (case describe leaf of
        None \<Rightarrow> None
      | Some words \<Rightarrow>
          (let longer = (if said \<noteq> [] then said @ '' and '' @ words else words)
           in if length longer > ABILITY_CONDITION_MAX_LENGTH then None else say_leaves describe longer leaves))"

definition conditionWords ::
    "(json \<Rightarrow> string) \<Rightarrow> describe_value \<Rightarrow> ability_collections \<Rightarrow> string \<Rightarrow> predicate \<Rightarrow> string option" where
  "conditionWords json_text describe collections i rows =
     (case conjunction rows of
        None \<Rightarrow> None
      | Some leaves \<Rightarrow> say_leaves (describeLeaf json_text describe collections i) [] leaves)"

definition describeRows ::
    "(json \<Rightarrow> string) \<Rightarrow> describe_value \<Rightarrow> ability_collections \<Rightarrow> string \<Rightarrow> predicate option \<Rightarrow> string" where
  "describeRows json_text describe collections i rows =
     (case rows of
        None \<Rightarrow> []
      | Some p \<Rightarrow>
          (case conditionWords json_text describe collections i p of
             Some said \<Rightarrow> '' where '' @ said
           | None \<Rightarrow> '' that match '' @ digits (countLeaves p) @ (if countLeaves p = 1 then '' condition'' else '' conditions'')))"

definition readSentences ::
    "(json \<Rightarrow> string) \<Rightarrow> describe_value \<Rightarrow> link_input \<Rightarrow> string \<Rightarrow> string \<Rightarrow> collection_grant \<Rightarrow> string list" where
  "readSentences json_text describe inp i nm grant =
     (let condition = describeRows json_text describe (li_collections inp) i (cg_rows grant);
          (shown, hidden) = fieldLists i grant (li_collections inp);
          listed = (if shown \<noteq> [] then '': '' @ listFields shown else []);
          count = (case li_counts inp of Some cs \<Rightarrow> map_of cs i | None \<Rightarrow> None)
      in [LINK_SUBJECT @ '' see '' @ countedRecordsName nm count (cg_rows grant \<noteq> None) @ condition @ listed @ ''.'']
         @ (if hidden \<noteq> [] then [''Hidden: '' @ listFields hidden @ ''.''] else []))"

definition collectionSentences ::
    "(json \<Rightarrow> string) \<Rightarrow> describe_value \<Rightarrow> link_input \<Rightarrow> string \<Rightarrow> collection_grant \<Rightarrow> string list" where
  "collectionSentences json_text describe inp i grant =
     (let nm = collectionName (li_collections inp) i
      in readSentences json_text describe inp i nm grant @ writeSentences i nm grant (li_collections inp))"

definition linkSentences :: "(json \<Rightarrow> string) \<Rightarrow> describe_value \<Rightarrow> link_input \<Rightarrow> string list" where
  "linkSentences json_text describe inp =
     (let granted = (case li_grant inp of Some g \<Rightarrow> grant_collections g | None \<Rightarrow> [])
      in (if granted \<noteq> [] then concat (map (\<lambda>(i, grant). collectionSentences json_text describe inp i grant) granted)
          else [LINK_SUBJECT @ [CHR 0x27] @ ''t see any Records.''])
         @ (case li_grant inp of
              Some g \<Rightarrow> if grant_state g = TeamReadState then [LINK_SUBJECT @ '' see what your team saved in this HTML Doc.''] else []
            | None \<Rightarrow> []))"

datatype abilities_input = ForTool "tool_permissions option" ability_collections | ForLink link_input

definition describeAbilities :: "(json \<Rightarrow> string) \<Rightarrow> describe_value \<Rightarrow> abilities_input \<Rightarrow> string list \<times> string" where
  "describeAbilities json_text describe inp =
     (let sentences = (case inp of ForTool p cs \<Rightarrow> toolSentences p cs | ForLink l \<Rightarrow> linkSentences json_text describe l)
      in (sentences, join_text '' '' sentences))"

section \<open>Intersection\<close>

text \<open>The HTML Doc rule: a collection's own entry replaces \<open>*\<close>.\<close>

definition allows :: "record_permissions \<Rightarrow> string \<Rightarrow> record_action \<Rightarrow> bool" where
  "allows records i a \<longleftrightarrow> says (ownEntry records i) a"

lemma all_actions [simp]: "a \<in> set RECORD_ACTIONS"
  by (cases a) (simp_all add: RECORD_ACTIONS_def)

lemma map_of_granted: "map_of (map (\<lambda>a. (a, True)) xs) a = (if a \<in> set xs then Some True else None)"
  by (induction xs) auto

lemma says_simps [simp]: "says None a = False" "says (Some []) a = False"
  by (simp_all add: says_def)

lemma says_allowedBoth: "says (allowedBoth e f) a \<longleftrightarrow> says e a \<and> says f a"
proof -
  let ?both = "\<lambda>b. says e b \<and> says f b"
  show ?thesis
  proof (cases "filter ?both RECORD_ACTIONS = []")
    case True
    then have "\<not> ?both a" using all_actions [of a] by (metis (mono_tags, lifting) filter_empty_conv)
    with True show ?thesis by (auto simp: allowedBoth_def)
  next
    case False
    then show ?thesis by (simp add: allowedBoth_def says_def map_of_granted Let_def)
  qed
qed

lemma sameActions_iff: "sameActions x y \<longleftrightarrow> (\<forall>a. says (Some x) a = says (Some y) a)"
  by (auto simp: sameActions_def list_all_iff)

definition both_entry :: "record_permissions \<Rightarrow> record_permissions \<Rightarrow> string \<Rightarrow> action_entry" where
  "both_entry req cap i = (case allowedBoth (ownEntry req i) (ownEntry cap i) of Some e \<Rightarrow> e | None \<Rightarrow> [])"

lemma says_both_entry: "says (Some (both_entry req cap i)) a \<longleftrightarrow> allows req i a \<and> allows cap i a"
  using says_allowedBoth [of "ownEntry req i" "ownEntry cap i" a]
  by (cases "allowedBoth (ownEntry req i) (ownEntry cap i)") (simp_all add: both_entry_def allows_def)

lemma map_of_entries:
  "distinct ids \<Longrightarrow> (\<And>i. g i = [] \<or> g i = [(i, f i)]) \<Longrightarrow>
     map_of (concat (map g ids)) i = (if i \<in> set ids \<and> g i \<noteq> [] then Some (f i) else None)"
proof (induction ids)
  case (Cons j ids)
  then show ?case using Cons.prems(2) [of j] by (cases "g j = []") auto
qed simp

lemma intersect_exact:
  fixes req cap :: record_permissions
  defines "both \<equiv> intersectRecordPermissions (Some req) (Some cap)"
  shows "allows both i a \<longleftrightarrow> allows req i a \<and> allows cap i a"
proof -
  let ?w = "allowedBoth (map_of req ''*'') (map_of cap ''*'')"
  let ?ids = "filter (\<lambda>i. i \<noteq> ''*'') (uniq (map fst req @ map fst cap))"
  let ?rest = "concat (map (entry_for ?w req cap) ?ids)"
  have both: "both = (case ?w of Some w \<Rightarrow> [(''*'', w)] | None \<Rightarrow> []) @ ?rest"
    by (simp add: both_def intersectRecordPermissions_def Let_def)
  have entry: "entry_for ?w req cap j = [] \<or> entry_for ?w req cap j = [(j, both_entry req cap j)]" for j
    by (simp add: entry_for_def both_entry_def Let_def split: option.split)
  have rest: "map_of ?rest j = (if j \<in> set ?ids \<and> entry_for ?w req cap j \<noteq> [] then Some (both_entry req cap j) else None)" for j
    by (rule map_of_entries) (simp_all add: entry del: set_filter)
  have star: "map_of both ''*'' = ?w" using rest [of "''*''"] by (cases ?w) (simp_all add: both)
  have other: "map_of both j = map_of ?rest j" if "j \<noteq> ''*''" for j
    using that by (cases ?w) (simp_all add: both)
  have star_says: "says ?w a \<longleftrightarrow> says (map_of req ''*'') a \<and> says (map_of cap ''*'') a" by (rule says_allowedBoth)
  show ?thesis
  proof (cases "i = ''*''")
    case True
    then show ?thesis using star star_says by (auto simp: allows_def ownEntry_def split: option.split)
  next
    case False
    show ?thesis
    proof (cases "i \<in> set (map fst req) \<union> set (map fst cap)")
      case True
      with False have known: "i \<in> set ?ids" by simp
      show ?thesis
      proof (cases "entry_for ?w req cap i = []")
        case True
        have "says ?w a \<longleftrightarrow> says (Some (both_entry req cap i)) a"
        proof (cases ?w)
          case None
          with True have "both_entry req cap i = []"
            by (simp add: entry_for_def both_entry_def Let_def split: if_splits)
          with None show ?thesis by simp
        next
          case (Some w)
          with True have "sameActions (both_entry req cap i) w"
            by (simp add: entry_for_def both_entry_def Let_def split: if_splits)
          with Some show ?thesis by (simp add: sameActions_iff)
        qed
        with True star other [OF False] rest [of i] show ?thesis
          by (simp add: allows_def [of both] ownEntry_def says_both_entry)
      next
        case own: False
        with known other [OF False] rest [of i] show ?thesis
          by (simp add: allows_def [of both] ownEntry_def says_both_entry del: set_filter)
      qed
    next
      case unknown: False
      then have "map_of req i = None" "map_of cap i = None" by (auto simp: map_of_eq_None_iff)
      moreover have "map_of both i = None" using unknown other [OF False] rest [of i] by simp
      ultimately show ?thesis using star star_says by (simp add: allows_def ownEntry_def)
    qed
  qed
qed

section \<open>Sentences\<close>

lemma conjunction_count: "conjunction p = Some leaves \<Longrightarrow> length leaves = countLeaves p"
proof (induction p arbitrary: leaves)
  case (And ps)
  then have all: "\<And>p. p \<in> set ps \<Longrightarrow> \<exists>ls. conjunction p = Some ls" and leaves: "leaves = concat (map (\<lambda>p. the (conjunction p)) ps)"
    by (auto simp: list_all_iff split: if_splits)
  have "length (the (conjunction p)) = countLeaves p" if "p \<in> set ps" for p
    using all [OF that] And.IH [OF that] by auto
  then show ?case by (simp add: leaves length_concat comp_def cong: map_cong)
qed (auto split: if_splits)

lemma describeLeaf_nonempty: "describeLeaf json_text describe collections i leaf = Some words \<Longrightarrow> words \<noteq> []"
  by (cases leaf)
    (auto simp: describeLeaf_def Let_def split: if_splits option.splits predicate_op.splits)

text \<open>Every leaf's words are said, in order, and the whole stays within the limit.\<close>

lemma say_leaves_all:
  assumes "\<And>leaf words. describe leaf = Some words \<Longrightarrow> words \<noteq> []"
  shows "say_leaves describe said leaves = Some t \<Longrightarrow> length said \<le> ABILITY_CONDITION_MAX_LENGTH \<Longrightarrow>
    \<exists>words. map describe leaves = map Some words \<and> length t \<le> ABILITY_CONDITION_MAX_LENGTH
      \<and> t = join_text '' and '' (if said = [] then words else said # words)"
proof (induction leaves arbitrary: said)
  case (Cons leaf leaves)
  then obtain w where w: "describe leaf = Some w" by (cases "describe leaf") auto
  with assms have "w \<noteq> []" by blast
  let ?longer = "if said \<noteq> [] then said @ '' and '' @ w else w"
  have fits: "length ?longer \<le> ABILITY_CONDITION_MAX_LENGTH" and rest: "say_leaves describe ?longer leaves = Some t"
    using Cons.prems(1) w by (simp_all add: Let_def split: if_splits)
  from Cons.IH [OF rest fits] \<open>w \<noteq> []\<close> obtain words where
    "map describe leaves = map Some words" "length t \<le> ABILITY_CONDITION_MAX_LENGTH" "t = join_text '' and '' (?longer # words)"
    by (auto split: if_splits)
  moreover have "join_text '' and '' (?longer # words) = join_text '' and '' (if said = [] then w # words else said # w # words)"
    by (cases words) simp_all
  ultimately show ?case using w by (intro exI [of _ "w # words"]) simp
qed simp

section \<open>Properties\<close>


text \<open>
  When a link's row condition is put in words, none of it is left out: the words are those of
  every leaf of the tree, in order, joined by and; and they keep to the length limit.
\<close>

lemma condition_words_complete:
  assumes "conditionWords json_text describe collections i rows = Some t"
  shows "\<exists>leaves words. conjunction rows = Some leaves \<and> length leaves = countLeaves rows
    \<and> map (describeLeaf json_text describe collections i) leaves = map Some words
    \<and> t = join_text '' and '' words \<and> length t \<le> 160"
proof -
  from assms obtain leaves where leaves: "conjunction rows = Some leaves"
      "say_leaves (describeLeaf json_text describe collections i) [] leaves = Some t"
    by (auto simp: conditionWords_def split: option.splits)
  from say_leaves_all [where describe = "describeLeaf json_text describe collections i", OF _ leaves(2)] describeLeaf_nonempty
  obtain words where "map (describeLeaf json_text describe collections i) leaves = map Some words"
      "length t \<le> ABILITY_CONDITION_MAX_LENGTH" "t = join_text '' and '' words" by fastforce
  with leaves(1) conjunction_count [OF leaves(1)] show ?thesis
    unfolding ABILITY_CONDITION_MAX_LENGTH_def by blast
qed

end
