(* ===== verification/LinkGrants.thy ===== *)
theory LinkGrants
  imports Abilities
begin

text \<open>
  What a tool may read and what a share link opens:
  \<open>packages/server/src/widget-runtime-policy.ts\<close> and \<open>packages/server/src/link-grant.ts\<close>.

  The tool check reads its permissions by plain property access, so an id that names a property
  of every object finds that property. \<open>queryTargetCollections\<close> and the live schemas come
  from the record store and are arguments.
\<close>

section \<open>Property access on an object\<close>

text \<open>
  The names every plain object inherits. Their values are functions, or the prototype itself; of
  the four actions, one of them has one: \<open>constructor\<close> is \<open>Object\<close>, and
  \<open>Object.create\<close> exists.
\<close>

definition OBJECT_PROTOTYPE :: "(string \<times> action_entry) list" where
  "OBJECT_PROTOTYPE =
     [(''constructor'', [(CreateRecords, True)]), (''__defineGetter__'', []), (''__defineSetter__'', []),
      (''hasOwnProperty'', []), (''__lookupGetter__'', []), (''__lookupSetter__'', []), (''isPrototypeOf'', []),
      (''propertyIsEnumerable'', []), (''toString'', []), (''valueOf'', []), (''__proto__'', []), (''toLocaleString'', [])]"

definition in_prototype :: "string \<Rightarrow> bool" where
  "in_prototype k \<longleftrightarrow> k \<in> set (map fst OBJECT_PROTOTYPE)"

definition property :: "record_permissions \<Rightarrow> string \<Rightarrow> action_entry option" where
  "property records k = (case map_of records k of Some e \<Rightarrow> Some e | None \<Rightarrow> map_of OBJECT_PROTOTYPE k)"

section \<open>What a tool may do\<close>

definition canWidgetRecord :: "record_permissions option \<Rightarrow> string \<Rightarrow> record_action \<Rightarrow> bool" where
  "canWidgetRecord records collectionId action =
     (case records of
        None \<Rightarrow> False
      | Some r \<Rightarrow>
          says (case property r collectionId of Some e \<Rightarrow> Some e | None \<Rightarrow> property r ''*'') action)"

definition deniedWidgetQueryCollection ::
    "(string \<Rightarrow> 'q \<Rightarrow> string list) \<Rightarrow> record_permissions option \<Rightarrow> string \<Rightarrow> 'q \<Rightarrow> string option" where
  "deniedWidgetQueryCollection queryTargetCollections records collectionId query =
     (if \<not> canWidgetRecord records collectionId ReadRecords then Some collectionId
      else List.find (\<lambda>target. \<not> canWidgetRecord records target ReadRecords) (queryTargetCollections collectionId query))"

text \<open>\<open>Inl\<close> is the thrown \<open>WidgetRecordAccessError\<close>.\<close>

definition widgetRecordReadGuard :: "record_permissions option \<Rightarrow> string \<Rightarrow> string + unit" where
  "widgetRecordReadGuard records collectionId =
     (if canWidgetRecord records collectionId ReadRecords then Inr () else Inl collectionId)"

text \<open>
  The page's policy header. The origin's font address, \<open>new URL(..., fontOrigin).href\<close>, is
  the second argument.
\<close>

definition buildWidgetCsp :: "bool \<Rightarrow> string option \<Rightarrow> string" where
  "buildWidgetCsp network_open fontHref =
     (let q = (\<lambda>w. CHR 0x27 # w @ [CHR 0x27])
      in join_text ''; ''
        [''sandbox allow-scripts'',
         ''default-src '' @ q ''none'',
         ''script-src '' @ q ''unsafe-inline'',
         ''style-src '' @ q ''unsafe-inline'',
         ''img-src data: blob:'',
         ''font-src data:'' @ (case fontHref of Some h \<Rightarrow> '' '' @ h | None \<Rightarrow> []),
         (if network_open then ''connect-src '' @ q ''self'' @ '' ws: wss: https:'' else ''connect-src '' @ q ''self''),
         ''frame-ancestors '' @ q ''self'',
         ''base-uri '' @ q ''none'',
         ''form-action '' @ q ''none''])"

section \<open>What a link reads\<close>

record widget_permissions =
  wp_records :: "record_permissions option"
  state_read :: "bool option"

datatype records_policy = RecordsScoped | RecordsOff

definition effectiveLinkGrant :: "link_grant \<Rightarrow> widget_permissions option \<Rightarrow> records_policy \<Rightarrow> link_grant" where
  "effectiveLinkGrant grant permissions policy =
     grant\<lparr>grant_collections := filter (\<lambda>(collectionId, collection).
              policy = RecordsScoped
              \<and> canWidgetRecord (case permissions of Some p \<Rightarrow> wp_records p | None \<Rightarrow> None) collectionId ReadRecords
              \<and> writes collection = None) (grant_collections grant),
           grant_state :=
             (if grant_state grant = TeamReadState
                 \<and> (case permissions of None \<Rightarrow> True | Some p \<Rightarrow> state_read p = Some False)
              then VisitorState else grant_state grant)\<rparr>"

section \<open>Checking a grant against live schemas\<close>

definition VIEW_RECORD_KEYS :: "string list" where
  "VIEW_RECORD_KEYS = [''id'', ''version'', ''kind'', ''collectionId'', ''createdAt'', ''updatedAt'', ''data'']"

definition isRecordKey :: "string \<Rightarrow> bool" where
  "isRecordKey k \<longleftrightarrow> k \<in> set VIEW_RECORD_KEYS \<or> in_prototype k"

definition RECORD_FIELD_TYPES :: "string list" where
  "RECORD_FIELD_TYPES =
     [''string'', ''number'', ''boolean'', ''date'', ''datetime'', ''enum'', ''json'', ''reference'',
      ''text'', ''url'', ''email'', ''person'', ''select'', ''multi_select'', ''relation'', ''document'', ''file'']"

datatype grant_problem =
    NoCollection | NoField string | RecordKey string | DocumentField string | FileField string | UnknownType string
  | OutsideRelation string | ConditionPath string | ConditionNoField string | ConditionInherited string
  | ConditionType string string | ConditionInvalid shape_error | WritesReserved

fun forEachLeaf :: "predicate \<Rightarrow> string list" where
  "forEachLeaf (And ps) = concat (map forEachLeaf ps)"
| "forEachLeaf (Or ps) = concat (map forEachLeaf ps)"
| "forEachLeaf (Not p) = forEachLeaf p"
| "forEachLeaf (Leaf fld op v) = [fld]"

definition typeOf :: "field_map \<Rightarrow> string \<Rightarrow> string option" where
  "typeOf flds k = map_option (\<lambda>spec. normalizeRecordFieldType (fs_type spec)) (map_of flds k)"

definition field_problem :: "link_grant \<Rightarrow> field_map \<Rightarrow> string \<Rightarrow> grant_problem option" where
  "field_problem grant flds k =
     (case map_of flds k of
        None \<Rightarrow> Some (NoField k)
      | Some spec \<Rightarrow>
          if isRecordKey k then Some (RecordKey k)
          else if typeOf flds k = Some ''document'' then Some (DocumentField k)
          else if typeOf flds k = Some ''file'' then Some (FileField k)
          else if fs_type spec \<notin> set RECORD_FIELD_TYPES then Some (UnknownType k)
          else if typeOf flds k = Some ''relation''
                  \<and> (case references spec of
                       None \<Rightarrow> True
                     | Some c \<Rightarrow> c = [] \<or> c \<notin> set (map fst (grant_collections grant)))
          then Some (OutsideRelation k)
          else None)"

definition condition_problem :: "field_map \<Rightarrow> string \<Rightarrow> grant_problem option" where
  "condition_problem flds leaf =
     (if leaf = ''id'' then None
      else if CHR ''.'' \<in> set leaf then Some (ConditionPath leaf)
      else if leaf = ''data'' \<or> map_of flds leaf = None then Some (ConditionNoField leaf)
      else if in_prototype leaf then Some (ConditionInherited leaf)
      else if typeOf flds leaf = Some ''document'' \<or> typeOf flds leaf = Some ''file''
      then Some (ConditionType leaf (the (typeOf flds leaf)))
      else None)"

definition rows_problems :: "field_map \<Rightarrow> predicate option \<Rightarrow> grant_problem list" where
  "rows_problems flds rows =
     (case rows of
        None \<Rightarrow> []
      | Some p \<Rightarrow>
          (case parsePredicate (Some flds) 0 (predicate_json p) of
             Inl e \<Rightarrow> [ConditionInvalid e]
           | Inr q \<Rightarrow> List.map_filter (condition_problem flds) (forEachLeaf q)))"

definition collection_problems :: "link_grant \<Rightarrow> (string \<rightharpoonup> field_map) \<Rightarrow> string \<times> collection_grant \<Rightarrow> grant_problem list" where
  "collection_problems grant schemas c =
     (case schemas (fst c) of
        None \<Rightarrow> [NoCollection]
      | Some flds \<Rightarrow>
          List.map_filter (field_problem grant flds) (cg_fields (snd c))
          @ rows_problems flds (cg_rows (snd c))
          @ (if writes (snd c) \<noteq> None then [WritesReserved] else []))"

definition validateLinkGrant :: "link_grant \<Rightarrow> (string \<rightharpoonup> field_map) \<Rightarrow> (string \<times> grant_problem) list" where
  "validateLinkGrant grant schemas =
     concat (map (\<lambda>c. map (\<lambda>problem. (fst c, problem)) (collection_problems grant schemas c)) (grant_collections grant))"

definition readLinkGrantSchemas :: "(string \<Rightarrow> field_map option) \<Rightarrow> link_grant \<Rightarrow> (string \<rightharpoonup> field_map)" where
  "readLinkGrantSchemas readRecordCollectionSchema grant =
     (\<lambda>i. if i \<in> set (map fst (grant_collections grant)) then readRecordCollectionSchema i else None)"

section \<open>Properties\<close>

lemma can_iff_allows: "\<not> in_prototype i \<Longrightarrow> canWidgetRecord (Some r) i a \<longleftrightarrow> allows r i a"
proof -
  assume "\<not> in_prototype i"
  then have "map_of OBJECT_PROTOTYPE i = None" by (simp add: in_prototype_def map_of_eq_None_iff)
  moreover have "map_of OBJECT_PROTOTYPE ''*'' = None" by (simp add: OBJECT_PROTOTYPE_def)
  ultimately show ?thesis
    by (cases "map_of r i"; cases "map_of r ''*''")
      (simp_all add: canWidgetRecord_def property_def allows_def ownEntry_def)
qed

text \<open>
  Intersecting a tool's requested permissions with a ceiling allows in each collection exactly
  what both allow, as the tool check reads them, for every id that is not a property of all objects.
\<close>

lemma intersection_exact:
  assumes "\<not> in_prototype i"
  shows "canWidgetRecord (Some (intersectRecordPermissions (Some req) (Some cap))) i a \<longleftrightarrow>
     canWidgetRecord (Some req) i a \<and> canWidgetRecord (Some cap) i a"
  unfolding can_iff_allows [OF assms] by (rule intersect_exact)

definition readable :: "link_grant \<Rightarrow> field_map \<Rightarrow> string \<Rightarrow> bool" where
  "readable grant flds k \<longleftrightarrow>
     (\<exists>spec. map_of flds k = Some spec \<and> \<not> isRecordKey k \<and> typeOf flds k \<noteq> Some ''document'' \<and> typeOf flds k \<noteq> Some ''file''
       \<and> (typeOf flds k = Some ''relation'' \<longrightarrow> (\<exists>c \<in> set (map fst (grant_collections grant)). references spec = Some c)))"

definition judged_by_own_field :: "field_map \<Rightarrow> string \<Rightarrow> bool" where
  "judged_by_own_field flds leaf \<longleftrightarrow>
     leaf = ''id'' \<or> CHR ''.'' \<notin> set leaf \<and> map_of flds leaf \<noteq> None
        \<and> typeOf flds leaf \<noteq> Some ''document'' \<and> typeOf flds leaf \<noteq> Some ''file''"

lemma field_problem_None: "field_problem grant flds k = None \<Longrightarrow> readable grant flds k"
  by (auto simp: field_problem_def readable_def split: option.splits if_splits)

lemma condition_problem_None: "condition_problem flds leaf = None \<Longrightarrow> judged_by_own_field flds leaf"
  by (auto simp: condition_problem_def judged_by_own_field_def split: if_splits)

lemma map_filter_Nil: "List.map_filter f xs = [] \<longleftrightarrow> (\<forall>x \<in> set xs. f x = None)"
  by (induction xs) (auto simp: List.map_filter_simps split: option.splits)

lemma rows_problems_Nil:
  assumes "rows_problems flds (Some p) = []" "predicateSchemaAt 0 p"
  shows "\<forall>leaf \<in> set (forEachLeaf p). judged_by_own_field flds leaf"
  using assms(1) parse_predicate_json [OF assms(2), of "Some flds"] condition_problem_None
  by (auto simp: rows_problems_def map_filter_Nil)


definition sample_collection :: collection_grant where
  "sample_collection = \<lparr>cg_rows = Some (Leaf ''stage'' OpEq (Some (JStr ''Won''))), cg_fields = [''stage''], timestamps = True, writes = None\<rparr>"

definition sample_grant :: link_grant where
  "sample_grant = \<lparr>grant_collections = [(''deals'', sample_collection)],
     grant_limits = \<lparr>rowsPerQuery = 200, queriesPerMinute = 120, rowsPerHour = 10000\<rparr>, grant_state = VisitorState\<rparr>"

definition sample_fields :: field_map where
  "sample_fields = [(''stage'', \<lparr>fs_type = ''select'', fs_name = None, fs_required = False, fs_values = None, references = None, many = False\<rparr>)]"

definition sample_permissions :: widget_permissions where
  "sample_permissions = \<lparr>wp_records = Some [(''*'', [(ReadRecords, True)])], state_read = None\<rparr>"


text \<open>
  The tool check and the HTML Doc rule part on ids every object inherits: without an entry of
  its own, a collection called constructor may be created in by a tool with no permission at all,
  and a \<open>*\<close> entry does not open it to anything else.
\<close>

lemma constructor_slips_through:
  "canWidgetRecord (Some records) ''constructor'' a \<longleftrightarrow>
     (case map_of records ''constructor'' of Some e \<Rightarrow> says (Some e) a | None \<Rightarrow> a = CreateRecords)"
  by (cases a) (simp_all add: canWidgetRecord_def property_def OBJECT_PROTOTYPE_def says_def split: option.split)

end
