(* ===== verification/RecordValues.thy ===== *)
theory RecordValues
  imports RecordPredicates
begin

text \<open>
  Values of records and how they compare, the first half of
  \<open>packages/server/src/record-query.ts\<close>: comparison keys, the order of one field's values, free-text
  search and field access.

  Of the JavaScript library the code uses functions whose results depend on Unicode tables, locale data or
  number formats. The record \<open>js_library\<close> holds them, and every definition that uses one takes it. A
  comparison is used for its sign only: \<open>Some\<close> of it, or \<open>None\<close> for NaN. Field names here are
  none of the names every object inherits.
\<close>

section \<open>The library\<close>

datatype js_number = NaN | PosInfinity | NegInfinity | Finite rat

record js_library =
  toLowerCase :: "string \<Rightarrow> string"
  localeCompare :: "string \<Rightarrow> string \<Rightarrow> int"
  dateParse :: "string \<Rightarrow> int option"
  stringToNumber :: "string \<Rightarrow> js_number"
  numberToString :: "rat \<Rightarrow> string"
  numberAdd :: "js_number \<Rightarrow> js_number \<Rightarrow> js_number"
  numberDivide :: "js_number \<Rightarrow> js_number \<Rightarrow> js_number"
  stringify :: "json \<Rightarrow> string"
  cursorText :: "json list \<times> string \<Rightarrow> string"
  cursorParse :: "string \<Rightarrow> (json list \<times> string) option"

definition contains_text :: "string \<Rightarrow> string \<Rightarrow> bool" where
  "contains_text s needle \<longleftrightarrow> sublist needle s"

text \<open>\<open>String(value)\<close>: a list joins its entries with commas, a missing one as nothing.\<close>

fun js_String :: "js_library \<Rightarrow> json \<Rightarrow> string" where
  "js_String lib JNull = ''null''"
| "js_String lib (JBool b) = (if b then ''true'' else ''false'')"
| "js_String lib (JNum n) = numberToString lib n"
| "js_String lib (JStr s) = s"
| "js_String lib (JArr vs) = join_with (CHR '','') (map (\<lambda>v. if v = JNull then [] else js_String lib v) vs)"
| "js_String lib (JObj fs) = ''[object Object]''"

fun js_Number :: "js_library \<Rightarrow> json \<Rightarrow> js_number" where
  "js_Number lib JNull = Finite 0"
| "js_Number lib (JBool b) = Finite (if b then 1 else 0)"
| "js_Number lib (JNum n) = Finite n"
| "js_Number lib v = stringToNumber lib (js_String lib v)"

section \<open>Comparison keys\<close>

datatype comparable = NumKey js_number | StrKey string

definition digit :: "char \<Rightarrow> bool" where
  "digit c \<longleftrightarrow> CHR ''0'' \<le> c \<and> c \<le> CHR ''9''"

text \<open>\<open>/^\d{4}-\d{2}-\d{2}/\<close>.\<close>

definition date_like :: "string \<Rightarrow> bool" where
  "date_like s \<longleftrightarrow>
     length s \<ge> 10 \<and> list_all digit (take 4 s) \<and> s ! 4 = CHR ''-'' \<and> list_all digit (take 2 (drop 5 s))
     \<and> s ! 7 = CHR ''-'' \<and> list_all digit (take 2 (drop 8 s))"

definition string_key :: "js_library \<Rightarrow> string option \<Rightarrow> string \<Rightarrow> comparable" where
  "string_key lib fieldType s =
     (if fieldType = Some ''number'' \<and> stringToNumber lib s \<noteq> NaN then NumKey (stringToNumber lib s)
      else if fieldType \<in> {Some ''date'', Some ''datetime''} \<and> dateParse lib s \<noteq> None
      then NumKey (Finite (of_int (the (dateParse lib s))))
      else if (fieldType = None \<or> fieldType = Some []) \<and> trim s \<noteq> []
              \<and> (case stringToNumber lib s of Finite n \<Rightarrow> True | _ \<Rightarrow> False)
      then NumKey (stringToNumber lib s)
      else if (fieldType = None \<or> fieldType = Some []) \<and> date_like (trim s) \<and> dateParse lib s \<noteq> None
      then NumKey (Finite (of_int (the (dateParse lib s))))
      else StrKey (toLowerCase lib s))"

definition toComparable :: "js_library \<Rightarrow> string option \<Rightarrow> json option \<Rightarrow> comparable" where
  "toComparable lib fieldType v =
     (case v of
        None \<Rightarrow> StrKey []
      | Some JNull \<Rightarrow> StrKey []
      | Some (JNum n) \<Rightarrow> NumKey (Finite n)
      | Some (JBool b) \<Rightarrow> NumKey (Finite (if b then 1 else 0))
      | Some w \<Rightarrow> string_key lib fieldType (js_String lib w))"

text \<open>The sign of \<open>a - b\<close>; the difference of two equal infinities is NaN, as with a NaN.\<close>

fun number_order :: "js_number \<Rightarrow> js_number \<Rightarrow> int option" where
  "number_order (Finite a) (Finite b) = Some (if a < b then -1 else if a = b then 0 else 1)"
| "number_order (Finite a) PosInfinity = Some (-1)"
| "number_order (Finite a) NegInfinity = Some 1"
| "number_order PosInfinity (Finite b) = Some 1"
| "number_order PosInfinity NegInfinity = Some 1"
| "number_order NegInfinity (Finite b) = Some (-1)"
| "number_order NegInfinity PosInfinity = Some (-1)"
| "number_order _ _ = None"

fun number_text :: "js_library \<Rightarrow> js_number \<Rightarrow> string" where
  "number_text lib NaN = ''NaN''"
| "number_text lib PosInfinity = ''Infinity''"
| "number_text lib NegInfinity = ''-Infinity''"
| "number_text lib (Finite n) = numberToString lib n"

definition key_text :: "js_library \<Rightarrow> comparable \<Rightarrow> string" where
  "key_text lib k = (case k of NumKey n \<Rightarrow> number_text lib n | StrKey s \<Rightarrow> s)"

definition compareComparable :: "js_library \<Rightarrow> comparable \<Rightarrow> comparable \<Rightarrow> int option" where
  "compareComparable lib a b =
     (case (a, b) of
        (NumKey m, NumKey n) \<Rightarrow> number_order m n
      | _ \<Rightarrow> Some (sgn (localeCompare lib (key_text lib a) (key_text lib b))))"

definition compareForOrder :: "js_library \<Rightarrow> string option \<Rightarrow> json option \<Rightarrow> json option \<Rightarrow> int option" where
  "compareForOrder lib fieldType a b = compareComparable lib (toComparable lib fieldType a) (toComparable lib fieldType b)"

text \<open>Only the types \<open>toComparable\<close> understands are a hint.\<close>

definition normalizeType :: "string \<Rightarrow> string option" where
  "normalizeType type =
     (let normalized = normalizeRecordFieldType type
      in if normalized \<in> {''number'', ''date'', ''datetime''} then Some normalized else None)"

definition isMissing :: "json option \<Rightarrow> bool" where
  "isMissing v \<longleftrightarrow> v = None \<or> v = Some JNull"

fun index_of :: "'a \<Rightarrow> 'a list \<Rightarrow> nat option" where
  "index_of x [] = None"
| "index_of x (y # ys) = (if x = y then Some 0 else map_option Suc (index_of x ys))"

definition select_rank :: "js_library \<Rightarrow> string list \<Rightarrow> json option \<Rightarrow> int" where
  "select_rank lib values v =
     (if isMissing v \<or> v = Some (JStr []) then -1
      else (case index_of (js_String lib (the v)) values of None \<Rightarrow> int (length values) | Some i \<Rightarrow> int i))"

definition select_values :: "field_spec option \<Rightarrow> string list option" where
  "select_values spec =
     (case spec of
        None \<Rightarrow> None
      | Some s \<Rightarrow> if normalizeRecordFieldType (fs_type s) = ''select'' then fs_values s else None)"

definition compareFieldValues :: "js_library \<Rightarrow> field_spec option \<Rightarrow> json option \<Rightarrow> json option \<Rightarrow> int option" where
  "compareFieldValues lib spec a b =
     (let values = (case select_values spec of Some vs \<Rightarrow> vs | None \<Rightarrow> []);
          byRank = (if values \<noteq> [] then select_rank lib values a - select_rank lib values b else 0)
      in if byRank \<noteq> 0 then Some (sgn byRank)
         else compareForOrder lib (Option.bind spec (\<lambda>s. normalizeType (fs_type s))) a b)"

section \<open>Records\<close>

text \<open>A record file: its id, its data and the other keys of its envelope.\<close>

record record_file =
  rec_id :: string
  rec_data :: json_object
  rec_envelope :: json_object

definition fieldValue :: "record_file \<Rightarrow> string \<Rightarrow> json option" where
  "fieldValue r key =
     (if key = ''id'' then Some (JStr (rec_id r))
      else if key = ''data'' then Some (JObj (rec_data r))
      else (case map_of (rec_envelope r) key of Some v \<Rightarrow> Some v | None \<Rightarrow> map_of (rec_data r) key))"

text \<open>The stack of values still to look at, its top first.\<close>

fun json_size :: "json \<Rightarrow> nat" where
  "json_size (JArr vs) = Suc (sum_list (map json_size vs))"
| "json_size (JObj fs) = Suc (sum_list (map (\<lambda>(k, v). json_size v) fs))"
| "json_size _ = 1"

definition scalar_matches :: "js_library \<Rightarrow> string \<Rightarrow> json \<Rightarrow> bool" where
  "scalar_matches lib lowered v =
     (case v of
        JStr s \<Rightarrow> contains_text (toLowerCase lib s) lowered
      | JNum n \<Rightarrow> contains_text (toLowerCase lib (js_String lib v)) lowered
      | JBool b \<Rightarrow> contains_text (toLowerCase lib (js_String lib v)) lowered
      | _ \<Rightarrow> False)"

definition children :: "json \<Rightarrow> json list" where
  "children v = (case v of JArr vs \<Rightarrow> vs | JObj fs \<Rightarrow> map snd fs | _ \<Rightarrow> [])"

lemma json_size_children: "json_size v = Suc (sum_list (map json_size (children v)))"
  by (cases v) (simp_all add: children_def comp_def case_prod_unfold)

function search_stack :: "js_library \<Rightarrow> string \<Rightarrow> json list \<Rightarrow> bool" where
  "search_stack lib lowered [] = False"
| "search_stack lib lowered (v # pending) =
     (if scalar_matches lib lowered v then True else search_stack lib lowered (rev (children v) @ pending))"
  by pat_completeness auto

termination
  by (relation "measure (\<lambda>(lib, lowered, pending). sum_list (map json_size pending))")
    (simp_all add: json_size_children [of v for v] rev_map [symmetric] sum_list_rev)

definition recordMatchesSearch :: "js_library \<Rightarrow> string \<Rightarrow> record_file \<Rightarrow> bool" where
  "recordMatchesSearch lib needle r = search_stack lib (toLowerCase lib needle) (rev (map snd (rec_data r)))"

end
