(* ===== verification/RecordQuery.thy ===== *)
theory RecordQuery
  imports RecordValues
begin

text \<open>
  Record queries, the second half of \<open>packages/server/src/record-query.ts\<close>: which collections a
  query reaches, evaluation of conditions, sorting, pages and their cursors, groups, and the pipeline of
  \<open>runQueryV2\<close>.

  The rows, the resolvers of other collections and the resolver of document paths are the caller's. A
  resolver that throws answers \<open>None\<close>. Objects keep the order their keys were set in.
\<close>

section \<open>Queries\<close>

datatype sort_direction = Asc | Desc
datatype order_by = OrderField string | OrderKeys "(string \<times> sort_direction option) list"
datatype aggregate_fn = AggCount | AggUnique | AggSum | AggAvg | AggMin | AggMax
datatype projection = WholeRecord | Fields "string list"

record aggregate_spec =
  groupBy :: "string option"
  agg_select :: "(string \<times> aggregate_fn \<times> string option) list"

record record_query =
  q_where :: "json_object option"
  q_search :: "string option"
  q_orderBy :: "order_by option"
  q_order :: "sort_direction option"
  q_limit :: "nat option"
  q_expand :: "(string \<times> projection) list option"
  q_backlinks :: "(string \<times> string) option"
  q_aggregate :: "aggregate_spec option"
  q_select :: "string list option"
  q_cursor :: "string option"

datatype query_error = Shape shape_error | InvalidCursor | AggregateNeedsField aggregate_fn | ResolverThrew

type_synonym rows_by_id = "(string \<times> record_file) list"

section \<open>Collections a query reaches\<close>

definition spec_of :: "field_map option \<Rightarrow> string \<Rightarrow> field_spec option" where
  "spec_of flds name = Option.bind flds (\<lambda>fs. map_of fs name)"

definition relationTarget :: "field_map option \<Rightarrow> string \<Rightarrow> string option" where
  "relationTarget flds name =
     (case spec_of flds name of
        None \<Rightarrow> None
      | Some s \<Rightarrow>
          if normalizeRecordFieldType (fs_type s) \<noteq> ''relation'' then None
          else (case references s of None \<Rightarrow> None | Some c \<Rightarrow> if c = [] then None else Some c))"

fun leaf_fields :: "predicate \<Rightarrow> string list" where
  "leaf_fields (And ps) = concat (map leaf_fields ps)"
| "leaf_fields (Or ps) = concat (map leaf_fields ps)"
| "leaf_fields (Not p) = leaf_fields p"
| "leaf_fields (Leaf fld op v) = [fld]"

definition path_target :: "field_map option \<Rightarrow> string \<Rightarrow> string option" where
  "path_target flds path =
     (if CHR ''.'' \<in> set path then relationTarget flds (hd (split_on (CHR ''.'') path)) else None)"

text \<open>What the condition of a query means as a tree: nothing where it is absent or has no keys.\<close>

definition where_tree :: "record_query \<Rightarrow> field_map option \<Rightarrow> json option" where
  "where_tree q flds =
     (case q_where q of
        None \<Rightarrow> None
      | Some w \<Rightarrow> if isPredicateTree w flds then Some (JObj w) else flatWhereToPredicate w)"

definition query_predicate :: "record_query \<Rightarrow> field_map option \<Rightarrow> query_error + predicate option" where
  "query_predicate q flds =
     (case where_tree q flds of
        None \<Rightarrow> Inr None
      | Some tree \<Rightarrow> (case parsePredicate flds 0 tree of Inl e \<Rightarrow> Inl (Shape e) | Inr p \<Rightarrow> Inr (Some p)))"

definition referencedCollections :: "record_query \<Rightarrow> field_map option \<Rightarrow> query_error + string list" where
  "referencedCollections q flds =
     (case query_predicate q flds of
        Inl e \<Rightarrow> Inl e
      | Inr p \<Rightarrow>
          Inr (uniq
            (List.map_filter (\<lambda>(name, pr). relationTarget flds name) (case q_expand q of Some es \<Rightarrow> es | None \<Rightarrow> [])
             @ (case q_backlinks q of Some (c, f) \<Rightarrow> [c] | None \<Rightarrow> [])
             @ (case p of Some p \<Rightarrow> List.map_filter (path_target flds) (leaf_fields p) | None \<Rightarrow> []))))"

section \<open>Conditions\<close>

record eval_context =
  cx_fields :: "field_map option"
  cx_targets :: "(string \<times> rows_by_id) list"
  cx_targetFields :: "(string \<times> field_map option) list"
  cx_resolvePath :: "(string \<Rightarrow> string) option"

record path_values =
  pv_values :: "json option list"
  pv_type :: "string option"
  pv_document :: bool

definition typed_values :: "json option list \<Rightarrow> field_spec option \<Rightarrow> path_values" where
  "typed_values vs spec =
     \<lparr>pv_values = vs, pv_type = Option.bind spec (\<lambda>s. normalizeType (fs_type s)),
      pv_document = (case spec of Some s \<Rightarrow> normalizeRecordFieldType (fs_type s) = ''document'' | None \<Rightarrow> False)\<rparr>"

definition related_ids :: "json option \<Rightarrow> json list" where
  "related_ids v = (case v of Some (JArr vs) \<Rightarrow> vs | Some (JStr s) \<Rightarrow> [JStr s] | _ \<Rightarrow> [])"

definition target_of :: "rows_by_id \<Rightarrow> json \<Rightarrow> record_file option" where
  "target_of rows v = (case v of JStr i \<Rightarrow> map_of rows i | _ \<Rightarrow> None)"

definition pathValues :: "record_file \<Rightarrow> string \<Rightarrow> eval_context \<Rightarrow> path_values" where
  "pathValues r path ctx =
     (if CHR ''.'' \<notin> set path then typed_values [fieldValue r path] (spec_of (cx_fields ctx) path)
      else
        (let parts = split_on (CHR ''.'') path; head = hd parts; rest = join_with (CHR ''.'') (tl parts)
         in case relationTarget (cx_fields ctx) head of
              None \<Rightarrow> \<lparr>pv_values = [], pv_type = None, pv_document = False\<rparr>
            | Some c \<Rightarrow>
                (case map_of (cx_targets ctx) c of
                   None \<Rightarrow> \<lparr>pv_values = [], pv_type = None, pv_document = False\<rparr>
                 | Some rows \<Rightarrow>
                     typed_values
                       (map (\<lambda>t. fieldValue t rest) (List.map_filter (target_of rows) (related_ids (map_of (rec_data r) head))))
                       (spec_of (Option.bind (map_of (cx_targetFields ctx) c) id) rest))))"

definition isEmptyValue :: "json option \<Rightarrow> bool" where
  "isEmptyValue v \<longleftrightarrow> isMissing v \<or> v = Some (JStr []) \<or> v = Some (JArr [])"

definition equivalent :: "bool \<Rightarrow> (string \<Rightarrow> string) option \<Rightarrow> json option \<Rightarrow> json option \<Rightarrow> bool" where
  "equivalent document resolve a b =
     (case (document, resolve, a, b) of
        (True, Some f, Some (JStr s), Some (JStr t)) \<Rightarrow> f s = f t
      | _ \<Rightarrow> strict_eq a b)"

definition contains_value :: "js_library \<Rightarrow> bool \<Rightarrow> (string \<Rightarrow> string) option \<Rightarrow> string \<Rightarrow> json option \<Rightarrow> bool" where
  "contains_value lib document resolve needle v =
     (let shown = (\<lambda>e. case (document, resolve, e) of
                     (True, Some f, Some (JStr s)) \<Rightarrow> f s
                   | _ \<Rightarrow> if isMissing e then [] else js_String lib (the e));
          hit = (\<lambda>e. contains_text (toLowerCase lib (shown e)) (toLowerCase lib needle))
      in case v of Some (JArr es) \<Rightarrow> list_ex (\<lambda>e. hit (Some e)) es | _ \<Rightarrow> hit v)"

definition holds_order :: "predicate_op \<Rightarrow> int option \<Rightarrow> bool" where
  "holds_order op c =
     (case c of
        None \<Rightarrow> False
      | Some n \<Rightarrow> (op = OpGt \<and> n > 0) \<or> (op = OpGte \<and> n \<ge> 0) \<or> (op = OpLt \<and> n < 0) \<or> (op = OpLte \<and> n \<le> 0))"

definition single_matches ::
    "js_library \<Rightarrow> path_values \<Rightarrow> (string \<Rightarrow> string) option \<Rightarrow> predicate_op \<Rightarrow> json option \<Rightarrow> json option \<Rightarrow> bool" where
  "single_matches lib pv resolve op expected v =
     (let eq = equivalent (pv_document pv) resolve
      in case op of
           OpEq \<Rightarrow> eq v expected
         | OpNeq \<Rightarrow> \<not> eq v expected
         | OpIn \<Rightarrow> (case expected of Some (JArr es) \<Rightarrow> list_ex (\<lambda>e. eq v (Some e)) es | _ \<Rightarrow> False)
         | OpContains \<Rightarrow>
             (case expected of Some (JStr needle) \<Rightarrow> contains_value lib (pv_document pv) resolve needle v | _ \<Rightarrow> False)
         | OpHas \<Rightarrow> (case v of Some (JArr es) \<Rightarrow> list_ex (\<lambda>e. eq (Some e) expected) es | _ \<Rightarrow> eq v expected)
         | OpIsEmpty \<Rightarrow> False
         | _ \<Rightarrow> \<not> isMissing v \<and> holds_order op (compareForOrder lib (pv_type pv) v expected))"

definition leafMatches :: "js_library \<Rightarrow> eval_context \<Rightarrow> record_file \<Rightarrow> string \<Rightarrow> predicate_op \<Rightarrow> json option \<Rightarrow> bool" where
  "leafMatches lib ctx r path op expected =
     (let pv = pathValues r path ctx
      in if op = OpIsEmpty
         then list_all isEmptyValue (pv_values pv) = (case expected of None \<Rightarrow> True | Some v \<Rightarrow> truthy (Some v))
         else if pv_values pv = [] then op = OpNeq
         else if op = OpNeq then list_all (single_matches lib pv (cx_resolvePath ctx) op expected) (pv_values pv)
         else list_ex (single_matches lib pv (cx_resolvePath ctx) op expected) (pv_values pv))"

fun predicateMatches :: "js_library \<Rightarrow> eval_context \<Rightarrow> record_file \<Rightarrow> predicate \<Rightarrow> bool" where
  "predicateMatches lib ctx r (And ps) = list_all (predicateMatches lib ctx r) ps"
| "predicateMatches lib ctx r (Or ps) = list_ex (predicateMatches lib ctx r) ps"
| "predicateMatches lib ctx r (Not p) = (\<not> predicateMatches lib ctx r p)"
| "predicateMatches lib ctx r (Leaf fld op v) = leafMatches lib ctx r fld op v"

definition filterRows :: "js_library \<Rightarrow> record_file list \<Rightarrow> predicate \<Rightarrow> field_map option \<Rightarrow> record_file list" where
  "filterRows lib rows p flds =
     filter (\<lambda>r. predicateMatches lib \<lparr>cx_fields = flds, cx_targets = [], cx_targetFields = [], cx_resolvePath = None\<rparr> r p) rows"

section \<open>Order and cursors\<close>

record sort_key =
  sk_field :: string
  sk_dir :: int

definition direction :: "sort_direction option \<Rightarrow> int" where
  "direction d = (if d = Some Desc then -1 else 1)"

definition sortKeys :: "record_query \<Rightarrow> sort_key list" where
  "sortKeys q =
     (case q_orderBy q of
        Some (OrderKeys entries) \<Rightarrow> map (\<lambda>(f, d). \<lparr>sk_field = f, sk_dir = direction d\<rparr>) entries
      | Some (OrderField f) \<Rightarrow> [\<lparr>sk_field = f, sk_dir = direction (q_order q)\<rparr>]
      | None \<Rightarrow> [\<lparr>sk_field = ''updatedAt'', sk_dir = -1\<rparr>])"

definition key_comparison :: "js_library \<Rightarrow> field_map option \<Rightarrow> sort_key \<Rightarrow> json option \<Rightarrow> json option \<Rightarrow> int option" where
  "key_comparison lib flds key a b =
     map_option (\<lambda>c. c * sk_dir key) (compareFieldValues lib (spec_of flds (sk_field key)) a b)"

text \<open>The first comparison that is not zero; NaN is not zero.\<close>

fun first_difference :: "int option list \<Rightarrow> int option" where
  "first_difference [] = Some 0"
| "first_difference (c # cs) = (if c \<noteq> Some 0 then c else first_difference cs)"

definition sort_values :: "sort_key list \<Rightarrow> record_file \<Rightarrow> json option list" where
  "sort_values keys r = map (\<lambda>key. fieldValue r (sk_field key)) keys"

definition compare_values ::
    "js_library \<Rightarrow> sort_key list \<Rightarrow> field_map option \<Rightarrow> json option list \<times> string \<Rightarrow> json option list \<times> string \<Rightarrow> int option" where
  "compare_values lib keys flds a b =
     (let c = first_difference (map (\<lambda>(key, v, w). key_comparison lib flds key v w) (zip keys (zip (fst a) (fst b))))
      in if c \<noteq> Some 0 then c else Some (localeCompare lib (snd a) (snd b)))"

definition buildComparator :: "js_library \<Rightarrow> sort_key list \<Rightarrow> field_map option \<Rightarrow> record_file \<Rightarrow> record_file \<Rightarrow> int option" where
  "buildComparator lib keys flds a b =
     compare_values lib keys flds (sort_values keys a, rec_id a) (sort_values keys b, rec_id b)"

text \<open>
  \<open>sort\<close> is stable and takes NaN for zero. How it orders under a comparator that contradicts
  itself is up to the implementation; this one inserts from the end.
\<close>

definition after :: "int option \<Rightarrow> bool" where
  "after c = (case c of Some n \<Rightarrow> n > 0 | None \<Rightarrow> False)"

fun insert_row :: "('a \<Rightarrow> 'a \<Rightarrow> int option) \<Rightarrow> 'a \<Rightarrow> 'a list \<Rightarrow> 'a list" where
  "insert_row cmp x [] = [x]"
| "insert_row cmp x (y # ys) = (if after (cmp x y) then y # insert_row cmp x ys else x # y # ys)"

definition js_sort :: "('a \<Rightarrow> 'a \<Rightarrow> int option) \<Rightarrow> 'a list \<Rightarrow> 'a list" where
  "js_sort cmp xs = foldr (insert_row cmp) xs []"

definition or_null :: "json option \<Rightarrow> json" where
  "or_null v = (case v of None \<Rightarrow> JNull | Some w \<Rightarrow> w)"

definition encodeCursor :: "js_library \<Rightarrow> sort_key list \<Rightarrow> record_file \<Rightarrow> string" where
  "encodeCursor lib keys r = cursorText lib (map or_null (sort_values keys r), rec_id r)"

definition decodeCursor :: "js_library \<Rightarrow> string \<Rightarrow> nat \<Rightarrow> query_error + (json list \<times> string)" where
  "decodeCursor lib cursor keyCount =
     (case cursorParse lib cursor of
        None \<Rightarrow> Inl InvalidCursor
      | Some (k, i) \<Rightarrow> if length k \<noteq> keyCount then Inl InvalidCursor else Inr (k, i))"

definition rows_after :: "js_library \<Rightarrow> sort_key list \<Rightarrow> field_map option \<Rightarrow> json list \<times> string \<Rightarrow> record_file list \<Rightarrow> record_file list" where
  "rows_after lib keys flds marker rows =
     filter (\<lambda>r. after (compare_values lib keys flds (sort_values keys r, rec_id r) (map Some (fst marker), snd marker))) rows"

text \<open>A cursor that is empty text is no cursor.\<close>

definition from_cursor ::
    "js_library \<Rightarrow> sort_key list \<Rightarrow> field_map option \<Rightarrow> string option \<Rightarrow> record_file list \<Rightarrow> query_error + record_file list" where
  "from_cursor lib keys flds cursor rows =
     (if cursor = None \<or> cursor = Some [] then Inr rows
      else map_sum id (\<lambda>marker. rows_after lib keys flds marker rows) (decodeCursor lib (the cursor) (length keys)))"

definition take_page :: "js_library \<Rightarrow> sort_key list \<Rightarrow> nat option \<Rightarrow> record_file list \<Rightarrow> record_file list \<times> string option" where
  "take_page lib keys limit rows =
     (case limit of
        Some n \<Rightarrow>
          if length rows > n
          then (take n rows, if take n rows = [] then None else Some (encodeCursor lib keys (last (take n rows))))
          else (rows, None)
      | None \<Rightarrow> (rows, None))"

section \<open>Groups\<close>

datatype agg_value = AggJson json | AggNumber js_number

type_synonym agg_row = "(string \<times> agg_value) list"

definition split_groups :: "field_spec option \<Rightarrow> bool \<Rightarrow> bool" where
  "split_groups spec each \<longleftrightarrow>
     each \<and> (case spec of
       None \<Rightarrow> False
     | Some s \<Rightarrow> (let t = normalizeRecordFieldType (fs_type s)
                  in t = ''multi_select'' \<or> (t = ''relation'' \<or> t = ''document'') \<and> many s))"

definition resolve_group :: "field_spec option \<Rightarrow> (string \<Rightarrow> string) option \<Rightarrow> json \<Rightarrow> json" where
  "resolve_group spec resolve v =
     (case (spec, resolve) of
        (Some s, Some f) \<Rightarrow>
          if normalizeRecordFieldType (fs_type s) \<noteq> ''document'' then v
          else (case v of
                  JStr p \<Rightarrow> JStr (f p)
                | JArr es \<Rightarrow> JArr (map (\<lambda>e. case e of JStr p \<Rightarrow> JStr (f p) | _ \<Rightarrow> e) es)
                | _ \<Rightarrow> v)
      | _ \<Rightarrow> v)"

text \<open>\<open>[...new Set(key)]\<close>: lists and objects are all different.\<close>

fun set_members :: "json list \<Rightarrow> json list \<Rightarrow> json list" where
  "set_members seen [] = []"
| "set_members seen (v # vs) =
     (if list_ex (\<lambda>w. strict_eq (Some w) (Some v)) seen then set_members seen vs
      else v # set_members (seen @ [v]) vs)"

definition group_keys :: "aggregate_spec \<Rightarrow> eval_context \<Rightarrow> bool \<Rightarrow> record_file \<Rightarrow> json list" where
  "group_keys agg ctx each r =
     (case groupBy agg of
        None \<Rightarrow> [JNull]
      | Some g \<Rightarrow>
          if g = [] then [JNull]
          else (let spec = spec_of (cx_fields ctx) g;
                    key = resolve_group spec (cx_resolvePath ctx) (or_null (fieldValue r g))
                in case (split_groups spec each, key) of
                     (True, JArr es) \<Rightarrow> if es \<noteq> [] then set_members [] es else [JNull]
                   | _ \<Rightarrow> [key]))"

type_synonym groups = "(string \<times> json \<times> record_file list) list"

definition add_to_group :: "js_library \<Rightarrow> record_file \<Rightarrow> json \<Rightarrow> groups \<Rightarrow> groups" where
  "add_to_group lib r key gs =
     (let mapKey = stringify lib key
      in AList.update mapKey
           (case map_of gs mapKey of Some (k, rows) \<Rightarrow> (k, rows @ [r]) | None \<Rightarrow> (key, [r])) gs)"

definition build_groups :: "js_library \<Rightarrow> aggregate_spec \<Rightarrow> eval_context \<Rightarrow> bool \<Rightarrow> record_file list \<Rightarrow> groups" where
  "build_groups lib agg ctx each records =
     fold (\<lambda>r gs. fold (add_to_group lib r) (group_keys agg ctx each r) gs) records []"

definition finite_numbers :: "js_library \<Rightarrow> json list \<Rightarrow> js_number list" where
  "finite_numbers lib vs = filter (\<lambda>n. case n of Finite q \<Rightarrow> True | _ \<Rightarrow> False) (map (js_Number lib) vs)"

definition best_value :: "js_library \<Rightarrow> aggregate_fn \<Rightarrow> string option \<Rightarrow> json list \<Rightarrow> json" where
  "best_value lib fn type vs =
     fold (\<lambda>v best.
       if best = JNull then v
       else (case compareComparable lib (toComparable lib type (Some v)) (toComparable lib type (Some best)) of
               Some c \<Rightarrow> if fn = AggMin \<and> c < 0 \<or> fn = AggMax \<and> c > 0 then v else best
             | None \<Rightarrow> best)) vs JNull"

definition aggregate_value ::
    "js_library \<Rightarrow> eval_context \<Rightarrow> record_file list \<Rightarrow> aggregate_fn \<Rightarrow> string option \<Rightarrow> query_error + agg_value" where
  "aggregate_value lib ctx rows fn fld =
     (if fn = AggCount then Inr (AggNumber (Finite (of_nat (length rows))))
      else if fld = None \<or> fld = Some [] then Inl (AggregateNeedsField fn)
      else
        (let values = List.map_filter (\<lambda>r. case fieldValue r (the fld) of Some v \<Rightarrow> (if v = JNull then None else Some v) | None \<Rightarrow> None) rows;
             nums = finite_numbers lib values;
             total = fold (\<lambda>n acc. numberAdd lib acc n) nums (Finite 0)
         in Inr (case fn of
              AggUnique \<Rightarrow> AggNumber (Finite (of_nat (length (uniq (map (stringify lib) values)))))
            | AggSum \<Rightarrow> AggNumber total
            | AggAvg \<Rightarrow> if nums = [] then AggJson JNull else AggNumber (numberDivide lib total (Finite (of_nat (length nums))))
            | _ \<Rightarrow> AggJson (best_value lib fn (Option.bind (spec_of (cx_fields ctx) (the fld)) (\<lambda>s. normalizeType (fs_type s))) values))))"

fun aggregate_row ::
    "js_library \<Rightarrow> eval_context \<Rightarrow> record_file list \<Rightarrow> (string \<times> aggregate_fn \<times> string option) list \<Rightarrow> agg_row \<Rightarrow> query_error + agg_row" where
  "aggregate_row lib ctx rows [] row = Inr row"
| "aggregate_row lib ctx rows ((alias, fn, fld) # specs) row =
     (case aggregate_value lib ctx rows fn fld of
        Inl e \<Rightarrow> Inl e
      | Inr v \<Rightarrow> aggregate_row lib ctx rows specs (AList.update alias v row))"

definition aggregateGroups ::
    "js_library \<Rightarrow> record_file list \<Rightarrow> aggregate_spec \<Rightarrow> eval_context \<Rightarrow> bool \<Rightarrow> query_error + agg_row list" where
  "aggregateGroups lib records agg ctx each =
     traverse (\<lambda>(mapKey, key, rows).
       aggregate_row lib ctx rows (agg_select agg)
         (if groupBy agg = None \<or> groupBy agg = Some [] then [] else [(''key'', AggJson key)]))
       (build_groups lib agg ctx each records)"

section \<open>The pipeline\<close>

record query_result =
  qr_records :: "record_file list"
  qr_total :: "nat option"
  qr_nextCursor :: "string option"
  qr_groups :: "agg_row list option"
  qr_expanded :: "(string \<times> rows_by_id) list option"
  qr_backlinks :: "(string \<times> string list) list option"

record query_options =
  qo_resolvePath :: "(string \<Rightarrow> string) option"
  qo_groupEachValue :: bool

definition projectRecord :: "record_file \<Rightarrow> string list \<Rightarrow> record_file" where
  "projectRecord r keys =
     r\<lparr>rec_data := fold (\<lambda>k d. case map_of (rec_data r) k of Some v \<Rightarrow> AList.update k v d | None \<Rightarrow> d) keys []\<rparr>"

definition project :: "projection \<Rightarrow> record_file \<Rightarrow> record_file" where
  "project pr r = (case pr of WholeRecord \<Rightarrow> r | Fields keys \<Rightarrow> projectRecord r keys)"

text \<open>The collections the query reaches, one after the other: rows, then fields.\<close>

definition load_context ::
    "record_query \<Rightarrow> field_map option \<Rightarrow> (string \<Rightarrow> rows_by_id option) \<Rightarrow> (string \<Rightarrow> field_map option option) option
       \<Rightarrow> (string \<Rightarrow> string) option \<Rightarrow> query_error + eval_context" where
  "load_context q flds resolve resolveFields resolvePath =
     (case referencedCollections q flds of
        Inl e \<Rightarrow> Inl e
      | Inr cs \<Rightarrow>
          map_sum id
            (\<lambda>loaded. \<lparr>cx_fields = flds, cx_targets = map (\<lambda>(c, rows, fs). (c, rows)) loaded,
                       cx_targetFields = map (\<lambda>(c, rows, fs). (c, fs)) loaded, cx_resolvePath = resolvePath\<rparr>)
            (traverse (\<lambda>c. case resolve c of
                None \<Rightarrow> Inl ResolverThrew
              | Some rows \<Rightarrow> (case resolveFields of
                    None \<Rightarrow> Inr (c, rows, None)
                  | Some f \<Rightarrow> (case f c of None \<Rightarrow> Inl ResolverThrew | Some fs \<Rightarrow> Inr (c, rows, fs)))) cs))"

definition matching_rows ::
    "js_library \<Rightarrow> eval_context \<Rightarrow> record_query \<Rightarrow> record_file list \<Rightarrow> query_error + record_file list" where
  "matching_rows lib ctx q records =
     (case query_predicate q (cx_fields ctx) of
        Inl e \<Rightarrow> Inl e
      | Inr p \<Rightarrow>
          (let rows = (case p of None \<Rightarrow> records | Some p \<Rightarrow> filter (\<lambda>r. predicateMatches lib ctx r p) records)
           in Inr (case q_search q of
                None \<Rightarrow> rows
              | Some needle \<Rightarrow> if needle = [] then rows else filter (recordMatchesSearch lib needle) rows)))"

definition expand_field :: "eval_context \<Rightarrow> record_file list \<Rightarrow> string \<times> projection \<Rightarrow> (string \<times> rows_by_id) list \<Rightarrow> (string \<times> rows_by_id) list" where
  "expand_field ctx rows entry expanded =
     (case entry of (name, pr) \<Rightarrow>
        (case relationTarget (cx_fields ctx) name of
           None \<Rightarrow> expanded
         | Some c \<Rightarrow>
             (case map_of (cx_targets ctx) c of
                None \<Rightarrow> expanded
              | Some targets \<Rightarrow>
                  (let bucket = (case map_of expanded c of Some b \<Rightarrow> b | None \<Rightarrow> []);
                       add = (\<lambda>v b. case (v, target_of targets v) of
                                (JStr i, Some t) \<Rightarrow> (if map_of b i \<noteq> None then b else b @ [(i, project pr t)])
                              | _ \<Rightarrow> b)
                   in AList.update c (fold add (concat (map (\<lambda>r. related_ids (map_of (rec_data r) name)) rows)) bucket) expanded))))"

definition links_by_target :: "string \<Rightarrow> rows_by_id \<Rightarrow> (string \<times> string list) list" where
  "links_by_target fld sources =
     fold (\<lambda>(i, source) m.
       fold (\<lambda>v m. case v of
           JStr t \<Rightarrow> AList.update t ((case map_of m t of Some l \<Rightarrow> l | None \<Rightarrow> []) @ [rec_id source]) m
         | _ \<Rightarrow> m) (related_ids (map_of (rec_data source) fld)) m) sources []"

definition backlinks_of :: "eval_context \<Rightarrow> string \<times> string \<Rightarrow> record_file list \<Rightarrow> (string \<times> string list) list" where
  "backlinks_of ctx b rows =
     (let m = links_by_target (snd b) (case map_of (cx_targets ctx) (fst b) of Some s \<Rightarrow> s | None \<Rightarrow> [])
      in map (\<lambda>r. (rec_id r, case map_of m (rec_id r) of Some l \<Rightarrow> l | None \<Rightarrow> [])) rows)"

text \<open>The result with the rows an observer is shown, those of every page.\<close>

definition runQueryV2 ::
    "js_library \<Rightarrow> record_file list \<Rightarrow> record_query \<Rightarrow> field_map option \<Rightarrow> (string \<Rightarrow> rows_by_id option)
       \<Rightarrow> (string \<Rightarrow> field_map option option) option \<Rightarrow> query_options \<Rightarrow> query_error + (query_result \<times> record_file list)" where
  "runQueryV2 lib records q flds resolve resolveFields options =
     (case load_context q flds resolve resolveFields (qo_resolvePath options) of
        Inl e \<Rightarrow> Inl e
      | Inr ctx \<Rightarrow>
          (case matching_rows lib ctx q records of
             Inl e \<Rightarrow> Inl e
           | Inr matched \<Rightarrow>
               (case q_aggregate q of
                  Some agg \<Rightarrow>
                    map_sum id
                      (\<lambda>gs. (\<lparr>qr_records = [], qr_total = None, qr_nextCursor = None, qr_groups = Some gs,
                               qr_expanded = None, qr_backlinks = None\<rparr>, matched))
                      (aggregateGroups lib matched agg ctx (qo_groupEachValue options))
                | None \<Rightarrow>
                    (let keys = sortKeys q; sorted = js_sort (buildComparator lib keys flds) matched
                     in (case from_cursor lib keys flds (q_cursor q) sorted of
                           Inl e \<Rightarrow> Inl e
                         | Inr rest \<Rightarrow>
                             (let (rows, cursor) = take_page lib keys (q_limit q) rest
                              in Inr (\<lparr>qr_records = (case q_select q of None \<Rightarrow> rows | Some ks \<Rightarrow> map (\<lambda>r. projectRecord r ks) rows),
                                       qr_total = Some (length sorted), qr_nextCursor = cursor, qr_groups = None,
                                       qr_expanded = map_option (\<lambda>es. fold (expand_field ctx rows) es []) (q_expand q),
                                       qr_backlinks = map_option (\<lambda>b. backlinks_of ctx b rows) (q_backlinks q)\<rparr>, matched)))))))"

end
