(* ===== verification/RecordPages.thy ===== *)
theory RecordPages
  imports RecordQuery "HOL-Library.Multiset"
begin

text \<open>
  Paging through a record query, on theory \<open>RecordQuery\<close>. The contract of a comparator that
  does not contradict itself is a locale, met by columns of numbers; under it the pages of a query visit
  every matching row once, in order. A column of text that mixes numbers with other words breaks it, and
  paging then misses rows.
\<close>

section \<open>Comparators that do not contradict themselves\<close>

definition consistent_on :: "'a set \<Rightarrow> ('a \<Rightarrow> 'a \<Rightarrow> int option) \<Rightarrow> bool" where
  "consistent_on S cmp \<longleftrightarrow>
     (\<forall>x \<in> S. \<forall>y \<in> S. \<exists>c d. cmp x y = Some c \<and> cmp y x = Some d \<and> sgn d = - sgn c)
     \<and> (\<forall>x \<in> S. \<forall>y \<in> S. \<forall>z \<in> S. \<not> after (cmp x y) \<longrightarrow> \<not> after (cmp y z) \<longrightarrow> \<not> after (cmp x z))"

lemma consistent_onI:
  assumes "\<And>x y. x \<in> S \<Longrightarrow> y \<in> S \<Longrightarrow> \<exists>c d. cmp x y = Some c \<and> cmp y x = Some d \<and> sgn d = - sgn c"
    and "\<And>x y z. x \<in> S \<Longrightarrow> y \<in> S \<Longrightarrow> z \<in> S \<Longrightarrow> \<not> after (cmp x y) \<Longrightarrow> \<not> after (cmp y z) \<Longrightarrow> \<not> after (cmp x z)"
  shows "consistent_on S cmp"
  unfolding consistent_on_def
proof (intro conjI ballI impI)
  show "\<not> after (cmp x z)" if S: "x \<in> S" "y \<in> S" "z \<in> S" "\<not> after (cmp x y)" "\<not> after (cmp y z)" for x y z
    by (rule assms(2) [OF S])
qed (rule assms(1))

locale consistent_comparator =
  fixes cmp :: "'a \<Rightarrow> 'a \<Rightarrow> int option" and S :: "'a set"
  assumes consistent: "consistent_on S cmp"
begin

lemma decided:
  assumes "x \<in> S" "y \<in> S"
  obtains c d where "cmp x y = Some c" "cmp y x = Some d" "sgn d = - sgn c"
  using consistent assms unfolding consistent_on_def by blast

lemma same [simp]: "x \<in> S \<Longrightarrow> cmp x x = Some 0"
proof -
  assume "x \<in> S"
  with decided [of x x] obtain c where "cmp x x = Some c" "sgn c = - sgn c" by (metis option.inject)
  then show ?thesis by (auto simp: sgn_if split: if_splits)
qed

lemma after_sym: "x \<in> S \<Longrightarrow> y \<in> S \<Longrightarrow> after (cmp x y) \<Longrightarrow> \<not> after (cmp y x)"
  by (rule decided [of x y]) (auto simp: after_def sgn_if split: if_splits)

lemma after_or_same: "x \<in> S \<Longrightarrow> y \<in> S \<Longrightarrow> \<not> after (cmp x y) \<Longrightarrow> cmp x y \<noteq> Some 0 \<Longrightarrow> after (cmp y x)"
  by (rule decided [of x y]) (auto simp: after_def sgn_if split: if_splits)

lemma zero_sym: "x \<in> S \<Longrightarrow> y \<in> S \<Longrightarrow> cmp x y = Some 0 \<longleftrightarrow> cmp y x = Some 0"
  by (rule decided [of x y]) (auto simp: sgn_if split: if_splits)

lemma trans: "x \<in> S \<Longrightarrow> y \<in> S \<Longrightarrow> z \<in> S \<Longrightarrow> \<not> after (cmp x y) \<Longrightarrow> \<not> after (cmp y z) \<Longrightarrow> \<not> after (cmp x z)"
  using consistent unfolding consistent_on_def by blast

lemma sorted_insert:
  "x \<in> S \<Longrightarrow> set ys \<subseteq> S \<Longrightarrow> sorted_wrt (\<lambda>a b. \<not> after (cmp a b)) ys \<Longrightarrow>
     sorted_wrt (\<lambda>a b. \<not> after (cmp a b)) (insert_row cmp x ys) \<and> set (insert_row cmp x ys) = insert x (set ys)"
proof (induction ys)
  case (Cons y ys)
  show ?case
  proof (cases "after (cmp x y)")
    case True
    with Cons after_sym show ?thesis by auto
  next
    case False
    with Cons.prems have "\<not> after (cmp x z)" if "z \<in> set ys" for z
      using that trans [of x y z] by auto
    with False Cons.prems show ?thesis by simp
  qed
qed simp

lemma filter_after:
  assumes "set (xs @ x # ys) \<subseteq> S" "sorted_wrt (\<lambda>a b. \<not> after (cmp a b)) (xs @ x # ys)" "\<forall>y \<in> set ys. cmp x y \<noteq> Some 0"
  shows "filter (\<lambda>r. after (cmp r x)) (xs @ x # ys) = ys"
proof -
  have "\<not> after (cmp r x)" if "r \<in> set xs" for r using assms(2) that by (auto simp: sorted_wrt_append)
  moreover have "\<not> after (cmp x x)" using assms(1) by (simp add: after_def)
  moreover have "after (cmp r x)" if "r \<in> set ys" for r
    using assms that after_or_same [of x r] by (auto simp: sorted_wrt_append)
  ultimately show ?thesis by (simp add: filter_empty_conv)
qed

lemma js_sort_sorted:
  "set xs \<subseteq> S \<Longrightarrow> sorted_wrt (\<lambda>a b. \<not> after (cmp a b)) (js_sort cmp xs) \<and> set (js_sort cmp xs) = set xs"
  by (induction xs) (auto simp: js_sort_def sorted_insert)

end

lemma mset_insert_row [simp]: "mset (insert_row cmp x ys) = add_mset x (mset ys)"
  by (induction ys) auto

lemma mset_js_sort [simp]: "mset (js_sort cmp xs) = mset xs"
  by (induction xs) (auto simp: js_sort_def)

lemma set_js_sort [simp]: "set (js_sort cmp xs) = set xs"
  by (metis mset_js_sort set_mset_mset)

lemma consistent_on_subset: "consistent_on S cmp \<Longrightarrow> T \<subseteq> S \<Longrightarrow> consistent_on T cmp"
  unfolding consistent_on_def by (meson subsetD)

lemma consistent_on_image: "consistent_on (f ` S) cmp \<longleftrightarrow> consistent_on S (\<lambda>x y. cmp (f x) (f y))"
  unfolding consistent_on_def by blast

text \<open>Comparing by one comparator and, where it is equal, by another.\<close>

definition then_by :: "('a \<Rightarrow> 'a \<Rightarrow> int option) \<Rightarrow> ('a \<Rightarrow> 'a \<Rightarrow> int option) \<Rightarrow> 'a \<Rightarrow> 'a \<Rightarrow> int option" where
  "then_by f g x y = (if f x y \<noteq> Some 0 then f x y else g x y)"

lemma consistent_on_then_by:
  assumes "consistent_on S f" "consistent_on S g"
  shows "consistent_on S (then_by f g)"
proof -
  note f = consistent_comparator.intro [OF assms(1)] and g = consistent_comparator.intro [OF assms(2)]
  note ft = consistent_comparator.trans [OF f] and fs = consistent_comparator.after_or_same [OF f]
  have decided: "\<exists>c d. then_by f g x y = Some c \<and> then_by f g y x = Some d \<and> sgn d = - sgn c" if "x \<in> S" "y \<in> S" for x y
  proof (cases "f x y = Some 0")
    case True
    with that consistent_comparator.zero_sym [OF f] have "f y x = Some 0" by blast
    with True show ?thesis using consistent_comparator.decided [OF g that] by (simp add: then_by_def) metis
  next
    case False
    with that consistent_comparator.zero_sym [OF f] have "f y x \<noteq> Some 0" by blast
    with False show ?thesis using consistent_comparator.decided [OF f that] by (simp add: then_by_def) metis
  qed
  have "\<not> after (then_by f g x z)" if S: "x \<in> S" "y \<in> S" "z \<in> S" and xy: "\<not> after (then_by f g x y)" and yz: "\<not> after (then_by f g y z)" for x y z
  proof -
    have zero [simp]: "\<not> after (Some 0)" by (simp add: after_def)
    have fxy: "\<not> after (f x y)" using xy by (cases "f x y = Some 0") (simp_all add: then_by_def)
    have fyz: "\<not> after (f y z)" using yz by (cases "f y z = Some 0") (simp_all add: then_by_def)
    have fxz: "\<not> after (f x z)" by (rule ft [OF S fxy fyz])
    show ?thesis
    proof (cases "f x z = Some 0")
      case True
      with consistent_comparator.zero_sym [OF f S(1,3)] have zx: "\<not> after (f z x)" by simp
      have "f x y = Some 0" using fs [OF S(1,2) fxy] ft [OF S(2,3,1) fyz zx] by blast
      moreover have "f y z = Some 0" using fs [OF S(2,3) fyz] ft [OF S(3,1,2) zx fxy] by blast
      ultimately have "\<not> after (g x y)" "\<not> after (g y z)" using xy yz by (simp_all add: then_by_def)
      with True consistent_comparator.trans [OF g S] show ?thesis by (simp add: then_by_def)
    qed (simp add: then_by_def fxz)
  qed
  with decided show ?thesis unfolding consistent_on_def by blast
qed

lemma consistent_on_zero: "consistent_on S (\<lambda>x y. Some 0)"
  by (simp add: consistent_on_def)

lemma consistent_on_direction:
  assumes "consistent_on S f" "d = 1 \<or> d = -1"
  shows "consistent_on S (\<lambda>x y. map_option (\<lambda>c. c * d) (f x y))"
proof (cases "d = 1")
  case False
  with assms(2) have d: "d = -1" by simp
  note f = consistent_comparator.intro [OF assms(1)]
  have flip: "after (map_option (\<lambda>c. c * d) (f x y)) \<longleftrightarrow> after (f y x)" if "x \<in> S" "y \<in> S" for x y
    by (rule consistent_comparator.decided [OF f that]) (simp add: d after_def sgn_if split: if_splits)
  have "\<exists>c e. map_option (\<lambda>c. c * d) (f x y) = Some c \<and> map_option (\<lambda>c. c * d) (f y x) = Some e \<and> sgn e = - sgn c"
    if "x \<in> S" "y \<in> S" for x y
    by (rule consistent_comparator.decided [OF f that]) (simp add: d)
  then show ?thesis
  proof (rule consistent_onI)
    show "\<not> after (map_option (\<lambda>c. c * d) (f x z))"
      if S: "x \<in> S" "y \<in> S" "z \<in> S" and "\<not> after (map_option (\<lambda>c. c * d) (f x y))" "\<not> after (map_option (\<lambda>c. c * d) (f y z))" for x y z
      using that(4,5) consistent_comparator.trans [OF f S(3,2,1)] unfolding flip [OF S(1,2)] flip [OF S(2,3)] flip [OF S(1,3)] by blast
  qed
qed (use assms in \<open>simp add: option.map_ident\<close>)

section \<open>Columns of numbers\<close>

lemma numbers_consistent: "consistent_on (range Finite) number_order"
proof -
  have "\<exists>c d. number_order (Finite a) (Finite b) = Some c \<and> number_order (Finite b) (Finite a) = Some d \<and> sgn d = - sgn c" for a b
    by (cases a b rule: linorder_cases) simp_all
  moreover have after_iff: "after (number_order (Finite a) (Finite b)) \<longleftrightarrow> b < a" for a b
    by (cases a b rule: linorder_cases) (simp_all add: after_def)
  moreover have "\<not> after (number_order (Finite a) (Finite c))"
    if "\<not> after (number_order (Finite a) (Finite b))" "\<not> after (number_order (Finite b) (Finite c))" for a b c
    using that unfolding after_iff by simp
  ultimately show ?thesis unfolding consistent_on_def by blast
qed

interpretation finite_numbers: consistent_comparator number_order "range Finite"
  by unfold_locales (rule numbers_consistent)

lemma ranks_consistent: "consistent_on S (\<lambda>x y. Some (sgn (r x - r y :: int)))"
proof -
  have "after (Some (sgn (a - b :: int))) \<longleftrightarrow> b < a" for a b by (simp add: after_def)
  moreover have "sgn (sgn (b - a)) = - sgn (sgn (a - b :: int))" for a b by (simp add: sgn_if)
  ultimately show ?thesis unfolding consistent_on_def by (metis not_less order_trans)
qed

text \<open>The order of one field's values: by the rank of an option, then by comparison keys.\<close>

lemma compareFieldValues_then_by:
  "compareFieldValues lib spec =
     then_by (\<lambda>a b. Some (sgn (case select_values spec of Some (v # vs) \<Rightarrow> select_rank lib (v # vs) a - select_rank lib (v # vs) b | _ \<Rightarrow> 0)))
       (compareForOrder lib (Option.bind spec (\<lambda>s. normalizeType (fs_type s))))"
  by (auto simp: fun_eq_iff compareFieldValues_def then_by_def Let_def sgn_if split: option.split list.split)

lemma number_column_consistent: "consistent_on (range (\<lambda>n. Some (JNum n))) (compareFieldValues lib spec)"
  unfolding compareFieldValues_then_by
proof (rule consistent_on_then_by)
  show "consistent_on (range (\<lambda>n. Some (JNum n)))
      (\<lambda>a b. Some (sgn (case select_values spec of Some (v # vs) \<Rightarrow> select_rank lib (v # vs) a - select_rank lib (v # vs) b | _ \<Rightarrow> 0)))"
  proof (cases "select_values spec")
    case (Some vs)
    then show ?thesis by (cases vs) (simp_all add: consistent_on_zero ranks_consistent)
  qed (simp add: consistent_on_zero)
  have "compareForOrder lib t (Some (JNum m)) (Some (JNum n)) = number_order (Finite m) (Finite n)" for t m n
    by (simp add: compareForOrder_def compareComparable_def toComparable_def)
  with numbers_consistent show "consistent_on (range (\<lambda>n. Some (JNum n)))
      (compareForOrder lib (Option.bind spec (\<lambda>s. normalizeType (fs_type s))))"
    unfolding consistent_on_image by simp
qed

interpretation number_column: consistent_comparator "compareFieldValues lib spec" "range (\<lambda>n. Some (JNum n))"
  for lib :: js_library and spec :: "field_spec option"
  by unfold_locales (rule number_column_consistent)

section \<open>The comparator of a query\<close>

definition keys_order :: "js_library \<Rightarrow> sort_key list \<Rightarrow> field_map option \<Rightarrow> record_file \<Rightarrow> record_file \<Rightarrow> int option" where
  "keys_order lib keys flds a b =
     first_difference (map (\<lambda>key. key_comparison lib flds key (fieldValue a (sk_field key)) (fieldValue b (sk_field key))) keys)"

lemma buildComparator_then_by:
  "buildComparator lib keys flds =
     then_by (keys_order lib keys flds) (\<lambda>a b. Some (localeCompare lib (rec_id a) (rec_id b)))"
proof -
  have "map (\<lambda>(key, v, w). h key v w) (zip keys (zip (map f keys) (map g keys))) = map (\<lambda>key. h key (f key) (g key)) keys"
    for f g :: "sort_key \<Rightarrow> json option" and h :: "sort_key \<Rightarrow> json option \<Rightarrow> json option \<Rightarrow> int option"
    by (induction keys) auto
  then show ?thesis
    by (simp add: fun_eq_iff buildComparator_def compare_values_def then_by_def keys_order_def sort_values_def Let_def)
qed

lemma keys_order_consistent:
  assumes "\<And>key. key \<in> set keys \<Longrightarrow> sk_dir key = 1 \<or> sk_dir key = -1"
    and "\<And>key. key \<in> set keys \<Longrightarrow>
      consistent_on ((\<lambda>r. fieldValue r (sk_field key)) ` R) (compareFieldValues lib (spec_of flds (sk_field key)))"
  shows "consistent_on R (keys_order lib keys flds)"
  using assms
proof (induction keys)
  case Nil
  have "keys_order lib [] flds = (\<lambda>a b. Some 0)" by (simp add: fun_eq_iff keys_order_def)
  then show ?case by (simp add: consistent_on_zero)
next
  case (Cons key keys)
  have "keys_order lib (key # keys) flds =
      then_by (\<lambda>a b. map_option (\<lambda>c. c * sk_dir key)
          (compareFieldValues lib (spec_of flds (sk_field key)) (fieldValue a (sk_field key)) (fieldValue b (sk_field key))))
        (keys_order lib keys flds)"
    by (intro ext) (simp only: keys_order_def then_by_def key_comparison_def list.map first_difference.simps)
  moreover have "consistent_on R (\<lambda>a b. compareFieldValues lib (spec_of flds (sk_field key))
      (fieldValue a (sk_field key)) (fieldValue b (sk_field key)))"
    using Cons.prems(2) [of key] unfolding consistent_on_image by simp
  ultimately show ?case using Cons by (simp add: consistent_on_then_by consistent_on_direction)
qed

lemma sortKeys_dir: "key \<in> set (sortKeys q) \<Longrightarrow> sk_dir key = 1 \<or> sk_dir key = -1"
  by (auto simp: sortKeys_def direction_def split: option.splits order_by.splits)

text \<open>A cursor holds null for a missing value; the two compare alike.\<close>

lemma compareFieldValues_null: "compareFieldValues lib spec v (Some (or_null w)) = compareFieldValues lib spec v w"
proof (cases w)
  case None
  have "select_rank lib values (Some JNull) = select_rank lib values None" for "values"
    by (simp add: select_rank_def isMissing_def)
  moreover have "compareForOrder lib t v (Some JNull) = compareForOrder lib t v None" for t
    by (simp add: compareForOrder_def toComparable_def)
  ultimately show ?thesis by (simp only: None or_null_def compareFieldValues_def option.case)
qed (simp add: or_null_def)

lemma marker_compares:
  "compare_values lib keys flds (sort_values keys r, rec_id r) (map Some (map or_null (sort_values keys x)), rec_id x)
     = buildComparator lib keys flds r x"
proof -
  have "map (\<lambda>(key, v, w). key_comparison lib flds key v w) (zip ks (zip vs (map (\<lambda>w. Some (or_null w)) ws)))
      = map (\<lambda>(key, v, w). key_comparison lib flds key v w) (zip ks (zip vs ws))" for ks vs ws
  proof (induction ks arbitrary: vs ws)
    case (Cons k ks)
    then show ?case by (cases vs; cases ws) (auto simp: key_comparison_def compareFieldValues_null)
  qed simp
  then show ?thesis by (simp only: buildComparator_def compare_values_def map_map comp_def fst_conv snd_conv)
qed

section \<open>All pages of a query\<close>

text \<open>A client that asks for page after page until one has no cursor, at most \<open>fuel\<close> of them.\<close>

fun follow_pages ::
    "(string option \<Rightarrow> query_error + query_result) \<Rightarrow> nat \<Rightarrow> string option \<Rightarrow> (query_error + record_file list list) option" where
  "follow_pages run 0 cursor = None"
| "follow_pages run (Suc fuel) cursor =
     (case run cursor of
        Inl e \<Rightarrow> Some (Inl e)
      | Inr page \<Rightarrow>
          (case qr_nextCursor page of
             None \<Rightarrow> Some (Inr [qr_records page])
           | Some c \<Rightarrow> map_option (map_sum id ((#) (qr_records page))) (follow_pages run fuel (Some c))))"

definition query_page ::
    "js_library \<Rightarrow> record_file list \<Rightarrow> record_query \<Rightarrow> field_map option \<Rightarrow> (string \<Rightarrow> rows_by_id option)
       \<Rightarrow> (string \<Rightarrow> field_map option option) option \<Rightarrow> query_options \<Rightarrow> string option \<Rightarrow> query_error + query_result" where
  "query_page lib records q flds resolve resolveFields options cursor =
     map_sum id fst (runQueryV2 lib records (q\<lparr>q_cursor := cursor\<rparr>) flds resolve resolveFields options)"

definition row_marker :: "sort_key list \<Rightarrow> record_file \<Rightarrow> json list \<times> string" where
  "row_marker keys r = (map or_null (sort_values keys r), rec_id r)"

definition faithful_cursors :: "js_library \<Rightarrow> sort_key list \<Rightarrow> record_file list \<Rightarrow> bool" where
  "faithful_cursors lib keys rows \<longleftrightarrow>
     (\<forall>r \<in> set rows. cursorText lib (row_marker keys r) \<noteq> []
        \<and> cursorParse lib (cursorText lib (row_marker keys r)) = Some (row_marker keys r))"

text \<open>Rows whose order is settled: no sort key contradicts itself on them and their ids are told apart.\<close>

definition orderable :: "js_library \<Rightarrow> sort_key list \<Rightarrow> field_map option \<Rightarrow> record_file list \<Rightarrow> bool" where
  "orderable lib keys flds rows \<longleftrightarrow>
     (\<forall>key \<in> set keys. consistent_on ((\<lambda>r. fieldValue r (sk_field key)) ` set rows) (compareFieldValues lib (spec_of flds (sk_field key))))
     \<and> consistent_on (rec_id ` set rows) (\<lambda>a b. Some (localeCompare lib a b))
     \<and> distinct rows \<and> (\<forall>a \<in> set rows. \<forall>b \<in> set rows. localeCompare lib (rec_id a) (rec_id b) = 0 \<longrightarrow> a = b)"

lemma orderable_consistent:
  assumes "orderable lib (sortKeys q) flds rows"
  shows "consistent_on (set rows) (buildComparator lib (sortKeys q) flds)"
  unfolding buildComparator_then_by
  using assms by (intro consistent_on_then_by keys_order_consistent sortKeys_dir) (simp_all add: orderable_def consistent_on_image)

lemma then_by_zero: "then_by f g x y = Some 0 \<Longrightarrow> g x y = Some 0"
  by (simp add: then_by_def split: if_splits)

lemma orderable_strict:
  assumes "orderable lib keys flds rows" "a \<in> set rows" "b \<in> set rows" "buildComparator lib keys flds a b = Some 0"
  shows "a = b"
proof -
  have "localeCompare lib (rec_id a) (rec_id b) = 0"
    using then_by_zero [OF assms(4) [unfolded buildComparator_then_by]] by simp
  with assms show ?thesis by (simp add: orderable_def)
qed

text \<open>The rows after the cursor of a row are the rows that follow it.\<close>

lemma rows_after_row:
  assumes "orderable lib (sortKeys q) flds rows" "js_sort (buildComparator lib (sortKeys q) flds) rows = xs @ x # ys"
  shows "rows_after lib (sortKeys q) flds (map or_null (sort_values (sortKeys q) x), rec_id x) (xs @ x # ys) = ys"
proof -
  let ?cmp = "buildComparator lib (sortKeys q) flds"
  note c = consistent_comparator.intro [OF orderable_consistent [OF assms(1)]]
  have rows: "set rows = set (xs @ x # ys)" by (metis assms(2) set_js_sort)
  have "distinct (xs @ x # ys)"
    using assms by (metis mset_js_sort mset_eq_imp_distinct_iff orderable_def)
  with orderable_strict [OF assms(1)] rows have "\<forall>y \<in> set ys. ?cmp x y \<noteq> Some 0" by auto
  moreover have "sorted_wrt (\<lambda>a b. \<not> after (?cmp a b)) (xs @ x # ys)"
    using consistent_comparator.js_sort_sorted [OF c, of rows] assms(2) by simp
  ultimately have "filter (\<lambda>r. after (?cmp r x)) (xs @ x # ys) = ys"
    using rows by (intro consistent_comparator.filter_after [OF c]) auto
  then show ?thesis by (simp only: rows_after_def marker_compares fst_conv snd_conv)
qed

lemma cursor_irrelevant [simp]:
  "load_context (q\<lparr>q_cursor := c\<rparr>) = load_context q"
  "matching_rows lib ctx (q\<lparr>q_cursor := c\<rparr>) = matching_rows lib ctx q"
  "sortKeys (q\<lparr>q_cursor := c\<rparr>) = sortKeys q"
proof -
  have fields: "q_where (q\<lparr>q_cursor := c\<rparr>) = q_where q" "q_search (q\<lparr>q_cursor := c\<rparr>) = q_search q"
    "q_orderBy (q\<lparr>q_cursor := c\<rparr>) = q_orderBy q" "q_order (q\<lparr>q_cursor := c\<rparr>) = q_order q"
    "q_expand (q\<lparr>q_cursor := c\<rparr>) = q_expand q" "q_backlinks (q\<lparr>q_cursor := c\<rparr>) = q_backlinks q"
    by simp_all
  show "load_context (q\<lparr>q_cursor := c\<rparr>) = load_context q"
    unfolding fun_eq_iff load_context_def referencedCollections_def query_predicate_def where_tree_def fields by simp
  show "matching_rows lib ctx (q\<lparr>q_cursor := c\<rparr>) = matching_rows lib ctx q"
    unfolding fun_eq_iff matching_rows_def query_predicate_def where_tree_def fields by simp
  show "sortKeys (q\<lparr>q_cursor := c\<rparr>) = sortKeys q"
    unfolding sortKeys_def fields by simp
qed

text \<open>A page of a query that reaches its rows and takes whole records.\<close>

definition pages_of ::
    "record_query \<Rightarrow> nat \<Rightarrow> field_map option \<Rightarrow> (string \<Rightarrow> rows_by_id option) \<Rightarrow> (string \<Rightarrow> field_map option option) option
       \<Rightarrow> query_options \<Rightarrow> js_library \<Rightarrow> record_file list \<Rightarrow> record_file list \<Rightarrow> bool" where
  "pages_of q n flds resolve resolveFields options lib records matched \<longleftrightarrow>
     q_aggregate q = None \<and> q_select q = None \<and> q_limit q = Some n \<and> n > 0
     \<and> (case load_context q flds resolve resolveFields (qo_resolvePath options) of
          Inl e \<Rightarrow> False
        | Inr ctx \<Rightarrow> matching_rows lib ctx q records = Inr matched)"

lemma query_page_rest:
  assumes "pages_of q n flds resolve resolveFields options lib records matched"
    and "from_cursor lib (sortKeys q) flds cursor (js_sort (buildComparator lib (sortKeys q) flds) matched) = Inr rest"
  obtains page where "query_page lib records q flds resolve resolveFields options cursor = Inr page"
    and "qr_records page = take n rest"
    and "qr_nextCursor page = (if length rest > n then Some (encodeCursor lib (sortKeys q) (last (take n rest))) else None)"
proof -
  obtain ctx where ctx: "load_context q flds resolve resolveFields (qo_resolvePath options) = Inr ctx"
    "matching_rows lib ctx q records = Inr matched"
    using assms(1) by (auto simp: pages_of_def split: sum.splits)
  have "take n rest \<noteq> []" if "length rest > n" using that assms(1) by (auto simp: pages_of_def)
  then show thesis
    using assms that by (cases "length rest > n") (simp_all add: query_page_def runQueryV2_def ctx pages_of_def Let_def take_page_def)
qed

lemma from_cursor_of_row:
  assumes "orderable lib (sortKeys q) flds rows" "faithful_cursors lib (sortKeys q) rows"
    and "js_sort (buildComparator lib (sortKeys q) flds) rows = xs @ x # ys"
  shows "from_cursor lib (sortKeys q) flds (Some (encodeCursor lib (sortKeys q) x)) (xs @ x # ys) = Inr ys"
proof -
  have "x \<in> set rows" by (metis assms(3) in_set_conv_decomp set_js_sort)
  with assms(2) have "cursorText lib (row_marker (sortKeys q) x) \<noteq> []"
      "cursorParse lib (cursorText lib (row_marker (sortKeys q) x)) = Some (row_marker (sortKeys q) x)"
    by (simp_all add: faithful_cursors_def)
  then show ?thesis
    using rows_after_row [OF assms(1,3)]
    by (simp add: from_cursor_def decodeCursor_def encodeCursor_def row_marker_def sort_values_def)
qed

lemma follow_pages_rest:
  assumes q: "pages_of q n flds resolve resolveFields options lib records matched"
    and o: "orderable lib (sortKeys q) flds matched" and lib: "faithful_cursors lib (sortKeys q) matched"
  shows "js_sort (buildComparator lib (sortKeys q) flds) matched = xs @ ys \<Longrightarrow> length ys < fuel
     \<Longrightarrow> from_cursor lib (sortKeys q) flds cursor (xs @ ys) = Inr ys
     \<Longrightarrow> \<exists>pages. follow_pages (query_page lib records q flds resolve resolveFields options) fuel cursor = Some (Inr pages)
           \<and> concat pages = ys \<and> list_all (\<lambda>p. length p \<le> n) pages"
proof (induction fuel arbitrary: xs ys cursor)
  case (Suc fuel)
  have n: "n > 0" using q by (simp add: pages_of_def)
  from Suc.prems obtain page where page: "query_page lib records q flds resolve resolveFields options cursor = Inr page"
      "qr_records page = take n ys"
      "qr_nextCursor page = (if length ys > n then Some (encodeCursor lib (sortKeys q) (last (take n ys))) else None)"
    using query_page_rest [OF q, of cursor ys] by metis
  show ?case
  proof (cases "length ys > n")
    case True
    then obtain zs x where take: "take n ys = zs @ [x]" using n by (metis append_butlast_last_id length_greater_0_conv less_trans take_eq_Nil2 neq0_conv)
    then have ys: "ys = zs @ x # drop n ys" by (metis append.assoc append_Cons append_Nil append_take_drop_id)
    with Suc.prems(1) have sorted: "js_sort (buildComparator lib (sortKeys q) flds) matched = (xs @ zs @ [x]) @ drop n ys"
      by simp
    have "from_cursor lib (sortKeys q) flds (Some (encodeCursor lib (sortKeys q) x)) ((xs @ zs @ [x]) @ drop n ys) = Inr (drop n ys)"
      using from_cursor_of_row [OF o lib, of "xs @ zs" x "drop n ys"] sorted by simp
    from Suc.IH [OF sorted _ this] Suc.prems(2) n True obtain pages where
      "follow_pages (query_page lib records q flds resolve resolveFields options) fuel (Some (encodeCursor lib (sortKeys q) x)) = Some (Inr pages)"
      "concat pages = drop n ys" "list_all (\<lambda>p. length p \<le> n) pages" by fastforce
    moreover have "length (zs @ [x]) \<le> n" by (metis take length_take min.cobounded2)
    ultimately show ?thesis using page True take ys by (intro exI [of _ "take n ys # pages"]) auto
  next
    case False
    with page show ?thesis by (intro exI [of _ "[ys]"]) auto
  qed
qed simp


text \<open>Three rows with a number each, asked for two at a time, the greatest first.\<close>

definition sample_library :: js_library where
  "sample_library =
     \<lparr>toLowerCase = \<lambda>s. s, localeCompare = \<lambda>s t. of_char (hd s) - of_char (hd t), dateParse = \<lambda>s. None,
      stringToNumber = \<lambda>s. if s = ''9'' then Finite 9 else if s = ''10'' then Finite 10 else NaN,
      numberToString = \<lambda>n. if n = 9 then ''9'' else ''10'', numberAdd = \<lambda>m n. m, numberDivide = \<lambda>m n. m,
      stringify = \<lambda>v. [], cursorText = \<lambda>m. snd m,
      cursorParse = \<lambda>s. Some ([JNum (if s = ''a'' then 1 else if s = ''b'' then 3 else 2)], s)\<rparr>"

definition sample_row :: "string \<Rightarrow> json \<Rightarrow> record_file" where
  "sample_row i v = \<lparr>rec_id = i, rec_data = [(''n'', v)], rec_envelope = []\<rparr>"

definition sample_query :: record_query where
  "sample_query =
     \<lparr>q_where = None, q_search = None, q_orderBy = Some (OrderField ''n''), q_order = Some Desc, q_limit = Some 2, q_expand = None,
      q_backlinks = None, q_aggregate = None, q_select = None, q_cursor = None\<rparr>"


section \<open>A column that contradicts itself\<close>

text \<open>How the library takes three texts: 9 and 10 are numbers, and 5x, between them as text, is none.\<close>

definition numbers_and_words :: "js_library \<Rightarrow> bool" where
  "numbers_and_words lib \<longleftrightarrow>
     stringToNumber lib ''9'' = Finite 9 \<and> stringToNumber lib ''10'' = Finite 10 \<and> stringToNumber lib ''5x'' = NaN
     \<and> numberToString lib 9 = ''9'' \<and> numberToString lib 10 = ''10'' \<and> toLowerCase lib ''5x'' = ''5x''
     \<and> (\<forall>s. localeCompare lib s s = 0) \<and> localeCompare lib ''10'' ''5x'' < 0 \<and> localeCompare lib ''5x'' ''10'' > 0
     \<and> localeCompare lib ''5x'' ''9'' < 0 \<and> localeCompare lib ''9'' ''5x'' > 0"

definition text_fields :: field_map where
  "text_fields = [(''n'', \<lparr>fs_type = ''text'', fs_name = None, fs_required = False, fs_values = None, references = None, many = False\<rparr>)]"

definition by_n :: "sort_key list" where
  "by_n = [\<lparr>sk_field = ''n'', sk_dir = 1\<rparr>]"

lemma text_comparison:
  "buildComparator lib by_n (Some text_fields) (sample_row i v) (sample_row j w) =
     then_by (\<lambda>v w. compareComparable lib (toComparable lib None (Some v)) (toComparable lib None (Some w)))
       (\<lambda>v w. Some (localeCompare lib i j)) v w"
proof -
  have spec: "select_values (spec_of (Some text_fields) ''n'') = None"
    "Option.bind (spec_of (Some text_fields) ''n'') (\<lambda>s. normalizeType (fs_type s)) = None"
    by (simp_all add: spec_of_def text_fields_def select_values_def normalizeType_def normalizeRecordFieldType_def)
  have n: "fieldValue (sample_row i v) ''n'' = Some v" for i v by (simp add: fieldValue_def sample_row_def)
  have "keys_order lib by_n (Some text_fields) (sample_row i v) (sample_row j w) =
      compareComparable lib (toComparable lib None (Some v)) (toComparable lib None (Some w))"
    by (simp add: keys_order_def by_n_def key_comparison_def n compareFieldValues_def spec compareForOrder_def option.map_ident)
  then show ?thesis by (simp add: buildComparator_then_by then_by_def) (simp add: sample_row_def)
qed

lemma mixed_keys:
  assumes "numbers_and_words lib"
  shows "toComparable lib None (Some (JStr ''9'')) = NumKey (Finite 9)"
    "toComparable lib None (Some (JStr ''10'')) = NumKey (Finite 10)"
    "toComparable lib None (Some (JStr ''5x'')) = StrKey ''5x''"
  using assms by (simp_all add: toComparable_def string_key_def numbers_and_words_def trim_def js_space_def date_like_def)

lemma mixed_order:
  assumes "numbers_and_words lib" and "s \<in> {''9'', ''10'', ''5x''}" "t \<in> {''9'', ''10'', ''5x''}" "s = t \<longrightarrow> i = j"
  shows "after (buildComparator lib by_n (Some text_fields) (sample_row i (JStr s)) (sample_row j (JStr t))) \<longleftrightarrow>
     (s, t) \<in> {(''10'', ''9''), (''5x'', ''10''), (''9'', ''5x'')}"
proof -
  have lib: "numberToString lib 9 = ''9''" "numberToString lib 10 = ''10''"
      "sgn (localeCompare lib ''10'' ''5x'') = -1" "sgn (localeCompare lib ''5x'' ''10'') = 1"
      "sgn (localeCompare lib ''5x'' ''9'') = -1" "sgn (localeCompare lib ''9'' ''5x'') = 1" "localeCompare lib x x = 0" for x
    using assms(1) by (simp_all add: numbers_and_words_def)
  show ?thesis
    using assms(2-4)
    by (elim insertE emptyE)
      (simp_all add: text_comparison then_by_def mixed_keys [OF assms(1)] compareComparable_def key_text_def after_def lib)
qed

text \<open>
  In a text column, texts that read as numbers compare as numbers and with other texts as text, so
  9, 10 and 5x precede each other in a circle. However a sort leaves these three rows, pages of one row end after
  two: the row in front of the first page, in the circle, is on no page.
\<close>

lemma mixed_column_skips_a_row:
  assumes "numbers_and_words lib"
    and "mset rows = {#sample_row i (JStr ''9''), sample_row j (JStr ''10''), sample_row k (JStr ''5x'')#}"
  shows "take_page lib by_n (Some 1) rows = ([hd rows], Some (encodeCursor lib by_n (hd rows)))
    \<and> length (rows_after lib by_n (Some text_fields) (row_marker by_n (hd rows)) rows) = 1"
proof
  have three: "length rows = 3" by (metis assms(2) size_mset size_add_mset size_empty numeral_3_eq_3)
  then obtain x ys where rows: "rows = x # ys" by (cases rows) auto
  with three show "take_page lib by_n (Some 1) rows = ([hd rows], Some (encodeCursor lib by_n (hd rows)))"
    by (simp add: take_page_def)
  have "hd rows \<in># mset rows" using rows by simp
  then have hd: "hd rows = sample_row i (JStr ''9'') \<or> hd rows = sample_row j (JStr ''10'') \<or> hd rows = sample_row k (JStr ''5x'')"
    by (simp add: assms(2))
  have "length (rows_after lib by_n (Some text_fields) (row_marker by_n (hd rows)) rows) =
      size (filter_mset (\<lambda>r. after (buildComparator lib by_n (Some text_fields) r (hd rows))) (mset rows))"
    unfolding rows_after_def row_marker_def fst_conv snd_conv marker_compares mset_filter [symmetric] size_mset ..
  also have "\<dots> = 1"
    using hd by (elim disjE) (simp_all add: assms(2) mixed_order [OF assms(1)])
  finally show "length (rows_after lib by_n (Some text_fields) (row_marker by_n (hd rows)) rows) = 1" .
qed

end
