(* ===== verification/RecordFilter.thy ===== *)
theory RecordFilter
  imports RecordQuery
begin

text \<open>
  The filter of \<open>listRecords\<close>, \<open>filterRecords\<close> in \<open>packages/server/src/record-store.ts\<close>, which
  evaluates a flat condition itself, against the evaluator of queries in theory \<open>RecordQuery\<close>, which
  compiles the condition to a tree. The two agree on the conditions below and not on every text column.
\<close>

section \<open>The filter\<close>

definition resolveValue :: "bool \<Rightarrow> (string \<Rightarrow> string) option \<Rightarrow> json option \<Rightarrow> json option" where
  "resolveValue documentField resolve v =
     (case (documentField, resolve) of
        (True, Some f) \<Rightarrow>
          (case v of
             Some (JStr p) \<Rightarrow> Some (JStr (f p))
           | Some (JArr es) \<Rightarrow> Some (JArr (map (\<lambda>e. case e of JStr p \<Rightarrow> JStr (f p) | _ \<Rightarrow> e) es))
           | _ \<Rightarrow> v)
      | _ \<Rightarrow> v)"

definition bound_holds :: "js_library \<Rightarrow> string option \<Rightarrow> predicate_op \<Rightarrow> json option \<Rightarrow> json option \<Rightarrow> bool" where
  "bound_holds lib fieldType op v operand \<longleftrightarrow>
     \<not> isMissing v \<and> \<not> isMissing operand \<and> holds_order op (compareForOrder lib fieldType v operand)"

text \<open>One operator of a flat condition, where the condition has it.\<close>

definition flat_op_holds ::
    "js_library \<Rightarrow> string option \<Rightarrow> (json option \<Rightarrow> json option) \<Rightarrow> json option \<Rightarrow> json_object \<Rightarrow> string \<Rightarrow> bool" where
  "flat_op_holds lib fieldType rv v ops op =
     (if op = ''in''
      then (case map_of ops op of Some (JArr es) \<Rightarrow> list_ex (\<lambda>e. strict_eq (rv (Some e)) v) es | _ \<Rightarrow> False)
      else if op = ''contains''
      then (case map_of ops op of
              Some (JStr needle) \<Rightarrow>
                contains_text (toLowerCase lib (if isMissing v then [] else js_String lib (the v))) (toLowerCase lib needle)
            | _ \<Rightarrow> False)
      else bound_holds lib fieldType (the (map_of RECORD_PREDICATE_OPS op)) v (map_of ops op))"

definition flat_entry_matches ::
    "js_library \<Rightarrow> field_map option \<Rightarrow> (string \<Rightarrow> string) option \<Rightarrow> record_file \<Rightarrow> string \<times> json \<Rightarrow> bool" where
  "flat_entry_matches lib flds resolve r entry =
     (case entry of (key, expected) \<Rightarrow>
        (let fieldType = map_option fs_type (spec_of flds key);
             documentField = (case fieldType of None \<Rightarrow> False | Some t \<Rightarrow> t \<noteq> [] \<and> normalizeRecordFieldType t = ''document'');
             rv = resolveValue documentField resolve;
             v = rv (fieldValue r key)
         in case expected of
              JObj ops \<Rightarrow>
                if list_ex (\<lambda>op. has op ops) FLAT_OPS
                then list_all (\<lambda>op. has op ops \<longrightarrow> flat_op_holds lib fieldType rv v ops op) FLAT_OPS
                else strict_eq v (rv (Some expected))
            | _ \<Rightarrow> strict_eq v (rv (Some expected))))"

text \<open>\<open>c || d\<close> of numbers: zero and NaN give way.\<close>

definition or_else :: "int option \<Rightarrow> int \<Rightarrow> int option" where
  "or_else c d = (if c = None \<or> c = Some 0 then Some d else c)"

definition updatedAt :: "record_file \<Rightarrow> string" where
  "updatedAt r = (case map_of (rec_envelope r) ''updatedAt'' of Some (JStr s) \<Rightarrow> s | _ \<Rightarrow> [])"

definition flat_order :: "js_library \<Rightarrow> record_query \<Rightarrow> field_map option \<Rightarrow> record_file \<Rightarrow> record_file \<Rightarrow> int option" where
  "flat_order lib q flds a b =
     (case q_orderBy q of
        Some (OrderField key) \<Rightarrow>
          or_else (map_option (\<lambda>c. c * direction (q_order q))
              (compareFieldValues lib (spec_of flds key) (fieldValue a key) (fieldValue b key)))
            (localeCompare lib (rec_id a) (rec_id b))
      | _ \<Rightarrow> or_else (Some (localeCompare lib (updatedAt b) (updatedAt a))) (localeCompare lib (rec_id a) (rec_id b)))"

definition filterRecords ::
    "js_library \<Rightarrow> record_file list \<Rightarrow> record_query \<Rightarrow> field_map option \<Rightarrow> (string \<Rightarrow> string) option \<Rightarrow> record_file list" where
  "filterRecords lib records q flds resolve =
     (let matching = (case q_where q of None \<Rightarrow> records | Some w \<Rightarrow> filter (\<lambda>r. list_all (flat_entry_matches lib flds resolve r) w) records);
          found = (case q_search q of
                     None \<Rightarrow> matching
                   | Some needle \<Rightarrow> if needle = [] then matching else filter (recordMatchesSearch lib needle) matching);
          sorted = js_sort (flat_order lib q flds) found
      in case q_limit q of None \<Rightarrow> sorted | Some n \<Rightarrow> take n sorted)"

section \<open>The tree of a flat condition\<close>

definition entry_leaves :: "string \<times> json \<Rightarrow> predicate list" where
  "entry_leaves entry =
     (case entry of (key, expected) \<Rightarrow>
        (case expected of
           JObj ops \<Rightarrow>
             (let present = filter (\<lambda>op. has op ops) FLAT_OPS
              in if present \<noteq> []
                 then map (\<lambda>op. Leaf key (the (map_of RECORD_PREDICATE_OPS op)) (Some (the (map_of ops op)))) present
                 else [Leaf key OpEq (Some expected)])
         | _ \<Rightarrow> [Leaf key OpEq (Some expected)]))"

definition tree_of :: "predicate list \<Rightarrow> predicate" where
  "tree_of ps = (case ps of [p] \<Rightarrow> p | _ \<Rightarrow> And ps)"

text \<open>
  The conditions the two evaluators agree on: fields named without a dot, every operand one its
  operator takes, bounds only on fields without a type or of a type that compares as what it is, and no substring
  search, which one of them applies to each element of a list.
\<close>

definition plain_entry :: "field_map option \<Rightarrow> string \<times> json \<Rightarrow> bool" where
  "plain_entry flds entry \<longleftrightarrow>
     (case entry of (key, expected) \<Rightarrow>
        key \<noteq> [] \<and> CHR ''.'' \<notin> set key
        \<and> (case expected of
             JObj ops \<Rightarrow>
               \<not> has ''contains'' ops \<and> (has ''in'' ops \<longrightarrow> is_array (map_of ops ''in''))
               \<and> list_all (\<lambda>op. has op ops \<longrightarrow> map_of ops op \<noteq> Some JNull
                    \<and> (case spec_of flds key of None \<Rightarrow> True | Some s \<Rightarrow> fs_type s \<in> {''number'', ''date'', ''datetime''}))
                  [''gt'', ''gte'', ''lt'', ''lte'']
           | _ \<Rightarrow> True))"

lemma has_map_of: "has k ops \<longleftrightarrow> map_of ops k \<noteq> None"
  by (simp add: has_def map_of_eq_None_iff)

lemma flat_op_names:
  "op \<in> set FLAT_OPS \<Longrightarrow> op_name (the (map_of RECORD_PREDICATE_OPS op)) = op"
  by (auto simp: FLAT_OPS_def RECORD_PREDICATE_OPS_def op_name_def)

lemma flat_leaves_json: "flat_leaves key expected = map predicate_json (entry_leaves (key, expected))"
proof -
  have "flat_leaf key op v = predicate_json (Leaf key (the (map_of RECORD_PREDICATE_OPS op)) (Some v))" if "op \<in> set FLAT_OPS" for op v
    using flat_op_names [OF that] by (simp add: flat_leaf_def)
  moreover have "flat_leaf key ''eq'' v = predicate_json (Leaf key OpEq (Some v))" for v
    by (simp add: flat_leaf_def op_name_def RECORD_PREDICATE_OPS_def)
  ultimately show ?thesis
    by (cases expected) (simp_all add: flat_leaves_def entry_leaves_def Let_def)
qed

lemma flatWhere_json:
  "concat (map entry_leaves w) \<noteq> [] \<Longrightarrow> flatWhereToPredicate w = Some (predicate_json (tree_of (concat (map entry_leaves w))))"
proof -
  have "concat (map (\<lambda>(fld, expected). flat_leaves fld expected) w) = map predicate_json (concat (map entry_leaves w))"
    by (induction w) (auto simp: flat_leaves_json)
  then show "concat (map entry_leaves w) \<noteq> [] \<Longrightarrow> ?thesis"
    by (auto simp: flatWhereToPredicate_def tree_of_def split: list.splits)
qed

lemma entry_leaves_nonempty [simp]: "entry_leaves e \<noteq> []"
  by (cases e) (auto simp: entry_leaves_def Let_def split: json.split)

lemma plain_op:
  assumes "plain_entry flds (key, JObj ops)" "op \<in> set FLAT_OPS" "map_of ops op = Some v"
  obtains (member) es where "op = ''in''" "v = JArr es"
  | (bound) o' where "op \<noteq> ''in''" "op \<noteq> ''contains''" "the (map_of RECORD_PREDICATE_OPS op) = o'" "is_range o'" "v \<noteq> JNull"
      "case spec_of flds key of None \<Rightarrow> True | Some s \<Rightarrow> fs_type s \<in> {''number'', ''date'', ''datetime''}"
proof -
  have present: "has op ops" by (simp add: has_map_of assms(3))
  have entry: "\<not> has ''contains'' ops" "has ''in'' ops \<longrightarrow> is_array (map_of ops ''in'')"
    "op \<in> {''gt'', ''gte'', ''lt'', ''lte''} \<Longrightarrow> v \<noteq> JNull
      \<and> (case spec_of flds key of None \<Rightarrow> True | Some s \<Rightarrow> fs_type s \<in> {''number'', ''date'', ''datetime''})"
    using assms(1,3) present unfolding plain_entry_def list_all_iff by (simp_all only: prod.case json.case) force+
  from assms(2) present entry(1) consider "op = ''in''" | "op \<in> {''gt'', ''gte'', ''lt'', ''lte''}"
    unfolding FLAT_OPS_def by fastforce
  then show thesis
  proof cases
    case 1
    with entry(2) present assms(3) have "is_array (Some v)" by simp
    then obtain es where "v = JArr es" by (auto simp: is_array_def split: json.splits)
    with 1 member show thesis by blast
  next
    case 2
    then have "is_range (the (map_of RECORD_PREDICATE_OPS op))" "op \<noteq> ''in''" "op \<noteq> ''contains''"
      by (auto simp: is_range_def RECORD_PREDICATE_OPS_def)
    with entry(3) [OF 2] bound show thesis by blast
  qed
qed

lemma plain_leaves_ok:
  assumes "plain_entry flds e" "p \<in> set (entry_leaves e)"
  shows "predicateSchemaAt depth p"
proof -
  obtain key expected where e: "e = (key, expected)" by (cases e)
  have key: "key \<noteq> []" using assms(1) by (simp add: plain_entry_def e)
  have eq: "predicateSchemaAt depth (Leaf key OpEq v)" for v
    using key by (simp add: leaf_ok_def predicateValueProblem_def is_range_def)
  have bounded: "predicateSchemaAt depth (Leaf key (the (map_of RECORD_PREDICATE_OPS s)) (Some (the (map_of ops s))))"
    if op: "expected = JObj ops" "s \<in> set FLAT_OPS" "has s ops" for s ops
  proof -
    obtain v where v: "map_of ops s = Some v" using op(3) by (auto simp: has_map_of)
    show ?thesis
      using assms(1) unfolding e op(1)
    proof (rule plain_op [OF _ op(2) v])
      fix es
      assume "s = ''in''" "v = JArr es"
      moreover from this v have "map_of ops ''in'' = Some (JArr es)" by simp
      ultimately show ?thesis
        using key by (simp add: leaf_ok_def predicateValueProblem_def is_range_def is_array_def RECORD_PREDICATE_OPS_def)
    next
      fix o'
      assume "the (map_of RECORD_PREDICATE_OPS s) = o'" "is_range o'" "v \<noteq> JNull"
      moreover from this have "predicateValueProblem o' (Some v) = None"
        by (auto simp: predicateValueProblem_def is_range_def missing_def)
      ultimately show ?thesis using key by (simp add: v leaf_ok_def)
    qed
  qed
  show ?thesis
    using assms(2) eq bounded by (cases expected) (auto simp: e entry_leaves_def Let_def split: if_splits)
qed

lemma tree_of_ok:
  assumes "\<And>p. p \<in> set ps \<Longrightarrow> predicateSchemaAt 0 p \<and> predicateSchemaAt 1 p" "ps \<noteq> []"
  shows "predicateSchemaAt 0 (tree_of ps)"
  using assms by (auto simp: tree_of_def RECORD_PREDICATE_MAX_DEPTH_def list_all_iff split: list.split)

lemma predicateMatches_tree_of [simp]:
  "predicateMatches lib ctx r (tree_of ps) = list_all (predicateMatches lib ctx r) ps"
  by (auto simp: tree_of_def split: list.split)

section \<open>Agreement\<close>

lemma equivalent_resolve:
  "equivalent document resolve v w = strict_eq (resolveValue document resolve v) (resolveValue document resolve w)"
  by (cases document; cases resolve; cases v; cases w)
    (auto simp: equivalent_def resolveValue_def strict_eq_def split: json.splits)

lemma isMissing_resolve [simp]: "isMissing (resolveValue document resolve v) = isMissing v"
  by (auto simp: resolveValue_def isMissing_def split: option.split json.split bool.split)

lemma leaf_plain:
  assumes "CHR ''.'' \<notin> set key" "op \<noteq> OpIsEmpty"
  shows "leafMatches lib ctx r key op v \<longleftrightarrow>
     single_matches lib (typed_values [fieldValue r key] (spec_of (cx_fields ctx) key)) (cx_resolvePath ctx) op v (fieldValue r key)"
  using assms by (simp add: leafMatches_def pathValues_def typed_values_def Let_def)

text \<open>Whether a field holds documents and its comparison hint, as the two evaluators read them.\<close>

definition document_field :: "field_map option \<Rightarrow> string \<Rightarrow> bool" where
  "document_field flds key = (case spec_of flds key of None \<Rightarrow> False | Some s \<Rightarrow> normalizeRecordFieldType (fs_type s) = ''document'')"

lemma pv_document_typed [simp]: "pv_document (typed_values vs (spec_of flds key)) = document_field flds key"
  by (simp add: typed_values_def document_field_def)

lemma document_field_flat:
  "(case map_option fs_type (spec_of flds key) of None \<Rightarrow> False | Some t \<Rightarrow> t \<noteq> [] \<and> normalizeRecordFieldType t = ''document'') =
     document_field flds key"
  by (auto simp: document_field_def normalizeRecordFieldType_def split: option.split)

lemma flat_entry_matches_eq:
  "flat_entry_matches lib flds resolve r (key, expected) \<longleftrightarrow>
     (let rv = resolveValue (document_field flds key) resolve; v = rv (fieldValue r key)
      in case expected of
           JObj ops \<Rightarrow>
             if list_ex (\<lambda>op. has op ops) FLAT_OPS
             then list_all (\<lambda>op. has op ops \<longrightarrow> flat_op_holds lib (map_option fs_type (spec_of flds key)) rv v ops op) FLAT_OPS
             else strict_eq v (rv (Some expected))
         | _ \<Rightarrow> strict_eq v (rv (Some expected)))"
  unfolding flat_entry_matches_def prod.case Let_def document_field_flat ..

lemma typed_bound:
  assumes "case spec_of flds key of None \<Rightarrow> True | Some s \<Rightarrow> fs_type s \<in> {''number'', ''date'', ''datetime''}"
  shows "pv_type (typed_values vs (spec_of flds key)) = map_option fs_type (spec_of flds key)"
    "\<not> document_field flds key"
  using assms
  by (auto simp: typed_values_def document_field_def normalizeType_def normalizeRecordFieldType_def Let_def split: option.splits)

lemma resolveValue_plain [simp]: "resolveValue False resolve v = v"
  by (simp add: resolveValue_def)

lemma flat_op_leaf:
  assumes "plain_entry (cx_fields ctx) (key, JObj ops)" "op \<in> set FLAT_OPS" "has op ops"
  shows "predicateMatches lib ctx r (Leaf key (the (map_of RECORD_PREDICATE_OPS op)) (Some (the (map_of ops op)))) \<longleftrightarrow>
     flat_op_holds lib (map_option fs_type (spec_of (cx_fields ctx) key)) (resolveValue (document_field (cx_fields ctx) key) (cx_resolvePath ctx))
       (resolveValue (document_field (cx_fields ctx) key) (cx_resolvePath ctx) (fieldValue r key)) ops op"
proof -
  obtain v where v: "map_of ops op = Some v" using assms(3) by (auto simp: has_map_of)
  have key: "CHR ''.'' \<notin> set key" using assms(1) by (simp add: plain_entry_def)
  show ?thesis
    using assms(1)
  proof (rule plain_op [OF _ assms(2) v])
    fix es
    assume "op = ''in''" "v = JArr es"
    moreover from this v have "map_of ops ''in'' = Some (JArr es)" by simp
    moreover have "the (map_of RECORD_PREDICATE_OPS ''in'') = OpIn" by (simp add: RECORD_PREDICATE_OPS_def)
    ultimately show ?thesis
      by (simp add: leaf_plain [OF key] single_matches_def Let_def equivalent_resolve flat_op_holds_def)
        (simp add: strict_eq_sym)
  next
    fix o'
    assume bound: "op \<noteq> ''in''" "op \<noteq> ''contains''" "the (map_of RECORD_PREDICATE_OPS op) = o'" "is_range o'" "v \<noteq> JNull"
      "case spec_of (cx_fields ctx) key of None \<Rightarrow> True | Some s \<Rightarrow> fs_type s \<in> {''number'', ''date'', ''datetime''}"
    have "single_matches lib pv f o' w x \<longleftrightarrow> \<not> isMissing x \<and> holds_order o' (compareForOrder lib (pv_type pv) x w)" "o' \<noteq> OpIsEmpty"
      for pv f w x using bound(4) by (auto simp: single_matches_def Let_def is_range_def)
    with bound show ?thesis
      by (simp add: leaf_plain [OF key] flat_op_holds_def bound_holds_def v typed_bound) (simp add: isMissing_def)
  qed
qed

lemma flat_entry_leaves:
  assumes "plain_entry (cx_fields ctx) e"
  shows "list_all (predicateMatches lib ctx r) (entry_leaves e) \<longleftrightarrow> flat_entry_matches lib (cx_fields ctx) (cx_resolvePath ctx) r e"
proof -
  obtain key expected where e: "e = (key, expected)" by (cases e)
  have key: "CHR ''.'' \<notin> set key" using assms by (simp add: plain_entry_def e)
  have eq: "predicateMatches lib ctx r (Leaf key OpEq (Some w)) \<longleftrightarrow>
      strict_eq (resolveValue (document_field (cx_fields ctx) key) (cx_resolvePath ctx) (fieldValue r key))
        (resolveValue (document_field (cx_fields ctx) key) (cx_resolvePath ctx) (Some w))" for w
    by (simp add: leaf_plain [OF key] single_matches_def Let_def equivalent_resolve)
  show ?thesis
  proof (cases "\<exists>ops. expected = JObj ops \<and> list_ex (\<lambda>op. has op ops) FLAT_OPS")
    case True
    then obtain ops where ops: "expected = JObj ops" "list_ex (\<lambda>op. has op ops) FLAT_OPS" by blast
    then have some: "filter (\<lambda>op. has op ops) FLAT_OPS \<noteq> []" by (auto simp: list_ex_iff filter_empty_conv)
    have "list_all (predicateMatches lib ctx r) (entry_leaves e) \<longleftrightarrow>
        (\<forall>op \<in> set FLAT_OPS. has op ops \<longrightarrow> predicateMatches lib ctx r (Leaf key (the (map_of RECORD_PREDICATE_OPS op)) (Some (the (map_of ops op)))))"
      using some by (simp add: e ops(1) entry_leaves_def Let_def list_all_iff del: predicateMatches.simps) blast
    also have "\<dots> \<longleftrightarrow> flat_entry_matches lib (cx_fields ctx) (cx_resolvePath ctx) r e"
      using flat_op_leaf [OF assms [unfolded e ops(1)]] ops(2)
      by (simp add: e ops(1) flat_entry_matches_eq Let_def list_all_iff del: predicateMatches.simps)
    finally show ?thesis .
  next
    case False
    then have "entry_leaves e = [Leaf key OpEq (Some expected)]"
      by (cases expected) (auto simp: e entry_leaves_def Let_def list_ex_iff filter_empty_conv)
    with False eq show ?thesis
      by (cases expected) (auto simp: e flat_entry_matches_eq Let_def simp del: predicateMatches.simps)
  qed
qed

lemma insert_row_cong: "(\<And>y. y \<in> set ys \<Longrightarrow> cmp x y = cmp' x y) \<Longrightarrow> insert_row cmp x ys = insert_row cmp' x ys"
  by (induction ys) auto

lemma set_insert_row: "set (insert_row cmp x ys) = insert x (set ys)"
  by (induction ys) auto

lemma set_sorted: "set (js_sort cmp xs) = set xs"
  by (induction xs) (auto simp: js_sort_def set_insert_row)

lemma js_sort_cong:
  "(\<And>x y. x \<in> set xs \<Longrightarrow> y \<in> set xs \<Longrightarrow> cmp x y = cmp' x y) \<Longrightarrow> js_sort cmp xs = js_sort cmp' xs"
proof (induction xs)
  case (Cons x xs)
  then have "js_sort cmp xs = js_sort cmp' xs" by simp
  then show ?case
    using Cons.prems insert_row_cong [of "js_sort cmp' xs" cmp x cmp'] set_sorted [of cmp' xs] by (simp add: js_sort_def)
qed (simp add: js_sort_def)

definition conditions :: "record_query \<Rightarrow> json_object" where
  "conditions q = (case q_where q of None \<Rightarrow> [] | Some w \<Rightarrow> w)"

definition leaves_of :: "json_object \<Rightarrow> predicate list" where
  "leaves_of w = concat (map entry_leaves w)"

lemma leaves_of_ok:
  assumes "list_all (plain_entry flds) w" "p \<in> set (leaves_of w)"
  shows "predicateSchemaAt depth p"
  using assms plain_leaves_ok by (auto simp: leaves_of_def list_all_iff)

lemma plain_query_predicate:
  assumes "list_all (plain_entry flds) (conditions q)" "\<not> isPredicateTree (conditions q) flds"
  shows "query_predicate q flds = Inr (if leaves_of (conditions q) = [] then None else Some (tree_of (leaves_of (conditions q))))"
proof (cases "q_where q")
  case None
  then show ?thesis by (simp add: query_predicate_def where_tree_def conditions_def leaves_of_def)
next
  case (Some w)
  then have w: "conditions q = w" by (simp add: conditions_def)
  show ?thesis
  proof (cases "leaves_of w = []")
    case True
    then have "w = []" by (cases w) (auto simp: leaves_of_def)
    with Some assms(2) show ?thesis
      by (simp add: query_predicate_def where_tree_def w leaves_of_def flatWhereToPredicate_def)
  next
    case False
    have "predicateSchemaAt 0 (tree_of (leaves_of w))"
      using leaves_of_ok [OF assms(1) [unfolded w]] False by (intro tree_of_ok) auto
    then have "parsePredicate flds 0 (predicate_json (tree_of (leaves_of w))) = Inr (tree_of (leaves_of w))"
      by (rule parse_predicate_json) simp
    moreover have "flatWhereToPredicate w = Some (predicate_json (tree_of (leaves_of w)))"
      using False flatWhere_json by (simp add: leaves_of_def)
    ultimately show ?thesis
      using assms(2) Some False by (simp add: query_predicate_def where_tree_def w)
  qed
qed

lemma leaf_fields_plain:
  assumes "list_all (plain_entry flds) w" "f \<in> set (leaf_fields (tree_of (leaves_of w)))"
  shows "CHR ''.'' \<notin> set f"
proof -
  have "set (leaf_fields (tree_of ps)) = (\<Union>p \<in> set ps. set (leaf_fields p))" for ps
    by (auto simp: tree_of_def split: list.split)
  with assms(2) obtain e p where e: "e \<in> set w" "p \<in> set (entry_leaves e)" "f \<in> set (leaf_fields p)"
    by (auto simp: leaves_of_def)
  obtain key expected where key: "e = (key, expected)" by (cases e)
  from e(2,3) have "f = key" by (auto simp: key entry_leaves_def Let_def split: json.splits if_splits)
  with assms(1) e(1) show ?thesis by (auto simp: list_all_iff plain_entry_def key)
qed

definition searched :: "js_library \<Rightarrow> record_query \<Rightarrow> record_file list \<Rightarrow> record_file list" where
  "searched lib q rows =
     (case q_search q of
        None \<Rightarrow> rows
      | Some needle \<Rightarrow> if needle = [] then rows else filter (recordMatchesSearch lib needle) rows)"

lemma plain_matching:
  assumes "list_all (plain_entry (cx_fields ctx)) (conditions q)" "\<not> isPredicateTree (conditions q) (cx_fields ctx)"
  shows "(case query_predicate q (cx_fields ctx) of
      Inl e \<Rightarrow> False
    | Inr None \<Rightarrow> list_all (flat_entry_matches lib (cx_fields ctx) (cx_resolvePath ctx) r) (conditions q)
    | Inr (Some p) \<Rightarrow> predicateMatches lib ctx r p =
        list_all (flat_entry_matches lib (cx_fields ctx) (cx_resolvePath ctx) r) (conditions q))"
proof -
  have "list_all (predicateMatches lib ctx r) (leaves_of w) \<longleftrightarrow>
      list_all (flat_entry_matches lib (cx_fields ctx) (cx_resolvePath ctx) r) w"
    if "list_all (plain_entry (cx_fields ctx)) w" for w
    using that by (induction w) (auto simp: leaves_of_def flat_entry_leaves)
  from this [OF assms(1)] show ?thesis using plain_query_predicate [OF assms] by (cases "leaves_of (conditions q) = []") simp_all
qed

lemma plain_matching_rows:
  assumes "list_all (plain_entry (cx_fields ctx)) (conditions q)" "\<not> isPredicateTree (conditions q) (cx_fields ctx)"
  shows "matching_rows lib ctx q records =
     Inr (searched lib q (filter (\<lambda>r. list_all (flat_entry_matches lib (cx_fields ctx) (cx_resolvePath ctx) r) (conditions q)) records))"
proof -
  note m = plain_matching [OF assms]
  show ?thesis
    using m [of lib] plain_query_predicate [OF assms]
    by (cases "leaves_of (conditions q) = []") (simp_all add: matching_rows_def searched_def Let_def)
qed

lemma plain_load:
  assumes "list_all (plain_entry flds) (conditions q)" "\<not> isPredicateTree (conditions q) flds"
    and "q_expand q = None" "q_backlinks q = None"
  shows "load_context q flds resolve resolveFields resolvePath =
     Inr \<lparr>cx_fields = flds, cx_targets = [], cx_targetFields = [], cx_resolvePath = resolvePath\<rparr>"
proof -
  have "List.map_filter (path_target flds) (leaf_fields (tree_of (leaves_of (conditions q)))) = []"
    using leaf_fields_plain [OF assms(1)] by (simp add: List.map_filter_def filter_empty_conv path_target_def)
  with assms(3,4) have "referencedCollections q flds = Inr []"
    by (simp add: referencedCollections_def plain_query_predicate [OF assms(1,2)] uniq_def)
  then show ?thesis by (simp add: load_context_def)
qed

lemma filterRecords_searched:
  "filterRecords lib records q flds resolve =
     (let sorted = js_sort (flat_order lib q flds)
          (searched lib q (filter (\<lambda>r. list_all (flat_entry_matches lib flds resolve r) (conditions q)) records))
      in case q_limit q of None \<Rightarrow> sorted | Some n \<Rightarrow> take n sorted)"
  by (cases "q_where q") (simp_all add: filterRecords_def conditions_def searched_def Let_def)

text \<open>
  C6. A query with a flat condition, ordered by one field, gives the same records in the same order in
  the evaluator of queries and in the filter of record lists, where every operand suits its operator, bounds are on
  fields that compare as their type, nothing is searched by substring in one field, and no two infinities
  are compared.
\<close>

theorem flat_queries_agree:
  assumes "list_all (plain_entry flds) (conditions q)" "\<not> isPredicateTree (conditions q) flds"
    and "q_orderBy q = Some (OrderField key)" "q_expand q = None" "q_backlinks q = None" "q_aggregate q = None"
      "q_select q = None" "q_cursor q = None"
    and "list_all (\<lambda>a. list_all (\<lambda>b. compareFieldValues lib (spec_of flds key) (fieldValue a key) (fieldValue b key) \<noteq> None) records) records"
  shows "\<exists>result matched. runQueryV2 lib records q flds resolve resolveFields options = Inr (result, matched)
    \<and> qr_records result = filterRecords lib records q flds (qo_resolvePath options)"
proof -
  let ?ctx = "\<lparr>cx_fields = flds, cx_targets = [], cx_targetFields = [], cx_resolvePath = qo_resolvePath options\<rparr>"
  let ?matched = "searched lib q (filter (\<lambda>r. list_all (flat_entry_matches lib flds (qo_resolvePath options) r) (conditions q)) records)"
  have m: "matching_rows lib ?ctx q records = Inr ?matched" using plain_matching_rows [of ?ctx q lib records] assms(1,2) by simp
  have sub: "set ?matched \<subseteq> set records" by (auto simp: searched_def split: option.split)
  have "buildComparator lib (sortKeys q) flds a b = flat_order lib q flds a b" if "a \<in> set ?matched" "b \<in> set ?matched" for a b
  proof -
    have "compareFieldValues lib (spec_of flds key) (fieldValue a key) (fieldValue b key) \<noteq> None"
      using assms(9) sub that unfolding list_all_iff by blast
    then show ?thesis
      using assms(3) by (auto simp: buildComparator_def compare_values_def sortKeys_def sort_values_def key_comparison_def flat_order_def or_else_def)
  qed
  then have sorted: "js_sort (buildComparator lib (sortKeys q) flds) ?matched = js_sort (flat_order lib q flds) ?matched"
    by (rule js_sort_cong)
  show ?thesis
    using assms(4-8)
    by (simp add: runQueryV2_def plain_load [OF assms(1,2)] m Let_def from_cursor_def sorted filterRecords_searched take_page_def
        split: option.split)
qed

definition plain_library :: js_library where
  "plain_library =
     \<lparr>toLowerCase = \<lambda>s. s, localeCompare = \<lambda>s t. of_char (hd s) - of_char (hd t), dateParse = \<lambda>s. None,
      stringToNumber = \<lambda>s. if s = ''9'' then Finite 9 else if s = ''10'' then Finite 10 else NaN,
      numberToString = \<lambda>n. [], numberAdd = \<lambda>m n. m, numberDivide = \<lambda>m n. m,
      stringify = \<lambda>v. [], cursorText = \<lambda>m. snd m, cursorParse = \<lambda>s. None\<rparr>"

definition task_row :: "string \<Rightarrow> string \<Rightarrow> rat \<Rightarrow> record_file" where
  "task_row i status n = \<lparr>rec_id = i, rec_data = [(''status'', JStr status), (''n'', JNum n)], rec_envelope = []\<rparr>"

definition flat_query :: "json_object \<Rightarrow> record_query" where
  "flat_query w =
     \<lparr>q_where = Some w, q_search = None, q_orderBy = Some (OrderField ''n''), q_order = None, q_limit = None, q_expand = None,
      q_backlinks = None, q_aggregate = None, q_select = None, q_cursor = None\<rparr>"

theorem flat_queries_agree_witness:
  "\<exists>result matched. runQueryV2 plain_library [task_row ''a'' ''open'' 7, task_row ''b'' ''open'' 3, task_row ''c'' ''done'' 5]
      (flat_query [(''status'', JStr ''open''), (''n'', JObj [(''gt'', JNum 2)])]) None (\<lambda>c. None) None
      \<lparr>qo_resolvePath = None, qo_groupEachValue = True\<rparr> = Inr (result, matched)
    \<and> qr_records result = [task_row ''b'' ''open'' 3, task_row ''a'' ''open'' 7]"
proof -
  let ?rows = "[task_row ''a'' ''open'' 7, task_row ''b'' ''open'' 3, task_row ''c'' ''done'' 5]"
  let ?q = "flat_query [(''status'', JStr ''open''), (''n'', JObj [(''gt'', JNum 2)])]"
  let ?options = "\<lparr>qo_resolvePath = None, qo_groupEachValue = True\<rparr>"
  have w: "conditions ?q = [(''status'', JStr ''open''), (''n'', JObj [(''gt'', JNum 2)])]" by (simp add: conditions_def flat_query_def)
  have f: "fieldValue (task_row i s n) ''n'' = Some (JNum n)" "fieldValue (task_row i s n) ''status'' = Some (JStr s)" for i s n
    by (simp_all add: fieldValue_def task_row_def)
  have cmp: "compareFieldValues plain_library None (Some (JNum m)) (Some (JNum n)) = number_order (Finite m) (Finite n)" for m n
    by (simp add: compareFieldValues_def select_values_def compareForOrder_def toComparable_def compareComparable_def)
  have q: "q_limit ?q = None" "q_search ?q = None" by (simp_all add: flat_query_def)
  have "list_all (plain_entry None) (conditions ?q)" by (simp add: w plain_entry_def has_def spec_of_def)
  moreover have "\<not> isPredicateTree (conditions ?q) None"
    by (simp add: w isPredicateTree_def is_array_def is_string_def typeof_object_def)
  moreover have "list_all (\<lambda>a. list_all (\<lambda>b. compareFieldValues plain_library (spec_of None ''n'') (fieldValue a ''n'') (fieldValue b ''n'') \<noteq> None) ?rows) ?rows"
    by (simp add: f spec_of_def cmp)
  ultimately have "\<exists>result matched. runQueryV2 plain_library ?rows ?q None (\<lambda>c. None) None ?options = Inr (result, matched)
      \<and> qr_records result = filterRecords plain_library ?rows ?q None (qo_resolvePath ?options)"
    by (intro flat_queries_agree) (simp_all add: flat_query_def)
  moreover have "flat_entry_matches plain_library None None (task_row i t n) (''status'', JStr s) \<longleftrightarrow> t = s" for i t n s
    by (simp add: flat_entry_matches_eq document_field_def spec_of_def f Let_def strict_eq_def)
  moreover have "flat_entry_matches plain_library None None (task_row i t n) (''n'', JObj [(''gt'', JNum m)]) \<longleftrightarrow> m < n" for i t n m
    by (simp add: flat_entry_matches_eq document_field_def spec_of_def f Let_def FLAT_OPS_def has_def flat_op_holds_def bound_holds_def
        RECORD_PREDICATE_OPS_def isMissing_def holds_order_def compareForOrder_def toComparable_def compareComparable_def)
  moreover have "flat_order plain_library ?q None (task_row i s m) (task_row j t n) = or_else (number_order (Finite m) (Finite n)) (localeCompare plain_library i j)"
    for i j s t m n
    by (simp add: flat_order_def flat_query_def f spec_of_def cmp direction_def) (simp add: task_row_def)
  ultimately show ?thesis
    by (simp add: w q filterRecords_searched searched_def js_sort_def or_else_def after_def Let_def)
qed

definition text_column :: field_map where
  "text_column = [(''n'', \<lparr>fs_type = ''text'', fs_name = None, fs_required = False, fs_values = None, references = None, many = False\<rparr>)]"

text \<open>
  On a text column the two evaluators differ: the filter compares the texts 9 and 10 as texts, the
  evaluator of queries as numbers. The record is above 10 for one and below it for the other.
\<close>

lemma text_bounds_differ:
  assumes "stringToNumber lib ''9'' = Finite 9" "stringToNumber lib ''10'' = Finite 10"
    and "toLowerCase lib ''9'' = ''9''" "toLowerCase lib ''10'' = ''10''" "localeCompare lib ''9'' ''10'' > 0"
    and "fieldValue r ''n'' = Some (JStr ''9'')" "cx_fields ctx = Some text_column"
  shows "filterRecords lib [r] (flat_query [(''n'', JObj [(''gt'', JStr ''10'')])]) (Some text_column) resolve = [r]
    \<and> matching_rows lib ctx (flat_query [(''n'', JObj [(''gt'', JStr ''10'')])]) [r] = Inr []"
proof
  let ?w = "[(''n'', JObj [(''gt'', JStr ''10'')])]"
  have spec: "spec_of (Some text_column) ''n'' =
      Some \<lparr>fs_type = ''text'', fs_name = None, fs_required = False, fs_values = None, references = None, many = False\<rparr>"
    by (simp add: spec_of_def text_column_def)
  have "compareForOrder lib (Some ''text'') (Some (JStr ''9'')) (Some (JStr ''10'')) = Some 1"
    using assms(1-5) by (simp add: compareForOrder_def toComparable_def string_key_def compareComparable_def key_text_def)
  then have "flat_entry_matches lib (Some text_column) resolve r (''n'', JObj [(''gt'', JStr ''10'')])"
    using assms(6)
    by (simp add: flat_entry_matches_eq spec document_field_def normalizeRecordFieldType_def Let_def FLAT_OPS_def has_def flat_op_holds_def
        bound_holds_def isMissing_def RECORD_PREDICATE_OPS_def holds_order_def)
  then show "filterRecords lib [r] (flat_query ?w) (Some text_column) resolve = [r]"
    by (simp add: filterRecords_def flat_query_def js_sort_def Let_def)
  have "compareForOrder lib None (Some (JStr ''9'')) (Some (JStr ''10'')) = Some (-1)"
    using assms(1,2) by (simp add: compareForOrder_def toComparable_def string_key_def compareComparable_def trim_def js_space_def)
  then have no: "\<not> leafMatches lib ctx r ''n'' OpGt (Some (JStr ''10''))"
    using assms(6,7)
    by (simp add: leafMatches_def pathValues_def typed_values_def spec normalizeType_def normalizeRecordFieldType_def single_matches_def
        holds_order_def Let_def)
  have "query_predicate (flat_query ?w) (Some text_column) = Inr (Some (Leaf ''n'' OpGt (Some (JStr ''10''))))"
    unfolding flat_query_def text_column_def by code_simp
  with no assms(7) show "matching_rows lib ctx (flat_query ?w) [r] = Inr []"
    by (simp add: matching_rows_def flat_query_def)
qed

end
