(* ===== verification/AgentPlatforms.thy ===== *)
theory AgentPlatforms
  imports Prelude "HOL-Library.Sublist"
begin

text \<open>
  The platforms an agent can come from, \<open>packages/types/src/agent-platforms.ts\<close>, and which one a
  connection is, \<open>agentConnectionPlatform\<close> in \<open>packages/types/src/agent-connections.ts\<close>. Lower
  case depends on Unicode tables and is the argument \<open>toLower\<close>. An object literal is the list of its
  keys and values.
\<close>

section \<open>The table\<close>

datatype agent_platform =
    Openclaw | Hermes | GrokBot | Chatgpt | ChatgptDesktop | Claude | ClaudeDesktop | ClaudeCode | Codex | Cursor
  | Opencode | Vscode | Goose | Other

datatype agent_mode = AlwaysOn | OnDemand

definition AGENT_PLATFORM_IDS :: "(string \<times> agent_platform) list" where
  "AGENT_PLATFORM_IDS =
     [(''openclaw'', Openclaw), (''hermes'', Hermes), (''grok-bot'', GrokBot), (''chatgpt'', Chatgpt),
      (''chatgpt-desktop'', ChatgptDesktop), (''claude'', Claude), (''claude-desktop'', ClaudeDesktop),
      (''claude-code'', ClaudeCode), (''codex'', Codex), (''cursor'', Cursor), (''opencode'', Opencode), (''vscode'', Vscode),
      (''goose'', Goose), (''other'', Other)]"

record platform_entry =
  pf_name :: string
  pf_mode :: agent_mode
  pf_logo :: "string option"

fun AGENT_PLATFORMS :: "agent_platform \<Rightarrow> platform_entry" where
  "AGENT_PLATFORMS GrokBot = \<lparr>pf_name = ''Grok Bot'', pf_mode = AlwaysOn, pf_logo = Some ''grok-bot.svg''\<rparr>"
| "AGENT_PLATFORMS Openclaw = \<lparr>pf_name = ''OpenClaw'', pf_mode = AlwaysOn, pf_logo = Some ''openclaw.svg''\<rparr>"
| "AGENT_PLATFORMS Hermes = \<lparr>pf_name = ''Hermes'', pf_mode = AlwaysOn, pf_logo = Some ''hermes.png''\<rparr>"
| "AGENT_PLATFORMS Chatgpt = \<lparr>pf_name = ''ChatGPT'', pf_mode = OnDemand, pf_logo = Some ''openai.svg''\<rparr>"
| "AGENT_PLATFORMS ChatgptDesktop = \<lparr>pf_name = ''ChatGPT Desktop'', pf_mode = OnDemand, pf_logo = Some ''openai.svg''\<rparr>"
| "AGENT_PLATFORMS Claude = \<lparr>pf_name = ''Claude'', pf_mode = OnDemand, pf_logo = Some ''claude.svg''\<rparr>"
| "AGENT_PLATFORMS ClaudeDesktop = \<lparr>pf_name = ''Claude Desktop'', pf_mode = OnDemand, pf_logo = Some ''claude.svg''\<rparr>"
| "AGENT_PLATFORMS ClaudeCode = \<lparr>pf_name = ''Claude Code'', pf_mode = OnDemand, pf_logo = Some ''claude-code.svg''\<rparr>"
| "AGENT_PLATFORMS Codex = \<lparr>pf_name = ''Codex CLI'', pf_mode = OnDemand, pf_logo = Some ''openai.svg''\<rparr>"
| "AGENT_PLATFORMS Cursor = \<lparr>pf_name = ''Cursor'', pf_mode = OnDemand, pf_logo = Some ''cursor.svg''\<rparr>"
| "AGENT_PLATFORMS Opencode = \<lparr>pf_name = ''opencode'', pf_mode = OnDemand, pf_logo = Some ''opencode.svg''\<rparr>"
| "AGENT_PLATFORMS Vscode = \<lparr>pf_name = ''VS Code'', pf_mode = OnDemand, pf_logo = Some ''vscode.svg''\<rparr>"
| "AGENT_PLATFORMS Goose = \<lparr>pf_name = ''Goose'', pf_mode = OnDemand, pf_logo = Some ''goose.png''\<rparr>"
| "AGENT_PLATFORMS Other = \<lparr>pf_name = ''Agent'', pf_mode = OnDemand, pf_logo = None\<rparr>"

definition isAgentPlatformId :: "string \<Rightarrow> agent_platform option" where
  "isAgentPlatformId v = map_of AGENT_PLATFORM_IDS v"

definition CLIENT_PLATFORMS :: "(string \<times> agent_platform) list" where
  "CLIENT_PLATFORMS =
     [(''claude-code'', ClaudeCode), (''claude-desktop'', ClaudeDesktop), (''claude'', Claude),
      (''chatgpt-desktop'', ChatgptDesktop), (''chatgpt'', Chatgpt), (''codex'', Codex), (''cursor'', Cursor),
      (''opencode'', Opencode), (''vscode'', Vscode), (''goose'', Goose)]"

definition CLIENT_METADATA :: "(string \<times> agent_platform) list" where
  "CLIENT_METADATA =
     [(''https://chatgpt.com/oauth/codex/'', ChatgptDesktop), (''https://chatgpt.com/oauth/'', Chatgpt),
      (''https://claude.ai/oauth/claude-code-client-metadata'', ClaudeCode),
      (''https://claude.ai/oauth/mcp-oauth-client-metadata'', Claude),
      (''https://nousresearch.github.io/hermes-agent/'', Hermes)]"

section \<open>From a client id, a label or a name\<close>

definition platformForAdapter :: "string \<Rightarrow> agent_platform" where
  "platformForAdapter adapter =
     (case isAgentPlatformId adapter of
        None \<Rightarrow> Other
      | Some p \<Rightarrow> if pf_mode (AGENT_PLATFORMS p) = AlwaysOn then p else Other)"

text \<open>Own entries only; an empty client is none.\<close>

definition clientPlatform :: "string option \<Rightarrow> agent_platform option" where
  "clientPlatform client = Option.bind client (\<lambda>c. if c = [] then None else map_of CLIENT_PLATFORMS c)"

definition platformForClientMetadata :: "string option \<Rightarrow> agent_platform option" where
  "platformForClientMetadata clientId =
     Option.bind clientId (\<lambda>c. map_option snd (List.find (\<lambda>(start, p). prefix start c) CLIENT_METADATA))"

definition platformForClient :: "(string \<Rightarrow> string) \<Rightarrow> string option \<Rightarrow> agent_platform" where
  "platformForClient toLower clientId =
     (case clientPlatform (map_option toLower clientId) of
        Some p \<Rightarrow> p
      | None \<Rightarrow> (case platformForClientMetadata clientId of Some p \<Rightarrow> p | None \<Rightarrow> Other))"

definition lastIndexOf_colon :: "string \<Rightarrow> int" where
  "lastIndexOf_colon s =
     (if CHR '':'' \<in> set s then int (length s) - int (length (takeWhile (\<lambda>c. c \<noteq> CHR '':'') (rev s))) - 1 else -1)"

definition clientIdForSignInPrincipal :: "string \<Rightarrow> string option" where
  "clientIdForSignInPrincipal principalId =
     (if \<not> prefix ''oauth:'' principalId then None
      else (let rest = drop 6 principalId; n = lastIndexOf_colon rest
            in if n > 0 then Some (take (nat n) rest) else None))"

definition signInAgentName :: "(string \<Rightarrow> string) \<Rightarrow> string \<Rightarrow> string \<Rightarrow> string" where
  "signInAgentName toLower principalId clientName =
     (let p = platformForClient toLower (clientIdForSignInPrincipal principalId)
      in if p = Other then clientName else pf_name (AGENT_PLATFORMS p))"

definition SHARED_LOCAL_AGENT_LABEL :: string where "SHARED_LOCAL_AGENT_LABEL = ''managed''"

definition without_prefix :: "string \<Rightarrow> string \<Rightarrow> string" where
  "without_prefix start s = (if prefix start s then drop (length start) s else s)"

text \<open>\<open>/@.*$/\<close>: from the first at sign with no line break after it.\<close>

fun without_host :: "string \<Rightarrow> string" where
  "without_host [] = []"
| "without_host (c # cs) =
     (if c = CHR ''@'' \<and> CHR 0x0A \<notin> set cs \<and> CHR 0x0D \<notin> set cs then [] else c # without_host cs)"

definition clientIdForAgentLabel :: "(string \<Rightarrow> string) \<Rightarrow> string option \<Rightarrow> string option" where
  "clientIdForAgentLabel toLower label =
     (case label of
        None \<Rightarrow> None
      | Some l \<Rightarrow>
          if l = [] then None
          else (let client = toLower (without_host (without_prefix ''manual-'' (without_prefix ''managed:'' l)))
                in if clientPlatform (Some client) \<noteq> None then Some client else None))"

definition defaultAgentNameForLabel :: "(string \<Rightarrow> string) \<Rightarrow> string option \<Rightarrow> string option" where
  "defaultAgentNameForLabel toLower label =
     (if label = None \<or> label = Some [] then None
      else if label = Some SHARED_LOCAL_AGENT_LABEL then Some ''Local agents''
      else map_option (\<lambda>client. pf_name (AGENT_PLATFORMS (platformForClient toLower (Some client))))
             (clientIdForAgentLabel toLower label))"

text \<open>\<open>replace(/\s+/g, "-")\<close>.\<close>

function dash_spaces :: "string \<Rightarrow> string" where
  "dash_spaces [] = []"
| "dash_spaces (c # cs) = (if js_space c then CHR ''-'' # dash_spaces (dropWhile js_space cs) else c # dash_spaces cs)"
  by pat_completeness auto

termination
  by (relation "measure length") (simp_all add: le_imp_less_Suc length_dropWhile_le)

definition platformForName :: "(string \<Rightarrow> string) \<Rightarrow> string option \<Rightarrow> agent_platform" where
  "platformForName toLower name =
     (case name of
        None \<Rightarrow> Other
      | Some n \<Rightarrow>
          if n = [] then Other
          else (let slug = dash_spaces (toLower (trim n))
                in case clientPlatform (Some slug) of
                     Some p \<Rightarrow> p
                   | None \<Rightarrow>
                       (case List.find (\<lambda>(i, p). p \<noteq> Other \<and> (slug = i \<or> prefix (i @ ''-'') slug)) AGENT_PLATFORM_IDS of
                          Some (i, p) \<Rightarrow> p
                        | None \<Rightarrow> Other)))"

section \<open>The platform of a connection\<close>

datatype connection_target =
    McpClient "string option"
  | AgentAdapter (ad_adapter: string) (ad_installationId: string) (ad_participantName: "string option")

definition agentConnectionPlatform :: "(string \<Rightarrow> string) \<Rightarrow> agent_platform \<Rightarrow> connection_target \<Rightarrow> string \<Rightarrow> agent_platform" where
  "agentConnectionPlatform toLower platform target displayName =
     (let fromClient = (case target of McpClient clientId \<Rightarrow> platformForClient toLower clientId | _ \<Rightarrow> Other)
      in if fromClient \<noteq> Other then fromClient
         else if platform \<noteq> Other then platform
         else (case target of
                 AgentAdapter adapter i n \<Rightarrow> platformForAdapter adapter
               | McpClient clientId \<Rightarrow> platformForName toLower (Some displayName)))"

lemma takeWhile_no_colon: "CHR '':'' \<notin> set xs \<Longrightarrow> takeWhile (\<lambda>c. c \<noteq> CHR '':'') (xs @ CHR '':'' # ys) = xs"
  by (induction xs) auto

text \<open>A signed client id is read back from the principal it was put in, whatever colons it has itself.\<close>

lemma clientIdForSignInPrincipal_roundtrip:
  assumes "client \<noteq> []" "CHR '':'' \<notin> set account"
  shows "clientIdForSignInPrincipal (''oauth:'' @ client @ CHR '':'' # account) = Some client"
proof -
  have "takeWhile (\<lambda>c. c \<noteq> CHR '':'') (rev (client @ CHR '':'' # account)) = rev account"
    using assms(2) by (simp add: takeWhile_no_colon)
  then have "lastIndexOf_colon (client @ CHR '':'' # account) = int (length client)"
    by (simp add: lastIndexOf_colon_def)
  with assms(1) show ?thesis by (simp add: clientIdForSignInPrincipal_def Let_def)
qed

end
