(* ===== verification/Participants.thy ===== *)
theory Participants
  imports TokenStore AgentPlatforms
begin

text \<open>
  Participants, \<open>packages/server/src/participant-store.ts\<close>: the member of threads an authenticated
  identity is, kept by the identity's key and recovered from the threads of a workspace that was moved.

  The state is the list of bindings in the file, the cache of their names and the members of the threads, the
  part of them this store reads and renames. Every mutation holds the lock of the file, so a call is one step.
  \<open>hash\<close> is SHA-256 in base64url and random bytes are arguments.
\<close>

section \<open>State\<close>

record participant_ref =
  pt_id :: string
  pt_kind :: principal_type
  pt_name :: string
  pt_fingerprint :: "string option"

record participant_binding =
  bd_key :: string
  bd_participant :: participant_ref
  bd_defaultSpace :: "string option"
  bd_locationVersion :: "nat option"
  bd_createdAt :: int
  bd_updatedAt :: int

record participant_store =
  bindings :: "participant_binding list"
  namesCache :: "(string \<times> participant_ref) list option"
  thread_members :: "participant_ref list list"
  threads_readable :: bool

datatype participant_error = ParticipantNotFound | AmbiguousParticipant | ThreadStoreIncomplete

text \<open>A default Space that is given: a text, null, or nothing.\<close>

datatype default_space = DefaultUnset | DefaultNull | DefaultSpace string

record participant_options =
  po_name :: "string option"
  po_initialName :: "string option"
  po_defaultSpace :: default_space
  po_locationVersion :: "nat option"

definition no_options :: participant_options where
  "no_options = \<lparr>po_name = None, po_initialName = None, po_defaultSpace = DefaultUnset, po_locationVersion = None\<rparr>"

section \<open>Identities\<close>

definition participantKey :: "'a token_identity_scheme \<Rightarrow> string" where
  "participantKey identity =
     (if principal_participant identity \<noteq> None \<and> principal_participant identity \<noteq> Some [] then the (principal_participant identity)
      else if id_agent identity \<noteq> None \<and> id_agent identity \<noteq> Some [] then ''agent:'' @ the (id_agent identity)
      else ''principal:'' @ principal_id identity)"

definition connectionIdForIdentity :: "(string \<Rightarrow> string) \<Rightarrow> 'a token_identity_scheme \<Rightarrow> string" where
  "connectionIdForIdentity hash identity = ''con_'' @ hash (participantKey identity)"

definition participantIdentityFingerprint :: "(string \<Rightarrow> string) \<Rightarrow> 'a token_identity_scheme \<Rightarrow> string" where
  "participantIdentityFingerprint hash identity = ''pid_'' @ hash (participantKey identity)"

text \<open>\<open>ParticipantRefSchema\<close>: a binding whose participant does not satisfy it is not loaded.\<close>

definition THREAD_IDENTITY_NAME_MAX_LENGTH :: nat where "THREAD_IDENTITY_NAME_MAX_LENGTH = 120"

definition participant_ok :: "participant_ref \<Rightarrow> bool" where
  "participant_ok p \<longleftrightarrow>
     take 4 (pt_id p) = ''ptc_'' \<and> length (drop 4 (pt_id p)) \<ge> 12 \<and> list_all base64url_char (drop 4 (pt_id p))
     \<and> trim (pt_name p) \<noteq> [] \<and> length (trim (pt_name p)) \<le> THREAD_IDENTITY_NAME_MAX_LENGTH
     \<and> (case pt_fingerprint p of
          None \<Rightarrow> True
        | Some f \<Rightarrow> take 4 f = ''pid_'' \<and> length (drop 4 f) = 43 \<and> list_all base64url_char (drop 4 f))"

definition loadBindings :: "participant_store \<Rightarrow> participant_binding list" where
  "loadBindings st = filter (\<lambda>b. participant_ok (bd_participant b)) (bindings st)"

definition saveBindings :: "participant_binding list \<Rightarrow> participant_store \<Rightarrow> participant_store" where
  "saveBindings bs st = st\<lparr>bindings := bs, namesCache := None\<rparr>"

definition given :: "string option \<Rightarrow> string option" where
  "given name = (case name of None \<Rightarrow> None | Some n \<Rightarrow> if trim n = [] then None else Some (trim n))"

definition legacyManagedBinding :: "participant_binding list \<Rightarrow> string \<Rightarrow> participant_binding option" where
  "legacyManagedBinding bs key =
     (if \<not> prefix ''agent:managed:'' key then None else List.find (\<lambda>b. bd_key b = ''agent:managed'') bs)"

text \<open>The name of a new participant: the given one, the one its label or account says, or its principal's.\<close>

definition default_name :: "(string \<Rightarrow> string) \<Rightarrow> 'a token_identity_scheme \<Rightarrow> string option" where
  "default_name toLower identity =
     (if principal_participant identity \<noteq> None \<and> principal_participant identity \<noteq> Some [] then Some (principal_name identity)
      else defaultAgentNameForLabel toLower (id_agent identity))"

definition createParticipant ::
    "(string \<Rightarrow> string) \<Rightarrow> (string \<Rightarrow> string) \<Rightarrow> 8 word list \<Rightarrow> 'a token_identity_scheme \<Rightarrow> string option \<Rightarrow> participant_ref" where
  "createParticipant hash toLower random identity name =
     \<lparr>pt_id = ''ptc_'' @ base64url random, pt_kind = principal_kind identity,
      pt_name = (case given name of
                   Some n \<Rightarrow> n
                 | None \<Rightarrow> (case default_name toLower identity of
                              None \<Rightarrow> principal_name identity
                            | Some n \<Rightarrow> if n = [] then principal_name identity else n)),
      pt_fingerprint = Some (participantIdentityFingerprint hash identity)\<rparr>"

text \<open>The members of the threads the fingerprint names, the last one for each id, in the order first seen.\<close>

definition portable_matches :: "string \<Rightarrow> participant_ref list list \<Rightarrow> (string \<times> participant_ref) list" where
  "portable_matches fp groups =
     fold (\<lambda>m found. if pt_fingerprint m = Some fp then AList.update (pt_id m) m found else found) (concat groups) []"

definition recoverPortableParticipant ::
    "(string \<Rightarrow> string) \<Rightarrow> 'a token_identity_scheme \<Rightarrow> participant_options \<Rightarrow> participant_store
       \<Rightarrow> participant_error + participant_ref option" where
  "recoverPortableParticipant hash identity options st =
     (let matches = portable_matches (participantIdentityFingerprint hash identity) (thread_members st)
      in if \<not> threads_readable st then Inl ThreadStoreIncomplete
         else if length matches > 1 then Inl AmbiguousParticipant
         else (case matches of
                 [] \<Rightarrow> Inr None
               | (i, recovered) # _ \<Rightarrow>
                   Inr (Some (case given (po_name options) of Some n \<Rightarrow> recovered\<lparr>pt_name := n\<rparr> | None \<Rightarrow> recovered))))"

definition next_default :: "participant_options \<Rightarrow> participant_binding \<Rightarrow> string option" where
  "next_default options b =
     (case po_defaultSpace options of DefaultNull \<Rightarrow> None | DefaultSpace s \<Rightarrow> Some s | DefaultUnset \<Rightarrow> bd_defaultSpace b)"

definition next_version :: "participant_options \<Rightarrow> participant_binding \<Rightarrow> nat option" where
  "next_version options b = (case po_locationVersion options of Some v \<Rightarrow> Some v | None \<Rightarrow> bd_locationVersion b)"

definition unchangedBinding ::
    "(string \<Rightarrow> string) \<Rightarrow> participant_binding list \<Rightarrow> 'a token_identity_scheme \<Rightarrow> participant_options \<Rightarrow> participant_binding option" where
  "unchangedBinding hash bs identity options =
     (if given (po_name options) \<noteq> None then None
      else (case List.find (\<lambda>b. bd_key b = participantKey identity) bs of
              None \<Rightarrow> None
            | Some b \<Rightarrow>
                if pt_fingerprint (bd_participant b) \<noteq> Some (participantIdentityFingerprint hash identity) then None
                else if next_default options b = bd_defaultSpace b \<and> next_version options b = bd_locationVersion b
                then Some b else None))"

text \<open>\<open>renameThreadMember\<close> on the members: every thread shows the participant's name.\<close>

definition renameThreadMember :: "string \<Rightarrow> string \<Rightarrow> participant_store \<Rightarrow> participant_store" where
  "renameThreadMember i name st =
     st\<lparr>thread_members := map (map (\<lambda>m. if pt_id m = i then m\<lparr>pt_name := name\<rparr> else m)) (thread_members st)\<rparr>"

definition reconcileThreadNames :: "string \<Rightarrow> participant_store \<Rightarrow> participant_store" where
  "reconcileThreadNames i st =
     (case List.find (\<lambda>b. pt_id (bd_participant b) = i) (loadBindings st) of
        None \<Rightarrow> st
      | Some b \<Rightarrow> renameThreadMember i (pt_name (bd_participant b)) st)"

type_synonym resolved = "participant_ref \<times> string option \<times> nat option"

definition resolved_of :: "participant_binding \<Rightarrow> resolved" where
  "resolved_of b = (bd_participant b, bd_defaultSpace b, bd_locationVersion b)"

section \<open>Resolving an identity\<close>

definition truthy_space :: "default_space \<Rightarrow> string option" where
  "truthy_space d = (case d of DefaultSpace s \<Rightarrow> if s = [] then None else Some s | _ \<Rightarrow> None)"

text \<open>A name asked for, or the principal's where a binding all managed agents shared becomes one agent's.\<close>

definition next_name :: "'a token_identity_scheme \<Rightarrow> participant_options \<Rightarrow> bool \<Rightarrow> string option" where
  "next_name identity options exact =
     (case given (po_name options) of
        Some n \<Rightarrow> Some n
      | None \<Rightarrow> if \<not> exact \<and> prefix ''agent:managed:'' (participantKey identity) \<and> principal_name identity \<noteq> []
                then Some (principal_name identity) else None)"

definition needs_change ::
    "(string \<Rightarrow> string) \<Rightarrow> 'a token_identity_scheme \<Rightarrow> participant_options \<Rightarrow> bool \<Rightarrow> participant_binding \<Rightarrow> bool" where
  "needs_change hash identity options exact b \<longleftrightarrow>
     bd_key b \<noteq> participantKey identity \<or> pt_fingerprint (bd_participant b) \<noteq> Some (participantIdentityFingerprint hash identity)
     \<or> (next_name identity options exact \<noteq> None \<and> next_name identity options exact \<noteq> Some (pt_name (bd_participant b)))
     \<or> next_default options b \<noteq> bd_defaultSpace b \<or> next_version options b \<noteq> bd_locationVersion b"

definition merged_binding ::
    "(string \<Rightarrow> string) \<Rightarrow> int \<Rightarrow> 'a token_identity_scheme \<Rightarrow> participant_options \<Rightarrow> bool \<Rightarrow> participant_binding \<Rightarrow> participant_binding" where
  "merged_binding hash now identity options exact b =
     b\<lparr>bd_key := participantKey identity,
       bd_participant := (bd_participant b)\<lparr>
         pt_name := (case next_name identity options exact of Some n \<Rightarrow> n | None \<Rightarrow> pt_name (bd_participant b)),
         pt_fingerprint := Some (participantIdentityFingerprint hash identity)\<rparr>,
       bd_defaultSpace := next_default options b, bd_locationVersion := next_version options b, bd_updatedAt := now\<rparr>"

definition resolve_existing ::
    "(string \<Rightarrow> string) \<Rightarrow> int \<Rightarrow> 'a token_identity_scheme \<Rightarrow> participant_options \<Rightarrow> participant_binding list \<Rightarrow> participant_binding \<Rightarrow> bool
       \<Rightarrow> participant_store \<Rightarrow> (resolved \<times> participant_ref option) \<times> participant_store" where
  "resolve_existing hash now identity options bs b exact st =
     (let changed = needs_change hash identity options exact b;
          b' = (if changed then merged_binding hash now identity options exact b else b)
      in ((resolved_of b', if given (po_name options) \<noteq> None then Some (bd_participant b') else None),
          if changed then saveBindings (update_first (\<lambda>c. bd_key c = bd_key b) (\<lambda>c. b') bs) st else st))"

definition resolve_new ::
    "(string \<Rightarrow> string) \<Rightarrow> (string \<Rightarrow> string) \<Rightarrow> int \<Rightarrow> 8 word list \<Rightarrow> 'a token_identity_scheme \<Rightarrow> participant_options \<Rightarrow> participant_binding list
       \<Rightarrow> participant_store \<Rightarrow> (participant_error + (resolved \<times> participant_ref option)) \<times> participant_store" where
  "resolve_new hash toLower now random identity options bs st =
     (case recoverPortableParticipant hash identity options st of
        Inl e \<Rightarrow> (Inl e, st)
      | Inr recovered \<Rightarrow>
          (let p = (case recovered of
                      Some p \<Rightarrow> p
                    | None \<Rightarrow> createParticipant hash toLower random identity
                                (if po_name options = None then po_initialName options else po_name options));
               b = \<lparr>bd_key = participantKey identity, bd_participant = p, bd_defaultSpace = truthy_space (po_defaultSpace options),
                     bd_locationVersion = po_locationVersion options, bd_createdAt = now, bd_updatedAt = now\<rparr>
           in (Inr (resolved_of b, if given (po_name options) \<noteq> None then recovered else None), saveBindings (bs @ [b]) st)))"

definition resolve_locked ::
    "(string \<Rightarrow> string) \<Rightarrow> (string \<Rightarrow> string) \<Rightarrow> int \<Rightarrow> 8 word list \<Rightarrow> 'a token_identity_scheme \<Rightarrow> participant_options
       \<Rightarrow> participant_store \<Rightarrow> (participant_error + (resolved \<times> participant_ref option)) \<times> participant_store" where
  "resolve_locked hash toLower now random identity options st =
     (let bs = loadBindings st; key = participantKey identity
      in case List.find (\<lambda>b. bd_key b = key) bs of
           Some b \<Rightarrow> apfst Inr (resolve_existing hash now identity options bs b True st)
         | None \<Rightarrow>
             (case legacyManagedBinding bs key of
                Some b \<Rightarrow> apfst Inr (resolve_existing hash now identity options bs b False st)
              | None \<Rightarrow> resolve_new hash toLower now random identity options bs st))"

text \<open>
  The lookup that needs no lock, else the locked change; a rename then reaches the threads unless
  \<open>follows\<close> says that updating them failed.
\<close>

definition resolveParticipant ::
    "(string \<Rightarrow> string) \<Rightarrow> (string \<Rightarrow> string) \<Rightarrow> int \<Rightarrow> 8 word list \<Rightarrow> bool \<Rightarrow> 'a token_identity_scheme \<Rightarrow> participant_options
       \<Rightarrow> participant_store \<Rightarrow> (participant_error + resolved) \<times> participant_store" where
  "resolveParticipant hash toLower now random follows identity options st =
     (case unchangedBinding hash (loadBindings st) identity options of
        Some b \<Rightarrow> (Inr (resolved_of b), st)
      | None \<Rightarrow>
          (case resolve_locked hash toLower now random identity options st of
             (Inl e, st') \<Rightarrow> (Inl e, st')
           | (Inr (r, renamed), st') \<Rightarrow>
               (Inr r, case renamed of Some p \<Rightarrow> if follows then reconcileThreadNames (pt_id p) st' else st' | None \<Rightarrow> st')))"

section \<open>Lookups\<close>

definition names_of :: "participant_binding list \<Rightarrow> (string \<times> participant_ref) list" where
  "names_of bs = fold (\<lambda>b m. AList.update (bd_key b) (bd_participant b) m) bs []"

definition cachedParticipantForKey :: "string \<Rightarrow> participant_store \<Rightarrow> participant_ref option \<times> participant_store" where
  "cachedParticipantForKey key st =
     (case namesCache st of
        Some names \<Rightarrow> (map_of names key, st)
      | None \<Rightarrow> (let names = names_of (loadBindings st) in (map_of names key, st\<lparr>namesCache := Some names\<rparr>)))"

definition ensureParticipant ::
    "(string \<Rightarrow> string) \<Rightarrow> (string \<Rightarrow> string) \<Rightarrow> int \<Rightarrow> 8 word list \<Rightarrow> 'a token_identity_scheme \<Rightarrow> participant_store \<Rightarrow> participant_store" where
  "ensureParticipant hash toLower now random identity st =
     (case cachedParticipantForKey (participantKey identity) st of
        (Some p, st') \<Rightarrow> st'
      | (None, st') \<Rightarrow> snd (resolveParticipant hash toLower now random True identity no_options st'))"

definition participantsByKey :: "participant_store \<Rightarrow> (string \<times> participant_ref) list" where
  "participantsByKey st = names_of (loadBindings st)"

definition localCredentialAgentForBinding :: "string \<Rightarrow> string option" where
  "localCredentialAgentForBinding key = (if prefix ''agent:'' key then Some (drop 6 key) else None)"

definition localCredentialPrincipalForBinding :: "string \<Rightarrow> string option" where
  "localCredentialPrincipalForBinding key = (if prefix ''principal:local-token:'' key then Some (drop 10 key) else None)"

text \<open>Whether any credential of a key is active, where the workspace knows one.\<close>

definition credential_active :: "(token_metadata \<Rightarrow> string option) \<Rightarrow> string \<Rightarrow> token_metadata list \<Rightarrow> string \<Rightarrow> bool option" where
  "credential_active key_of ws ts k =
     (let own = filter (\<lambda>t. id_workspace t = ws \<and> key_of t = Some k) ts
      in if own = [] then None else Some (list_ex (\<lambda>t. md_revokedAt t = None) own))"

definition listParticipantBindings :: "string \<Rightarrow> token_metadata list \<Rightarrow> participant_store \<Rightarrow> resolved list" where
  "listParticipantBindings ws ts st =
     map resolved_of (filter (\<lambda>b.
       case localCredentialAgentForBinding (bd_key b) of
         Some a \<Rightarrow>
           if a \<noteq> [] then (case credential_active id_agent ws ts a of Some active \<Rightarrow> active | None \<Rightarrow> True)
           else (case localCredentialPrincipalForBinding (bd_key b) of
                   None \<Rightarrow> True
                 | Some p \<Rightarrow> (case credential_active (\<lambda>t. Some (principal_id t)) ws ts p of Some active \<Rightarrow> active | None \<Rightarrow> False))
       | None \<Rightarrow>
           (case localCredentialPrincipalForBinding (bd_key b) of
              None \<Rightarrow> True
            | Some p \<Rightarrow> (case credential_active (\<lambda>t. Some (principal_id t)) ws ts p of Some active \<Rightarrow> active | None \<Rightarrow> False)))
       (loadBindings st))"

definition findParticipant ::
    "(string \<Rightarrow> string) \<Rightarrow> string \<Rightarrow> token_metadata list \<Rightarrow> string \<Rightarrow> participant_store \<Rightarrow> participant_error + participant_ref option" where
  "findParticipant toLower ws ts v st =
     (let ps = map fst (listParticipantBindings ws ts st)
      in case List.find (\<lambda>p. pt_id p = v) ps of
           Some p \<Rightarrow> Inr (Some p)
         | None \<Rightarrow>
             (case filter (\<lambda>p. toLower (pt_name p) = toLower (trim v)) ps of
                [] \<Rightarrow> Inr None
              | [p] \<Rightarrow> Inr (Some p)
              | _ \<Rightarrow> Inl AmbiguousParticipant))"

definition requireParticipant ::
    "(string \<Rightarrow> string) \<Rightarrow> string \<Rightarrow> token_metadata list \<Rightarrow> string \<Rightarrow> participant_store \<Rightarrow> participant_error + participant_ref" where
  "requireParticipant toLower ws ts v st =
     (case findParticipant toLower ws ts v st of
        Inl e \<Rightarrow> Inl e
      | Inr None \<Rightarrow> Inl ParticipantNotFound
      | Inr (Some p) \<Rightarrow> Inr p)"

section \<open>Calls\<close>

text \<open>\<open>ThreadsBecome\<close> is what the rest of the program does to threads between calls.\<close>

datatype participant_call =
    Resolve "8 word list" bool token_identity participant_options
  | Ensure "8 word list" token_identity
  | Lookup string
  | ThreadsBecome "participant_ref list list" bool

fun participant_step ::
    "(string \<Rightarrow> string) \<Rightarrow> (string \<Rightarrow> string) \<Rightarrow> int \<times> participant_call \<Rightarrow> participant_store \<Rightarrow> participant_store" where
  "participant_step hash toLower (now, Resolve random follows identity options) st =
     snd (resolveParticipant hash toLower now random follows identity options st)"
| "participant_step hash toLower (now, Ensure random identity) st = ensureParticipant hash toLower now random identity st"
| "participant_step hash toLower (now, Lookup key) st = snd (cachedParticipantForKey key st)"
| "participant_step hash toLower (now, ThreadsBecome groups readable) st =
     st\<lparr>thread_members := groups, threads_readable := readable\<rparr>"

definition no_participants :: participant_store where
  "no_participants = \<lparr>bindings = [], namesCache = None, thread_members = [], threads_readable = True\<rparr>"

text \<open>A call whose names the schema of a participant allows.\<close>

definition name_fits :: "string \<Rightarrow> bool" where
  "name_fits n \<longleftrightarrow> trim n \<noteq> [] \<and> length (trim n) \<le> THREAD_IDENTITY_NAME_MAX_LENGTH"

definition resolve_fits ::
    "(string \<Rightarrow> string) \<Rightarrow> (string \<Rightarrow> string) \<Rightarrow> 8 word list \<Rightarrow> token_identity \<Rightarrow> participant_options \<Rightarrow> bool" where
  "resolve_fits hash toLower random identity options \<longleftrightarrow>
     (case given (po_name options) of None \<Rightarrow> True | Some n \<Rightarrow> name_fits n)
     \<and> (prefix ''agent:managed:'' (participantKey identity) \<longrightarrow> name_fits (principal_name identity))
     \<and> participant_ok (createParticipant hash toLower random identity
          (if po_name options = None then po_initialName options else po_name options))"

fun call_fits :: "(string \<Rightarrow> string) \<Rightarrow> (string \<Rightarrow> string) \<Rightarrow> int \<times> participant_call \<Rightarrow> bool" where
  "call_fits hash toLower (now, Resolve random follows identity options) \<longleftrightarrow> resolve_fits hash toLower random identity options"
| "call_fits hash toLower (now, Ensure random identity) \<longleftrightarrow> resolve_fits hash toLower random identity no_options"
| "call_fits hash toLower (now, Lookup key) \<longleftrightarrow> True"
| "call_fits hash toLower (now, ThreadsBecome groups readable) \<longleftrightarrow> list_all (list_all participant_ok) groups"

section \<open>What every call keeps\<close>

definition participants_sound :: "participant_store \<Rightarrow> bool" where
  "participants_sound st \<longleftrightarrow>
     (\<forall>b \<in> set (bindings st). participant_ok (bd_participant b)) \<and> distinct (map bd_key (bindings st))
     \<and> list_all (list_all participant_ok) (thread_members st)"

definition bound_to :: "participant_store \<Rightarrow> string \<Rightarrow> string \<Rightarrow> bool" where
  "bound_to st key i \<longleftrightarrow> (\<exists>b \<in> set (bindings st). bd_key b = key \<and> pt_id (bd_participant b) = i)"

lemma load_sound: "participants_sound st \<Longrightarrow> loadBindings st = bindings st"
  by (simp add: loadBindings_def participants_sound_def)

lemma saveBindings_simps [simp]:
  "bindings (saveBindings bs st) = bs" "thread_members (saveBindings bs st) = thread_members st"
  "threads_readable (saveBindings bs st) = threads_readable st" "bound_to (saveBindings bs st) k i = (\<exists>b \<in> set bs. bd_key b = k \<and> pt_id (bd_participant b) = i)"
  by (simp_all add: saveBindings_def bound_to_def)

lemma bound_unique: "participants_sound st \<Longrightarrow> bound_to st key i \<Longrightarrow> bound_to st key j \<Longrightarrow> i = j"
  by (auto simp: bound_to_def participants_sound_def distinct_map inj_on_def)

lemma find_bound:
  assumes "List.find (\<lambda>b. bd_key b = key) bs = Some b"
  shows "b \<in> set bs" "bd_key b = key"
  using assms by (auto simp: find_Some_iff)

text \<open>One binding of a list replaced by another, under its own key or one that is new.\<close>

lemma update_key:
  assumes "List.find (\<lambda>c. bd_key c = k) bs = Some b" "distinct (map bd_key bs)"
    and "bd_key b' = k \<or> bd_key b' \<notin> bd_key ` set bs"
  shows "distinct (map bd_key (update_first (\<lambda>c. bd_key c = k) (\<lambda>c. b') bs))
     \<and> set (update_first (\<lambda>c. bd_key c = k) (\<lambda>c. b') bs) = insert b' {c \<in> set bs. bd_key c \<noteq> k}"
  using assms
proof (induction bs)
  case (Cons c bs)
  show ?case
  proof (cases "bd_key c = k")
    case True
    with Cons.prems show ?thesis by (auto simp: image_iff)
  next
    case False
    with Cons.prems have "distinct (map bd_key (update_first (\<lambda>c. bd_key c = k) (\<lambda>c. b') bs))
        \<and> set (update_first (\<lambda>c. bd_key c = k) (\<lambda>c. b') bs) = insert b' {c \<in> set bs. bd_key c \<noteq> k}"
      by (intro Cons.IH) auto
    with False Cons.prems show ?thesis by auto
  qed
qed simp

definition keeps_ids :: "participant_store \<Rightarrow> participant_store \<Rightarrow> bool" where
  "keeps_ids st st' \<longleftrightarrow> (\<forall>key i. key \<noteq> ''agent:managed'' \<longrightarrow> bound_to st key i \<longrightarrow> bound_to st' key i)"

lemma keeps_ids_refl [simp]: "keeps_ids st st"
  by (simp add: keeps_ids_def)

lemma keeps_ids_trans: "keeps_ids st st' \<Longrightarrow> keeps_ids st' st'' \<Longrightarrow> keeps_ids st st''"
  by (simp add: keeps_ids_def)

lemma given_trimmed: "given name = Some n \<Longrightarrow> trim n = n \<and> n \<noteq> []"
  by (auto simp: given_def split: option.splits if_splits)

lemma fingerprint_fits:
  "resolve_fits hash toLower random identity options \<Longrightarrow>
     take 4 (participantIdentityFingerprint hash identity) = ''pid_'' \<and> length (drop 4 (participantIdentityFingerprint hash identity)) = 43
     \<and> list_all base64url_char (drop 4 (participantIdentityFingerprint hash identity))"
  by (simp add: resolve_fits_def participant_ok_def createParticipant_def)

text \<open>What resolving returns and leaves: the participant is bound to the identity's key.\<close>

definition resolves_to :: "participant_store \<Rightarrow> string \<Rightarrow> resolved \<Rightarrow> participant_store \<Rightarrow> bool" where
  "resolves_to st key r st' \<longleftrightarrow>
     participants_sound st' \<and> keeps_ids st st' \<and> bound_to st' key (pt_id (fst r)) \<and> participant_ok (fst r)
     \<and> thread_members st' = thread_members st"

lemma resolve_existing_sound:
  assumes sound: "participants_sound st" and fits: "resolve_fits hash toLower random identity options"
    and found: "List.find (\<lambda>c. bd_key c = k) (bindings st) = Some b"
    and which: "if exact then k = participantKey identity
      else k = ''agent:managed'' \<and> participantKey identity \<notin> bd_key ` set (bindings st)"
    and result: "resolve_existing hash now identity options (bindings st) b exact st = ((r, renamed), st')"
  shows "resolves_to st (participantKey identity) r st' \<and> pt_id (fst r) = pt_id (bd_participant b)"
proof -
  let ?key = "participantKey identity" and ?fp = "Some (participantIdentityFingerprint hash identity)"
  let ?p = "bd_participant b"
  define b' where "b' = merged_binding hash now identity options exact b"
  note b = find_bound [OF found]
  have ok: "participant_ok ?p" using sound b(1) by (auto simp: participants_sound_def)
  have "name_fits n" if "next_name identity options exact = Some n" for n
    using that fits by (auto simp: next_name_def resolve_fits_def split: option.splits if_splits)
  with ok fingerprint_fits [OF fits] have ok': "participant_ok (bd_participant b')"
    by (auto simp: b'_def merged_binding_def participant_ok_def name_fits_def split: option.split)
  have b'_key: "bd_key b' = ?key" "pt_id (bd_participant b') = pt_id ?p" by (simp_all add: b'_def merged_binding_def)
  have dist: "distinct (map bd_key (bindings st))" using sound by (simp add: participants_sound_def)
  have "bd_key b' = k \<or> bd_key b' \<notin> bd_key ` set (bindings st)" using which by (auto simp: b'_key split: if_splits)
  note upd = update_key [OF found dist this]
  let ?st = "saveBindings (update_first (\<lambda>c. bd_key c = k) (\<lambda>c. b') (bindings st)) st"
  have changed: "participants_sound ?st \<and> keeps_ids st ?st \<and> bound_to ?st ?key (pt_id ?p)"
  proof (intro conjI)
    show "participants_sound ?st" using sound upd ok' by (auto simp: participants_sound_def)
    show "bound_to ?st ?key (pt_id ?p)" using upd b'_key by auto
    show "keeps_ids st ?st"
      unfolding keeps_ids_def
    proof (intro allI impI)
      fix key i
      assume "key \<noteq> ''agent:managed''" "bound_to st key i"
      then obtain c where c: "c \<in> set (bindings st)" "bd_key c = key" "pt_id (bd_participant c) = i" by (auto simp: bound_to_def)
      show "bound_to ?st key i"
      proof (cases "key = k")
        case True
        with \<open>key \<noteq> ''agent:managed''\<close> which have "?key = k" by (auto split: if_splits)
        moreover have "c = b" using dist c b True by (auto simp: distinct_map inj_on_def)
        ultimately show ?thesis using upd b'_key c True by auto
      qed (use upd c in auto)
    qed
  qed
  define ch where "ch = needs_change hash identity options exact b"
  have "r = resolved_of (if ch then b' else b)" "st' = (if ch then ?st else st)"
    using result unfolding resolve_existing_def Let_def b'_def [symmetric] ch_def [symmetric] b(2) by (simp_all split: if_splits)
  moreover have "\<not> ch \<Longrightarrow> bd_key b = ?key" by (simp add: ch_def needs_change_def)
  ultimately show ?thesis
    using changed sound ok ok' b(1) b'_key
    by (cases ch) (auto simp: resolves_to_def resolved_of_def bound_to_def simp del: saveBindings_simps(4))
qed

lemma portable_matches_members:
  assumes "(i, m) \<in> set (portable_matches fp groups)"
  shows "m \<in> set (concat groups) \<and> pt_id m = i \<and> pt_fingerprint m = Some fp"
proof -
  define add where "add = (\<lambda>(m :: participant_ref) found. if pt_fingerprint m = Some fp then AList.update (pt_id m) m found else found)"
  have "(i, m) \<in> set (fold add ms found) \<Longrightarrow> (i, m) \<notin> set found \<Longrightarrow> m \<in> set ms \<and> pt_id m = i \<and> pt_fingerprint m = Some fp" for ms :: "participant_ref list" and found
  proof (induction ms arbitrary: found)
    case (Cons n ms)
    show ?case
    proof (cases "(i, m) \<in> set (add n found)")
      case True
      then have "pt_fingerprint n = Some fp" "(i, m) \<in> set (AList.update (pt_id n) n found)"
        using Cons.prems(2) by (auto simp: add_def split: if_splits)
      then have "m = n \<and> i = pt_id n" using Cons.prems(2) by (induction found) (auto split: if_splits)
      with \<open>pt_fingerprint n = Some fp\<close> show ?thesis by simp
    next
      case False
      with Cons show ?thesis by simp
    qed
  qed simp
  with assms show ?thesis by (fastforce simp: portable_matches_def add_def)
qed

lemma recovered_ok:
  assumes "participants_sound st" "resolve_fits hash toLower random identity options"
    and "recoverPortableParticipant hash identity options st = Inr (Some p)"
  shows "participant_ok p"
proof -
  from assms(3) obtain i m where m: "(i, m) \<in> set (portable_matches (participantIdentityFingerprint hash identity) (thread_members st))"
    and p: "p = (case given (po_name options) of Some n \<Rightarrow> m\<lparr>pt_name := n\<rparr> | None \<Rightarrow> m)"
    by (auto simp: recoverPortableParticipant_def Let_def split: if_splits list.splits)
  have "participant_ok m"
    using portable_matches_members [OF m] assms(1) by (auto simp: participants_sound_def list_all_iff)
  with p assms(2) show ?thesis by (auto simp: resolve_fits_def participant_ok_def name_fits_def split: option.splits)
qed

lemma resolve_new_sound:
  assumes sound: "participants_sound st" and fits: "resolve_fits hash toLower random identity options"
    and new: "participantKey identity \<notin> bd_key ` set (bindings st)"
    and result: "resolve_new hash toLower now random identity options (bindings st) st = (Inr (r, renamed), st')"
  shows "resolves_to st (participantKey identity) r st'"
proof -
  obtain recovered where rec: "recoverPortableParticipant hash identity options st = Inr recovered"
    using result by (auto simp: resolve_new_def split: sum.splits)
  define p where "p = (case recovered of
      Some p \<Rightarrow> p
    | None \<Rightarrow> createParticipant hash toLower random identity (if po_name options = None then po_initialName options else po_name options))"
  have ok: "participant_ok p"
    using rec recovered_ok [OF sound fits] fits by (cases recovered) (simp_all add: p_def resolve_fits_def)
  from result rec have r: "fst r = p" and st': "\<exists>b. st' = saveBindings (bindings st @ [b]) st \<and> bd_key b = participantKey identity \<and> bd_participant b = p"
    by (auto simp: resolve_new_def Let_def p_def resolved_of_def)
  then obtain b where b: "st' = saveBindings (bindings st @ [b]) st" "bd_key b = participantKey identity" "bd_participant b = p" by blast
  then show ?thesis
    using sound new ok r by (auto simp: resolves_to_def participants_sound_def keeps_ids_def) (auto simp: bound_to_def)
qed

lemma resolve_locked_sound:
  assumes sound: "participants_sound st" and fits: "resolve_fits hash toLower random identity options"
    and result: "resolve_locked hash toLower now random identity options st = (Inr (r, renamed), st')"
  shows "resolves_to st (participantKey identity) r st'"
proof (cases "List.find (\<lambda>b. bd_key b = participantKey identity) (bindings st)")
  case (Some b)
  with result have "resolve_existing hash now identity options (bindings st) b True st = ((r, renamed), st')"
    by (auto simp: resolve_locked_def load_sound [OF sound] Let_def apfst_def map_prod_def split: prod.splits)
  from resolve_existing_sound [OF sound fits Some _ this] show ?thesis by simp
next
  case None
  then have new: "participantKey identity \<notin> bd_key ` set (bindings st)" by (auto simp: find_None_iff)
  show ?thesis
  proof (cases "legacyManagedBinding (bindings st) (participantKey identity)")
    case (Some b)
    then have found: "List.find (\<lambda>c. bd_key c = ''agent:managed'') (bindings st) = Some b"
      by (auto simp: legacyManagedBinding_def split: if_splits)
    from Some None result have "resolve_existing hash now identity options (bindings st) b False st = ((r, renamed), st')"
      by (auto simp: resolve_locked_def load_sound [OF sound] Let_def apfst_def map_prod_def split: prod.splits)
    from resolve_existing_sound [OF sound fits found _ this] new show ?thesis by simp
  next
    case no_legacy: None
    with None result have "resolve_new hash toLower now random identity options (bindings st) st = (Inr (r, renamed), st')"
      by (simp add: resolve_locked_def load_sound [OF sound] Let_def)
    from resolve_new_sound [OF sound fits new this] show ?thesis .
  qed
qed

lemma resolve_locked_error:
  "resolve_locked hash toLower now random identity options st = (Inl e, st') \<Longrightarrow> st' = st"
  by (auto simp: resolve_locked_def resolve_new_def Let_def apfst_def map_prod_def split: option.splits sum.splits prod.splits)

lemma rename_sound:
  assumes "participants_sound st"
  shows "participants_sound (reconcileThreadNames i st) \<and> bindings (reconcileThreadNames i st) = bindings st"
proof (cases "List.find (\<lambda>b. pt_id (bd_participant b) = i) (loadBindings st)")
  case None
  then show ?thesis using assms by (simp add: reconcileThreadNames_def)
next
  case (Some b)
  then have "b \<in> set (bindings st)" using assms by (auto simp: load_sound find_Some_iff)
  then have "participant_ok (bd_participant b)" using assms by (auto simp: participants_sound_def)
  with Some assms show ?thesis
    by (auto simp: reconcileThreadNames_def renameThreadMember_def participants_sound_def list_all_iff participant_ok_def)
qed

text \<open>Resolving an identity leaves a sound store, in which its key has the participant returned.\<close>

lemma resolveParticipant_sound:
  assumes sound: "participants_sound st" and fits: "resolve_fits hash toLower random identity options"
    and result: "resolveParticipant hash toLower now random follows identity options st = (res, st')"
  shows "participants_sound st' \<and> keeps_ids st st'
    \<and> (case res of Inl e \<Rightarrow> st' = st | Inr r \<Rightarrow> bound_to st' (participantKey identity) (pt_id (fst r)))"
proof (cases "unchangedBinding hash (loadBindings st) identity options")
  case (Some b)
  then have "List.find (\<lambda>b. bd_key b = participantKey identity) (bindings st) = Some b"
    using sound by (auto simp: unchangedBinding_def load_sound split: if_splits option.splits)
  from find_bound [OF this] Some result sound show ?thesis
    by (auto simp: resolveParticipant_def resolved_of_def bound_to_def)
next
  case None
  show ?thesis
  proof (cases "resolve_locked hash toLower now random identity options st")
    case (Pair out st'')
    show ?thesis
    proof (cases out)
      case (Inl e)
      with Pair have same: "st'' = st" using resolve_locked_error by blast
      from Pair Inl None result sound show ?thesis by (auto simp: resolveParticipant_def same)
    next
      case (Inr x)
      obtain r renamed where x: "x = (r, renamed)" by (cases x)
      with Pair Inr have locked: "resolve_locked hash toLower now random identity options st = (Inr (r, renamed), st'')" by simp
      from resolve_locked_sound [OF sound fits locked] have to: "resolves_to st (participantKey identity) r st''" .
      from result None locked have res: "res = Inr r"
        and st': "st' = (case renamed of Some p \<Rightarrow> if follows then reconcileThreadNames (pt_id p) st'' else st'' | None \<Rightarrow> st'')"
        by (auto simp: resolveParticipant_def)
      have "participants_sound st' \<and> bindings st' = bindings st''"
        using to rename_sound by (auto simp: st' resolves_to_def split: option.split)
      with to res show ?thesis by (simp add: resolves_to_def keeps_ids_def bound_to_def)
    qed
  qed
qed

lemma lookup_same [simp]:
  "bindings (snd (cachedParticipantForKey key st)) = bindings st"
  "thread_members (snd (cachedParticipantForKey key st)) = thread_members st"
  "loadBindings (snd (cachedParticipantForKey key st)) = loadBindings st"
  by (simp_all add: cachedParticipantForKey_def loadBindings_def Let_def split: option.split)

lemma lookup_sound:
  "participants_sound st \<Longrightarrow> participants_sound (snd (cachedParticipantForKey key st)) \<and> keeps_ids st (snd (cachedParticipantForKey key st))"
  by (simp add: participants_sound_def keeps_ids_def bound_to_def)

lemma participant_step_sound:
  "participants_sound st \<Longrightarrow> call_fits hash toLower c \<Longrightarrow>
     participants_sound (participant_step hash toLower c st) \<and> keeps_ids st (participant_step hash toLower c st)"
proof (cases "(hash, toLower, c, st)" rule: participant_step.cases)
  case (1 h l now random follows identity options st')
  moreover assume "participants_sound st" "call_fits hash toLower c"
  ultimately show ?thesis
    using resolveParticipant_sound [OF _ _ prod.collapse [symmetric], of st hash toLower random identity options now follows] by simp
next
  case (2 h l now random identity st')
  moreover assume s: "participants_sound st" "call_fits hash toLower c"
  moreover note found = lookup_sound [OF s(1), of "participantKey identity"]
  moreover have "participants_sound (snd (resolveParticipant hash toLower now random True identity no_options (snd (cachedParticipantForKey (participantKey identity) st))))
      \<and> keeps_ids (snd (cachedParticipantForKey (participantKey identity) st))
          (snd (resolveParticipant hash toLower now random True identity no_options (snd (cachedParticipantForKey (participantKey identity) st))))"
    using resolveParticipant_sound [OF conjunct1 [OF found] _ prod.collapse [symmetric], of hash toLower random identity no_options now True]
      s(2) 2 by simp
  ultimately show ?thesis
    using keeps_ids_trans by (auto simp: ensureParticipant_def split: prod.split option.split)
next
  case (3 h l now key st')
  moreover assume "participants_sound st"
  ultimately show ?thesis using lookup_sound [of st key] by simp
next
  case (4 h l now groups readable st')
  moreover assume "participants_sound st" "call_fits hash toLower c"
  ultimately show ?thesis by (simp add: participants_sound_def keeps_ids_def bound_to_def)
qed

lemma participant_run_sound:
  "participants_sound st \<Longrightarrow> list_all (call_fits hash toLower) cs \<Longrightarrow>
     participants_sound (fold (participant_step hash toLower) cs st) \<and> keeps_ids st (fold (participant_step hash toLower) cs st)"
proof (induction cs arbitrary: st)
  case (Cons c cs)
  have "participants_sound (participant_step hash toLower c st) \<and> keeps_ids st (participant_step hash toLower c st)"
    using Cons.prems participant_step_sound by simp
  with Cons show ?case using keeps_ids_trans by fastforce
qed simp

lemma no_participants_sound: "participants_sound no_participants"
  by (simp add: participants_sound_def no_participants_def)

text \<open>A bound identity is never refused.\<close>

lemma bound_resolves:
  assumes sound: "participants_sound st" and "bound_to st (participantKey identity) i"
  shows "\<exists>r st'. resolveParticipant hash toLower now random follows identity options st = (Inr r, st')"
proof -
  have "List.find (\<lambda>b. bd_key b = participantKey identity) (bindings st) \<noteq> None"
    using assms(2) by (auto simp: bound_to_def find_None_iff)
  then show ?thesis
    by (auto simp: resolveParticipant_def resolve_locked_def load_sound [OF sound] Let_def apfst_def map_prod_def resolved_of_def
        split: option.split prod.split)
qed

text \<open>The first identity of all becomes a new participant.\<close>

definition first_binding ::
    "(string \<Rightarrow> string) \<Rightarrow> (string \<Rightarrow> string) \<Rightarrow> int \<Rightarrow> 8 word list \<Rightarrow> token_identity \<Rightarrow> participant_binding" where
  "first_binding hash toLower now random identity =
     \<lparr>bd_key = participantKey identity, bd_participant = createParticipant hash toLower random identity None,
      bd_defaultSpace = None, bd_locationVersion = None, bd_createdAt = now, bd_updatedAt = now\<rparr>"

lemma resolve_first:
  assumes "loadBindings st = []" "thread_members st = []" "threads_readable st"
  shows "resolveParticipant hash toLower now random follows identity no_options st
     = (Inr (createParticipant hash toLower random identity None, None, None),
        saveBindings [first_binding hash toLower now random identity] st)"
proof -
  have "legacyManagedBinding [] (participantKey identity) = None" by (simp add: legacyManagedBinding_def)
  moreover have "unchangedBinding hash [] identity no_options = None" by (simp add: unchangedBinding_def)
  moreover have "recoverPortableParticipant hash identity no_options st = Inr None"
    by (simp add: recoverPortableParticipant_def portable_matches_def assms)
  moreover have "given (po_name no_options) = None" "po_name no_options = None" "po_initialName no_options = None"
      "truthy_space (po_defaultSpace no_options) = None" "po_locationVersion no_options = None"
    by (simp_all add: no_options_def given_def truthy_space_def)
  ultimately show ?thesis
    by (simp add: resolveParticipant_def resolve_locked_def assms(1) Let_def resolve_new_def resolved_of_def first_binding_def)
qed


text \<open>An agent, the bytes of its identifier and a fingerprint of the right shape.\<close>

definition agent_called :: "string \<Rightarrow> token_identity" where
  "agent_called label =
     \<lparr>id_user = ''owner'', id_workspace = ''/w'', credential_class = Some LocalCredential, id_scopes = [''docs:read''],
      id_agent = Some label, principal_id = ''local-token:1'', principal_kind = Agent, principal_name = label,
      principal_authorized = None, principal_participant = None, issued_at = None, expires_at = None, session_id = None,
      id_team = None, operator_verification = False\<rparr>"

definition sample_print :: "string \<Rightarrow> string" where
  "sample_print s = take 43 (map (\<lambda>c. if base64url_char c then c else CHR ''_'') s @ replicate 43 CHR ''A'')"

lemma sample_print_shape: "length (sample_print s) = 43" "list_all base64url_char (sample_print s)"
  by (auto simp: sample_print_def list_all_iff base64url_char_def dest!: in_set_takeD)

lemma base64url_16: "length random = 16 \<Longrightarrow> length (base64url random) = 22" "list_all base64url_char (base64url random)"
  by (simp_all add: base64url_chars)

lemma sample_fits:
  assumes "label \<in> {''bot@desk'', ''cli@lap''}" "length random = 16"
  shows "resolve_fits sample_print (\<lambda>s. s) random (agent_called label) no_options"
proof -
  have "clientIdForAgentLabel (\<lambda>s. s) (Some label) = None" "trim label = label"
    using assms(1) by (auto simp: clientIdForAgentLabel_def without_prefix_def clientPlatform_def CLIENT_PLATFORMS_def trim_def js_space_def)
  with assms show ?thesis
    by (auto simp: resolve_fits_def no_options_def given_def participantKey_def agent_called_def participant_ok_def createParticipant_def
        default_name_def defaultAgentNameForLabel_def SHARED_LOCAL_AGENT_LABEL_def participantIdentityFingerprint_def
        THREAD_IDENTITY_NAME_MAX_LENGTH_def base64url_16 sample_print_shape)
qed


section \<open>A name that does not fit\<close>

text \<open>
  Nothing bounds the label a credential is made with. An agent whose label is longer than the schema's name, and
  that was given no other, has its binding dropped whenever the file is read: every call makes it another participant.
\<close>

lemma long_label_is_forgotten:
  assumes "length (trim label) > THREAD_IDENTITY_NAME_MAX_LENGTH" "clientIdForAgentLabel toLower (Some label) = None"
    and "base64url random \<noteq> base64url random'"
  shows "\<exists>p p' st st'. resolveParticipant hash toLower now random follows (agent_called label) no_options no_participants = (Inr (p, None, None), st)
    \<and> resolveParticipant hash toLower now' random' follows' (agent_called label) no_options st = (Inr (p', None, None), st')
    \<and> pt_id p' \<noteq> pt_id p"
proof -
  let ?p = "createParticipant hash toLower random (agent_called label) None"
  have label: "label \<noteq> []" "label \<noteq> SHARED_LOCAL_AGENT_LABEL"
    using assms(1) by (auto simp: trim_def THREAD_IDENTITY_NAME_MAX_LENGTH_def SHARED_LOCAL_AGENT_LABEL_def js_space_def)
  have "pt_name ?p = label"
    using assms(2) label by (simp add: createParticipant_def given_def default_name_def agent_called_def defaultAgentNameForLabel_def)
  then have bad: "\<not> participant_ok ?p" using assms(1) by (simp add: participant_ok_def)
  have "pt_id ?p \<noteq> pt_id (createParticipant hash toLower random' (agent_called label) None)"
    using assms(3) by (simp add: createParticipant_def)
  then show ?thesis
    using resolve_first [of no_participants hash toLower now random follows "agent_called label"]
      resolve_first [of "saveBindings [first_binding hash toLower now random (agent_called label)] no_participants"
        hash toLower now' random' follows' "agent_called label"] bad
    by (simp add: loadBindings_def no_participants_def first_binding_def)
qed

section \<open>Threads know who took part\<close>

text \<open>An identity without a binding gets back the id its fingerprint has in the threads, where they agree.\<close>

lemma participant_is_recovered:
  assumes "participants_sound st" "threads_readable st" "participantKey identity \<notin> bd_key ` set (bindings st)"
    and "\<not> prefix ''agent:managed:'' (participantKey identity)"
    and "\<exists>m \<in> set (concat (thread_members st)). pt_fingerprint m = Some (participantIdentityFingerprint hash identity)"
    and "\<forall>m \<in> set (concat (thread_members st)). pt_fingerprint m = Some (participantIdentityFingerprint hash identity) \<longrightarrow> pt_id m = i"
  shows "\<exists>r st'. resolveParticipant hash toLower now random follows identity options st = (Inr r, st') \<and> pt_id (fst r) = i"
proof -
  let ?fp = "participantIdentityFingerprint hash identity"
  define add where "add = (\<lambda>(m :: participant_ref) found. if pt_fingerprint m = Some ?fp then AList.update (pt_id m) m found else found)"
  have one: "AList.update (pt_id m) m found = [(i, m)]" if "pt_id m = i" "found = [] \<or> (\<exists>n. found = [(i, n)])" for m :: participant_ref and found
    using that by auto
  have "\<exists>m. fold add ms found = [(i, m)]"
    if "\<forall>m \<in> set ms. pt_fingerprint m = Some ?fp \<longrightarrow> pt_id m = i" "found = [] \<or> (\<exists>n. found = [(i, n)])"
      "found \<noteq> [] \<or> (\<exists>m \<in> set ms. pt_fingerprint m = Some ?fp)" for ms found
    using that
  proof (induction ms arbitrary: found)
    case (Cons m ms)
    show ?case
    proof (cases "pt_fingerprint m = Some ?fp")
      case True
      with Cons.prems one have "add m found = [(i, m)]" by (simp add: add_def)
      with Cons show ?thesis by simp
    next
      case False
      then have "add m found = found" by (simp add: add_def)
      with Cons False show ?thesis by simp
    qed
  qed auto
  from this [of "concat (thread_members st)" "[]"] assms(5,6) obtain m where m: "portable_matches ?fp (thread_members st) = [(i, m)]"
    unfolding portable_matches_def add_def by auto
  have "(i, m) \<in> set (portable_matches ?fp (thread_members st))" by (simp add: m)
  from portable_matches_members [OF this] have "pt_id m = i" by simp
  moreover have "List.find (\<lambda>b. bd_key b = participantKey identity) (loadBindings st) = None"
    using assms(1,3) by (force simp: load_sound find_None_iff)
  ultimately show ?thesis
    using m assms(2,4)
    by (simp add: resolveParticipant_def unchangedBinding_def resolve_locked_def legacyManagedBinding_def Let_def resolve_new_def
        recoverPortableParticipant_def resolved_of_def split: option.split)
qed

end
