(* ===== verification/AgentConnections.thy ===== *)
theory AgentConnections
  imports Participants
begin

text \<open>
  The agents of a one-person Worktable, \<open>packages/server/src/agent-connection-store.ts\<close>: the record of
  each agent that connected, with the credentials it holds in theory \<open>TokenStore\<close> and its participant in
  theory \<open>Participants\<close>.

  A mutation holds the lock of the file and is one step on it; saving never fails. What differs between
  Worktables is the record \<open>agent_env\<close>: the digests, lower case, the root of the workspace and where Link
  is managed. Where the store hands over to the one of a team (\<open>teamsEnabled\<close>) is not modelled.
\<close>

section \<open>State\<close>

record agent_env =
  en_digest :: "string \<Rightarrow> string"
  en_secretHash :: "string \<Rightarrow> string"
  en_hexDigest :: "string \<Rightarrow> string"
  en_lower :: "string \<Rightarrow> string"
  en_root :: string
  en_manageUrl :: string

record stored_connection =
  cn_id :: string
  cn_workspace :: string
  cn_target :: connection_target
  cn_mode :: agent_mode
  cn_participant :: "participant_ref option"
  cn_machine :: "string option"
  cn_credential :: string
  cn_connectedAt :: int
  cn_displayName :: "string option"
  cn_platform :: "agent_platform option"
  cn_icon :: "string option"
  cn_label :: "string option"

record sign_in =
  si_principal :: string
  si_platform :: "agent_platform option"
  si_icon :: "string option"
  si_noThreads :: bool

record linked_app =
  la_workspace :: string
  la_principal :: string
  la_displayName :: string
  la_participantKey :: string
  la_platform :: agent_platform
  la_connectedAt :: int

record agent_world =
  connections :: "stored_connection list"
  signIns :: "sign_in list"
  linkedApps :: "linked_app list"
  linkedAppsSeen :: "(string \<times> int) list"
  token_part :: token_store
  people :: participant_store

record public_connection =
  pc_id :: string
  pc_oauth :: bool
  pc_displayName :: string
  pc_platform :: agent_platform
  pc_icon :: "string option"
  pc_access :: "agent_access option"
  pc_target :: connection_target
  pc_mode :: agent_mode
  pc_participant :: "participant_ref option"
  pc_machine :: "string option"
  pc_connectedAt :: int
  pc_scopes :: "string list"
  pc_lastSeenAt :: "int option"
  pc_manageUrl :: "string option"

datatype connection_error = NeedsThreads | NeedsAccess | TokenProblem token_error | ParticipantProblem participant_error | NewCredentialRevoked

section \<open>Identifiers\<close>

definition stableConnectionKey :: "agent_env \<Rightarrow> connection_target \<Rightarrow> string option \<Rightarrow> string \<Rightarrow> string" where
  "stableConnectionKey env target machine credentialId =
     (case target of
        AgentAdapter adapter installation n \<Rightarrow> ''adapter:'' @ adapter @ '':'' @ installation
      | McpClient clientId \<Rightarrow>
          ''mcp:'' @ (case clientId of Some c \<Rightarrow> c | None \<Rightarrow> ''agent'') @ '':'' @
          (case machine of Some m \<Rightarrow> en_lower env m | None \<Rightarrow> ''credential:'' @ credentialId))"

definition connectionId :: "agent_env \<Rightarrow> connection_target \<Rightarrow> string option \<Rightarrow> string \<Rightarrow> string \<Rightarrow> string" where
  "connectionId env target machine workspace credentialId =
     ''acn_'' @ take 20 (en_digest env (workspace @ CHR 0x00 # stableConnectionKey env target machine credentialId))"

definition LABELED_PREFIX :: string where "LABELED_PREFIX = ''acn_agent_''"

definition labeledConnectionId :: "agent_env \<Rightarrow> string \<Rightarrow> string \<Rightarrow> string" where
  "labeledConnectionId env workspace label = LABELED_PREFIX @ take 24 (en_hexDigest env (workspace @ CHR 0x00 # label))"

definition platformForTarget :: "agent_env \<Rightarrow> connection_target \<Rightarrow> agent_platform" where
  "platformForTarget env target =
     (case target of
        AgentAdapter adapter i n \<Rightarrow> platformForAdapter adapter
      | McpClient clientId \<Rightarrow> platformForClient (en_lower env) clientId)"

section \<open>Credentials\<close>

text \<open>Maps made from the list of tokens: of two with one id the later counts.\<close>

definition token_by_id :: "token_metadata list \<Rightarrow> string \<Rightarrow> token_metadata option" where
  "token_by_id ts i = List.find (\<lambda>t. md_id t = i) (rev ts)"

definition token_index_by_id :: "token_metadata list \<Rightarrow> string \<Rightarrow> nat option" where
  "token_index_by_id ts i = map_of (rev (zip (map md_id ts) [0..<length ts])) i"

definition labeledCredentials :: "token_metadata list \<Rightarrow> string \<Rightarrow> (string \<times> token_metadata list) list" where
  "labeledCredentials ts workspace =
     fold (\<lambda>t byLabel.
       case id_agent t of
         None \<Rightarrow> byLabel
       | Some a \<Rightarrow>
           if a = [] \<or> CHR ''@'' \<in> set a \<or> md_revokedAt t \<noteq> None \<or> id_workspace t \<noteq> workspace then byLabel
           else AList.update a ((case map_of byLabel a of Some l \<Rightarrow> l | None \<Rightarrow> []) @ [t]) byLabel) ts []"

definition unrecordedConnection :: "agent_env \<Rightarrow> string \<Rightarrow> token_metadata list \<Rightarrow> string \<Rightarrow> stored_connection" where
  "unrecordedConnection env label held workspace =
     (let clientId = clientIdForAgentLabel (en_lower env) (Some label)
      in \<lparr>cn_id = labeledConnectionId env workspace label, cn_workspace = workspace, cn_target = McpClient clientId,
          cn_mode = OnDemand, cn_participant = None, cn_machine = None, cn_credential = md_id (last held),
          cn_connectedAt = md_createdAt (hd held), cn_displayName = None,
          cn_platform = Some (platformForClient (en_lower env) clientId), cn_icon = None, cn_label = Some label\<rparr>)"

definition label_of :: "stored_connection \<Rightarrow> string option" where
  "label_of c = (if cn_label c = Some [] then None else cn_label c)"

definition allConnections :: "agent_env \<Rightarrow> stored_connection list \<Rightarrow> token_metadata list \<Rightarrow> string \<Rightarrow> stored_connection list" where
  "allConnections env cs ts workspace =
     (let byLabel = labeledCredentials ts workspace;
          recorded = map (\<lambda>c. case Option.bind (label_of c) (map_of byLabel) of
                                Some l \<Rightarrow> c\<lparr>cn_credential := md_id (last l)\<rparr>
                              | None \<Rightarrow> c) (filter (\<lambda>c. cn_workspace c = workspace) cs);
          recordedLabels = List.map_filter label_of recorded
      in recorded @ map (\<lambda>(label, l). unrecordedConnection env label l workspace)
                      (filter (\<lambda>(label, l). label \<notin> set recordedLabels) byLabel))"

definition credentialsOf :: "stored_connection \<Rightarrow> token_metadata list \<Rightarrow> string \<Rightarrow> bool \<Rightarrow> token_metadata list" where
  "credentialsOf c ts workspace includeRevoked =
     filter (\<lambda>t. id_workspace t = workspace \<and> (includeRevoked \<or> md_revokedAt t = None)
               \<and> (case label_of c of Some l \<Rightarrow> id_agent t = Some l | None \<Rightarrow> md_id t = cn_credential c)) ts"

section \<open>What an agent looks like\<close>

definition publicConnection :: "agent_env \<Rightarrow> stored_connection \<Rightarrow> token_metadata \<Rightarrow> (string \<times> participant_ref) list \<Rightarrow> public_connection" where
  "publicConnection env c t participants =
     (let shown = (case cn_displayName c of Some n \<Rightarrow> n | None \<Rightarrow> []);
          platform = agentConnectionPlatform (en_lower env)
            (case cn_platform c of Some p \<Rightarrow> p | None \<Rightarrow> platformForTarget env (cn_target c)) (cn_target c) shown;
          participant = (case map_of participants (participantKey t) of Some p \<Rightarrow> Some p | None \<Rightarrow> cn_participant c);
          legacyName = (if cn_participant c = None then cn_displayName c else None)
      in \<lparr>pc_id = cn_id c, pc_oauth = False,
          pc_displayName =
            (case legacyName of Some n \<Rightarrow> n | None \<Rightarrow>
              (case participant of Some p \<Rightarrow> pt_name p | None \<Rightarrow>
                (case cn_displayName c of Some n \<Rightarrow> n | None \<Rightarrow>
                  if platform = Other
                  then (case defaultAgentNameForLabel (en_lower env) (id_agent t) of Some n \<Rightarrow> n | None \<Rightarrow>
                         (case id_agent t of Some a \<Rightarrow> a | None \<Rightarrow> pf_name (AGENT_PLATFORMS Other)))
                  else pf_name (AGENT_PLATFORMS platform)))),
          pc_platform = platform, pc_icon = cn_icon c, pc_access = Some (accessFromScopes (id_scopes t)), pc_target = cn_target c,
          pc_mode = cn_mode c, pc_participant = participant, pc_machine = cn_machine c, pc_connectedAt = cn_connectedAt c,
          pc_scopes = id_scopes t, pc_lastSeenAt = md_lastUsedAt t, pc_manageUrl = None\<rparr>)"

definition linkedAppConnection :: "agent_env \<Rightarrow> (string \<times> int) list \<Rightarrow> linked_app \<Rightarrow> (string \<times> participant_ref) list \<Rightarrow> public_connection" where
  "linkedAppConnection env seen app participants =
     (let participant = map_of participants (la_participantKey app);
          target = McpClient (clientIdForSignInPrincipal (la_principal app));
          displayName = (case participant of Some p \<Rightarrow> pt_name p | None \<Rightarrow> la_displayName app);
          key = la_workspace app @ CHR 0x00 # la_principal app
      in \<lparr>pc_id = ''acn_link_'' @ take 20 (en_digest env key), pc_oauth = True, pc_displayName = displayName,
          pc_platform = agentConnectionPlatform (en_lower env) (la_platform app) target displayName, pc_icon = None, pc_access = None,
          pc_target = target, pc_mode = OnDemand, pc_participant = participant, pc_machine = None,
          pc_connectedAt = la_connectedAt app, pc_scopes = [],
          pc_lastSeenAt = Some (case map_of seen key of Some at' \<Rightarrow> at' | None \<Rightarrow> la_connectedAt app),
          pc_manageUrl = Some (en_manageUrl env)\<rparr>)"

text \<open>Newest first, in order of the file where two connected at once.\<close>

definition listLocalAgentConnections :: "agent_env \<Rightarrow> agent_world \<Rightarrow> public_connection list" where
  "listLocalAgentConnections env w =
     (let ts = listTokens (token_part w); participants = participantsByKey (people w); workspace = en_root env;
          active = filter (\<lambda>t. md_revokedAt t = None \<and> id_workspace t = workspace) ts
      in sort_key (\<lambda>c. - pc_connectedAt c)
           (List.map_filter (\<lambda>c. map_option (\<lambda>t. publicConnection env c t participants) (token_by_id active (cn_credential c)))
              (allConnections env (connections w) ts workspace)
            @ map (\<lambda>app. linkedAppConnection env (linkedAppsSeen w) app participants)
                (filter (\<lambda>app. la_workspace app = workspace) (linkedApps w))))"

text \<open>Grok bots, by participant, with whether each was removed.\<close>

definition listAgentConnections :: "agent_env \<Rightarrow> (string \<times> bool) list \<Rightarrow> agent_world \<Rightarrow> public_connection list" where
  "listAgentConnections env grok w =
     map (\<lambda>c. case pc_participant c of
                None \<Rightarrow> c
              | Some p \<Rightarrow>
                  (case map_of (rev grok) (pt_id p) of
                     None \<Rightarrow> c
                   | Some removed \<Rightarrow>
                       c\<lparr>pc_platform := GrokBot, pc_displayName := pt_name p, pc_mode := if removed then pc_mode c else AlwaysOn\<rparr>))
       (listLocalAgentConnections env w)"

definition findAppAgent :: "agent_env \<Rightarrow> (string \<times> bool) list \<Rightarrow> string \<Rightarrow> agent_world \<Rightarrow> public_connection option" where
  "findAppAgent env grok label w =
     List.find (\<lambda>c. pc_id c = labeledConnectionId env (en_root env) label) (listAgentConnections env grok w)"

definition agentNamesByPrincipal :: "agent_env \<Rightarrow> agent_world \<Rightarrow> (string \<times> string) list" where
  "agentNamesByPrincipal env w =
     (let ts = listTokens (token_part w); participants = participantsByKey (people w); workspace = en_root env
      in fold (\<lambda>c names.
           case token_by_id ts (cn_credential c) of
             None \<Rightarrow> names
           | Some t \<Rightarrow>
               (let name = pc_displayName (publicConnection env c t participants)
                in AList.update (''local-token:'' @ md_id t) name
                     (fold (\<lambda>u. AList.update (''local-token:'' @ md_id u) name) (credentialsOf c ts workspace True) names)))
           (allConnections env (connections w) ts workspace) [])"

section \<open>Connecting\<close>

record connection_input =
  up_target :: connection_target
  up_mode :: agent_mode
  up_participant :: "participant_ref option"
  up_machine :: "string option"
  up_credential :: string
  up_displayName :: "string option"
  up_icon :: "string option"

definition nonempty :: "string option \<Rightarrow> bool" where
  "nonempty s \<longleftrightarrow> s \<noteq> None \<and> s \<noteq> Some []"

text \<open>A credential that may be recorded: known, of this workspace, not revoked.\<close>

definition usable_credential :: "string \<Rightarrow> token_metadata list \<Rightarrow> string \<Rightarrow> bool" where
  "usable_credential workspace ts i =
     (case token_by_id ts i of None \<Rightarrow> False | Some t \<Rightarrow> id_workspace t = workspace \<and> md_revokedAt t = None)"

text \<open>Whether the credential recorded is newer than the one that comes.\<close>

definition superseded_by_recorded :: "token_metadata list \<Rightarrow> string \<Rightarrow> string \<Rightarrow> bool" where
  "superseded_by_recorded ts recorded incoming =
     (case (token_index_by_id ts recorded, token_index_by_id ts incoming) of (Some m, Some n) \<Rightarrow> m > n | _ \<Rightarrow> False)"

definition reconnected :: "string \<Rightarrow> string \<Rightarrow> connection_input \<Rightarrow> stored_connection \<Rightarrow> stored_connection" where
  "reconnected i workspace input c =
     c\<lparr>cn_id := i, cn_workspace := workspace, cn_target := up_target input, cn_mode := up_mode input,
       cn_participant := up_participant input, cn_machine := up_machine input,
       cn_displayName := (case cn_displayName c of None \<Rightarrow> up_displayName input | Some n \<Rightarrow> Some n),
       cn_credential := up_credential input\<rparr>"

definition new_connection :: "agent_env \<Rightarrow> int \<Rightarrow> string \<Rightarrow> connection_input \<Rightarrow> stored_connection" where
  "new_connection env now i input =
     \<lparr>cn_id = i, cn_workspace = en_root env, cn_target = up_target input, cn_mode = up_mode input,
      cn_participant = up_participant input, cn_machine = up_machine input, cn_credential = up_credential input,
      cn_connectedAt = now, cn_displayName = up_displayName input, cn_platform = Some (platformForTarget env (up_target input)),
      cn_icon = up_icon input, cn_label = None\<rparr>"

text \<open>The name its owner gave an agent that had no participant yet.\<close>

definition carried_name :: "connection_input \<Rightarrow> stored_connection \<Rightarrow> string option" where
  "carried_name input c =
     (if cn_participant c = None \<and> nonempty (cn_displayName c)
         \<and> (case up_participant input of None \<Rightarrow> False | Some p \<Rightarrow> Some (pt_name p) \<noteq> cn_displayName c)
      then cn_displayName c else None)"

definition naming :: "string \<Rightarrow> participant_options" where
  "naming name = \<lparr>po_name = Some name, po_initialName = None, po_defaultSpace = DefaultUnset, po_locationVersion = None\<rparr>"

text \<open>Renaming an identity's participant.\<close>

definition rename_participant ::
    "agent_env \<Rightarrow> int \<Rightarrow> 8 word list \<Rightarrow> bool \<Rightarrow> 'a token_identity_scheme \<Rightarrow> string \<Rightarrow> agent_world
       \<Rightarrow> (connection_error + participant_ref) \<times> agent_world" where
  "rename_participant env now random follows identity name w =
     (case resolveParticipant (en_digest env) (en_lower env) now random follows identity (naming name) (people w) of
        (Inl e, ps) \<Rightarrow> (Inl (ParticipantProblem e), w\<lparr>people := ps\<rparr>)
      | (Inr r, ps) \<Rightarrow> (Inr (fst r), w\<lparr>people := ps\<rparr>))"

definition upsertAgentConnection ::
    "agent_env \<Rightarrow> int \<Rightarrow> 8 word list \<Rightarrow> bool \<Rightarrow> connection_input \<Rightarrow> agent_world \<Rightarrow> (connection_error + bool) \<times> agent_world" where
  "upsertAgentConnection env now random follows input w =
     (let workspace = en_root env;
          i = connectionId env (up_target input) (up_machine input) workspace (up_credential input);
          ts = listTokens (token_part w)
      in case List.find (\<lambda>c. cn_id c = i) (connections w) of
           Some c \<Rightarrow>
             if \<not> usable_credential workspace ts (up_credential input) \<or> superseded_by_recorded ts (cn_credential c) (up_credential input)
             then (Inr False, w)
             else
               (let w' = w\<lparr>connections := update_first (\<lambda>c. cn_id c = i) (reconnected i workspace input) (connections w),
                           token_part := (if cn_credential c = up_credential input \<or> cn_credential c = [] then token_part w
                                          else snd (revokeToken now (cn_credential c) (token_part w)))\<rparr>
                in case (carried_name input c, token_by_id ts (up_credential input)) of
                     (Some name, Some t) \<Rightarrow> apfst (map_sum id (\<lambda>p. True)) (rename_participant env now random follows t name w')
                   | _ \<Rightarrow> (Inr True, w'))
         | None \<Rightarrow>
             if \<not> usable_credential workspace ts (up_credential input) then (Inr False, w)
             else (Inr True, w\<lparr>connections := connections w @ [new_connection env now i input]\<rparr>))"

section \<open>Linked apps\<close>

definition noteLinkedApp :: "agent_env \<Rightarrow> int \<Rightarrow> 'a token_identity_scheme \<Rightarrow> agent_world \<Rightarrow> agent_world" where
  "noteLinkedApp env now identity w =
     (let workspace = en_root env; principal = principal_id identity; key = workspace @ CHR 0x00 # principal;
          known = (map_of (linkedAppsSeen w) key \<noteq> None);
          w' = w\<lparr>linkedAppsSeen := AList.update key now (linkedAppsSeen w)\<rparr>
      in if known \<or> list_ex (\<lambda>app. la_workspace app = workspace \<and> la_principal app = principal) (linkedApps w) then w'
         else w'\<lparr>linkedApps := linkedApps w @
                 [\<lparr>la_workspace = workspace, la_principal = principal, la_displayName = principal_name identity,
                   la_participantKey = participantKey identity,
                   la_platform = agentConnectionPlatform (en_lower env) Other (McpClient (clientIdForSignInPrincipal principal))
                                   (principal_name identity),
                   la_connectedAt = now\<rparr>]\<rparr>)"

definition forgetLinkedApps :: "agent_env \<Rightarrow> agent_world \<Rightarrow> agent_world" where
  "forgetLinkedApps env w =
     w\<lparr>linkedAppsSeen := filter (\<lambda>(key, at'). \<not> prefix (en_root env @ [CHR 0x00]) key) (linkedAppsSeen w),
       linkedApps := filter (\<lambda>app. la_workspace app \<noteq> en_root env) (linkedApps w)\<rparr>"

section \<open>Disconnecting and re-issuing\<close>

definition revoke_all :: "int \<Rightarrow> string list \<Rightarrow> token_store \<Rightarrow> token_store" where
  "revoke_all now ids st = fold (\<lambda>i st. snd (revokeToken now i st)) ids st"

definition disconnectAgentConnection :: "agent_env \<Rightarrow> int \<Rightarrow> string \<Rightarrow> agent_world \<Rightarrow> bool \<times> agent_world" where
  "disconnectAgentConnection env now i w =
     (let ts = listTokens (token_part w); workspace = en_root env
      in case List.find (\<lambda>c. cn_id c = i \<and> (case token_by_id ts (cn_credential c) of Some t \<Rightarrow> id_workspace t = workspace | None \<Rightarrow> False))
                (allConnections env (connections w) ts workspace) of
           None \<Rightarrow> (False, w)
         | Some c \<Rightarrow>
             (let held = map md_id (credentialsOf c ts workspace False)
              in (True, w\<lparr>token_part := revoke_all now ((if held = [] then [cn_credential c] else []) @ held) (token_part w)\<rparr>)))"

definition currentAgentScopes :: "agent_env \<Rightarrow> string \<Rightarrow> agent_world \<Rightarrow> string list option" where
  "currentAgentScopes env agent w =
     map_option (\<lambda>l. id_scopes (last l)) (map_of (labeledCredentials (listTokens (token_part w)) (en_root env)) agent)"

definition rotateAgentCredential ::
    "agent_env \<Rightarrow> int \<Rightarrow> 8 word list \<times> 8 word list \<Rightarrow> string \<Rightarrow> string list \<Rightarrow> agent_world
       \<Rightarrow> (token_error + (string \<times> token_metadata)) \<times> agent_world" where
  "rotateAgentCredential env now random agent scopes w =
     (case rotateAgentToken (en_secretHash env) (en_root env) now random agent
             (case currentAgentScopes env agent w of Some s \<Rightarrow> s | None \<Rightarrow> scopes) (token_part w) of
        (res, st) \<Rightarrow> (res, w\<lparr>token_part := st\<rparr>))"

section \<open>The owner's changes\<close>

text \<open>An icon is not mentioned, or null, or a name.\<close>

record connection_changes =
  ch_displayName :: "string option"
  ch_icon :: "string option option"
  ch_access :: "agent_access option"

text \<open>
  Every credential the agent holds gets the scopes; where the one its record follows was revoked
  meanwhile, those set before it are put back.
\<close>

fun set_scopes :: "string \<Rightarrow> string list \<Rightarrow> token_metadata list \<Rightarrow> (string \<times> string list) list \<Rightarrow> token_store \<Rightarrow> bool \<times> token_store" where
  "set_scopes main scopes [] previous st = (True, st)"
| "set_scopes main scopes (t # ts) previous st =
     (case setTokenScopes (md_id t) scopes st of
        (True, st') \<Rightarrow> set_scopes main scopes ts (AList.update (md_id t) (id_scopes t) previous) st'
      | (False, st') \<Rightarrow>
          if md_id t = main then (False, fold (\<lambda>(i, old) st. snd (setTokenScopes i old st)) previous st')
          else set_scopes main scopes ts previous st')"

definition changed_connection :: "connection_changes \<Rightarrow> stored_connection \<Rightarrow> stored_connection" where
  "changed_connection changes c =
     c\<lparr>cn_icon := (case ch_icon changes of None \<Rightarrow> cn_icon c | Some i \<Rightarrow> i),
       cn_displayName := (case ch_displayName changes of None \<Rightarrow> cn_displayName c | Some n \<Rightarrow> Some n)\<rparr>"

text \<open>The record to edit and the records with it: the stored one, or one made for an agent that had none.\<close>

definition editable :: "agent_env \<Rightarrow> string \<Rightarrow> agent_world \<Rightarrow> (stored_connection \<times> stored_connection list) option" where
  "editable env i w =
     (let ts = listTokens (token_part w); workspace = en_root env;
          current = List.find (\<lambda>c. cn_id c = i) (allConnections env (connections w) ts workspace)
      in case current of
           None \<Rightarrow> None
         | Some cur \<Rightarrow>
             (case List.find (\<lambda>c. cn_id c = i \<and> cn_workspace c = workspace) (connections w) of
                Some c \<Rightarrow>
                  Some (c\<lparr>cn_credential := cn_credential cur\<rparr>,
                        update_first (\<lambda>c. cn_id c = i \<and> cn_workspace c = workspace) (\<lambda>c. c\<lparr>cn_credential := cn_credential cur\<rparr>) (connections w))
              | None \<Rightarrow> if label_of cur \<noteq> None then Some (cur, connections w @ [cur]) else None))"

text \<open>The part under the lock: the credential it edited, or nothing where the agent is gone.\<close>

definition update_locked ::
    "agent_env \<Rightarrow> string \<Rightarrow> connection_changes \<Rightarrow> agent_world \<Rightarrow> (connection_error + token_metadata option) \<times> agent_world" where
  "update_locked env i changes w =
     (let ts = listTokens (token_part w); workspace = en_root env
      in case editable env i w of
           None \<Rightarrow> (Inr None, w)
         | Some (c, cs) \<Rightarrow>
             (case List.find (\<lambda>t. md_id t = cn_credential c \<and> id_workspace t = workspace \<and> md_revokedAt t = None) ts of
                None \<Rightarrow> (Inr None, w)
              | Some t \<Rightarrow>
                  (let cs' = update_first (\<lambda>c. cn_id c = i \<and> cn_workspace c = workspace) (changed_connection changes) cs
                   in case ch_access changes of
                        None \<Rightarrow> (Inr (Some t), w\<lparr>connections := cs'\<rparr>)
                      | Some access \<Rightarrow>
                          if cn_mode c = AlwaysOn \<and> \<not> agent_access.threads access then (Inl NeedsThreads, w)
                          else if scopesForAccess access = [] then (Inl NeedsAccess, w)
                          else (case set_scopes (md_id t) (scopesForAccess access) (credentialsOf c ts workspace False) [] (token_part w) of
                                  (True, st) \<Rightarrow> (Inr (Some t), w\<lparr>connections := cs', token_part := st\<rparr>)
                                | (False, st) \<Rightarrow> (Inr None, w\<lparr>token_part := st\<rparr>)))))"

definition updateAgentConnection ::
    "agent_env \<Rightarrow> (string \<times> bool) list \<Rightarrow> int \<Rightarrow> 8 word list \<Rightarrow> bool \<Rightarrow> string \<Rightarrow> connection_changes \<Rightarrow> agent_world
       \<Rightarrow> (connection_error + public_connection option) \<times> agent_world" where
  "updateAgentConnection env grok now random follows i changes w =
     (if (case ch_access changes of Some access \<Rightarrow> \<not> agent_access.threads access | None \<Rightarrow> False)
         \<and> (case List.find (\<lambda>c. pc_id c = i) (listAgentConnections env grok w) of Some c \<Rightarrow> pc_mode c = AlwaysOn | None \<Rightarrow> False)
      then (Inl NeedsThreads, w)
      else
        (case update_locked env i changes w of
           (Inl e, w') \<Rightarrow> (Inl e, w')
         | (Inr None, w') \<Rightarrow> (Inr None, w')
         | (Inr (Some t), w') \<Rightarrow>
             (let found = (\<lambda>w. Inr (List.find (\<lambda>c. pc_id c = i) (listAgentConnections env grok w)))
              in case ch_displayName changes of
                   None \<Rightarrow> (found w', w')
                 | Some name \<Rightarrow>
                     (case rename_participant env now random follows t name w' of
                        (Inl e, w'') \<Rightarrow> (Inl e, w'')
                      | (Inr p, w'') \<Rightarrow>
                          (let w3 = w''\<lparr>connections := update_first (\<lambda>c. cn_id c = i \<and> cn_participant c = None)
                                          (\<lambda>c. c\<lparr>cn_participant := Some p\<rparr>) (connections w'')\<rparr>
                           in (found w3, w3))))))"

record credential_input =
  cr_label :: "string option"
  cr_displayName :: "string option"
  cr_icon :: "string option option"
  cr_access :: agent_access

definition manual_target :: connection_target where "manual_target = McpClient None"

text \<open>A credential made here, with its token; where the agent cannot be shown the token is revoked again.\<close>

definition connect_credential ::
    "agent_env \<Rightarrow> (string \<times> bool) list \<Rightarrow> int \<Rightarrow> 8 word list \<Rightarrow> bool \<Rightarrow> token_metadata \<Rightarrow> credential_input \<Rightarrow> agent_world
       \<Rightarrow> (connection_error + public_connection option) \<times> agent_world" where
  "connect_credential env grok now random follows t input w =
     (case cr_label input of
        None \<Rightarrow>
          (case rename_participant env now random follows t (case cr_displayName input of Some n \<Rightarrow> n | None \<Rightarrow> ''My agent'') w of
             (Inl e, w') \<Rightarrow> (Inl e, w')
           | (Inr p, w') \<Rightarrow>
               (case upsertAgentConnection env now random follows
                       \<lparr>up_target = manual_target, up_mode = OnDemand, up_participant = Some p, up_machine = None, up_credential = md_id t,
                        up_displayName = None,
                        up_icon = (case cr_icon input of Some (Some icon) \<Rightarrow> if icon = [] then None else Some icon | _ \<Rightarrow> None)\<rparr> w' of
                  (Inl e, w'') \<Rightarrow> (Inl e, w'')
                | (Inr stored, w'') \<Rightarrow>
                    (Inr (List.find (\<lambda>c. pc_id c = connectionId env manual_target None (en_root env) (md_id t)) (listAgentConnections env grok w'')), w'')))
      | Some label \<Rightarrow>
          updateAgentConnection env grok now random follows (labeledConnectionId env (en_root env) label)
            \<lparr>ch_displayName = (if nonempty (cr_displayName input) then cr_displayName input else None), ch_icon = cr_icon input,
             ch_access = Some (cr_access input)\<rparr> w)"

definition createAgentCredential ::
    "agent_env \<Rightarrow> (string \<times> bool) list \<Rightarrow> int \<Rightarrow> 8 word list \<times> 8 word list \<Rightarrow> string \<Rightarrow> 8 word list \<Rightarrow> bool \<Rightarrow> credential_input \<Rightarrow> agent_world
       \<Rightarrow> (connection_error + (string \<times> public_connection)) \<times> agent_world" where
  "createAgentCredential env grok now random uuid random' follows input w =
     (let scopes = scopesForAccess (cr_access input)
      in if scopes = [] then (Inl NeedsAccess, w)
         else (case createToken (en_secretHash env) (en_root env) now random
                      \<lparr>op_scopes = scopes, op_agent = Some (case cr_label input of Some l \<Rightarrow> l | None \<Rightarrow> ''manual@'' @ uuid),
                       op_user = None, op_workspace = None\<rparr> (token_part w) of
                 (Inl e, st) \<Rightarrow> (Inl (TokenProblem e), w\<lparr>token_part := st\<rparr>)
               | (Inr (raw, t), st) \<Rightarrow>
                   (let undo = (\<lambda>w. w\<lparr>token_part := snd (revokeToken now (md_id t) (token_part w))\<rparr>)
                    in case connect_credential env grok now random' follows t input (w\<lparr>token_part := st\<rparr>) of
                         (Inl e, w') \<Rightarrow> (Inl e, undo w')
                       | (Inr None, w') \<Rightarrow> (Inl NewCredentialRevoked, undo w')
                       | (Inr (Some c), w') \<Rightarrow> (Inr (raw, c), w'))))"

section \<open>Sign-in agents\<close>

record sign_in_changes =
  sc_displayName :: "string option"
  sc_icon :: "string option option"
  sc_platform :: "agent_platform option"
  sc_threads :: "bool option"

definition sign_in_identity :: "string \<Rightarrow> string \<Rightarrow> token_identity" where
  "sign_in_identity principalId name =
     \<lparr>id_user = [], id_workspace = [], credential_class = None, id_scopes = [], id_agent = None, principal_id = principalId,
      principal_kind = Agent, principal_name = name, principal_authorized = None, principal_participant = None, issued_at = None,
      expires_at = None, session_id = None, id_team = None, operator_verification = False\<rparr>"

definition changed_sign_in :: "sign_in_changes \<Rightarrow> sign_in \<Rightarrow> sign_in" where
  "changed_sign_in changes r =
     r\<lparr>si_platform := (case sc_platform changes of Some p \<Rightarrow> Some p | None \<Rightarrow> si_platform r),
       si_icon := (case sc_icon changes of Some icon \<Rightarrow> icon | None \<Rightarrow> si_icon r),
       si_noThreads := (case sc_threads changes of Some b \<Rightarrow> \<not> b | None \<Rightarrow> si_noThreads r)\<rparr>"

text \<open>Grok bots here by principalId.\<close>

definition updateSignInAgent ::
    "agent_env \<Rightarrow> (string \<times> bool) list \<Rightarrow> int \<Rightarrow> 8 word list \<Rightarrow> bool \<Rightarrow> string \<Rightarrow> sign_in_changes \<Rightarrow> agent_world
       \<Rightarrow> (connection_error + unit) \<times> agent_world" where
  "updateSignInAgent env grok now random follows principalId changes w =
     (if sc_threads changes = Some False \<and> list_ex (\<lambda>(i, removed). i = principalId \<and> \<not> removed) grok then (Inl NeedsThreads, w)
      else
        (let records = (if list_ex (\<lambda>r. si_principal r = principalId) (signIns w) then signIns w
                        else signIns w @ [\<lparr>si_principal = principalId, si_platform = None, si_icon = None, si_noThreads = False\<rparr>]);
             w' = w\<lparr>signIns := update_first (\<lambda>r. si_principal r = principalId) (changed_sign_in changes) records\<rparr>
         in case sc_displayName changes of
              None \<Rightarrow> (Inr (), w')
            | Some name \<Rightarrow> apfst (map_sum id (\<lambda>p. ())) (rename_participant env now random follows (sign_in_identity principalId name) name w')))"

definition signInPresentations :: "agent_world \<Rightarrow> (string \<times> sign_in) list" where
  "signInPresentations w = map (\<lambda>r. (''principal:'' @ si_principal r, r)) (signIns w)"

end
