(* ===== verification/AgentUpdates.thy ===== *)
theory AgentUpdates
  imports AgentConnections
begin

text \<open>
  What the owner's changes to an agent do, on theory \<open>AgentConnections\<close>: every credential the agent
  holds takes the access chosen and no other changes, and disconnecting an agent revokes everything it holds.
\<close>

section \<open>The tokens behind the views\<close>

lemma metadata_simps [simp]:
  "md_id (toMetadata seen t) = tk_id t" "md_revokedAt (toMetadata seen t) = tk_revokedAt t"
  "md_createdAt (toMetadata seen t) = tk_createdAt t" "id_agent (toMetadata seen t) = tk_agent t"
  "id_workspace (toMetadata seen t) = tk_workspace t" "id_scopes (toMetadata seen t) = currentScopesForStored (tk_scopes t)"
  by (simp_all add: toMetadata_def token_identity_of_def token_identity.defs token_metadata.defs)

definition token_ids_distinct :: "token_store \<Rightarrow> bool" where
  "token_ids_distinct st \<longleftrightarrow> distinct (map tk_id (tokens st))"

lemma update_first_map:
  "distinct (map key xs) \<Longrightarrow> update_first (\<lambda>x. key x = k) f xs = map (\<lambda>x. if key x = k then f x else x) xs"
proof (induction xs)
  case (Cons x xs)
  have "map (\<lambda>y. if key y = key x then f y else y) xs = xs" if "key x \<notin> key ` set xs"
    using that by (intro map_idI) (metis image_eqI)
  with Cons show ?case by auto
qed simp

lemma find_distinct:
  "distinct (map key xs) \<Longrightarrow> x \<in> set xs \<Longrightarrow> List.find (\<lambda>y. key y = key x) xs = Some x"
  by (induction xs) auto

lemma setTokenScopes_distinct:
  assumes "token_ids_distinct st" "t \<in> set (tokens st)" "tk_revokedAt t = None"
  shows "setTokenScopes (tk_id t) scopes st =
     (True, st\<lparr>tokens := map (\<lambda>u. if tk_id u = tk_id t then u\<lparr>tk_scopes := scopes\<rparr> else u) (tokens st)\<rparr>)"
  using assms find_distinct [of tk_id "tokens st" t] update_first_map [of tk_id "tokens st" "tk_id t"]
  by (simp add: setTokenScopes_def token_ids_distinct_def)

definition rescoped :: "string set \<Rightarrow> string list \<Rightarrow> token_store \<Rightarrow> token_store" where
  "rescoped ids scopes st = st\<lparr>tokens := map (\<lambda>u. if tk_id u \<in> ids then u\<lparr>tk_scopes := scopes\<rparr> else u) (tokens st)\<rparr>"

lemma rescoped_distinct [simp]: "token_ids_distinct (rescoped ids scopes st) = token_ids_distinct st"
  by (simp add: token_ids_distinct_def rescoped_def comp_def if_distrib cong: if_cong)

lemma rescoped_rescoped: "rescoped ids scopes (rescoped ids' scopes st) = rescoped (ids \<union> ids') scopes st"
  by (simp add: rescoped_def)

lemma rescoped_empty [simp]: "rescoped {} scopes st = st"
  by (simp add: rescoped_def)

lemma set_scopes_all:
  assumes "token_ids_distinct st"
    and "\<And>t. t \<in> set ts \<Longrightarrow> \<exists>u \<in> set (tokens st). tk_id u = md_id t \<and> tk_revokedAt u = None"
  shows "set_scopes main scopes ts previous (rescoped ids scopes st) = (True, rescoped (ids \<union> md_id ` set ts) scopes st)"
  using assms(2)
proof (induction ts arbitrary: previous ids)
  case (Cons t ts)
  obtain u where u: "u \<in> set (tokens st)" "tk_id u = md_id t" "tk_revokedAt u = None" using Cons.prems [of t] by auto
  let ?u = "if tk_id u \<in> ids then u\<lparr>tk_scopes := scopes\<rparr> else u"
  have u': "?u \<in> set (tokens (rescoped ids scopes st))" "tk_id ?u = md_id t" "tk_revokedAt ?u = None"
    using u by (auto simp: rescoped_def)
  have "setTokenScopes (tk_id ?u) scopes (rescoped ids scopes st) = (True, rescoped {md_id t} scopes (rescoped ids scopes st))"
    using setTokenScopes_distinct [OF _ u'(1,3)] assms(1) by (simp add: rescoped_def [of "{md_id t}"] u'(2))
  then have "setTokenScopes (md_id t) scopes (rescoped ids scopes st) = (True, rescoped (insert (md_id t) ids) scopes st)"
    by (simp only: u'(2) rescoped_rescoped) simp
  with Cons show ?case by simp
qed simp

text \<open>The credentials an agent holds, as stored tokens.\<close>

definition holds :: "string \<Rightarrow> stored_connection \<Rightarrow> stored_token \<Rightarrow> bool" where
  "holds workspace c t \<longleftrightarrow>
     tk_workspace t = workspace \<and> tk_revokedAt t = None
     \<and> (case label_of c of Some l \<Rightarrow> tk_agent t = Some l | None \<Rightarrow> tk_id t = cn_credential c)"

lemma holds_rescoped [simp]: "holds workspace c (t\<lparr>tk_scopes := scopes\<rparr>) = holds workspace c t"
  by (auto simp: holds_def split: option.splits)

lemma credentials_held:
  "credentialsOf c (listTokens st) workspace False = map (toMetadata (usage st)) (filter (holds workspace c) (tokens st))"
  unfolding credentialsOf_def listTokens_def holds_def
  by (cases "label_of c") (simp_all add: filter_map comp_def)

lemma held_ids:
  assumes "token_ids_distinct st" "t \<in> set (tokens st)"
  shows "tk_id t \<in> md_id ` set (credentialsOf c (listTokens st) workspace False) \<longleftrightarrow> holds workspace c t"
  using assms by (auto simp: credentials_held image_iff token_ids_distinct_def distinct_map inj_on_def)

lemma stored_access_kept: "scopesForAccess access \<noteq> [] \<Longrightarrow> currentScopesForStored (scopesForAccess access) = scopesForAccess access"
proof -
  have "list_all (\<lambda>a. scopesForAccess a \<noteq> [] \<longrightarrow> currentScopesForStored (scopesForAccess a) = scopesForAccess a)
      [\<lparr>threads = t, read_access = r, edit_access = e\<rparr>. t \<leftarrow> [True, False], r \<leftarrow> [True, False], e \<leftarrow> [True, False]]"
    by code_simp
  moreover have "access \<in> set [\<lparr>threads = t, read_access = r, edit_access = e\<rparr>. t \<leftarrow> [True, False], r \<leftarrow> [True, False], e \<leftarrow> [True, False]]"
    by (cases access) auto
  ultimately show "scopesForAccess access \<noteq> [] \<Longrightarrow> ?thesis" by (simp only: list_all_iff) blast
qed

text \<open>Who may edit may read.\<close>

definition readable :: "agent_access \<Rightarrow> agent_access" where
  "readable access = access\<lparr>read_access := read_access access \<or> edit_access access\<rparr>"

lemma access_read_back: "scopesForAccess access \<noteq> [] \<Longrightarrow> accessFromScopes (scopesForAccess access) = readable access"
proof -
  have "list_all (\<lambda>a. scopesForAccess a \<noteq> [] \<longrightarrow> accessFromScopes (scopesForAccess a) = readable a)
      [\<lparr>threads = t, read_access = r, edit_access = e\<rparr>. t \<leftarrow> [True, False], r \<leftarrow> [True, False], e \<leftarrow> [True, False]]"
    by code_simp
  moreover have "access \<in> set [\<lparr>threads = t, read_access = r, edit_access = e\<rparr>. t \<leftarrow> [True, False], r \<leftarrow> [True, False], e \<leftarrow> [True, False]]"
    by (cases access) auto
  ultimately show "scopesForAccess access \<noteq> [] \<Longrightarrow> ?thesis" by (simp only: list_all_iff) blast
qed

section \<open>Changing access\<close>

text \<open>The agent an edit is made to, with the record its credential follows.\<close>

lemma find_append: "List.find P xs = Some x \<Longrightarrow> List.find P (xs @ ys) = Some x"
  by (induction xs) auto

lemma find_map_filter:
  "(\<And>x. P (f x) = P x) \<Longrightarrow> List.find P (map f (filter Q xs)) = map_option f (List.find (\<lambda>x. P x \<and> Q x) xs)"
  by (induction xs) auto

definition following :: "(string \<times> token_metadata list) list \<Rightarrow> stored_connection \<Rightarrow> stored_connection" where
  "following byLabel c = (case Option.bind (label_of c) (map_of byLabel) of Some l \<Rightarrow> c\<lparr>cn_credential := md_id (last l)\<rparr> | None \<Rightarrow> c)"

lemma following_simps [simp]:
  "cn_id (following byLabel c) = cn_id c" "label_of (following byLabel c) = label_of c" "cn_workspace (following byLabel c) = cn_workspace c"
  by (auto simp: following_def label_of_def split: option.splits)

lemma find_recorded:
  assumes "List.find (\<lambda>c. cn_id c = i \<and> cn_workspace c = workspace) cs = Some c"
  shows "List.find (\<lambda>c. cn_id c = i) (allConnections env cs ts workspace) = Some (following (labeledCredentials ts workspace) c)"
proof -
  let ?f = "following (labeledCredentials ts workspace)"
  have "List.find (\<lambda>c. cn_id c = i) (map ?f (filter (\<lambda>c. cn_workspace c = workspace) cs)) = Some (?f c)"
    using assms by (simp add: find_map_filter)
  then show ?thesis unfolding allConnections_def Let_def by (intro find_append) (simp add: following_def [abs_def])
qed

lemma editable_agent:
  assumes "editable env i w = Some (c, cs)"
  obtains cur where "List.find (\<lambda>c. cn_id c = i) (allConnections env (connections w) (listTokens (token_part w)) (en_root env)) = Some cur"
    "label_of c = label_of cur" "cn_credential c = cn_credential cur"
proof -
  obtain cur where cur: "List.find (\<lambda>c. cn_id c = i) (allConnections env (connections w) (listTokens (token_part w)) (en_root env)) = Some cur"
    using assms by (auto simp: editable_def Let_def split: option.splits)
  have "label_of c = label_of cur \<and> cn_credential c = cn_credential cur"
  proof (cases "List.find (\<lambda>c. cn_id c = i \<and> cn_workspace c = en_root env) (connections w)")
    case None
    with assms cur show ?thesis by (auto simp: editable_def Let_def split: if_splits)
  next
    case (Some c0)
    then have "cur = following (labeledCredentials (listTokens (token_part w)) (en_root env)) c0" using find_recorded cur by fastforce
    moreover have "c = c0\<lparr>cn_credential := cn_credential cur\<rparr>" using assms cur Some by (simp add: editable_def Let_def)
    ultimately show ?thesis by (simp add: label_of_def) (metis following_simps(2) label_of_def)
  qed
  with cur that show thesis by blast
qed


lemma update_locked_access:
  assumes ids: "token_ids_distinct (token_part w)" and access: "ch_access changes = Some access"
    and locked: "update_locked env i changes w = (Inr (Some t), w')"
  obtains cur where
    "List.find (\<lambda>c. cn_id c = i) (allConnections env (connections w) (listTokens (token_part w)) (en_root env)) = Some cur"
    "scopesForAccess access \<noteq> []"
    "tokens (token_part w') =
       map (\<lambda>u. if holds (en_root env) cur u then u\<lparr>tk_scopes := scopesForAccess access\<rparr> else u) (tokens (token_part w))"
proof -
  let ?st = "token_part w"
  obtain c cs where edit: "editable env i w = Some (c, cs)" using locked by (auto simp: update_locked_def Let_def split: option.splits)
  obtain cur where cur:
    "List.find (\<lambda>c. cn_id c = i) (allConnections env (connections w) (listTokens ?st) (en_root env)) = Some cur"
    "label_of c = label_of cur" "cn_credential c = cn_credential cur"
    using editable_agent [OF edit] by blast
  let ?held = "credentialsOf c (listTokens ?st) (en_root env) False"
  have "set_scopes main (scopesForAccess access) ?held [] (rescoped {} (scopesForAccess access) ?st)
      = (True, rescoped ({} \<union> md_id ` set ?held) (scopesForAccess access) ?st)" for main
    by (rule set_scopes_all [OF ids]) (auto simp: credentials_held holds_def)
  then have all: "set_scopes main (scopesForAccess access) ?held [] ?st = (True, rescoped (md_id ` set ?held) (scopesForAccess access) ?st)" for main
    by simp
  have some: "scopesForAccess access \<noteq> []" and "token_part w' = rescoped (md_id ` set ?held) (scopesForAccess access) ?st"
    using locked access edit all by (auto simp: update_locked_def Let_def split: option.splits if_splits)
  moreover have "holds (en_root env) c = holds (en_root env) cur" by (auto simp: holds_def fun_eq_iff cur split: option.splits)
  ultimately have "tokens (token_part w') =
      map (\<lambda>u. if holds (en_root env) cur u then u\<lparr>tk_scopes := scopesForAccess access\<rparr> else u) (tokens ?st)"
    using held_ids [OF ids, where workspace = "en_root env" and c = c] by (auto simp: rescoped_def)
  with that cur(1) some show thesis by blast
qed

lemma rename_keeps_tokens: "rename_participant env now random follows identity name w = (res, w') \<Longrightarrow> token_part w' = token_part w"
  by (auto simp: rename_participant_def split: prod.splits sum.splits)

lemma update_keeps_tokens:
  assumes "updateAgentConnection env grok now random follows i changes w = (Inr (Some shown), w')"
  obtains t w1 where "update_locked env i changes w = (Inr (Some t), w1)" "token_part w' = token_part w1"
proof -
  obtain t w1 where locked: "update_locked env i changes w = (Inr (Some t), w1)"
    using assms by (auto simp: updateAgentConnection_def split: if_splits prod.splits sum.splits option.splits)
  have "token_part w' = token_part w1"
    using assms
    by (auto simp: updateAgentConnection_def Let_def locked dest!: rename_keeps_tokens
      split: if_splits option.splits prod.splits sum.splits)
  with locked that show thesis by blast
qed

text \<open>
  C12. When the owner's change of access to an agent is answered with the agent, every active credential
  that agent holds carries exactly what was chosen: its bearer may do what the scopes of that choice say
  and the screen reads the choice back from them (with reading, where editing was chosen). No other token
  changes, and nothing of a credential but its scopes.
\<close>

theorem update_sets_access:
  assumes "token_ids_distinct (token_part w)" "ch_access changes = Some access"
    and "updateAgentConnection env grok now random follows i changes w = (Inr (Some shown), w')"
  shows "\<exists>agent. List.find (\<lambda>c. cn_id c = i) (allConnections env (connections w) (listTokens (token_part w)) (en_root env)) = Some agent
    \<and> tokens (token_part w') =
        map (\<lambda>t. if holds (en_root env) agent t then t\<lparr>tk_scopes := scopesForAccess access\<rparr> else t) (tokens (token_part w))
    \<and> (\<forall>t kind. t \<in> set (tokens (token_part w')) \<and> holds (en_root env) agent t \<longrightarrow>
          id_scopes (token_identity_of kind t) = scopesForAccess access \<and> accessFromScopes (id_scopes (token_identity_of kind t)) = readable access)"
proof -
  obtain t w1 where locked: "update_locked env i changes w = (Inr (Some t), w1)" and same: "token_part w' = token_part w1"
    using update_keeps_tokens [OF assms(3)] .
  obtain agent where agent:
    "List.find (\<lambda>c. cn_id c = i) (allConnections env (connections w) (listTokens (token_part w)) (en_root env)) = Some agent"
    and chosen: "scopesForAccess access \<noteq> []"
    and now: "tokens (token_part w') =
       map (\<lambda>u. if holds (en_root env) agent u then u\<lparr>tk_scopes := scopesForAccess access\<rparr> else u) (tokens (token_part w))"
    using update_locked_access [OF assms(1,2) locked, folded same] .
  have scopes: "tk_scopes u = scopesForAccess access" if "u \<in> set (tokens (token_part w'))" "holds (en_root env) agent u" for u
    using that unfolding now by (auto split: if_splits)
  have "id_scopes (token_identity_of kind u) = scopesForAccess access"
    if "u \<in> set (tokens (token_part w'))" "holds (en_root env) agent u" for u kind
    by (simp only: token_identity_of_def token_identity.select_convs scopes [OF that] stored_access_kept [OF chosen])
  then have "id_scopes (token_identity_of kind u) = scopesForAccess access \<and> accessFromScopes (id_scopes (token_identity_of kind u)) = readable access"
    if "u \<in> set (tokens (token_part w'))" "holds (en_root env) agent u" for u kind
    using that access_read_back [OF chosen] by metis
  then show ?thesis using agent now by blast
qed


section \<open>A small Worktable\<close>

definition sample_env :: agent_env where
  "sample_env = \<lparr>en_digest = (\<lambda>s. s), en_secretHash = (\<lambda>s. s), en_hexDigest = (\<lambda>s. s), en_lower = (\<lambda>s. s), en_root = ''/w'',
     en_manageUrl = ''''\<rparr>"

definition sample_token_of :: "string \<Rightarrow> string option \<Rightarrow> stored_token" where
  "sample_token_of i agent = \<lparr>tk_id = i, tk_user = ''owner'', tk_workspace = ''/w'', tk_scopes = [''threads:read''], tk_agent = agent,
     tk_createdAt = 1, tk_revokedAt = None, secretHash = replicate 43 CHR ''s''\<rparr>"

text \<open>An agent that holds two credentials, beside a token of its own.\<close>

definition sample_world :: agent_world where
  "sample_world = \<lparr>connections = [\<lparr>cn_id = ''a1'', cn_workspace = ''/w'', cn_target = McpClient None, cn_mode = OnDemand,
       cn_participant = None, cn_machine = None, cn_credential = ''000000000001'', cn_connectedAt = 1, cn_displayName = None,
       cn_platform = None, cn_icon = None, cn_label = Some ''pi''\<rparr>],
     signIns = [], linkedApps = [], linkedAppsSeen = [],
     token_part = \<lparr>tokens = [sample_token_of ''000000000001'' (Some ''pi''), sample_token_of ''000000000002'' None,
       sample_token_of ''000000000003'' (Some ''pi'')], usage = [], usageStampedAt = []\<rparr>,
     people = no_participants\<rparr>"

definition sample_changes :: connection_changes where
  "sample_changes = \<lparr>ch_displayName = None, ch_icon = None,
     ch_access = Some \<lparr>threads = False, read_access = True, edit_access = False\<rparr>\<rparr>"

lemma sample_ids: "token_ids_distinct (token_part sample_world)"
  by code_simp

theorem update_sets_access_witness:
  "\<exists>agent. tokens (token_part (snd (updateAgentConnection sample_env [] 9 [] True ''a1'' sample_changes sample_world))) =
     map (\<lambda>t. if holds ''/w'' agent t then t\<lparr>tk_scopes := scopesForAccess \<lparr>threads = False, read_access = True, edit_access = False\<rparr>\<rparr> else t)
       (tokens (token_part sample_world))"
proof -
  have "case fst (updateAgentConnection sample_env [] 9 [] True ''a1'' sample_changes sample_world) of Inr (Some c) \<Rightarrow> True | _ \<Rightarrow> False"
    by code_simp
  then obtain shown w' where "updateAgentConnection sample_env [] 9 [] True ''a1'' sample_changes sample_world = (Inr (Some shown), w')"
    by (cases "updateAgentConnection sample_env [] 9 [] True ''a1'' sample_changes sample_world") (auto split: sum.splits option.splits)
  from update_sets_access [OF sample_ids _ this] this show ?thesis by (auto simp: sample_changes_def sample_env_def)
qed

section \<open>Disconnecting\<close>

lemma same_ids: "map tk_id (map (\<lambda>t. if P t then revoke_now now t else t) ts) = map tk_id ts"
  by (simp add: revoke_now_def)

lemma revokeToken_map:
  assumes "token_ids_distinct st"
  shows "snd (revokeToken now i st) =
     st\<lparr>tokens := map (\<lambda>t. if tk_id t = i \<and> tk_revokedAt t = None then revoke_now now t else t) (tokens st)\<rparr>"
proof (cases "List.find (\<lambda>t. tk_id t = i) (tokens st)")
  case None
  then have "map (\<lambda>t. if tk_id t = i \<and> tk_revokedAt t = None then revoke_now now t else t) (tokens st) = tokens st"
    by (intro map_idI) (auto simp: find_None_iff)
  with None show ?thesis by (simp add: revokeToken_def)
next
  case (Some t)
  then have t: "t \<in> set (tokens st)" "tk_id t = i" by (auto simp: find_Some_iff)
  with assms have only: "u = t" if "u \<in> set (tokens st)" "tk_id u = i" for u
    using that by (auto simp: token_ids_distinct_def distinct_map inj_on_def)
  show ?thesis
  proof (cases "tk_revokedAt t = None")
    case True
    have "update_first (\<lambda>t. tk_id t = i) (revoke_now now) (tokens st)
        = map (\<lambda>t. if tk_id t = i then revoke_now now t else t) (tokens st)"
      using assms by (simp add: update_first_map token_ids_distinct_def)
    also have "\<dots> = map (\<lambda>t. if tk_id t = i \<and> tk_revokedAt t = None then revoke_now now t else t) (tokens st)"
      using only True by (intro map_cong) auto
    finally show ?thesis using Some True by (simp add: revokeToken_def)
  next
    case False
    then have "map (\<lambda>t. if tk_id t = i \<and> tk_revokedAt t = None then revoke_now now t else t) (tokens st) = tokens st"
      using only by (intro map_idI) auto
    with Some False show ?thesis unfolding revokeToken_def by auto
  qed
qed

lemma revoke_now_simps [simp]: "tk_id (revoke_now now t) = tk_id t" "tk_revokedAt (revoke_now now t) = Some now"
  by (simp_all add: revoke_now_def)

definition revoked_in :: "int \<Rightarrow> string list \<Rightarrow> stored_token \<Rightarrow> stored_token" where
  "revoked_in now ids t = (if tk_id t \<in> set ids \<and> tk_revokedAt t = None then revoke_now now t else t)"

lemma revoked_in_simps [simp]: "tk_id (revoked_in now ids t) = tk_id t" "revoked_in now [] = id"
    "tk_revokedAt (revoked_in now ids t) = None \<longleftrightarrow> tk_revokedAt t = None \<and> tk_id t \<notin> set ids"
    "tk_id t \<notin> set ids \<Longrightarrow> revoked_in now ids t = t"
  by (auto simp: revoked_in_def)

lemma revoked_in_Cons: "revoked_in now ids (revoked_in now [i] t) = revoked_in now (i # ids) t"
  by (auto simp: revoked_in_def)

lemma revoke_all_map:
  assumes "token_ids_distinct st"
  shows "revoke_all now ids st = st\<lparr>tokens := map (revoked_in now ids) (tokens st)\<rparr>"
  using assms
proof (induction ids arbitrary: st)
  case (Cons i ids)
  have one: "snd (revokeToken now i st) = st\<lparr>tokens := map (revoked_in now [i]) (tokens st)\<rparr>"
    using revokeToken_map [OF Cons.prems] by (simp add: revoked_in_def [abs_def])
  have "token_ids_distinct (st\<lparr>tokens := map (revoked_in now [i]) (tokens st)\<rparr>)"
    using Cons.prems by (simp add: token_ids_distinct_def comp_def)
  with Cons.IH show ?case by (simp add: revoke_all_def one comp_def revoked_in_Cons)
qed (simp add: revoke_all_def)

text \<open>
  C11. An agent that was disconnected is shut out for good: it holds no active credential any more, and
  whatever calls of the token store follow, no bearer of a credential it held is ever accepted again. A
  token it did not hold and that its record did not name is as it was.
\<close>

theorem disconnected_agent_shut_out:
  assumes ids: "token_ids_distinct (token_part w)" and gone: "disconnectAgentConnection env now i w = (True, w')"
  shows "\<exists>agent \<in> set (allConnections env (connections w) (listTokens (token_part w)) (en_root env)). cn_id agent = i
    \<and> (\<forall>t \<in> set (tokens (token_part w')). \<not> holds (en_root env) agent t)
    \<and> (\<forall>t \<in> set (tokens (token_part w)).
         if holds (en_root env) agent t
         then \<forall>hash home later_on saved raw cs. tokenIdFromToken raw = Some (tk_id t) \<longrightarrow>
                fst (verifyToken hash home later_on saved raw (fold (token_step hash) cs (token_part w'))) = None
         else tk_id t \<noteq> cn_credential agent \<longrightarrow> t \<in> set (tokens (token_part w')))"
proof -
  let ?st = "token_part w"
  obtain c where c: "c \<in> set (allConnections env (connections w) (listTokens ?st) (en_root env))" "cn_id c = i"
    and w': "token_part w' = revoke_all now
        ((if map md_id (credentialsOf c (listTokens ?st) (en_root env) False) = [] then [cn_credential c] else [])
         @ map md_id (credentialsOf c (listTokens ?st) (en_root env) False)) ?st"
    using gone by (auto simp: disconnectAgentConnection_def Let_def dest!: find_Some_member split: option.splits)
  define gone_ids where "gone_ids = (if map md_id (credentialsOf c (listTokens ?st) (en_root env) False) = [] then [cn_credential c] else [])
         @ map md_id (credentialsOf c (listTokens ?st) (en_root env) False)"
  have now: "tokens (token_part w') = map (revoked_in now gone_ids) (tokens ?st)"
    unfolding w' revoke_all_map [OF ids] by (simp add: gone_ids_def)
  have held: "tk_id t \<in> set gone_ids" if "t \<in> set (tokens ?st)" "holds (en_root env) c t" for t
    using held_ids [OF ids that(1), of c "en_root env"] that(2) by (auto simp: gone_ids_def)
  have others: "revoked_in now gone_ids t = t" if "t \<in> set (tokens ?st)" "\<not> holds (en_root env) c t" "tk_id t \<noteq> cn_credential c" for t
    using held_ids [OF ids that(1), of c "en_root env"] that(2,3) by (auto simp: gone_ids_def)
  have none: "\<not> holds (en_root env) c t" if there: "t \<in> set (tokens (token_part w'))" for t
  proof
    assume holding: "holds (en_root env) c t"
    then have active: "tk_revokedAt t = None" by (simp add: holds_def)
    obtain u where u: "u \<in> set (tokens ?st)" "t = revoked_in now gone_ids u" using there unfolding now set_map by blast
    with active have "tk_id u \<notin> set gone_ids" by simp
    with held [OF u(1)] holding u(2) show False by simp
  qed
  have shut: "fst (verifyToken hash home later_on saved raw (fold (token_step hash) cs (token_part w'))) = None"
    if "t \<in> set (tokens ?st)" "holds (en_root env) c t" "tokenIdFromToken raw = Some (tk_id t)" for t hash home later_on saved raw cs
  proof (rule revoked_unverifiable [OF _ _ that(3)])
    have "distinct (map tk_id (tokens (token_part w')))"
      using ids unfolding now by (simp add: token_ids_distinct_def comp_def)
    moreover have "revoked_in now gone_ids t \<in> set (tokens (token_part w'))" using that(1) unfolding now by simp
    ultimately show "List.find (\<lambda>u. tk_id u = tk_id t) (tokens (token_part w')) = Some (revoked_in now gone_ids t)"
      using find_distinct [of tk_id "tokens (token_part w')" "revoked_in now gone_ids t"] by simp
    show "tk_revokedAt (revoked_in now gone_ids t) \<noteq> None" using held [OF that(1,2)] by simp
  qed
  have "t \<in> set (tokens (token_part w'))" if "t \<in> set (tokens ?st)" "\<not> holds (en_root env) c t" "tk_id t \<noteq> cn_credential c" for t
    using others [OF that] that(1) unfolding now by (metis image_eqI set_map)
  with c none shut show ?thesis by (intro bexI [of _ c]) auto
qed


theorem disconnected_agent_shut_out_witness:
  "fst (disconnectAgentConnection sample_env 9 ''a1'' sample_world)
   \<and> fst (verifyToken id ''/w'' 10 True (''wt_000000000001_'' @ replicate 43 CHR ''s'')
         (token_part (snd (disconnectAgentConnection sample_env 9 ''a1'' sample_world)))) = None"
proof -
  let ?w' = "snd (disconnectAgentConnection sample_env 9 ''a1'' sample_world)"
  have gone: "fst (disconnectAgentConnection sample_env 9 ''a1'' sample_world)" by code_simp
  then have "disconnectAgentConnection sample_env 9 ''a1'' sample_world = (True, ?w')" by (simp add: prod_eq_iff)
  note shut = disconnected_agent_shut_out [OF sample_ids this]
  have "list_all (\<lambda>c. label_of c = Some ''pi'')
      (allConnections sample_env (connections sample_world) (listTokens (token_part sample_world)) (en_root sample_env))"
    by code_simp
  then have label: "label_of c = Some ''pi''"
    if "c \<in> set (allConnections sample_env (connections sample_world) (listTokens (token_part sample_world)) (en_root sample_env))" for c
    using that by (simp add: list_all_iff)
  let ?t = "sample_token_of ''000000000001'' (Some ''pi'')"
  have t: "?t \<in> set (tokens (token_part sample_world))" by (simp add: sample_world_def)
  have holds: "holds (en_root sample_env) c ?t" if "label_of c = Some ''pi''" for c
    using that by (simp add: holds_def sample_env_def sample_token_of_def)
  have raw: "tokenIdFromToken (''wt_000000000001_'' @ replicate 43 CHR ''s'') = Some (tk_id ?t)" by code_simp
  from shut t raw have "fst (verifyToken id ''/w'' 10 True (''wt_000000000001_'' @ replicate 43 CHR ''s'')
         (fold (token_step id) [] (token_part ?w'))) = None"
    by (metis (no_types, lifting) label holds)
  with gone show ?thesis by simp
qed

end
