(* ===== verification/PairingRoutes.thy ===== *)
theory PairingRoutes
  imports ConnectionRequests AgentUpdates Json
begin

text \<open>
  The routes by which an agent pairs, \<open>packages/server/src/routes/pairing.ts\<close>, in a one-person
  Worktable: each handler on the pairing sessions of theory \<open>Pairing\<close>, the requests of
  \<open>ConnectionRequests\<close> and the agents, tokens and participants of \<open>AgentConnections\<close>.

  A handler is one step with one reading of the clock. A request is its parsed body, \<open>None\<close> where it
  is no JSON. A refusal is its status and its code; messages are left out. The owner's routes stand
  behind \<open>requireAgentManager\<close>: what is modelled is what runs once that lets a request through.
\<close>

section \<open>State\<close>

record route_env =
  rt_hash :: "string \<Rightarrow> string"
  rt_agents :: agent_env
  rt_spaces :: "string \<Rightarrow> bool"
  rt_mcpUrl :: string

record route_random =
  rr_session :: string
  rr_code :: "nat list"
  rr_token :: "8 word list \<times> 8 word list"
  rr_participant :: "8 word list"
  rr_user :: "nat list"
  rr_poll :: string
  rr_follows :: bool
  rr_saved :: bool

record route_state =
  codeFailures :: "int list"
  pairings :: sessions
  asking :: request_state
  agent_part :: agent_world

type_synonym refusal = "nat \<times> string"

definition BAD_REQUEST :: refusal where "BAD_REQUEST = (400, ''BAD_REQUEST'')"

section \<open>The lockout\<close>

definition FAILURE_WINDOW_MS :: int where "FAILURE_WINDOW_MS = 10 * 60 * 1000"
definition MAX_FAILURES_PER_WINDOW :: nat where "MAX_FAILURES_PER_WINDOW = 30"

definition codeSurfaceLocked :: "int \<Rightarrow> route_state \<Rightarrow> bool \<times> route_state" where
  "codeSurfaceLocked now st =
     (let kept = filter (\<lambda>at'. at' > now - FAILURE_WINDOW_MS) (codeFailures st)
      in (length kept \<ge> MAX_FAILURES_PER_WINDOW, st\<lparr>codeFailures := kept\<rparr>))"

definition recordCodeFailure :: "int \<Rightarrow> route_state \<Rightarrow> route_state" where
  "recordCodeFailure now st = st\<lparr>codeFailures := codeFailures st @ [now]\<rparr>"

definition unless_locked :: "int \<Rightarrow> (route_state \<Rightarrow> (refusal + 'a) \<times> route_state) \<Rightarrow> route_state \<Rightarrow> (refusal + 'a) \<times> route_state" where
  "unless_locked now run st =
     (case codeSurfaceLocked now st of
        (True, st') \<Rightarrow> (Inl (429, ''RATE_LIMITED''), st')
      | (False, st') \<Rightarrow> run st')"

section \<open>Reading a request\<close>

definition scopeGrantsOwnerPower :: "string \<Rightarrow> bool" where
  "scopeGrantsOwnerPower scope \<longleftrightarrow> hasScope [scope] ''tokens:manage''"

definition SUPPORTED_CLIENTS :: "string list" where
  "SUPPORTED_CLIENTS = [''claude-code'', ''codex'', ''cursor'', ''opencode'', ''vscode'']"

definition DEFAULT_AGENT_TOKEN_SCOPES :: "string list" where
  "DEFAULT_AGENT_TOKEN_SCOPES =
     [''documents:read'', ''documents:write'', ''docs:*'', ''widgets:*'', ''records:*'', ''annotations:*'', ''threads:read'',
      ''threads:write'', ''search:read'']"

definition DEFAULT_AGENT_ACCESS :: agent_access where
  "DEFAULT_AGENT_ACCESS = \<lparr>threads = True, read_access = True, edit_access = True\<rparr>"

definition lower_letter :: "char \<Rightarrow> bool" where "lower_letter c \<longleftrightarrow> CHR ''a'' \<le> c \<and> c \<le> CHR ''z''"
definition upper_letter :: "char \<Rightarrow> bool" where "upper_letter c \<longleftrightarrow> CHR ''A'' \<le> c \<and> c \<le> CHR ''Z''"
definition ascii_digit :: "char \<Rightarrow> bool" where "ascii_digit c \<longleftrightarrow> CHR ''0'' \<le> c \<and> c \<le> CHR ''9''"

definition AGENT_ADAPTER_ID :: "string \<Rightarrow> bool" where
  "AGENT_ADAPTER_ID s \<longleftrightarrow>
     (case s of [] \<Rightarrow> False
      | c # cs \<Rightarrow> lower_letter c \<and> list_all (\<lambda>c. lower_letter c \<or> ascii_digit c \<or> c = CHR ''-'') cs \<and> length cs \<le> 63)"

definition AGENT_ADAPTER_INSTALLATION_ID :: "string \<Rightarrow> bool" where
  "AGENT_ADAPTER_INSTALLATION_ID s \<longleftrightarrow>
     (let alnum = (\<lambda>c. lower_letter c \<or> upper_letter c \<or> ascii_digit c)
      in case s of [] \<Rightarrow> False
         | c # cs \<Rightarrow> alnum c \<and> list_all (\<lambda>c. alnum c \<or> c = CHR ''_'' \<or> c = CHR ''-'') cs \<and> 7 \<le> length cs \<and> length cs \<le> 127)"

definition ICON_NAME :: "string \<Rightarrow> bool" where
  "ICON_NAME s \<longleftrightarrow> list_all (\<lambda>part. part \<noteq> [] \<and> list_all (\<lambda>c. lower_letter c \<or> ascii_digit c) part) (split_on (CHR ''-'') s)"

definition text_of :: "json option \<Rightarrow> string option" where
  "text_of v = (case v of Some (JStr s) \<Rightarrow> Some s | _ \<Rightarrow> None)"

definition sanitizeHostname :: "json option \<Rightarrow> string option" where
  "sanitizeHostname v =
     (case text_of v of
        None \<Rightarrow> None
      | Some s \<Rightarrow>
          (let cleaned = take 64 (filter (\<lambda>c. lower_letter c \<or> upper_letter c \<or> ascii_digit c \<or> c = CHR ''_'' \<or> c = CHR ''.'' \<or> c = CHR ''-'') (trim s))
           in if cleaned = [] then None else Some cleaned))"

text \<open>\<open>None\<close> where \<open>ok\<close> is false.\<close>

definition parseClient :: "json option \<Rightarrow> string option option" where
  "parseClient v =
     (case v of
        None \<Rightarrow> Some None
      | Some JNull \<Rightarrow> Some None
      | Some (JStr s) \<Rightarrow> if s \<in> set SUPPORTED_CLIENTS then Some (Some s) else None
      | _ \<Rightarrow> None)"

definition parseAgentAdapterTarget :: "json option \<Rightarrow> (string \<times> string \<times> string option) option" where
  "parseAgentAdapterTarget v =
     (case (text_of (field ''kind'' v), text_of (field ''adapter'' v), text_of (field ''participantName'' v)) of
        (Some kind, Some adapter, Some name) \<Rightarrow>
          if kind = ''agent-adapter'' \<and> AGENT_ADAPTER_ID adapter \<and> trim name \<noteq> [] \<and> length (trim name) \<le> 100
          then (case field ''defaultSpaceId'' v of
                  None \<Rightarrow> Some (adapter, trim name, None)
                | Some (JStr s) \<Rightarrow> if trim s = [] then None else Some (adapter, trim name, Some (trim s))
                | _ \<Rightarrow> None)
          else None
      | _ \<Rightarrow> None)"

text \<open>\<open>None\<close> for \<open>false\<close>, \<open>Some None\<close> for \<open>undefined\<close>.\<close>

definition parseAccess :: "json option \<Rightarrow> agent_access option option" where
  "parseAccess v =
     (case v of
        None \<Rightarrow> Some None
      | Some w \<Rightarrow>
          (case (field ''threads'' v, field ''read'' v, field ''edit'' v) of
             (Some (JBool t), Some (JBool r), Some (JBool e)) \<Rightarrow> Some (Some \<lparr>threads = t, read_access = r, edit_access = e\<rparr>)
           | _ \<Rightarrow> None))"

definition bad_icon :: "json option \<Rightarrow> bool" where
  "bad_icon v =
     (case v of
        None \<Rightarrow> False
      | Some JNull \<Rightarrow> False
      | Some (JStr s) \<Rightarrow> length s > 64 \<or> \<not> ICON_NAME s
      | _ \<Rightarrow> True)"

text \<open>A code of more than white space.\<close>

definition code_of :: "json option \<Rightarrow> string option" where
  "code_of body = (case text_of (field ''code'' body) of Some s \<Rightarrow> if trim s = [] then None else Some s | None \<Rightarrow> None)"

text \<open>
  The first number from 2 whose name is free; the search tries as many as there are names taken, and one more.
\<close>

definition numbered_name :: "(string \<Rightarrow> string) \<Rightarrow> string list \<Rightarrow> string \<Rightarrow> string" where
  "numbered_name toLower taken name =
     (case List.find (\<lambda>n. toLower (name @ '' '' @ digits n) \<notin> set taken) [2..<length taken + 3] of
        Some n \<Rightarrow> name @ '' '' @ digits n
      | None \<Rightarrow> name)"

definition defaultAgentName :: "agent_env \<Rightarrow> agent_platform \<Rightarrow> string option \<Rightarrow> agent_world \<Rightarrow> string" where
  "defaultAgentName env platform machine w =
     (let name = pf_name (AGENT_PLATFORMS platform);
          taken = map (\<lambda>r. en_lower env (pt_name (fst r)))
                    (listParticipantBindings (en_root env) (listTokens (token_part w)) (people w))
      in if en_lower env name \<notin> set taken then name
         else (case (if nonempty machine then machine else None) of
                 Some m \<Rightarrow>
                   if en_lower env (name @ '' ('' @ m @ '')'') \<notin> set taken then name @ '' ('' @ m @ '')''
                   else numbered_name (en_lower env) taken name
               | None \<Rightarrow> numbered_name (en_lower env) taken name))"

section \<open>The owner's routes\<close>

text \<open>The adapter a body asks for, where it asks for one, checked against its scopes and access.\<close>

definition adapter_part ::
    "route_env \<Rightarrow> agent_access option \<Rightarrow> json option \<Rightarrow> refusal + (string \<times> string \<times> string option) option" where
  "adapter_part env access body =
     (case field ''target'' body of
        None \<Rightarrow> Inr None
      | Some t \<Rightarrow>
          (case parseAgentAdapterTarget (Some t) of
             None \<Rightarrow> Inl BAD_REQUEST
           | Some (adapter, name, space) \<Rightarrow>
               if (case space of Some i \<Rightarrow> \<not> rt_spaces env i | None \<Rightarrow> False) then Inl BAD_REQUEST
               else if field ''scopes'' body \<noteq> None then Inl BAD_REQUEST
               else if (case access of Some a \<Rightarrow> \<not> agent_access.threads a | None \<Rightarrow> False) then Inl BAD_REQUEST
               else Inr (Some (adapter, name, space))))"

definition asked_scopes :: "json option \<Rightarrow> string list option" where
  "asked_scopes v =
     (case v of
        Some (JArr xs) \<Rightarrow>
          if xs \<noteq> [] \<and> list_all (\<lambda>x. case text_of (Some x) of Some s \<Rightarrow> isValidScope s | None \<Rightarrow> False) xs
          then Some (map (\<lambda>x. the (text_of (Some x))) xs) else None
      | _ \<Rightarrow> None)"

definition scopes_part :: "agent_access option \<Rightarrow> bool \<Rightarrow> json option \<Rightarrow> refusal + string list" where
  "scopes_part access adapter body =
     (let scopes = (if adapter then scopesForAccess (case access of Some a \<Rightarrow> a | None \<Rightarrow> DEFAULT_AGENT_ACCESS)
                    else case access of Some a \<Rightarrow> scopesForAccess a | None \<Rightarrow> DEFAULT_AGENT_TOKEN_SCOPES)
      in if scopes = [] then Inl BAD_REQUEST
         else case field ''scopes'' body of
                None \<Rightarrow> Inr scopes
              | Some v \<Rightarrow>
                  (case asked_scopes (Some v) of
                     None \<Rightarrow> Inl BAD_REQUEST
                   | Some asked \<Rightarrow> if list_ex scopeGrantsOwnerPower asked then Inl BAD_REQUEST else Inr asked))"

definition name_part :: "bool \<Rightarrow> json option \<Rightarrow> refusal + string option" where
  "name_part adapter body =
     (if adapter then Inr None
      else case field ''displayName'' body of
             None \<Rightarrow> Inr None
           | Some (JStr s) \<Rightarrow> if trim s = [] \<or> length (trim s) > 100 then Inl BAD_REQUEST else Inr (Some (trim s))
           | Some _ \<Rightarrow> Inl BAD_REQUEST)"

definition pairing_request :: "route_env \<Rightarrow> json option \<Rightarrow> refusal + pairing_options" where
  "pairing_request env body =
     (let icon = text_of (field ''icon'' body)
      in if bad_icon (field ''icon'' body) then Inl BAD_REQUEST
         else case parseAccess (field ''access'' body) of
                None \<Rightarrow> Inl BAD_REQUEST
              | Some access \<Rightarrow>
                  if access \<noteq> None \<and> field ''scopes'' body \<noteq> None then Inl BAD_REQUEST
                  else if field ''client'' body \<noteq> None \<and> field ''target'' body \<noteq> None then Inl BAD_REQUEST
                  else (case adapter_part env access body of
                          Inl e \<Rightarrow> Inl e
                        | Inr adapter \<Rightarrow>
                            (case parseClient (if adapter \<noteq> None then Some JNull else field ''client'' body) of
                               None \<Rightarrow> Inl BAD_REQUEST
                             | Some client \<Rightarrow>
                                 (case name_part (adapter \<noteq> None) body of
                                    Inl e \<Rightarrow> Inl e
                                  | Inr name \<Rightarrow>
                                      (case scopes_part access (adapter \<noteq> None) body of
                                         Inl e \<Rightarrow> Inl e
                                       | Inr scopes \<Rightarrow>
                                           Inr \<lparr>po_client = client,
                                                po_target = Some (case adapter of
                                                    Some (a, n, space) \<Rightarrow> Pairing.AgentAdapter a n space icon
                                                  | None \<Rightarrow> Pairing.McpClient client name icon),
                                                po_scopes = scopes, po_mcpUrl = rt_mcpUrl env, po_ttlMs = None\<rparr>)))))"

definition ownerCreate ::
    "route_env \<Rightarrow> int \<Rightarrow> route_random \<Rightarrow> json option \<Rightarrow> route_state \<Rightarrow> (refusal + (string \<times> pairing_view)) \<times> route_state" where
  "ownerCreate env now random body st =
     (case pairing_request env body of
        Inl e \<Rightarrow> (Inl e, st)
      | Inr options \<Rightarrow>
          (case createPairingSession (rt_hash env) now (rr_session random) (rr_code random) options (pairings st) of
             (created, ps) \<Rightarrow> (Inr created, st\<lparr>pairings := ps\<rparr>)))"

definition ownerStatus :: "int \<Rightarrow> string \<Rightarrow> route_state \<Rightarrow> refusal + pairing_view" where
  "ownerStatus now i st = (case getPairingSession now i (pairings st) of Some v \<Rightarrow> Inr v | None \<Rightarrow> Inl (404, ''NOT_FOUND''))"

section \<open>The code's routes\<close>

text \<open>Why a code cannot be used any more: an unknown one counts as a failed presentation.\<close>

definition code_refused :: "int \<Rightarrow> pairing_failure \<Rightarrow> route_state \<Rightarrow> refusal \<times> route_state" where
  "code_refused now reason st =
     (if reason = Pairing.NotFound then ((404, ''INVALID_CODE''), recordCodeFailure now st)
      else ((410, if reason = WasExpired then ''EXPIRED'' else ''ALREADY_REDEEMED''), st))"

definition target_route :: "route_env \<Rightarrow> int \<Rightarrow> json option \<Rightarrow> route_state \<Rightarrow> (refusal + string option) \<times> route_state" where
  "target_route env now body =
     unless_locked now (\<lambda>st.
       case code_of body of
         None \<Rightarrow> (Inl BAD_REQUEST, st)
       | Some code \<Rightarrow>
           (case getPairingTarget (rt_hash env) now code (pairings st) of
              Inl reason \<Rightarrow> apfst Inl (code_refused now reason st)
            | Inr (client, t) \<Rightarrow> (Inr client, st)))"

record redeem_input =
  ri_code :: string
  ri_hostname :: "string option"
  ri_explicit :: "string option"
  ri_detected :: "string option"
  ri_all :: bool
  ri_overrides :: bool
  ri_installation :: string

definition redeem_request :: "json option \<Rightarrow> redeem_input option" where
  "redeem_request body =
     (case (code_of body, parseClient (field ''client'' body), parseClient (field ''detectedClient'' body)) of
        (Some code, Some explicit, Some detected) \<Rightarrow>
          (let all = (field ''all'' body = Some (JBool True))
           in Some \<lparr>ri_code = code, ri_hostname = sanitizeHostname (field ''hostname'' body), ri_explicit = explicit,
                    ri_detected = detected, ri_all = all,
                    ri_overrides = (field ''client'' body \<noteq> None \<or> field ''detectedClient'' body \<noteq> None \<or> all),
                    ri_installation = (case text_of (field ''installationId'' body) of Some s \<Rightarrow> trim s | None \<Rightarrow> [])\<rparr>)
      | _ \<Rightarrow> None)"

definition adapter_of :: "pairing_target \<Rightarrow> (string \<times> string \<times> string option \<times> string option) option" where
  "adapter_of t = (case t of Pairing.AgentAdapter a n space icon \<Rightarrow> Some (a, n, space, icon) | Pairing.McpClient c n icon \<Rightarrow> None)"

text \<open>What stops a redemption before the code is spent.\<close>

definition redeem_stopped ::
    "route_env \<Rightarrow> redeem_input \<Rightarrow> (string \<times> string \<times> string option \<times> string option) option \<Rightarrow> refusal option" where
  "redeem_stopped env input pending =
     (case pending of
        None \<Rightarrow> None
      | Some (a, n, space, icon) \<Rightarrow>
          if \<not> AGENT_ADAPTER_INSTALLATION_ID (ri_installation input) then Some BAD_REQUEST
          else if ri_overrides input then Some BAD_REQUEST
          else if (case space of Some i \<Rightarrow> i \<noteq> [] \<and> \<not> rt_spaces env i | None \<Rightarrow> False) then Some (409, ''PAIRING_TARGET_UNAVAILABLE'')
          else None)"

definition first_of :: "'a option \<Rightarrow> 'a option \<Rightarrow> 'a option" where
  "first_of a b = (case a of Some x \<Rightarrow> Some x | None \<Rightarrow> b)"

definition redeemer_for ::
    "redeem_input \<Rightarrow> pairing_failure + (string option \<times> pairing_target) \<Rightarrow> pairing_redeemer" where
  "redeemer_for input target =
     \<lparr>pr_hostname = ri_hostname input,
      pr_client = (if ri_all input then None
                   else first_of (ri_explicit input) (first_of (case target of Inr (c, t) \<Rightarrow> c | Inl e \<Rightarrow> None) (ri_detected input))),
      pr_installation = (if (case target of Inr (c, t) \<Rightarrow> adapter_of t \<noteq> None | Inl e \<Rightarrow> False) then Some (ri_installation input) else None),
      pr_all = ri_all input\<rparr>"

definition pairing_label :: "redeem_input \<Rightarrow> pairing_base \<Rightarrow> string" where
  "pairing_label input session =
     (case adapter_of (ps_target session) of
        Some (a, n, space, icon) \<Rightarrow> a @ ''@'' @ ri_installation input
      | None \<Rightarrow>
          (case if ri_all input then None else first_of (ri_explicit input) (first_of (requestedClient session) (ri_detected input)) of
             Some c \<Rightarrow> c | None \<Rightarrow> ''agent'')
          @ ''@'' @ (case ri_hostname input of Some h \<Rightarrow> h | None \<Rightarrow> ''unknown-'' @ take 6 (ps_id session)))"

record redeemed_reply =
  rd_mcpUrl :: string
  rd_token :: string
  rd_client :: "string option"
  rd_scopes :: "string list"
  rd_participantName :: "string option"
  rd_defaultSpace :: "string option"

definition adapter_naming :: "string \<Rightarrow> string option \<Rightarrow> participant_options" where
  "adapter_naming name space =
     \<lparr>po_name = None, po_initialName = Some name, po_defaultSpace = (case space of Some i \<Rightarrow> DefaultSpace i | None \<Rightarrow> DefaultNull),
      po_locationVersion = None\<rparr>"

definition set_tokens :: "token_store \<Rightarrow> route_state \<Rightarrow> route_state" where
  "set_tokens ts st = st\<lparr>agent_part := (agent_part st)\<lparr>token_part := ts\<rparr>\<rparr>"

text \<open>After the code is spent and the token minted: the token is attached and an adapter's participant found.\<close>

definition redeem_bind ::
    "route_env \<Rightarrow> int \<Rightarrow> route_random \<Rightarrow> redeem_input \<Rightarrow> pairing_base \<Rightarrow> string \<times> token_metadata \<Rightarrow> route_state
       \<Rightarrow> (refusal + redeemed_reply) \<times> route_state" where
  "redeem_bind env now random input session fresh st =
     (let attached = st\<lparr>pairings := attachPairingToken now (ps_id session) (md_id (snd fresh)) None (pairings st)\<rparr>;
          w = agent_part attached; e = rt_agents env;
          reply = (\<lambda>name. \<lparr>rd_mcpUrl = ps_mcpUrl session, rd_token = fst fresh,
             rd_client = (if ri_all input then None else first_of (ri_explicit input) (requestedClient session)),
             rd_scopes = ps_scopes session, rd_participantName = name,
             rd_defaultSpace = (case adapter_of (ps_target session) of Some (a, n, space, icon) \<Rightarrow> space | None \<Rightarrow> None)\<rparr>)
      in case adapter_of (ps_target session) of
           None \<Rightarrow> (Inr (reply None), attached)
         | Some (a, n, space, icon) \<Rightarrow>
             (case resolveParticipant (en_digest e) (en_lower e) now (rr_participant random) (rr_follows random) (snd fresh)
                     (adapter_naming n space) (people w) of
                (Inr r, ps) \<Rightarrow> (Inr (reply (Some (pt_name (fst r)))), attached\<lparr>agent_part := w\<lparr>people := ps\<rparr>\<rparr>)
              | (Inl problem, ps) \<Rightarrow>
                  (Inl (409, ''PARTICIPANT_SETUP_FAILED''),
                   attached\<lparr>agent_part := w\<lparr>people := ps, token_part := snd (revokeToken now (md_id (snd fresh)) (token_part w))\<rparr>,
                     pairings := snd (recordPairingProgress (rt_hash env) now (ri_code input) FailedNoConfig
                       (Some ''Worktable could not establish the adapter participant.'') (pairings attached))\<rparr>)))"

definition redeem_spend ::
    "route_env \<Rightarrow> int \<Rightarrow> route_random \<Rightarrow> redeem_input \<Rightarrow> pairing_base \<Rightarrow> route_state
       \<Rightarrow> (refusal + redeemed_reply) \<times> route_state" where
  "redeem_spend env now random input session st =
     (if adapter_of (ps_target session) \<noteq> None \<and> ri_overrides input
      then (Inl BAD_REQUEST,
            st\<lparr>pairings := snd (recordPairingProgress (rt_hash env) now (ri_code input) FailedNoConfig
                 (Some ''Agent-adapter pairing does not accept MCP client overrides.'') (pairings st))\<rparr>)
      else (case createToken (en_secretHash (rt_agents env)) (en_root (rt_agents env)) now (rr_token random)
                   \<lparr>op_scopes = ps_scopes session, op_agent = Some (pairing_label input session), op_user = None, op_workspace = None\<rparr>
                   (token_part (agent_part st)) of
              (Inl e, ts) \<Rightarrow> (Inl (500, ''''), set_tokens ts st)
            | (Inr fresh, ts) \<Rightarrow> redeem_bind env now random input session fresh (set_tokens ts st)))"

definition redeem_route ::
    "route_env \<Rightarrow> int \<Rightarrow> route_random \<Rightarrow> json option \<Rightarrow> route_state \<Rightarrow> (refusal + redeemed_reply) \<times> route_state" where
  "redeem_route env now random body =
     unless_locked now (\<lambda>st.
       case redeem_request body of
         None \<Rightarrow> (Inl BAD_REQUEST, st)
       | Some input \<Rightarrow>
           (let target = getPairingTarget (rt_hash env) now (ri_code input) (pairings st);
                pending = (case target of Inr (c, t) \<Rightarrow> adapter_of t | Inl e \<Rightarrow> None)
            in case redeem_stopped env input pending of
                 Some e \<Rightarrow> (Inl e, st)
               | None \<Rightarrow>
                   (case redeemPairingSession (rt_hash env) now (ri_code input) (redeemer_for input target) (pairings st) of
                      (Inl reason, ps) \<Rightarrow> apfst Inl (code_refused now reason (st\<lparr>pairings := ps\<rparr>))
                    | (Inr view, ps) \<Rightarrow> redeem_spend env now random input (fst view) (st\<lparr>pairings := ps\<rparr>))))"

text \<open>The bearer of an \<open>Authorization\<close> header, \<open>/^Bearer\\s+(.+)$/i\<close> on the trimmed header.\<close>

definition bearer_of :: "string option \<Rightarrow> string" where
  "bearer_of header =
     (let h = trim (case header of Some s \<Rightarrow> s | None \<Rightarrow> []); rest = drop 6 h
      in if map upper (take 6 h) = ''BEARER'' \<and> rest \<noteq> [] \<and> js_space (hd rest) then dropWhile js_space rest else [])"

text \<open>What completing a pairing does to the agents, before the session is marked; \<open>False\<close> where it throws.\<close>

definition settle_connection ::
    "route_env \<Rightarrow> int \<Rightarrow> token_metadata \<Rightarrow> (connection_error + bool) \<times> agent_world \<Rightarrow> bool \<times> agent_world" where
  "settle_connection env now t upserted =
     (case upserted of
        (Inl e, w) \<Rightarrow> (False, w)
      | (Inr False, w) \<Rightarrow> (True, w\<lparr>token_part := snd (revokeToken now (md_id t) (token_part w))\<rparr>)
      | (Inr True, w) \<Rightarrow> (True, w\<lparr>token_part := snd (finalizeAgentTokenRotation now (md_id t) (token_part w))\<rparr>))"

definition complete_adapter ::
    "route_env \<Rightarrow> int \<Rightarrow> route_random \<Rightarrow> token_metadata \<Rightarrow> pairing_base \<Rightarrow> string \<times> string \<times> string option \<times> string option
       \<Rightarrow> agent_world \<Rightarrow> bool \<times> agent_world" where
  "complete_adapter env now random t session adapter w =
     (case adapter of (a, n, space, icon) \<Rightarrow>
        (case Option.bind (redeemedBy session) pr_installation of
           None \<Rightarrow> (False, w)
         | Some installation \<Rightarrow>
             if installation = [] then (False, w)
             else (case resolveParticipant (en_digest (rt_agents env)) (en_lower (rt_agents env)) now (rr_participant random) (rr_follows random) t
                          (adapter_naming n space) (people w) of
                     (Inl e, ps) \<Rightarrow> (False, w\<lparr>people := ps\<rparr>)
                   | (Inr r, ps) \<Rightarrow>
                       settle_connection env now t
                         (upsertAgentConnection (rt_agents env) now (rr_participant random) (rr_follows random)
                            \<lparr>up_target = AgentPlatforms.AgentAdapter a installation None, up_mode = AlwaysOn, up_participant = Some (fst r),
                             up_machine = Option.bind (redeemedBy session) pr_hostname, up_credential = md_id t, up_displayName = None,
                             up_icon = (if nonempty icon then icon else None)\<rparr> (w\<lparr>people := ps\<rparr>)))))"

definition complete_client ::
    "route_env \<Rightarrow> int \<Rightarrow> route_random \<Rightarrow> token_metadata \<Rightarrow> pairing_base \<Rightarrow> string option \<Rightarrow> string option \<Rightarrow> agent_world \<Rightarrow> bool \<times> agent_world" where
  "complete_client env now random t session name icon w =
     (let redeemer = redeemedBy session;
          clientId = (if (case redeemer of Some r \<Rightarrow> pr_all r | None \<Rightarrow> False) then None
                      else first_of (Option.bind redeemer pr_client) (requestedClient session));
          machine = Option.bind redeemer pr_hostname;
          initial = (case name of Some n \<Rightarrow> n
                     | None \<Rightarrow> defaultAgentName (rt_agents env) (platformForClient (en_lower (rt_agents env)) clientId) machine w)
      in case resolveParticipant (en_digest (rt_agents env)) (en_lower (rt_agents env)) now (rr_participant random) (rr_follows random) t
                \<lparr>po_name = None, po_initialName = Some initial, po_defaultSpace = DefaultUnset, po_locationVersion = None\<rparr> (people w) of
           (Inl e, ps) \<Rightarrow> (False, w\<lparr>people := ps\<rparr>)
         | (Inr r, ps) \<Rightarrow>
             settle_connection env now t
               (upsertAgentConnection (rt_agents env) now (rr_participant random) (rr_follows random)
                  \<lparr>up_target = AgentPlatforms.McpClient clientId, up_mode = OnDemand, up_participant = Some (fst r), up_machine = machine,
                   up_credential = md_id t, up_displayName = name, up_icon = (if nonempty icon then icon else None)\<rparr>
                  (w\<lparr>people := ps\<rparr>)))"

definition pairing_commit ::
    "route_env \<Rightarrow> int \<Rightarrow> route_random \<Rightarrow> token_metadata \<Rightarrow> pairing_base \<Rightarrow> agent_world \<Rightarrow> bool \<times> agent_world" where
  "pairing_commit env now random t session w =
     (case ps_target session of
        Pairing.AgentAdapter a n space icon \<Rightarrow> complete_adapter env now random t session (a, n, space, icon) w
      | Pairing.McpClient c name icon \<Rightarrow> complete_client env now random t session name icon w)"

definition complete_refused :: "int \<Rightarrow> pairing_failure \<Rightarrow> route_state \<Rightarrow> refusal \<times> route_state" where
  "complete_refused now reason st =
     (case reason of
        Pairing.NotFound \<Rightarrow> ((404, ''INVALID_CODE''), recordCodeFailure now st)
      | NotRedeemed \<Rightarrow> ((409, ''NOT_REDEEMED''), st)
      | TokenMismatch \<Rightarrow> ((409, ''TOKEN_MISMATCH''), st)
      | CallbackThrew \<Rightarrow> ((500, ''''), st)
      | _ \<Rightarrow> ((409, ''ALREADY_FAILED''), st))"

text \<open>The session the commit is for, as the store hands it over.\<close>

definition session_of :: "route_env \<Rightarrow> int \<Rightarrow> string \<Rightarrow> sessions \<Rightarrow> pairing_base option" where
  "session_of env now code kept = map_option (fst \<circ> toView now) (findByCode (rt_hash env) (loadSessions now kept) code)"

definition complete_known ::
    "route_env \<Rightarrow> int \<Rightarrow> route_random \<Rightarrow> string \<Rightarrow> token_metadata \<Rightarrow> route_state \<Rightarrow> (refusal + unit) \<times> route_state" where
  "complete_known env now random code t st =
     (let committed = (\<lambda>session. pairing_commit env now random t session (agent_part st));
          (result, ps) = completePairingSession (rt_hash env) now code (md_id t) (\<lambda>v. fst (committed (fst v))) (pairings st);
          after = (case session_of env now code (pairings st) of
                     Some session \<Rightarrow> st\<lparr>pairings := ps, agent_part := snd (committed session)\<rparr>
                   | None \<Rightarrow> st\<lparr>pairings := ps\<rparr>)
      in case result of
           Inr view \<Rightarrow> (Inr (), after)
         | Inl CallbackThrew \<Rightarrow> apfst Inl (complete_refused now CallbackThrew after)
         | Inl reason \<Rightarrow> apfst Inl (complete_refused now reason (st\<lparr>pairings := ps\<rparr>)))"

definition complete_route ::
    "route_env \<Rightarrow> int \<Rightarrow> route_random \<Rightarrow> string option \<Rightarrow> json option \<Rightarrow> route_state \<Rightarrow> (refusal + unit) \<times> route_state" where
  "complete_route env now random authorization body st =
     (case code_of body of
        None \<Rightarrow> (Inl BAD_REQUEST, st)
      | Some code \<Rightarrow>
          (let raw = bearer_of authorization; e = rt_agents env
           in case tokenIdFromToken raw of
                None \<Rightarrow> (Inl (401, ''UNAUTHORIZED''), st)
              | Some i \<Rightarrow>
                  (case verifyToken (en_secretHash e) (en_root e) now (rr_saved random) raw (token_part (agent_part st)) of
                     (None, ts) \<Rightarrow> (Inl (401, ''UNAUTHORIZED''), set_tokens ts st)
                   | (Some idn, ts) \<Rightarrow>
                       (case List.find (\<lambda>t. md_id t = i) (listTokens ts) of
                          None \<Rightarrow> (Inl (409, ''PAIRING_CREDENTIAL_UNAVAILABLE''), set_tokens ts st)
                        | Some t \<Rightarrow> complete_known env now random code t (set_tokens ts st)))))"

definition progress_of :: "json option \<Rightarrow> progress option" where
  "progress_of v =
     (case text_of v of
        None \<Rightarrow> None
      | Some s \<Rightarrow> map_of [(''config_written'', ConfigWritten), (''verifying'', Verifying), (''failed'', Failed),
                         (''rolled_back'', RolledBack), (''failed_no_config'', FailedNoConfig)] s)"

text \<open>The token a report of failure revokes.\<close>

definition token_given_up :: "progress \<Rightarrow> pairing_base \<Rightarrow> string option" where
  "token_given_up event session =
     (if revokes event \<and> ps_outcome session \<noteq> Some OutcomeVerified \<and> nonempty (tokenId session)
         \<and> (event = RolledBack \<or> \<not> list_ex (\<lambda>e. pe_event e = ConfigWritten) (ps_events session))
      then tokenId session else None)"

definition progress_route :: "route_env \<Rightarrow> int \<Rightarrow> json option \<Rightarrow> route_state \<Rightarrow> (refusal + unit) \<times> route_state" where
  "progress_route env now body =
     unless_locked now (\<lambda>st.
       case (code_of body, progress_of (field ''event'' body), field ''detail'' body) of
         (Some code, Some event, detail) \<Rightarrow>
           if detail \<noteq> None \<and> text_of detail = None then (Inl BAD_REQUEST, st)
           else (case recordPairingProgress (rt_hash env) now code event (text_of detail) (pairings st) of
                   (Inl reason, ps) \<Rightarrow>
                     (if reason = Pairing.NotFound then (Inl (404, ''INVALID_CODE''), recordCodeFailure now (st\<lparr>pairings := ps\<rparr>))
                      else (Inl (409, ''NOT_REDEEMED''), st\<lparr>pairings := ps\<rparr>))
                 | (Inr view, ps) \<Rightarrow>
                     (Inr (), case token_given_up event (fst view) of
                                None \<Rightarrow> st\<lparr>pairings := ps\<rparr>
                              | Some i \<Rightarrow> set_tokens (snd (revokeToken now i (token_part (agent_part st)))) (st\<lparr>pairings := ps\<rparr>)))
       | _ \<Rightarrow> (Inl BAD_REQUEST, st))"

section \<open>Asking to connect\<close>

record request_headers =
  hd_origin :: "string option"
  hd_contentType :: "string option"

definition agentRequestOnly :: "(string \<Rightarrow> string) \<Rightarrow> request_headers \<Rightarrow> refusal option" where
  "agentRequestOnly toLower headers =
     (if hd_origin headers \<noteq> None then Some (403, ''FORBIDDEN'')
      else if map_option (\<lambda>s. toLower (trim (takeWhile (\<lambda>c. c \<noteq> CHR '';'') s))) (hd_contentType headers) = Some ''application/json'' then None
      else Some (415, ''JSON_REQUIRED''))"

definition parseRequestTarget :: "json option \<Rightarrow> request_target option" where
  "parseRequestTarget v =
     (if text_of (field ''kind'' v) = Some ''agent-adapter''
      then (case (text_of (field ''adapter'' v), text_of (field ''installationId'' v)) of
              (Some a, Some i) \<Rightarrow> if AGENT_ADAPTER_ID a \<and> AGENT_ADAPTER_INSTALLATION_ID i then Some (AdapterTarget a i) else None
            | _ \<Rightarrow> None)
      else if text_of (field ''kind'' v) = Some ''mcp-client'' then map_option ClientTarget (parseClient (field ''client'' v))
      else None)"

definition request_route ::
    "route_env \<Rightarrow> int \<Rightarrow> route_random \<Rightarrow> request_headers \<Rightarrow> string option \<Rightarrow> json option \<Rightarrow> route_state
       \<Rightarrow> (refusal + (string \<times> string \<times> int)) \<times> route_state" where
  "request_route env now random headers source body st =
     (case agentRequestOnly (en_lower (rt_agents env)) headers of
        Some e \<Rightarrow> (Inl e, st)
      | None \<Rightarrow>
          unless_locked now (\<lambda>st.
            case parseRequestTarget (field ''target'' body) of
              None \<Rightarrow> (Inl BAD_REQUEST, st)
            | Some t \<Rightarrow>
                (let name = (case text_of (field ''name'' body) of Some s \<Rightarrow> take 100 (trim s) | None \<Rightarrow> [])
                 in case createConnectionRequest (rt_hash env) now
                           \<lparr>in_target = t, in_hostname = sanitizeHostname (field ''hostname'' body),
                            in_suggestedName = (if name = [] then None else Some name), in_source = source\<rparr>
                           (rr_user random) (rr_poll random) (asking st) of
                      (Inl e, rs) \<Rightarrow> (Inl (429, ''RATE_LIMITED''), st\<lparr>asking := rs\<rparr>)
                    | (Inr created, rs) \<Rightarrow> (Inr created, st\<lparr>asking := rs\<rparr>))) st)"

definition approved_options :: "route_env \<Rightarrow> request_target \<Rightarrow> approval \<Rightarrow> pairing_options" where
  "approved_options env t a =
     (let icon = (if nonempty (ap_icon a) then ap_icon a else None)
      in \<lparr>po_client = (case t of ClientTarget c \<Rightarrow> c | AdapterTarget x i \<Rightarrow> None),
          po_target = Some (case t of AdapterTarget x i \<Rightarrow> Pairing.AgentAdapter x (approval.displayName a) None icon
                            | ClientTarget c \<Rightarrow> Pairing.McpClient c (Some (approval.displayName a)) icon),
          po_scopes = scopesForAccess (ap_access a), po_mcpUrl = rt_mcpUrl env, po_ttlMs = None\<rparr>)"

definition poll_route ::
    "route_env \<Rightarrow> int \<Rightarrow> route_random \<Rightarrow> request_headers \<Rightarrow> json option \<Rightarrow> route_state \<Rightarrow> (refusal + request_poll) \<times> route_state" where
  "poll_route env now random headers body st =
     (case agentRequestOnly (en_lower (rt_agents env)) headers of
        Some e \<Rightarrow> (Inl e, st)
      | None \<Rightarrow>
          (case text_of (field ''pollToken'' body) of
             None \<Rightarrow> (Inl BAD_REQUEST, st)
           | Some token \<Rightarrow>
               if token = [] then (Inl BAD_REQUEST, st)
               else (case pollConnectionRequest (rt_hash env) now token
                            (\<lambda>t a ps. case createPairingSession (rt_hash env) now (rr_session random) (rr_code random) (approved_options env t a) ps of
                                        ((code, view), ps') \<Rightarrow> (Some code, ps'))
                            (asking st) (pairings st) of
                       (Inl e, rs, ps) \<Rightarrow> (Inl (500, ''''), st\<lparr>asking := rs, pairings := ps\<rparr>)
                     | (Inr None, rs, ps) \<Rightarrow> (Inl (404, ''NOT_FOUND''), recordCodeFailure now (st\<lparr>asking := rs, pairings := ps\<rparr>))
                     | (Inr (Some p), rs, ps) \<Rightarrow> (Inr p, st\<lparr>asking := rs, pairings := ps\<rparr>))))"

definition ownerRequest :: "route_env \<Rightarrow> int \<Rightarrow> string \<Rightarrow> route_state \<Rightarrow> refusal + request_view" where
  "ownerRequest env now code st =
     (case getConnectionRequest (rt_hash env) now code (asking st) of Some v \<Rightarrow> Inr v | None \<Rightarrow> Inl (404, ''NOT_FOUND''))"

definition approval_request :: "json option \<Rightarrow> approval option" where
  "approval_request body =
     (case (text_of (field ''displayName'' body), parseAccess (field ''access'' body)) of
        (Some s, Some (Some access)) \<Rightarrow>
          if trim s = [] \<or> length (trim s) > 100 \<or> bad_icon (field ''icon'' body) \<or> scopesForAccess access = [] then None
          else Some \<lparr>teamMemberId = None, displayName = trim s, ap_icon = text_of (field ''icon'' body), ap_access = access\<rparr>
      | _ \<Rightarrow> None)"

definition ownerApprove ::
    "route_env \<Rightarrow> int \<Rightarrow> string \<Rightarrow> json option \<Rightarrow> route_state \<Rightarrow> (refusal + unit) \<times> route_state" where
  "ownerApprove env now code body st =
     (case approval_request body of
        None \<Rightarrow> (Inl BAD_REQUEST, st)
      | Some a \<Rightarrow>
          if (case getConnectionRequest (rt_hash env) now code (asking st) of
                Some v \<Rightarrow> (case vw_target v of AdapterTarget x i \<Rightarrow> \<not> agent_access.threads (ap_access a) | ClientTarget c \<Rightarrow> False)
              | None \<Rightarrow> False)
          then (Inl BAD_REQUEST, st)
          else (case settleConnectionRequest (rt_hash env) now code (Some a) (asking st) of
                  (None, rs) \<Rightarrow> (Inl (404, ''NOT_FOUND''), st\<lparr>asking := rs\<rparr>)
                | (Some v, rs) \<Rightarrow> (Inr (), st\<lparr>asking := rs\<rparr>)))"

definition ownerDeny :: "route_env \<Rightarrow> int \<Rightarrow> string \<Rightarrow> route_state \<Rightarrow> (refusal + unit) \<times> route_state" where
  "ownerDeny env now code st =
     (case settleConnectionRequest (rt_hash env) now code None (asking st) of
        (None, rs) \<Rightarrow> (Inl (404, ''NOT_FOUND''), st\<lparr>asking := rs\<rparr>)
      | (Some v, rs) \<Rightarrow> (Inr (), st\<lparr>asking := rs\<rparr>))"

end
