(* ===== verification/PairingSafety.thy ===== *)
theory PairingSafety
  imports PairingRoutes
begin

text \<open>
  What pairing can give away: in every run of the routes of theory \<open>PairingRoutes\<close> a bearer that was not
  there before carries exactly the scopes some call of the owner gave, and never the power to manage tokens.
\<close>

section \<open>Calls\<close>

datatype route_call =
    OwnerCreate "json option"
  | OwnerApprove string "json option"
  | OwnerDeny string
  | TargetCall "json option"
  | RedeemCall "json option"
  | CompleteCall "string option" "json option"
  | ProgressCall "json option"
  | RequestCall request_headers "string option" "json option"
  | PollCall request_headers "json option"

fun route_step :: "route_env \<Rightarrow> (int \<times> route_random) \<times> route_call \<Rightarrow> route_state \<Rightarrow> route_state" where
  "route_step env ((now, random), OwnerCreate body) st = snd (ownerCreate env now random body st)"
| "route_step env ((now, random), OwnerApprove code body) st = snd (ownerApprove env now code body st)"
| "route_step env ((now, random), OwnerDeny code) st = snd (ownerDeny env now code st)"
| "route_step env ((now, random), TargetCall body) st = snd (target_route env now body st)"
| "route_step env ((now, random), RedeemCall body) st = snd (redeem_route env now random body st)"
| "route_step env ((now, random), CompleteCall auth body) st = snd (complete_route env now random auth body st)"
| "route_step env ((now, random), ProgressCall body) st = snd (progress_route env now body st)"
| "route_step env ((now, random), RequestCall headers source body) st = snd (request_route env now random headers source body st)"
| "route_step env ((now, random), PollCall headers body) st = snd (poll_route env now random headers body st)"

text \<open>The scopes the owner's calls give: those a pairing is made with, and those of an access approved.\<close>

fun owner_given :: "route_env \<Rightarrow> ((int \<times> route_random) \<times> route_call) list \<Rightarrow> string list list" where
  "owner_given env [] = []"
| "owner_given env ((_, OwnerCreate body) # cs) =
     (case pairing_request env body of Inr options \<Rightarrow> [po_scopes options] | Inl e \<Rightarrow> []) @ owner_given env cs"
| "owner_given env ((_, OwnerApprove code body) # cs) =
     (case approval_request body of Some a \<Rightarrow> [scopesForAccess (ap_access a)] | None \<Rightarrow> []) @ owner_given env cs"
| "owner_given env (c # cs) = owner_given env cs"

lemma owner_given_Cons: "owner_given env (c # cs) = owner_given env [c] @ owner_given env cs"
  by (cases "(env, [c])" rule: owner_given.cases) auto

section \<open>What each part holds\<close>

definition session_scopes :: "sessions \<Rightarrow> string list set" where
  "session_scopes ps = ps_scopes ` set ps"

definition request_scopes :: "request_state \<Rightarrow> string list set" where
  "request_scopes rs = {scopesForAccess (ap_access a) | a r. r \<in> set (stored rs) \<and> rq_approval r = Some a}"

definition tokens_from :: "string list set \<Rightarrow> stored_token list \<Rightarrow> stored_token list \<Rightarrow> bool" where
  "tokens_from G old ts \<longleftrightarrow> (\<exists>kept new. ts = kept @ new \<and> list_all2 (later {}) old kept \<and> (\<forall>t \<in> set new. tk_scopes t \<in> G))"

lemma tokens_from_refl: "tokens_from G ts ts"
proof -
  have "ts = ts @ [] \<and> list_all2 (later {}) ts ts \<and> (\<forall>t \<in> set []. tk_scopes t \<in> G)" by (simp add: list_all2_same)
  then show ?thesis unfolding tokens_from_def by blast
qed

lemma tokens_from_mono: "tokens_from G old ts \<Longrightarrow> G \<subseteq> G' \<Longrightarrow> tokens_from G' old ts"
  unfolding tokens_from_def by blast

lemma tokens_from_later:
  assumes "tokens_from G old ts" "list_all2 (later {}) ts us"
  shows "tokens_from G old us"
proof -
  obtain kept new where ts: "ts = kept @ new" "list_all2 (later {}) old kept" "\<forall>t \<in> set new. tk_scopes t \<in> G"
    using assms(1) by (auto simp: tokens_from_def)
  obtain a b where us: "us = a @ b" "list_all2 (later {}) kept a" "list_all2 (later {}) new b"
    using assms(2) ts(1) by (auto simp: list_all2_append1)
  have "list_all2 (later {}) old a" using list_all2_trans [of "later {}" "later {}" "later {}"] later_trans ts(2) us(2) by blast
  moreover have "\<forall>t \<in> set b. tk_scopes t \<in> G"
  proof
    fix t
    assume "t \<in> set b"
    then obtain k where "k < length b" "t = b ! k" by (auto simp: in_set_conv_nth)
    with us(3) have "later {} (new ! k) t" "k < length new" by (auto simp: list_all2_conv_all_nth)
    with ts(3) show "tk_scopes t \<in> G" by (auto simp: later_def)
  qed
  ultimately show ?thesis using us(1) by (auto simp: tokens_from_def)
qed

lemma tokens_from_append: "tokens_from G old ts \<Longrightarrow> tk_scopes t \<in> G \<Longrightarrow> tokens_from G old (ts @ [t])"
proof -
  assume "tokens_from G old ts" "tk_scopes t \<in> G"
  then obtain kept new where "ts @ [t] = kept @ (new @ [t])" "list_all2 (later {}) old kept" "\<forall>t \<in> set (new @ [t]). tk_scopes t \<in> G"
    by (auto simp: tokens_from_def)
  then show ?thesis unfolding tokens_from_def by blast
qed

section \<open>What the stores do\<close>

lemma load_scopes: "session_scopes (loadSessions now ps) \<subseteq> session_scopes ps"
  using load_subset by (auto simp: session_scopes_def)

lemma update_scopes:
  assumes "\<And>s. ps_scopes (f s) = ps_scopes s"
  shows "session_scopes (update_by_code hash code f ps) \<subseteq> session_scopes ps" "session_scopes (update_first P f ps) \<subseteq> session_scopes ps"
  using assms update_last_set [of "\<lambda>s. codeHash s = hashCode hash (normalizePairingCode code)" f ps] update_first_set [of P f ps]
  by (auto simp: session_scopes_def update_by_code_def image_iff dest!: subsetD)

lemma same_scopes [simp]:
  "ps_scopes (redeem_session now who s) = ps_scopes s" "ps_scopes (attach_token t b s) = ps_scopes s"
  "ps_scopes (complete_session now s) = ps_scopes s" "ps_scopes (progress_session now e d s) = ps_scopes s"
  by (simp_all add: redeem_session_def attach_token_def complete_session_def progress_session_def Let_def)

lemma session_scopes_kept:
  "session_scopes (snd (redeemPairingSession hash now code who ps)) \<subseteq> session_scopes ps"
  "session_scopes (attachPairingToken now sid t b ps) \<subseteq> session_scopes ps"
  "session_scopes (snd (completePairingSession hash now code t ok ps)) \<subseteq> session_scopes ps"
  "session_scopes (snd (recordPairingProgress hash now code event detail ps)) \<subseteq> session_scopes ps"
  using load_scopes [of now ps] update_scopes(1) [of "redeem_session now who" hash code "loadSessions now ps"]
    update_scopes(2) [of "attach_token t b" "\<lambda>s. ps_id s = sid" "loadSessions now ps"]
    update_scopes(1) [of "complete_session now" hash code "loadSessions now ps"]
    update_scopes(1) [of "progress_session now event detail" hash code "loadSessions now ps"]
  by (auto simp: redeemPairingSession_def attachPairingToken_def completePairingSession_def recordPairingProgress_def Let_def
      split: option.splits)

lemma created_scopes:
  "session_scopes (snd (createPairingSession hash now sid bytes options ps)) \<subseteq> insert (po_scopes options) (session_scopes ps)"
  using load_scopes [of now ps] by (auto simp: createPairingSession_def Let_def session_scopes_def new_session_def)

lemma redeemed_scopes:
  "fst (redeemPairingSession hash now code who ps) = Inr view \<Longrightarrow> ps_scopes (fst view) \<in> session_scopes ps"
  using load_subset [of now ps] findByCode_Some [of hash "loadSessions now ps" code]
  by (fastforce simp: redeemPairingSession_def Let_def toView_def session_scopes_def redeem_session_def pairing_base.defs
      split: option.splits if_splits)

lemma later_revoked: "list_all2 (later {}) (tokens ts) (tokens (snd (revokeToken now i ts)))"
  by (auto simp: revokeToken_def list_all2_same intro!: update_found_later split: option.split)

lemma later_finalized: "list_all2 (later {}) (tokens ts) (tokens (snd (finalizeAgentTokenRotation now i ts)))"
proof -
  have "grown {} (tokens ts) (tokens (snd (finalizeAgentTokenRotation now i ts)))"
    using token_step_grows [of "((''/w'', now), FinalizeRotations [i] [] None)" ts] by (simp add: finalizeAgentTokenRotation_def)
  moreover have "length (tokens (snd (finalizeAgentTokenRotation now i ts))) = length (tokens ts)"
    by (simp add: finalizeAgentTokenRotation_def finalizeAgentTokenRotations_def Let_def)
  ultimately obtain kept new where kept: "tokens (snd (finalizeAgentTokenRotation now i ts)) = kept @ new"
      "list_all2 (later {}) (tokens ts) kept" "length (kept @ new) = length (tokens ts)"
    unfolding grown_def by metis
  then have "new = []" using list_all2_lengthD [OF kept(2)] by simp
  with kept show ?thesis by simp
qed

lemma later_same: "list_all2 (later {}) ts ts"
  by (simp add: list_all2_same)

lemma later_chain: "list_all2 (later {}) ts us \<Longrightarrow> list_all2 (later {}) us vs \<Longrightarrow> list_all2 (later {}) ts vs"
  using list_all2_trans [of "later {}" "later {}" "later {}"] later_trans by blast

lemma upsert_later: "list_all2 (later {}) (tokens (token_part w)) (tokens (token_part (snd (upsertAgentConnection env now random follows input w))))"
proof -
  have "token_part (snd (apfst g (rename_participant env now random follows t name u))) = token_part u" for g name u and t :: token_metadata
    using rename_keeps_tokens [of env now random follows t name u] by (cases "rename_participant env now random follows t name u") auto
  then show ?thesis
    by (auto simp: upsertAgentConnection_def Let_def later_same later_revoked split: option.split)
qed

lemma commit_later: "list_all2 (later {}) (tokens (token_part w)) (tokens (token_part (snd (pairing_commit env now random t session w))))"
proof -
  have settle: "list_all2 (later {}) (tokens (token_part w))
      (tokens (token_part (snd (settle_connection env now t (upsertAgentConnection e n r f input w)))))" for e n r f input w
    using upsert_later [of w e n r f input] later_chain later_revoked later_finalized
    by (cases "upsertAgentConnection e n r f input w") (auto simp: settle_connection_def split: sum.split bool.split)
  show ?thesis
    using settle [of "w\<lparr>people := _\<rparr>"]
    by (auto simp: pairing_commit_def complete_adapter_def complete_client_def Let_def later_same
        split: pairing_target.split option.split prod.split sum.split)
qed

section \<open>Every route keeps what was given\<close>

definition route_sound :: "string list set \<Rightarrow> stored_token list \<Rightarrow> route_state \<Rightarrow> bool" where
  "route_sound G old st \<longleftrightarrow>
     session_scopes (pairings st) \<subseteq> G \<and> request_scopes (asking st) \<subseteq> G \<and> tokens_from G old (tokens (token_part (agent_part st)))"

lemma route_sound_mono: "route_sound G old st \<Longrightarrow> G \<subseteq> G' \<Longrightarrow> route_sound G' old st"
  unfolding route_sound_def using tokens_from_mono by blast

lemma sound_failures [simp]: "route_sound G old (st\<lparr>codeFailures := fs\<rparr>) = route_sound G old st"
  "route_sound G old (recordCodeFailure now st) = route_sound G old st"
  by (simp_all add: route_sound_def recordCodeFailure_def)

lemma sound_refused [simp]: "route_sound G old (snd (code_refused now reason st)) = route_sound G old st"
  "route_sound G old (snd (complete_refused now reason st)) = route_sound G old st"
  by (simp_all add: code_refused_def complete_refused_def split: pairing_failure.split)

lemma unless_locked_sound:
  assumes "\<And>st. route_sound G old st \<Longrightarrow> route_sound G old (snd (run st))" "route_sound G old st"
  shows "route_sound G old (snd (unless_locked now run st))"
  using assms by (simp add: unless_locked_def codeSurfaceLocked_def Let_def split: bool.split)

lemma requests_loaded: "request_scopes (rs\<lparr>stored := loadRequests now rs\<rparr>) \<subseteq> request_scopes rs"
  by (auto simp: request_scopes_def loadRequests_def)

lemma created_request_scopes: "request_scopes (snd (createConnectionRequest hash now i bytes token rs)) \<subseteq> request_scopes rs"
  by (auto simp: createConnectionRequest_def Let_def request_scopes_def loadRequests_def new_request_def)

lemma settled_scopes:
  "request_scopes (snd (settleConnectionRequest hash now code a rs)) \<subseteq>
     request_scopes rs \<union> (case a of Some ap \<Rightarrow> {scopesForAccess (ap_access ap)} | None \<Rightarrow> {})"
proof -
  let ?P = "\<lambda>r. userCodeHash r = hash (normalizePairingCode code)"
  let ?rs = "rs\<lparr>stored := update_last ?P (settled_request a) (loadRequests now rs)\<rparr>"
  have "request_scopes ?rs \<subseteq> request_scopes rs \<union> (case a of Some ap \<Rightarrow> {scopesForAccess (ap_access ap)} | None \<Rightarrow> {})"
  proof
    fix x
    assume "x \<in> request_scopes ?rs"
    then obtain r ap where r: "r \<in> set (update_last ?P (settled_request a) (loadRequests now rs))" "rq_approval r = Some ap"
        "x = scopesForAccess (ap_access ap)"
      by (auto simp: request_scopes_def)
    from r(1) update_last_set [of ?P "settled_request a" "loadRequests now rs"]
    consider "r \<in> set (stored rs)" | r' where "r' \<in> set (stored rs)" "r = settled_request a r'"
      by (auto simp: loadRequests_def)
    then show "x \<in> request_scopes rs \<union> (case a of Some ap \<Rightarrow> {scopesForAccess (ap_access ap)} | None \<Rightarrow> {})"
      using r(2,3) by cases (auto simp: request_scopes_def settled_request_def split: option.splits)
  qed
  then show ?thesis by (auto simp: settleConnectionRequest_def Let_def split: option.split)
qed

lemma polled_scopes:
  assumes "\<And>t a ps. session_scopes (snd (create t a ps)) \<subseteq> insert (scopesForAccess (ap_access a)) (session_scopes ps)"
    and "pollConnectionRequest hash now token create rs ps = (res, rs', ps')"
  shows "request_scopes rs' \<subseteq> request_scopes rs" "session_scopes ps' \<subseteq> session_scopes ps \<union> request_scopes rs"
proof -
  have delivered: "request_scopes (rs\<lparr>stored := update_first P (\<lambda>r. r\<lparr>rq_status := x\<rparr>) (loadRequests now rs), deliveredCodes := d\<rparr>) \<subseteq> request_scopes rs" for P x d
    using update_first_set [of P "\<lambda>r. r\<lparr>rq_status := x\<rparr>" "loadRequests now rs"]
    by (fastforce simp: request_scopes_def loadRequests_def)
  have dropped: "drop_delivered now rs = rs\<lparr>deliveredCodes := deliveredCodes (drop_delivered now rs)\<rparr>"
    by (simp add: drop_delivered_def)
  have same: "request_scopes (rs\<lparr>deliveredCodes := d\<rparr>) = request_scopes rs" for d by (simp add: request_scopes_def)
  show "request_scopes rs' \<subseteq> request_scopes rs"
    using assms(2) delivered same unfolding pollConnectionRequest_def Let_def drop_delivered_def
    by (auto split: option.splits if_splits prod.splits)
  have approved: "scopesForAccess (ap_access a) \<in> request_scopes rs"
    if "List.find (\<lambda>r. pollTokenHash r = hash token) (loadRequests now rs) = Some r" "rq_approval r = Some a" for r a
  proof -
    have "r \<in> set (stored rs)" using find_Some_member [OF that(1)] by (simp add: loadRequests_def)
    with that(2) show ?thesis unfolding request_scopes_def by blast
  qed
  show "session_scopes ps' \<subseteq> session_scopes ps \<union> request_scopes rs"
  proof -
    have "ps' = ps \<or> (\<exists>r a. List.find (\<lambda>r. pollTokenHash r = hash token) (loadRequests now rs) = Some r
        \<and> rq_approval r = Some a \<and> ps' = snd (create (rq_target r) a ps))"
      using assms(2) unfolding pollConnectionRequest_def Let_def by (auto split: option.splits if_splits prod.splits)
    then show ?thesis using approved assms(1) by blast
  qed
qed

lemma tokens_set [simp]: "pairings (set_tokens ts st) = pairings st" "asking (set_tokens ts st) = asking st"
  "token_part (agent_part (set_tokens ts st)) = ts"
  by (simp_all add: set_tokens_def)

lemma progress_sound:
  assumes "route_sound G old st"
  shows "route_sound G old (snd (progress_route env now body st))"
  unfolding progress_route_def
proof (rule unless_locked_sound [OF _ assms])
  fix st
  assume st: "route_sound G old st"
  have revoked: "tokens_from G old (tokens (snd (revokeToken now i (token_part (agent_part st)))))" for i
    using st tokens_from_later later_revoked unfolding route_sound_def by blast
  have recorded: "session_scopes ps \<subseteq> G" if "recordPairingProgress (rt_hash env) now code event detail (pairings st) = (res, ps)" for code event detail res ps
    using session_scopes_kept(4) [of "rt_hash env" now code event detail "pairings st"] that st by (auto simp: route_sound_def)
  show "route_sound G old (snd (case (code_of body, progress_of (field ''event'' body), field ''detail'' body) of
         (Some code, Some event, detail) \<Rightarrow>
           if detail \<noteq> None \<and> text_of detail = None then (Inl BAD_REQUEST, st)
           else (case recordPairingProgress (rt_hash env) now code event (text_of detail) (pairings st) of
                   (Inl reason, ps) \<Rightarrow>
                     (if reason = Pairing.NotFound then (Inl (404, ''INVALID_CODE''), recordCodeFailure now (st\<lparr>pairings := ps\<rparr>))
                      else (Inl (409, ''NOT_REDEEMED''), st\<lparr>pairings := ps\<rparr>))
                 | (Inr view, ps) \<Rightarrow>
                     (Inr (), case token_given_up event (fst view) of
                                None \<Rightarrow> st\<lparr>pairings := ps\<rparr>
                              | Some i \<Rightarrow> set_tokens (snd (revokeToken now i (token_part (agent_part st)))) (st\<lparr>pairings := ps\<rparr>)))
       | _ \<Rightarrow> (Inl BAD_REQUEST, st)))"
    using st revoked
    by (auto simp: route_sound_def recordCodeFailure_def dest: recorded [THEN subsetD] split: option.splits prod.splits sum.splits)
qed

lemma complete_sound:
  assumes "route_sound G old st"
  shows "route_sound G old (snd (complete_route env now random auth body st))"
proof -
  have known: "route_sound G old (snd (complete_known env now random code t st'))" if "route_sound G old st'" for code t st'
  proof -
    have "tokens_from G old (tokens (token_part (snd (pairing_commit env now random t session (agent_part st')))))" for session
      using that tokens_from_later commit_later unfolding route_sound_def by blast
    moreover have "session_scopes ps \<subseteq> G" if "completePairingSession (rt_hash env) now code i ok (pairings st') = (res, ps)" for i ok res ps
      using session_scopes_kept(3) [of "rt_hash env" now code i ok "pairings st'"] that \<open>route_sound G old st'\<close> by (auto simp: route_sound_def)
    ultimately show ?thesis
      using that by (auto simp: complete_known_def Let_def route_sound_def complete_refused_def recordCodeFailure_def
          split: prod.splits sum.splits option.splits pairing_failure.splits)
  qed
  have same: "route_sound G old (set_tokens ts st)" if "tokens ts = tokens (token_part (agent_part st))" for ts
    using assms that by (simp add: route_sound_def)
  have verified: "tokens ts = tokens (token_part (agent_part st))"
    if "verifyToken h ws now saved raw (token_part (agent_part st)) = (res, ts)" for h ws saved raw res ts
    using tokens_verify [of h ws now saved raw "token_part (agent_part st)"] that by simp
  show ?thesis
    using assms known same verified by (auto simp: complete_route_def Let_def split: option.splits prod.splits)
qed

lemma bind_sound:
  assumes "route_sound G old st"
  shows "route_sound G old (snd (redeem_bind env now random input session fresh st))"
proof -
  have attached: "session_scopes (attachPairingToken now i t None (pairings st)) \<subseteq> G" for i t
    using session_scopes_kept(2) [of now i t None "pairings st"] assms by (auto simp: route_sound_def)
  have failed: "session_scopes (snd (recordPairingProgress h now c FailedNoConfig d (attachPairingToken now i t None (pairings st)))) \<subseteq> G" for h c d i t
    using session_scopes_kept(4) attached by blast
  have revoked: "tokens_from G old (tokens (snd (revokeToken now i (token_part (agent_part st)))))" for i
    using assms tokens_from_later later_revoked unfolding route_sound_def by blast
  show ?thesis
    using assms attached failed revoked by (simp add: redeem_bind_def Let_def route_sound_def split: option.split prod.split sum.split)
qed

lemma created_from:
  assumes "tokens_from G old (tokens ts)" "op_scopes options \<in> G"
  shows "tokens_from G old (tokens (snd (createToken hash ws now random options ts)))"
  using assms by (auto simp: createToken_def mintTokenLocked_def Let_def minted_def intro!: tokens_from_append split: option.split)

lemma spend_sound:
  assumes "route_sound G old st" "ps_scopes session \<in> G"
  shows "route_sound G old (snd (redeem_spend env now random input session st))"
proof -
  have refused: "session_scopes (snd (recordPairingProgress h now c FailedNoConfig d (pairings st))) \<subseteq> G" for h c d
    using session_scopes_kept(4) assms(1) unfolding route_sound_def by blast
  have minting: "route_sound G old (set_tokens ts st)"
    if "createToken h ws now rnd \<lparr>op_scopes = ps_scopes session, op_agent = a, op_user = None, op_workspace = None\<rparr> (token_part (agent_part st)) = (res, ts)"
    for h ws rnd a res ts
    using created_from [of G old "token_part (agent_part st)" "\<lparr>op_scopes = ps_scopes session, op_agent = a, op_user = None, op_workspace = None\<rparr>" h ws now rnd]
      that assms by (simp add: route_sound_def)
  have stopped: "route_sound G old (st\<lparr>pairings := snd (recordPairingProgress h now c FailedNoConfig d (pairings st))\<rparr>)" for h c d
    using refused assms(1) by (simp add: route_sound_def)
  show ?thesis
    unfolding redeem_spend_def
    by (auto intro!: bind_sound intro: minting stopped split: prod.split sum.split)
qed

lemma redeem_sound:
  assumes "route_sound G old st"
  shows "route_sound G old (snd (redeem_route env now random body st))"
  unfolding redeem_route_def
proof (rule unless_locked_sound [OF _ assms])
  fix st
  assume st: "route_sound G old st"
  have spent: "route_sound G old (st\<lparr>pairings := ps\<rparr>)" if "redeemPairingSession h now code who (pairings st) = (res, ps)" for h code who res ps
    using session_scopes_kept(1) [of h now code who "pairings st"] that st by (auto simp: route_sound_def)
  have given: "ps_scopes base \<in> G" if "redeemPairingSession h now code who (pairings st) = (Inr (base, status), ps)" for h code who base status ps
    using redeemed_scopes [of h now code who "pairings st" "(base, status)"] that st by (auto simp: route_sound_def)
  show "route_sound G old (snd (case redeem_request body of
         None \<Rightarrow> (Inl BAD_REQUEST, st)
       | Some input \<Rightarrow>
           (let target = getPairingTarget (rt_hash env) now (ri_code input) (pairings st);
                pending = (case target of Inr (c, t) \<Rightarrow> adapter_of t | Inl e \<Rightarrow> None)
            in case redeem_stopped env input pending of
                 Some e \<Rightarrow> (Inl e, st)
               | None \<Rightarrow>
                   (case redeemPairingSession (rt_hash env) now (ri_code input) (redeemer_for input target) (pairings st) of
                      (Inl reason, ps) \<Rightarrow> apfst Inl (code_refused now reason (st\<lparr>pairings := ps\<rparr>))
                    | (Inr view, ps) \<Rightarrow> redeem_spend env now random input (fst view) (st\<lparr>pairings := ps\<rparr>)))))"
    using st by (auto simp: Let_def intro!: spend_sound intro: spent given split: option.split prod.split sum.split)
qed

lemma approved_scopes: "po_scopes (approved_options env t a) = scopesForAccess (ap_access a)"
  by (simp add: approved_options_def Let_def)

lemma poll_sound:
  assumes "route_sound G old st"
  shows "route_sound G old (snd (poll_route env now random headers body st))"
proof -
  let ?create = "\<lambda>t a ps. case createPairingSession (rt_hash env) now (rr_session random) (rr_code random) (approved_options env t a) ps of
                                        ((code, view), ps') \<Rightarrow> (Some code, ps')"
  have create: "session_scopes (snd (?create t a ps)) \<subseteq> insert (scopesForAccess (ap_access a)) (session_scopes ps)" for t a ps
    using created_scopes [of "rt_hash env" now "rr_session random" "rr_code random" "approved_options env t a" ps]
    by (cases "createPairingSession (rt_hash env) now (rr_session random) (rr_code random) (approved_options env t a) ps")
      (auto simp: approved_scopes split: prod.splits)
  have polled: "route_sound G old (st\<lparr>asking := rs, pairings := ps\<rparr>)"
    if "pollConnectionRequest (rt_hash env) now token ?create (asking st) (pairings st) = (res, rs, ps)" for token res rs ps
    using polled_scopes [OF create that] assms by (auto simp: route_sound_def)
  then show ?thesis
    using assms by (auto simp: poll_route_def split: option.split prod.split sum.split)
qed

lemma create_sound:
  assumes "route_sound G old st"
  shows "route_sound (G \<union> set (owner_given env [((now, random), OwnerCreate body)])) old (snd (ownerCreate env now random body st))"
proof (cases "pairing_request env body")
  case (Inl e)
  with assms show ?thesis by (simp add: ownerCreate_def)
next
  case (Inr options)
  have "session_scopes (snd (createPairingSession (rt_hash env) now (rr_session random) (rr_code random) options (pairings st)))
      \<subseteq> insert (po_scopes options) G"
    using created_scopes assms unfolding route_sound_def by blast
  moreover have "tokens_from (insert (po_scopes options) G) old (tokens (token_part (agent_part st)))" "request_scopes (asking st) \<subseteq> G"
    using assms tokens_from_mono unfolding route_sound_def by blast+
  ultimately show ?thesis using Inr by (auto simp: ownerCreate_def route_sound_def case_prod_beta)
qed

lemma settle_sound:
  assumes "route_sound G old st" "settleConnectionRequest (rt_hash env) now code a (asking st) = (res, rs)"
  shows "route_sound (G \<union> (case a of Some ap \<Rightarrow> {scopesForAccess (ap_access ap)} | None \<Rightarrow> {})) old (st\<lparr>asking := rs\<rparr>)"
proof -
  let ?G = "G \<union> (case a of Some ap \<Rightarrow> {scopesForAccess (ap_access ap)} | None \<Rightarrow> {})"
  have "request_scopes rs \<subseteq> ?G"
    using settled_scopes [of "rt_hash env" now code a "asking st"] assms unfolding route_sound_def by fastforce
  moreover have "tokens_from ?G old (tokens (token_part (agent_part st)))" "session_scopes (pairings st) \<subseteq> ?G"
    using assms(1) tokens_from_mono unfolding route_sound_def by blast+
  ultimately show ?thesis by (simp add: route_sound_def)
qed

lemma approve_sound:
  assumes "route_sound G old st"
  shows "route_sound (G \<union> set (owner_given env [((now, random), OwnerApprove code body)])) old (snd (ownerApprove env now code body st))"
proof (cases "approval_request body")
  case None
  with assms show ?thesis by (simp add: ownerApprove_def)
next
  case (Some a)
  note kept = route_sound_mono [OF assms, of "insert (scopesForAccess (ap_access a)) G"]
  from settle_sound [OF assms, of env now code "Some a"] Some kept show ?thesis
    by (auto simp: ownerApprove_def split: option.split prod.split)
qed

lemma request_sound:
  assumes "route_sound G old st"
  shows "route_sound G old (snd (request_route env now random headers source body st))"
proof -
  have asked: "route_sound G old (u\<lparr>asking := rs\<rparr>)"
    if "route_sound G old u" "createConnectionRequest (rt_hash env) now i b t (asking u) = (res, rs)" for u i b t res rs
    using created_request_scopes [of "rt_hash env" now i b t "asking u"] that by (auto simp: route_sound_def)
  show ?thesis
  proof (cases "agentRequestOnly (en_lower (rt_agents env)) headers")
    case None
    then show ?thesis unfolding request_route_def None option.case
      by (intro unless_locked_sound [OF _ assms]) (auto simp: Let_def intro: asked split: option.split sum.split prod.split)
  qed (simp add: request_route_def assms)
qed

lemma target_sound: "route_sound G old st \<Longrightarrow> route_sound G old (snd (target_route env now body st))"
  unfolding target_route_def by (erule unless_locked_sound [rotated]) (auto split: option.split sum.split prod.split)

lemma deny_sound:
  assumes "route_sound G old st"
  shows "route_sound G old (snd (ownerDeny env now code st))"
  using settle_sound [OF assms, of env now code None] by (auto simp: ownerDeny_def split: option.split prod.split)

lemma route_step_sound:
  assumes "route_sound G old st"
  shows "route_sound (G \<union> set (owner_given env [c])) old (route_step env c st)"
proof (cases "(env, c, st)" rule: route_step.cases)
  case (1 env' now random body st')
  with create_sound [OF assms] show ?thesis by (simp del: owner_given.simps)
next
  case (2 env' now random code body st')
  with approve_sound [OF assms] show ?thesis by (simp del: owner_given.simps)
qed (use assms target_sound deny_sound request_sound redeem_sound complete_sound progress_sound poll_sound in auto)

lemma route_run_sound:
  "route_sound G old st \<Longrightarrow> route_sound (G \<union> set (owner_given env cs)) old (fold (route_step env) cs st)"
proof (induction cs arbitrary: G st)
  case (Cons c cs)
  from Cons.IH [OF route_step_sound [OF Cons.prems]] show ?case
    unfolding owner_given_Cons [of env c cs] by (simp add: Un_assoc)
qed simp

section \<open>No owner power\<close>

definition below_owner :: "string list \<Rightarrow> bool" where
  "below_owner scopes \<longleftrightarrow> \<not> hasScope scopes ''tokens:manage''"

lemma below_owner_all: "below_owner scopes \<longleftrightarrow> \<not> list_ex scopeGrantsOwnerPower scopes"
  by (auto simp: below_owner_def scopeGrantsOwnerPower_def hasScope_iff list_ex_iff)

lemma access_below_owner: "below_owner (scopesForAccess access)"
proof -
  have "list_all (\<lambda>a. below_owner (scopesForAccess a))
      [\<lparr>threads = t, read_access = r, edit_access = e\<rparr>. t \<leftarrow> [True, False], r \<leftarrow> [True, False], e \<leftarrow> [True, False]]"
    by code_simp
  moreover have "access \<in> set [\<lparr>threads = t, read_access = r, edit_access = e\<rparr>. t \<leftarrow> [True, False], r \<leftarrow> [True, False], e \<leftarrow> [True, False]]"
    by (cases access) auto
  ultimately show ?thesis by (simp only: list_all_iff)
qed

lemma current_below_owner: "below_owner scopes \<Longrightarrow> below_owner (currentScopesForStored scopes)"
  by (simp add: currentScopesForStored_def access_below_owner split: option.split)

lemma scopes_part_below_owner: "scopes_part access adapter body = Inr scopes \<Longrightarrow> below_owner scopes"
proof -
  have "below_owner DEFAULT_AGENT_TOKEN_SCOPES" by code_simp
  then show "scopes_part access adapter body = Inr scopes \<Longrightarrow> ?thesis"
    by (auto simp: scopes_part_def Let_def access_below_owner below_owner_all [of "_ :: string list", symmetric]
        split: if_splits option.splits)
qed

lemma owner_given_below_owner: "scopes \<in> set (owner_given env cs) \<Longrightarrow> below_owner scopes"
proof (induction env cs rule: owner_given.induct)
  case (2 env u body cs)
  have "below_owner (po_scopes options)" if "pairing_request env body = Inr options" for options
    using that by (auto simp: pairing_request_def Let_def dest!: scopes_part_below_owner split: if_splits option.splits sum.splits)
  with 2 show ?case by (auto split: sum.splits)
qed (auto simp: access_below_owner split: option.splits)

text \<open>
  C20. Pairing gives away what its owner gave and nothing more. Whatever runs through the pairing routes,
  in any order and with any bodies, a bearer that is accepted afterwards is one that was there before, with
  the scopes it had, or it carries exactly the scopes that some call of the owner in that run gave, brought
  up to date; and those never include the power to manage tokens, by a wildcard or otherwise.
\<close>

theorem pairing_gives_what_the_owner_gave:
  assumes "pairings st = []" "stored (asking st) = []"
    and "fst (verifyToken hash ws now saved raw (token_part (agent_part (fold (route_step env) cs st)))) = Some idn"
  shows "(\<exists>t \<in> set (tokens (token_part (agent_part st))).
            tokenIdFromToken raw = Some (tk_id t) \<and> id_scopes idn = currentScopesForStored (tk_scopes t))
       \<or> (\<exists>scopes \<in> set (owner_given env cs). id_scopes idn = currentScopesForStored scopes
            \<and> \<not> hasScope (id_scopes idn) ''tokens:manage'')"
proof -
  let ?old = "tokens (token_part (agent_part st))" and ?new = "tokens (token_part (agent_part (fold (route_step env) cs st)))"
  have "route_sound {} ?old st"
    using assms(1,2) tokens_from_refl by (simp add: route_sound_def session_scopes_def request_scopes_def)
  from route_run_sound [OF this] have "tokens_from (set (owner_given env cs)) ?old ?new" by (simp add: route_sound_def)
  then obtain kept new where parts: "?new = kept @ new" "list_all2 (later {}) ?old kept"
      "\<forall>t \<in> set new. tk_scopes t \<in> set (owner_given env cs)"
    by (auto simp: tokens_from_def)
  obtain i secret t where t: "TOKEN_FORMAT raw = Some (i, secret)" "List.find (\<lambda>t. tk_id t = i) ?new = Some t"
      "idn = token_identity_of (Some LocalCredential) t"
    using assms(3) by (auto simp: verifyToken_def split: option.splits if_splits)
  then have i: "tokenIdFromToken raw = Some (tk_id t)" and t': "t \<in> set ?new"
    by (auto simp: tokenIdFromToken_def dest!: find_Some_member)
  have scopes: "id_scopes idn = currentScopesForStored (tk_scopes t)" by (simp add: t(3) token_identity_of_def)
  from t' consider "t \<in> set kept" | "t \<in> set new" by (auto simp: parts(1))
  then show ?thesis
  proof cases
    case 1
    then obtain k where k: "k < length kept" "t = kept ! k" by (auto simp: in_set_conv_nth)
    with parts(2) have "later {} (?old ! k) t" "?old ! k \<in> set ?old" by (auto simp: list_all2_conv_all_nth)
    then have "tk_id (?old ! k) = tk_id t" "tk_scopes (?old ! k) = tk_scopes t" "?old ! k \<in> set ?old" by (auto simp: later_def)
    with i scopes show ?thesis by metis
  next
    case 2
    with parts(3) have given: "tk_scopes t \<in> set (owner_given env cs)" by blast
    with current_below_owner owner_given_below_owner scopes show ?thesis unfolding below_owner_def by metis
  qed
qed


definition sample_routes :: route_env where
  "sample_routes = \<lparr>rt_hash = (\<lambda>s. s), rt_agents = sample_env, rt_spaces = (\<lambda>s. False), rt_mcpUrl = ''u''\<rparr>"

definition sample_luck :: route_random where
  "sample_luck = \<lparr>rr_session = ''s1'', rr_code = [10, 11, 12], rr_token = (replicate 6 1, replicate 32 2), rr_participant = replicate 16 3,
     rr_user = [1, 2, 3], rr_poll = ''p'', rr_follows = True, rr_saved = True\<rparr>"

definition nobody_paired :: route_state where
  "nobody_paired = \<lparr>codeFailures = [], pairings = [], asking = fresh_requests,
     agent_part = sample_world\<lparr>token_part := fresh_tokens\<rparr>\<rparr>"

text \<open>The owner makes a pairing for reading only, and a connector redeems its code in lower case.\<close>

definition sample_pairing :: "((int \<times> route_random) \<times> route_call) list" where
  "sample_pairing =
     [((1, sample_luck), OwnerCreate (Some (JObj [(''access'', JObj [(''threads'', JBool False), (''read'', JBool True), (''edit'', JBool False)])]))),
      ((2, sample_luck), RedeemCall (Some (JObj [(''code'', JStr ''ab-c''), (''hostname'', JStr ''lap top'')])))]"

theorem pairing_gives_what_the_owner_gave_witness:
  "\<exists>idn. fst (verifyToken (\<lambda>s. s) ''/w'' 3 True (''wt_'' @ hex_text (replicate 6 1) @ ''_'' @ base64url (replicate 32 2))
       (token_part (agent_part (fold (route_step sample_routes) sample_pairing nobody_paired)))) = Some idn
     \<and> \<not> hasScope (id_scopes idn) ''tokens:manage''"
proof -
  let ?verified = "fst (verifyToken (\<lambda>s. s) ''/w'' 3 True (''wt_'' @ hex_text (replicate 6 1) @ ''_'' @ base64url (replicate 32 2))
       (token_part (agent_part (fold (route_step sample_routes) sample_pairing nobody_paired))))"
  have "?verified \<noteq> None" by code_simp
  then obtain idn where idn: "?verified = Some idn" by blast
  have "pairings nobody_paired = []" "stored (asking nobody_paired) = []" "tokens (token_part (agent_part nobody_paired)) = []"
    by code_simp+
  with pairing_gives_what_the_owner_gave [OF this(1,2) idn] idn show ?thesis by auto
qed

end
