(* ===== verification/ThreadDelivery.thy ===== *)
theory ThreadDelivery
  imports Prelude
begin

text \<open>
  Deliveries of thread messages to agents, \<open>packages/server/src/thread-delivery-store.ts\<close>: which message
  waits for whom, who holds the lease to answer it, how often it was tried, and how all of it follows the
  threads themselves.

  The state is the stored file. Every mutation runs under the store's queue and lock, so it is one step on
  the file with one reading of the clock; times are the milliseconds their ISO texts name. The stored policy
  of a Grok bot is an argument, as is the random text of a lease. Migration of earlier file versions, the
  cache of what was read, the shortcut for threads that did not change and the notices of changes are left out.
\<close>

section \<open>State\<close>

datatype thread_location = InWorktable | InSpace string

datatype delivery_state = Queued | Leased | Accepted | Working | Receiving | Replied | Failed

record delivery_problem =
  dp_code :: string
  dp_message :: string
  dp_retryable :: bool

record delivery =
  dl_message :: string
  dl_thread :: string
  dl_location :: thread_location
  dl_author :: string
  dl_participant :: string
  dl_identity :: string
  dl_state :: delivery_state
  dl_revision :: nat
  dl_attempts :: nat
  dl_nextAttemptAt :: "int option"
  dl_lease :: "string option"
  dl_leaseExpiresAt :: "int option"
  dl_managed :: bool
  dl_received :: "nat option"
  dl_error :: "delivery_problem option"
  dl_createdAt :: int
  dl_updatedAt :: int

record delivery_file =
  deliveries :: "delivery list"
  canonicalRevisions :: "(string \<times> nat) list"

datatype delivery_failure = LeaseLost | DeliveryFailed | LocationRequired | AppendThrew

text \<open>What the store reads of a Grok bot's connection: its probe is the message it may answer unverified.\<close>

record grok_policy =
  gp_principal :: string
  gp_enabled :: bool
  gp_error :: bool
  gp_verified :: bool
  gp_probe :: "string option"
  gp_executionMinutes :: nat

definition LEASE_MS :: int where "LEASE_MS = 60000"
definition MAX_ATTEMPTS :: nat where "MAX_ATTEMPTS = 3"
definition PROGRESS_COALESCE_MS :: int where "PROGRESS_COALESCE_MS = 500"
definition MAX_SAFE_INTEGER :: nat where "MAX_SAFE_INTEGER = 2 ^ 53 - 1"

definition emptyFile :: delivery_file where
  "emptyFile = \<lparr>deliveries = [], canonicalRevisions = []\<rparr>"

section \<open>Keys\<close>

definition threadLocationKey :: "thread_location \<Rightarrow> string" where
  "threadLocationKey l = (case l of InWorktable \<Rightarrow> ''worktable'' | InSpace i \<Rightarrow> ''space:'' @ i)"

definition deliveryInputLocation :: "thread_location option \<Rightarrow> string option \<Rightarrow> thread_location option" where
  "deliveryInputLocation location spaceId =
     (case location of
        Some l \<Rightarrow> Some l
      | None \<Rightarrow> (case spaceId of Some i \<Rightarrow> if i = [] then None else Some (InSpace i) | None \<Rightarrow> None))"

definition default_identity :: "string \<Rightarrow> string option \<Rightarrow> string" where
  "default_identity participant identity =
     (case identity of
        Some i \<Rightarrow> i
      | None \<Rightarrow> ''idt_'' @ (if prefix ''ptc_'' participant then drop 4 participant else participant))"

text \<open>
  Keys are texts joined by NUL. Where only equality of whole keys matters, the tuple of their parts stands for
  them, as no part contains NUL.
\<close>

type_synonym delivery_key = "string \<times> string \<times> string \<times> string"

definition deliveryKey :: "thread_location \<Rightarrow> string \<Rightarrow> string \<Rightarrow> string \<Rightarrow> delivery_key" where
  "deliveryKey l thread message identity = (threadLocationKey l, thread, message, identity)"

definition key_of :: "delivery \<Rightarrow> delivery_key" where
  "key_of r = deliveryKey (dl_location r) (dl_thread r) (dl_message r) (dl_identity r)"

definition thread_key :: "thread_location \<Rightarrow> string \<Rightarrow> string" where
  "thread_key l thread = threadLocationKey l @ CHR 0x00 # thread"

definition canonicalThreadKey :: "string \<Rightarrow> thread_location \<Rightarrow> string \<Rightarrow> string" where
  "canonicalThreadKey participant l thread = participant @ CHR 0x00 # thread_key l thread"

definition blocking_key :: "delivery \<Rightarrow> string \<times> string \<times> string" where
  "blocking_key r = (threadLocationKey (dl_location r), dl_thread r, dl_identity r)"

text \<open>\<open>canonicalRevisions[key] ?? 0\<close>.\<close>

definition watermark :: "(string \<times> nat) list \<Rightarrow> string \<Rightarrow> nat" where
  "watermark revisions key = (case map_of revisions key of Some n \<Rightarrow> n | None \<Rightarrow> 0)"

section \<open>What a thread shows\<close>

datatype public_state = PublicQueued | PublicWorking | PublicReceiving | PublicReplied | PublicFailed

fun publicState :: "delivery_state \<Rightarrow> public_state" where
  "publicState Queued = PublicQueued"
| "publicState Leased = PublicQueued"
| "publicState Accepted = PublicWorking"
| "publicState Working = PublicWorking"
| "publicState Receiving = PublicReceiving"
| "publicState Replied = PublicReplied"
| "publicState Failed = PublicFailed"

record thread_activity =
  ta_message :: string
  ta_participant :: string
  ta_identity :: string
  ta_state :: public_state
  ta_revision :: nat
  ta_attempts :: nat
  ta_received :: "nat option"
  ta_updatedAt :: int
  ta_error :: "delivery_problem option"

definition activityFor :: "delivery \<Rightarrow> thread_activity" where
  "activityFor r =
     \<lparr>ta_message = dl_message r, ta_participant = dl_participant r, ta_identity = dl_identity r, ta_state = publicState (dl_state r),
      ta_revision = dl_revision r, ta_attempts = dl_attempts r, ta_received = dl_received r, ta_updatedAt = dl_updatedAt r,
      ta_error = dl_error r\<rparr>"

text \<open>Oldest first; the sort keeps the order of the file where two are as old.\<close>

definition activityLookup :: "delivery list \<Rightarrow> thread_location \<Rightarrow> string \<Rightarrow> thread_activity list" where
  "activityLookup rs l thread =
     map activityFor (filter (\<lambda>r. threadLocationKey (dl_location r) = threadLocationKey l \<and> dl_thread r = thread) (sort_key dl_createdAt rs))"

definition readThreadActivities :: "delivery_file \<Rightarrow> thread_location \<Rightarrow> string \<Rightarrow> thread_activity list" where
  "readThreadActivities f = activityLookup (deliveries f)"

definition getThreadActivity :: "delivery_file \<Rightarrow> thread_location \<Rightarrow> string \<Rightarrow> string \<Rightarrow> string option \<Rightarrow> thread_activity option" where
  "getThreadActivity f l thread message identity =
     (case sort_key (\<lambda>r. - dl_updatedAt r)
             (filter (\<lambda>r. threadLocationKey (dl_location r) = threadLocationKey l \<and> dl_thread r = thread \<and> dl_message r = message
                      \<and> (identity = None \<or> identity = Some [] \<or> identity = Some (dl_identity r))) (deliveries f)) of
        [] \<Rightarrow> None
      | r # rs \<Rightarrow> Some (activityFor r))"

definition latestThreadActivity :: "delivery_file \<Rightarrow> thread_location \<Rightarrow> string \<Rightarrow> thread_activity option" where
  "latestThreadActivity f l thread = (case rev (readThreadActivities f l thread) of [] \<Rightarrow> None | a # as \<Rightarrow> Some a)"

section \<open>Changes of one delivery\<close>

definition active :: "delivery \<Rightarrow> bool" where
  "active r \<longleftrightarrow> dl_state r \<noteq> Queued \<and> dl_state r \<noteq> Replied \<and> dl_state r \<noteq> Failed"

definition terminal :: "delivery \<Rightarrow> bool" where
  "terminal r \<longleftrightarrow> dl_state r = Replied \<or> dl_state r = Failed"

definition released :: "delivery_state \<Rightarrow> delivery_problem option \<Rightarrow> int \<Rightarrow> delivery \<Rightarrow> delivery" where
  "released s problem now r =
     r\<lparr>dl_state := s, dl_lease := None, dl_leaseExpiresAt := None, dl_nextAttemptAt := None, dl_error := problem,
       dl_revision := dl_revision r + 1, dl_updatedAt := now\<rparr>"

definition renewLease :: "int \<Rightarrow> delivery \<Rightarrow> delivery" where
  "renewLease now r = (if dl_managed r then r else r\<lparr>dl_leaseExpiresAt := Some (now + LEASE_MS)\<rparr>)"

definition UNCONFIRMED :: delivery_problem where
  "UNCONFIRMED = \<lparr>dp_code = ''REMOTE_EXECUTION_UNCONFIRMED'',
     dp_message = ''Grok Bot's execution deadline passed. Check its run before retrying; external work may have completed.'',
     dp_retryable = False\<rparr>"

definition RETIRED :: delivery_problem where
  "RETIRED = \<lparr>dp_code = ''DELIVERY_RETIRED'', dp_message = ''The portable thread no longer requests this participant's reply.'',
     dp_retryable = False\<rparr>"

definition EXHAUSTED :: delivery_problem where
  "EXHAUSTED = \<lparr>dp_code = ''DELIVERY_FAILED'', dp_message = ''Delivery lease expired after 3 attempts.'', dp_retryable = False\<rparr>"

definition isRetiredThreadDelivery :: "delivery \<Rightarrow> bool" where
  "isRetiredThreadDelivery r \<longleftrightarrow>
     (case dl_error r of Some e \<Rightarrow> dp_code e = ''DELIVERY_RETIRED'' \<or> dp_code e = ''THREAD_NOT_FOUND'' | None \<Rightarrow> False)"

definition unconfirmed :: "delivery \<Rightarrow> bool" where
  "unconfirmed r \<longleftrightarrow> (case dl_error r of Some e \<Rightarrow> dp_code e = ''REMOTE_EXECUTION_UNCONFIRMED'' | None \<Rightarrow> False)"

section \<open>Leases\<close>

definition leased_as :: "string \<Rightarrow> string \<Rightarrow> string \<Rightarrow> delivery \<Rightarrow> bool" where
  "leased_as message lease participant r \<longleftrightarrow> dl_message r = message \<and> dl_lease r = Some lease \<and> dl_participant r = participant"

definition requireLease :: "int \<Rightarrow> string \<Rightarrow> string \<Rightarrow> string \<Rightarrow> delivery_file \<Rightarrow> delivery option" where
  "requireLease now message lease participant f =
     (case List.find (leased_as message lease participant) (deliveries f) of
        None \<Rightarrow> None
      | Some r \<Rightarrow> (case dl_leaseExpiresAt r of Some t \<Rightarrow> if t \<le> now then None else Some r | None \<Rightarrow> None))"

text \<open>Writing through the reference \<open>requireLease\<close> returned.\<close>

definition change_leased :: "string \<Rightarrow> string \<Rightarrow> string \<Rightarrow> (delivery \<Rightarrow> delivery) \<Rightarrow> delivery_file \<Rightarrow> delivery_file" where
  "change_leased message lease participant g f =
     f\<lparr>deliveries := update_first (leased_as message lease participant) g (deliveries f)\<rparr>"

record reply_lease =
  rl_message :: string
  rl_thread :: string
  rl_location :: thread_location
  rl_identity :: string
  rl_participant :: string
  rl_lease :: string

definition replyLease :: "int \<Rightarrow> reply_lease \<Rightarrow> delivery_file \<Rightarrow> delivery option" where
  "replyLease now input f =
     (case requireLease now (rl_message input) (rl_lease input) (rl_participant input) f of
        None \<Rightarrow> None
      | Some r \<Rightarrow>
          if dl_thread r \<noteq> rl_thread input \<or> threadLocationKey (dl_location r) \<noteq> threadLocationKey (rl_location input)
             \<or> dl_identity r \<noteq> rl_identity input then None
          else if dl_managed r \<and> dl_state r = Leased then None
          else Some r)"

definition requireThreadDeliveryLease :: "int \<Rightarrow> reply_lease \<Rightarrow> delivery_file \<Rightarrow> bool" where
  "requireThreadDeliveryLease now input f \<longleftrightarrow> replyLease now input f \<noteq> None"

text \<open>
  What appending the reply answers, \<open>None\<close> where it throws, and what a replay finds, where there is one. The
  lock is held over the append, whose end is read from the clock again.
\<close>

definition commitThreadDeliveryReply ::
    "int \<Rightarrow> int \<Rightarrow> reply_lease \<Rightarrow> 'a option \<Rightarrow> 'a option option \<Rightarrow> delivery_file \<Rightarrow> (delivery_failure + 'a) \<times> delivery_file" where
  "commitThreadDeliveryReply now later input appended replay f =
     (case replyLease now input f of
        None \<Rightarrow> (case replay of Some (Some a) \<Rightarrow> (Inr a, f) | _ \<Rightarrow> (Inl LeaseLost, f))
      | Some r \<Rightarrow>
          (case appended of
             None \<Rightarrow> (Inl AppendThrew, f)
           | Some a \<Rightarrow> (Inr a, change_leased (rl_message input) (rl_lease input) (rl_participant input) (released Replied None later) f)))"

definition requiresManagedDeliveryLease ::
    "grok_policy option \<Rightarrow> string \<Rightarrow> string \<Rightarrow> string \<Rightarrow> thread_location \<Rightarrow> delivery_file \<Rightarrow> bool" where
  "requiresManagedDeliveryLease policy participant message thread l f \<longleftrightarrow>
     policy \<noteq> None \<or> list_ex (\<lambda>r. dl_managed r \<and> dl_participant r = participant \<and> dl_message r = message \<and> dl_thread r = thread
                              \<and> threadLocationKey (dl_location r) = threadLocationKey l) (deliveries f)"

section \<open>Grok bots\<close>

definition overdue :: "string \<Rightarrow> int \<Rightarrow> bool \<Rightarrow> delivery \<Rightarrow> bool" where
  "overdue participant now includeLegacy r \<longleftrightarrow>
     dl_participant r = participant \<and> (dl_managed r \<or> includeLegacy) \<and> active r
     \<and> (case dl_leaseExpiresAt r of Some t \<Rightarrow> t \<le> now | None \<Rightarrow> True)"

definition expireManaged :: "string \<Rightarrow> int \<Rightarrow> bool \<Rightarrow> delivery_file \<Rightarrow> delivery_file" where
  "expireManaged participant now includeLegacy f =
     f\<lparr>deliveries := map (\<lambda>r. if overdue participant now includeLegacy r
                              then (released Failed (Some UNCONFIRMED) now r)\<lparr>dl_managed := True\<rparr> else r) (deliveries f)\<rparr>"

definition expireGrokBotDeliveries :: "grok_policy option \<Rightarrow> string \<Rightarrow> int \<Rightarrow> delivery_file \<Rightarrow> delivery_file" where
  "expireGrokBotDeliveries policy participant now f = expireManaged participant now (policy \<noteq> None) f"

record grok_delivery =
  gd_location :: thread_location
  gd_thread :: string
  gd_message :: string
  gd_identity :: string
  gd_state :: delivery_state
  gd_leaseExpiresAt :: "int option"
  gd_nextAttemptAt :: "int option"
  gd_error :: "delivery_problem option"

definition grokBotDeliveries :: "string \<Rightarrow> delivery_file \<Rightarrow> grok_delivery list" where
  "grokBotDeliveries participant f =
     map (\<lambda>r. \<lparr>gd_location = dl_location r, gd_thread = dl_thread r, gd_message = dl_message r, gd_identity = dl_identity r,
               gd_state = dl_state r, gd_leaseExpiresAt = dl_leaseExpiresAt r, gd_nextAttemptAt = dl_nextAttemptAt r, gd_error = dl_error r\<rparr>)
       (filter (\<lambda>r. dl_participant r = participant) (deliveries f))"

definition retryGrokBotDelivery ::
    "int \<Rightarrow> string \<Rightarrow> string \<Rightarrow> string \<Rightarrow> thread_location \<Rightarrow> string \<Rightarrow> delivery_file \<Rightarrow> (delivery_failure + unit) \<times> delivery_file" where
  "retryGrokBotDelivery now participant message thread l identity f =
     (let this = (\<lambda>r. dl_participant r = participant \<and> key_of r = deliveryKey l thread message identity)
      in case List.find this (deliveries f) of
           None \<Rightarrow> (Inl DeliveryFailed, f)
         | Some r \<Rightarrow>
             if dl_state r \<noteq> Failed \<or> (case dl_error r of Some e \<Rightarrow> dp_code e = ''DELIVERY_RETIRED'' | None \<Rightarrow> False)
             then (Inl DeliveryFailed, f)
             else (Inr (), f\<lparr>deliveries := update_first this (\<lambda>r. (released Queued None now r)\<lparr>dl_attempts := 0\<rparr>) (deliveries f)\<rparr>))"

section \<open>Queueing\<close>

record queue_input =
  qi_message :: string
  qi_thread :: string
  qi_location :: "thread_location option"
  qi_spaceId :: "string option"
  qi_author :: string
  qi_participant :: string
  qi_identity :: "string option"
  qi_threadRevision :: nat

definition new_delivery ::
    "string \<Rightarrow> string \<Rightarrow> thread_location \<Rightarrow> string \<Rightarrow> string \<Rightarrow> string \<Rightarrow> delivery_state \<Rightarrow> int \<Rightarrow> int \<Rightarrow> delivery" where
  "new_delivery message thread l author participant identity s createdAt updatedAt =
     \<lparr>dl_message = message, dl_thread = thread, dl_location = l, dl_author = author, dl_participant = participant, dl_identity = identity,
      dl_state = s, dl_revision = 0, dl_attempts = 0, dl_nextAttemptAt = None, dl_lease = None, dl_leaseExpiresAt = None,
      dl_managed = False, dl_received = None, dl_error = None, dl_createdAt = createdAt, dl_updatedAt = updatedAt\<rparr>"

definition raised :: "string \<Rightarrow> nat \<Rightarrow> (string \<times> nat) list \<Rightarrow> (string \<times> nat) list" where
  "raised key n revisions = AList.update key (max (watermark revisions key) n) revisions"

definition queueThreadDelivery ::
    "int \<Rightarrow> queue_input \<Rightarrow> delivery_file \<Rightarrow> (delivery_failure + thread_activity option) \<times> delivery_file" where
  "queueThreadDelivery now input f =
     (case deliveryInputLocation (qi_location input) (qi_spaceId input) of
        None \<Rightarrow> (Inl LocationRequired, f)
      | Some l \<Rightarrow>
          let key = canonicalThreadKey (qi_participant input) l (qi_thread input);
              identity = default_identity (qi_participant input) (qi_identity input);
              g = f\<lparr>canonicalRevisions := raised key (qi_threadRevision input) (canonicalRevisions f)\<rparr>
          in if qi_threadRevision input < watermark (canonicalRevisions f) key then (Inr None, f)
             else (case List.find (\<lambda>r. key_of r = deliveryKey l (qi_thread input) (qi_message input) identity) (deliveries f) of
                     Some r \<Rightarrow> (Inr (Some (activityFor r)), g)
                   | None \<Rightarrow>
                       let r = new_delivery (qi_message input) (qi_thread input) l (qi_author input) (qi_participant input) identity
                                 Queued now now
                       in (Inr (Some (activityFor r)), g\<lparr>deliveries := deliveries f @ [r]\<rparr>)))"

section \<open>Following the threads\<close>

record reconcile_input =
  ri_message :: string
  ri_thread :: string
  ri_location :: "thread_location option"
  ri_spaceId :: "string option"
  ri_author :: string
  ri_participant :: string
  ri_identity :: "string option"
  ri_replied :: bool
  ri_createdAt :: int
  ri_repliedAt :: "int option"
  ri_threadRevision :: nat

record thread_snapshot =
  ts_thread :: string
  ts_location :: thread_location
  ts_revision :: nat

record reconcile_options =
  ro_retireMissing :: bool
  ro_threads :: "thread_snapshot list"
  ro_scannedLocations :: "thread_location list option"

text \<open>An input that names no place is refused before anything else is done.\<close>

definition has_location :: "reconcile_input \<Rightarrow> bool" where
  "has_location i \<longleftrightarrow> deliveryInputLocation (ri_location i) (ri_spaceId i) \<noteq> None"

definition input_location :: "reconcile_input \<Rightarrow> thread_location" where
  "input_location i = (case deliveryInputLocation (ri_location i) (ri_spaceId i) of Some l \<Rightarrow> l | None \<Rightarrow> InWorktable)"

definition input_key :: "reconcile_input \<Rightarrow> delivery_key" where
  "input_key i = deliveryKey (input_location i) (ri_thread i) (ri_message i) (default_identity (ri_participant i) (ri_identity i))"

definition snapshots_of :: "thread_snapshot list \<Rightarrow> (string \<times> thread_snapshot) list" where
  "snapshots_of ts = fold (\<lambda>t. AList.update (thread_key (ts_location t) (ts_thread t)) t) ts []"

definition raise_snapshots :: "string \<Rightarrow> (string \<times> thread_snapshot) list \<Rightarrow> (string \<times> nat) list \<Rightarrow> (string \<times> nat) list" where
  "raise_snapshots participant ss =
     fold (\<lambda>(_, t) revisions.
       let key = canonicalThreadKey participant (ts_location t) (ts_thread t)
       in if ts_revision t > watermark revisions key then AList.update key (ts_revision t) revisions else revisions) ss"

definition observed :: "thread_location list option \<Rightarrow> thread_location \<Rightarrow> bool" where
  "observed scanned l = (case scanned of None \<Rightarrow> True | Some ls \<Rightarrow> threadLocationKey l \<in> threadLocationKey ` set ls)"

definition snapshot_revision :: "(string \<times> thread_snapshot) list \<Rightarrow> delivery \<Rightarrow> nat" where
  "snapshot_revision ss r =
     (case map_of ss (thread_key (dl_location r) (dl_thread r)) of Some t \<Rightarrow> ts_revision t | None \<Rightarrow> MAX_SAFE_INTEGER)"

text \<open>A delivery of the participant no thread asks for any more, as far as what was scanned can tell.\<close>

definition unwanted ::
    "string \<Rightarrow> thread_location list option \<Rightarrow> (string \<times> thread_snapshot) list \<Rightarrow> delivery_key set \<Rightarrow> (string \<times> nat) list \<Rightarrow> delivery \<Rightarrow> bool" where
  "unwanted participant scanned ss wanted revisions r \<longleftrightarrow>
     observed scanned (dl_location r)
     \<and> \<not> snapshot_revision ss r < watermark revisions (canonicalThreadKey participant (dl_location r) (dl_thread r))
     \<and> dl_participant r = participant \<and> key_of r \<notin> wanted"

definition retire_mark :: "string \<Rightarrow> (string \<times> thread_snapshot) list \<Rightarrow> delivery \<Rightarrow> (string \<times> nat) list \<Rightarrow> (string \<times> nat) list" where
  "retire_mark participant ss r =
     AList.update (canonicalThreadKey participant (dl_location r) (dl_thread r)) (snapshot_revision ss r)"

text \<open>The finished ones are removed, in the order of the file, and then the others fail.\<close>

fun remove_terminal ::
    "string \<Rightarrow> thread_location list option \<Rightarrow> (string \<times> thread_snapshot) list \<Rightarrow> delivery_key set \<Rightarrow> (string \<times> nat) list \<Rightarrow> delivery list
     \<Rightarrow> delivery list \<times> (string \<times> nat) list" where
  "remove_terminal participant scanned ss wanted revisions [] = ([], revisions)"
| "remove_terminal participant scanned ss wanted revisions (r # rs) =
     (if terminal r \<and> unwanted participant scanned ss wanted revisions r
      then remove_terminal participant scanned ss wanted (retire_mark participant ss r revisions) rs
      else let (rs', revisions') = remove_terminal participant scanned ss wanted revisions rs in (r # rs', revisions'))"

fun retire_open ::
    "int \<Rightarrow> string \<Rightarrow> thread_location list option \<Rightarrow> (string \<times> thread_snapshot) list \<Rightarrow> delivery_key set \<Rightarrow> (string \<times> nat) list \<Rightarrow> delivery list
     \<Rightarrow> delivery list \<times> (string \<times> nat) list" where
  "retire_open now participant scanned ss wanted revisions [] = ([], revisions)"
| "retire_open now participant scanned ss wanted revisions (r # rs) =
     (if \<not> terminal r \<and> unwanted participant scanned ss wanted revisions r
      then let (rs', revisions') = retire_open now participant scanned ss wanted (retire_mark participant ss r revisions) rs
           in (released Failed (Some RETIRED) now r # rs', revisions')
      else let (rs', revisions') = retire_open now participant scanned ss wanted revisions rs in (r # rs', revisions'))"

text \<open>A delivery given to another participant starts over; so does a retired one its thread asks for again.\<close>

definition reassigned :: "int \<Rightarrow> reconcile_input \<Rightarrow> delivery \<Rightarrow> delivery" where
  "reassigned now i r =
     (released (if ri_replied i then Replied else Queued) None (case ri_repliedAt i of Some t \<Rightarrow> t | None \<Rightarrow> now) r)
       \<lparr>dl_author := ri_author i, dl_participant := ri_participant i, dl_attempts := 0, dl_received := None, dl_createdAt := ri_createdAt i\<rparr>"

definition requeued :: "int \<Rightarrow> delivery \<Rightarrow> delivery" where
  "requeued now r = (released Queued None now r)\<lparr>dl_attempts := 0, dl_received := None\<rparr>"

definition input_changes :: "int \<Rightarrow> bool \<Rightarrow> reconcile_input \<Rightarrow> delivery \<Rightarrow> delivery" where
  "input_changes now newer i r =
     (if dl_participant r \<noteq> ri_participant i then reassigned now i r
      else if ri_replied i
      then if dl_state r = Replied then r
           else released Replied None (case ri_repliedAt i of Some t \<Rightarrow> t | None \<Rightarrow> now) r
      else if dl_state r = Failed \<and> isRetiredThreadDelivery r \<and> newer then requeued now r
      else r)"

definition input_delivery :: "reconcile_input \<Rightarrow> delivery" where
  "input_delivery i =
     new_delivery (ri_message i) (ri_thread i) (input_location i) (ri_author i) (ri_participant i)
       (default_identity (ri_participant i) (ri_identity i)) (if ri_replied i then Replied else Queued)
       (ri_createdAt i) (case ri_repliedAt i of Some t \<Rightarrow> t | None \<Rightarrow> ri_createdAt i)"

text \<open>Of several deliveries with one key the map by key holds the last.\<close>

definition reconcile_one :: "int \<Rightarrow> string \<Rightarrow> (string \<times> nat) list \<Rightarrow> reconcile_input \<Rightarrow> delivery_file \<Rightarrow> delivery_file" where
  "reconcile_one now participant previous i f =
     (let key = canonicalThreadKey participant (input_location i) (ri_thread i); mark = watermark (canonicalRevisions f) key
      in if ri_threadRevision i < mark then f
         else f\<lparr>canonicalRevisions := (if ri_threadRevision i > mark then AList.update key (ri_threadRevision i) (canonicalRevisions f)
                                       else canonicalRevisions f),
                deliveries := (if list_ex (\<lambda>r. key_of r = input_key i) (deliveries f)
                               then update_last (\<lambda>r. key_of r = input_key i) (input_changes now (ri_threadRevision i > watermark previous key) i)
                                      (deliveries f)
                               else deliveries f @ [input_delivery i])\<rparr>)"

definition reconcileThreadDeliveries ::
    "int \<Rightarrow> string \<Rightarrow> reconcile_input list \<Rightarrow> reconcile_options \<Rightarrow> delivery_file
     \<Rightarrow> (delivery_failure + (thread_location \<Rightarrow> string \<Rightarrow> thread_activity list)) \<times> delivery_file" where
  "reconcileThreadDeliveries now participant is opts f =
     (if \<not> list_all has_location is then (Inl LocationRequired, f)
      else let ss = snapshots_of (ro_threads opts);
               revisions = raise_snapshots participant ss (canonicalRevisions f);
               wanted = input_key ` set is;
               scanned = ro_scannedLocations opts;
               (ds\<^sub>1, revisions\<^sub>1) = (if ro_retireMissing opts then remove_terminal participant scanned ss wanted revisions (deliveries f)
                                    else (deliveries f, revisions));
               (ds\<^sub>2, revisions\<^sub>2) = (if ro_retireMissing opts then retire_open now participant scanned ss wanted revisions\<^sub>1 ds\<^sub>1
                                    else (ds\<^sub>1, revisions\<^sub>1));
               f' = fold (reconcile_one now participant (canonicalRevisions f)) is \<lparr>deliveries = ds\<^sub>2, canonicalRevisions = revisions\<^sub>2\<rparr>
           in (Inr (activityLookup (deliveries f')), f'))"

section \<open>Claiming\<close>

record claim_options =
  co_allowWorktable :: bool
  co_isDeliverable :: "(thread_location \<Rightarrow> bool) option"
  co_principal :: "string option"

text \<open>What a participant's queue passes over.\<close>

definition skipped :: "claim_options \<Rightarrow> grok_policy option \<Rightarrow> string \<Rightarrow> delivery \<Rightarrow> bool" where
  "skipped opts policy participant r \<longleftrightarrow>
     dl_participant r \<noteq> participant
     \<or> (dl_managed r \<and> policy = None)
     \<or> (case policy of Some p \<Rightarrow> \<not> gp_verified p \<and> gp_probe p \<noteq> Some (dl_message r) | None \<Rightarrow> False)
     \<or> (\<not> co_allowWorktable opts \<and> dl_location r = InWorktable)
     \<or> (case co_isDeliverable opts of Some d \<Rightarrow> \<not> d (dl_location r) | None \<Rightarrow> False)
     \<or> terminal r"

definition later_than :: "int \<Rightarrow> int option \<Rightarrow> bool" where
  "later_than now t = (case t of Some t \<Rightarrow> t > now | None \<Rightarrow> False)"

definition boundary :: "int \<Rightarrow> delivery \<Rightarrow> int" where
  "boundary now r =
     (if later_than now (dl_nextAttemptAt r) then the (dl_nextAttemptAt r)
      else if dl_state r \<noteq> Queued \<and> later_than now (dl_leaseExpiresAt r) then the (dl_leaseExpiresAt r)
      else now)"

fun eligible_scan ::
    "claim_options \<Rightarrow> grok_policy option \<Rightarrow> string \<Rightarrow> int \<Rightarrow> (string \<times> string \<times> string) set \<Rightarrow> int option \<Rightarrow> delivery list \<Rightarrow> int option" where
  "eligible_scan opts policy participant now blocked soonest [] = soonest"
| "eligible_scan opts policy participant now blocked soonest (r # rs) =
     (if skipped opts policy participant r \<or> blocking_key r \<in> blocked
      then eligible_scan opts policy participant now blocked soonest rs
      else eligible_scan opts policy participant now (insert (blocking_key r) blocked)
             (Some (case soonest of None \<Rightarrow> boundary now r | Some t \<Rightarrow> min t (boundary now r))) rs)"

definition nextThreadDeliveryEligibleAt ::
    "int \<Rightarrow> claim_options \<Rightarrow> grok_policy option \<Rightarrow> string \<Rightarrow> delivery_file \<Rightarrow> int option" where
  "nextThreadDeliveryEligibleAt now opts policy participant f =
     (let scan = eligible_scan opts policy participant now {} None (deliveries f);
          mine = filter (\<lambda>r. dl_participant r = participant) (deliveries f)
      in case policy of
           None \<Rightarrow> scan
         | Some p \<Rightarrow>
             if \<not> gp_enabled p \<or> gp_error p then None
             else if list_ex unconfirmed mine then None
             else (case List.find active mine of
                     Some r \<Rightarrow> (case dl_leaseExpiresAt r of Some t \<Rightarrow> Some t | None \<Rightarrow> Some now)
                   | None \<Rightarrow> scan))"

definition lease_text :: "string \<Rightarrow> string" where
  "lease_text random = ''lease_'' @ random"

definition leased :: "grok_policy option \<Rightarrow> int \<Rightarrow> string \<Rightarrow> delivery \<Rightarrow> delivery" where
  "leased policy now random r =
     r\<lparr>dl_state := Leased, dl_lease := Some (lease_text random),
       dl_leaseExpiresAt := Some (case policy of None \<Rightarrow> now + LEASE_MS | Some p \<Rightarrow> now + int (gp_executionMinutes p) * 60000),
       dl_managed := (dl_managed r \<or> policy \<noteq> None), dl_attempts := dl_attempts r + 1, dl_nextAttemptAt := None, dl_error := None,
       dl_received := None, dl_revision := dl_revision r + 1, dl_updatedAt := now\<rparr>"

text \<open>The deliveries as the scan leaves them, and the one it leased: the first that nothing holds back.\<close>

fun claim_scan ::
    "claim_options \<Rightarrow> grok_policy option \<Rightarrow> string \<Rightarrow> int \<Rightarrow> string \<Rightarrow> (string \<times> string \<times> string) set \<Rightarrow> delivery list
     \<Rightarrow> delivery list \<times> delivery option" where
  "claim_scan opts policy participant now random blocked [] = ([], None)"
| "claim_scan opts policy participant now random blocked (r # rs) =
     (if skipped opts policy participant r \<or> blocking_key r \<in> blocked
      then let (rs', c) = claim_scan opts policy participant now random blocked rs in (r # rs', c)
      else if later_than now (dl_nextAttemptAt r) \<or> (dl_state r \<noteq> Queued \<and> later_than now (dl_leaseExpiresAt r))
      then let (rs', c) = claim_scan opts policy participant now random (insert (blocking_key r) blocked) rs in (r # rs', c)
      else if dl_state r \<noteq> Queued \<and> dl_attempts r \<ge> MAX_ATTEMPTS
      then let (rs', c) = claim_scan opts policy participant now random blocked rs
           in (released Failed (Some EXHAUSTED) now r # rs', c)
      else (leased policy now random r # rs, Some (leased policy now random r)))"

record claimed_delivery =
  cd_message :: string
  cd_thread :: string
  cd_location :: thread_location
  cd_lease :: "string option"
  cd_leaseExpiresAt :: "int option"
  cd_attempt :: nat
  cd_identity :: string

definition claimed_of :: "delivery \<Rightarrow> claimed_delivery" where
  "claimed_of r =
     \<lparr>cd_message = dl_message r, cd_thread = dl_thread r, cd_location = dl_location r, cd_lease = dl_lease r,
      cd_leaseExpiresAt = dl_leaseExpiresAt r, cd_attempt = dl_attempts r, cd_identity = dl_identity r\<rparr>"

definition may_claim :: "claim_options \<Rightarrow> grok_policy \<Rightarrow> string \<Rightarrow> delivery_file \<Rightarrow> bool" where
  "may_claim opts p participant f \<longleftrightarrow>
     \<not> (case co_principal opts of Some i \<Rightarrow> i \<noteq> [] \<and> i \<noteq> gp_principal p | None \<Rightarrow> False) \<and> gp_enabled p \<and> \<not> gp_error p
     \<and> \<not> list_ex (\<lambda>r. dl_participant r = participant \<and> (active r \<or> unconfirmed r)) (deliveries f)"

definition claimThreadDelivery ::
    "int \<Rightarrow> string \<Rightarrow> claim_options \<Rightarrow> grok_policy option \<Rightarrow> string \<Rightarrow> delivery_file \<Rightarrow> claimed_delivery option \<times> delivery_file" where
  "claimThreadDelivery now random opts policy participant f =
     (let g = (if policy = None then f else expireManaged participant now True f);
          (ds, c) = claim_scan opts policy participant now random {} (deliveries g)
      in if (case policy of Some p \<Rightarrow> \<not> may_claim opts p participant g | None \<Rightarrow> False) then (None, g)
         else (map_option claimed_of c, g\<lparr>deliveries := ds\<rparr>))"

section \<open>Working under a lease\<close>

definition leased_call ::
    "int \<Rightarrow> string \<Rightarrow> string \<Rightarrow> string \<Rightarrow> (delivery \<Rightarrow> delivery) \<Rightarrow> delivery_file \<Rightarrow> (delivery_failure + thread_activity) \<times> delivery_file" where
  "leased_call now message lease participant g f =
     (case requireLease now message lease participant f of
        None \<Rightarrow> (Inl LeaseLost, f)
      | Some r \<Rightarrow> (Inr (activityFor (g r)), change_leased message lease participant g f))"

definition acceptThreadDelivery :: "int \<Rightarrow> string \<Rightarrow> string \<Rightarrow> string \<Rightarrow> delivery_file \<Rightarrow> (delivery_failure + thread_activity) \<times> delivery_file" where
  "acceptThreadDelivery now message lease participant =
     leased_call now message lease participant
       (\<lambda>r. renewLease now (r\<lparr>dl_state := Accepted, dl_revision := dl_revision r + 1, dl_updatedAt := now\<rparr>))"

datatype delivery_phase = WorkingPhase | ReceivingPhase

fun phase_state :: "delivery_phase \<Rightarrow> delivery_state" where
  "phase_state WorkingPhase = Working"
| "phase_state ReceivingPhase = Receiving"

text \<open>Progress that changes no state is announced at most twice a second.\<close>

definition progressed :: "int \<Rightarrow> delivery_phase \<Rightarrow> nat option \<Rightarrow> delivery \<Rightarrow> delivery" where
  "progressed now phase received r =
     (let announced = (dl_state r \<noteq> phase_state phase \<or> now - dl_updatedAt r \<ge> PROGRESS_COALESCE_MS);
          r' = renewLease now
                 (r\<lparr>dl_state := phase_state phase,
                    dl_received := (case received of
                                      None \<Rightarrow> dl_received r
                                    | Some n \<Rightarrow> Some (max (case dl_received r of Some m \<Rightarrow> m | None \<Rightarrow> 0) n))\<rparr>)
      in if announced then r'\<lparr>dl_revision := dl_revision r + 1, dl_updatedAt := now\<rparr> else r')"

definition progressThreadDelivery ::
    "int \<Rightarrow> string \<Rightarrow> string \<Rightarrow> string \<Rightarrow> delivery_phase \<Rightarrow> nat option \<Rightarrow> delivery_file \<Rightarrow> (delivery_failure + thread_activity) \<times> delivery_file" where
  "progressThreadDelivery now message lease participant phase received =
     leased_call now message lease participant (progressed now phase received)"

record fail_input =
  fi_canonicalThreadRevision :: "nat option"
  fi_retryable :: bool
  fi_spendAttempt :: "bool option"
  fi_code :: string
  fi_message :: string

definition refunds :: "fail_input \<Rightarrow> bool" where
  "refunds i \<longleftrightarrow> fi_retryable i \<and> fi_spendAttempt i = Some False"

definition retries :: "fail_input \<Rightarrow> delivery \<Rightarrow> bool" where
  "retries i r \<longleftrightarrow> refunds i \<or> (\<not> dl_managed r \<and> fi_retryable i \<and> dl_attempts r < MAX_ATTEMPTS)"

definition failed_attempt :: "int \<Rightarrow> fail_input \<Rightarrow> delivery \<Rightarrow> delivery" where
  "failed_attempt now i r =
     (let n = (if refunds i then dl_attempts r - 1 else dl_attempts r); retry = retries i r
      in (released (if retry then Queued else Failed)
            (Some \<lparr>dp_code = fi_code i, dp_message = take 500 (fi_message i), dp_retryable = retry\<rparr>) now r)
           \<lparr>dl_attempts := n,
            dl_nextAttemptAt := (if refunds i then Some now else if retry then Some (now + 1000 * 2 ^ (n - 1)) else None)\<rparr>)"

definition failThreadDelivery ::
    "int \<Rightarrow> string \<Rightarrow> string \<Rightarrow> string \<Rightarrow> fail_input \<Rightarrow> delivery_file \<Rightarrow> (delivery_failure + thread_activity) \<times> delivery_file" where
  "failThreadDelivery now message lease participant i f =
     (case requireLease now message lease participant f of
        None \<Rightarrow> (Inl LeaseLost, f)
      | Some r \<Rightarrow>
          leased_call now message lease participant (failed_attempt now i)
            (case fi_canonicalThreadRevision i of
               None \<Rightarrow> f
             | Some n \<Rightarrow> f\<lparr>canonicalRevisions :=
                 raised (canonicalThreadKey (dl_participant r) (dl_location r) (dl_thread r)) n (canonicalRevisions f)\<rparr>))"

definition markThreadDeliveryReplied ::
    "int \<Rightarrow> string \<Rightarrow> string \<Rightarrow> thread_location option \<Rightarrow> string option \<Rightarrow> string \<Rightarrow> string option \<Rightarrow> delivery_file
     \<Rightarrow> (delivery_failure + thread_activity option) \<times> delivery_file" where
  "markThreadDeliveryReplied now message thread location spaceId participant identity f =
     (case deliveryInputLocation location spaceId of
        None \<Rightarrow> (Inl LocationRequired, f)
      | Some l \<Rightarrow>
          let this = (\<lambda>r. dl_message r = message \<and> dl_thread r = thread \<and> threadLocationKey (dl_location r) = threadLocationKey l
                          \<and> (identity = None \<or> identity = Some [] \<or> identity = Some (dl_identity r)))
          in case List.find this (deliveries f) of
               None \<Rightarrow> (Inr None, f)
             | Some r \<Rightarrow>
                 if dl_participant r \<noteq> participant then (Inr None, f)
                 else if dl_state r = Replied then (Inr (Some (activityFor r)), f)
                 else (Inr (Some (activityFor (released Replied None now r))),
                       f\<lparr>deliveries := update_first this (released Replied None now) (deliveries f)\<rparr>))"

text \<open>Replacing the workspace empties the file.\<close>

definition workspaceReset :: "delivery_file \<Rightarrow> delivery_file" where
  "workspaceReset f = emptyFile"

end
