(* ===== verification/DeliveryLeases.thy ===== *)
theory DeliveryLeases
  imports ThreadDelivery
begin

text \<open>
  Runs of the delivery store: every file a run reaches is well formed, a lease that ended never authorizes
  anything again, a claim keeps the order of a conversation, and the time the store announces is the time a
  claim has something to do.
\<close>

section \<open>Steps\<close>

datatype delivery_event =
  Queueing int queue_input
| Reconciling int string "reconcile_input list" reconcile_options
| Claiming int string claim_options "grok_policy option" string
| Accepting int string string string
| Progressing int string string string delivery_phase "nat option"
| Failing int string string string fail_input
| Committing int int reply_lease "unit option" "unit option option"
| MarkingReplied int string string "thread_location option" "string option" string "string option"
| Retrying int string string string thread_location string
| Expiring int "grok_policy option" string
| Resetting

fun delivery_step :: "delivery_event \<Rightarrow> delivery_file \<Rightarrow> delivery_file" where
  "delivery_step (Queueing now i) f = snd (queueThreadDelivery now i f)"
| "delivery_step (Reconciling now p is opts) f = snd (reconcileThreadDeliveries now p is opts f)"
| "delivery_step (Claiming now random opts policy p) f = snd (claimThreadDelivery now random opts policy p f)"
| "delivery_step (Accepting now m l p) f = snd (acceptThreadDelivery now m l p f)"
| "delivery_step (Progressing now m l p phase n) f = snd (progressThreadDelivery now m l p phase n f)"
| "delivery_step (Failing now m l p i) f = snd (failThreadDelivery now m l p i f)"
| "delivery_step (Committing now later i appended replay) f = snd (commitThreadDeliveryReply now later i appended replay f)"
| "delivery_step (MarkingReplied now m t l s p i) f = snd (markThreadDeliveryReplied now m t l s p i f)"
| "delivery_step (Retrying now p m t l i) f = snd (retryGrokBotDelivery now p m t l i f)"
| "delivery_step (Expiring now policy p) f = expireGrokBotDeliveries policy p now f"
| "delivery_step Resetting f = workspaceReset f"

fun event_time :: "delivery_event \<Rightarrow> int option" where
  "event_time (Queueing now i) = Some now"
| "event_time (Reconciling now p is opts) = Some now"
| "event_time (Claiming now random opts policy p) = Some now"
| "event_time (Accepting now m l p) = Some now"
| "event_time (Progressing now m l p phase n) = Some now"
| "event_time (Failing now m l p i) = Some now"
| "event_time (Committing now later i appended replay) = Some now"
| "event_time (MarkingReplied now m t l s p i) = Some now"
| "event_time (Retrying now p m t l i) = Some now"
| "event_time (Expiring now policy p) = Some now"
| "event_time Resetting = None"

fun drawn :: "delivery_event \<Rightarrow> string option" where
  "drawn (Claiming now random opts policy p) = Some (lease_text random)"
| "drawn _ = None"

section \<open>What a step may do to a delivery\<close>

text \<open>
  At a time, with a lease it may hand out: leave the delivery, take its lease away, renew a lease that still runs,
  or lease it anew.
\<close>

definition well_formed :: "delivery \<Rightarrow> bool" where
  "well_formed r \<longleftrightarrow>
     dl_attempts r \<le> MAX_ATTEMPTS
     \<and> (dl_state r = Queued \<longrightarrow> dl_lease r = None \<and> dl_leaseExpiresAt r = None \<and> dl_attempts r < MAX_ATTEMPTS)
     \<and> (active r \<longrightarrow> dl_lease r \<noteq> None \<and> dl_leaseExpiresAt r \<noteq> None \<and> dl_nextAttemptAt r = None)
     \<and> (terminal r \<longrightarrow> dl_lease r = None \<and> dl_leaseExpiresAt r = None \<and> dl_nextAttemptAt r = None)"

definition may_become :: "int \<Rightarrow> string option \<Rightarrow> delivery \<Rightarrow> delivery \<Rightarrow> bool" where
  "may_become now lease r r' \<longleftrightarrow>
     key_of r' = key_of r \<and> (well_formed r \<longrightarrow> well_formed r')
     \<and> (r' = r \<or> dl_lease r' = None \<or> (dl_lease r' = dl_lease r \<and> later_than now (dl_leaseExpiresAt r)) \<or> (lease \<noteq> None \<and> dl_lease r' = lease))"

lemma may_become_refl [simp, intro]: "may_become now lease r r"
  by (simp add: may_become_def)

lemma active_not: "active r \<longleftrightarrow> dl_state r \<noteq> Queued \<and> \<not> terminal r"
  by (auto simp: active_def terminal_def)

lemma key_of_released [simp]: "key_of (released s e now r) = key_of r"
  by (simp add: key_of_def released_def)

lemma may_become_released:
  assumes "s = Replied \<or> s = Failed" shows "may_become now lease r (released s e t r)"
  using assms by (auto simp: may_become_def released_def well_formed_def active_def terminal_def key_of_def)

lemma may_become_queued:
  "may_become now lease r ((released Queued e t r)\<lparr>dl_attempts := 0\<rparr>)"
  by (auto simp: may_become_def released_def well_formed_def active_def terminal_def key_of_def MAX_ATTEMPTS_def)

lemma may_become_requeued: "may_become now lease r (requeued t r)"
  by (auto simp: may_become_def requeued_def released_def well_formed_def active_def terminal_def key_of_def MAX_ATTEMPTS_def)

lemma may_become_reassigned: "may_become now lease r (reassigned t i r)"
  by (auto simp: may_become_def reassigned_def released_def well_formed_def active_def terminal_def key_of_def MAX_ATTEMPTS_def)

lemma may_become_input_changes: "may_become now lease r (input_changes t newer i r)"
  by (simp add: input_changes_def may_become_reassigned may_become_released may_become_requeued)

lemma may_become_failed_attempt: "may_become now lease r (failed_attempt t i r)"
  by (auto simp: may_become_def failed_attempt_def released_def well_formed_def active_def terminal_def key_of_def MAX_ATTEMPTS_def
      retries_def Let_def)

lemma may_become_leased:
  assumes "\<not> terminal r" "\<not> (dl_state r \<noteq> Queued \<and> dl_attempts r \<ge> MAX_ATTEMPTS)"
  shows "may_become now (Some (lease_text random)) r (leased policy t random r)"
  using assms by (auto simp: may_become_def leased_def well_formed_def active_def terminal_def key_of_def)

text \<open>Whoever renews a lease holds it, and it has not run out.\<close>

lemma may_become_accepted:
  assumes "leased_as m l p r" "later_than now (dl_leaseExpiresAt r)"
  shows "may_become now lease r (renewLease now (r\<lparr>dl_state := Accepted, dl_revision := n, dl_updatedAt := u\<rparr>))"
  using assms by (auto simp: may_become_def renewLease_def leased_as_def well_formed_def active_def terminal_def key_of_def)

lemma may_become_progressed:
  assumes "leased_as m l p r" "later_than now (dl_leaseExpiresAt r)"
  shows "may_become now lease r (progressed now phase n r)"
  using assms
  by (cases phase) (auto simp: may_become_def progressed_def renewLease_def leased_as_def well_formed_def active_def terminal_def key_of_def Let_def)

lemma may_become_trans: "may_become now lease r r' \<Longrightarrow> may_become now lease r' r'' \<Longrightarrow> may_become now lease r r''"
  by (auto simp: may_become_def)

text \<open>The same of a whole file: every delivery came of one of before or is new, and no key twice.\<close>

definition stepped :: "int \<Rightarrow> string option \<Rightarrow> delivery list \<Rightarrow> delivery list \<Rightarrow> bool" where
  "stepped now lease rs rs' \<longleftrightarrow>
     (\<forall>r' \<in> set rs'. (\<exists>r \<in> set rs. may_become now lease r r') \<or> (well_formed r' \<and> (dl_lease r' = None \<or> dl_lease r' = lease)))
     \<and> (distinct (map key_of rs) \<longrightarrow> distinct (map key_of rs'))"

lemma stepped_refl [simp, intro]: "stepped now lease rs rs"
  by (auto simp: stepped_def)

lemma stepped_trans:
  assumes "stepped now lease rs rs'" "stepped now lease rs' rs''" shows "stepped now lease rs rs''"
  unfolding stepped_def
proof (intro conjI ballI)
  fix r'' assume "r'' \<in> set rs''"
  with assms(2) consider (old) r' where "r' \<in> set rs'" "may_become now lease r' r''"
    | (new) "well_formed r'' \<and> (dl_lease r'' = None \<or> dl_lease r'' = lease)"
    by (auto simp: stepped_def)
  then show "(\<exists>r \<in> set rs. may_become now lease r r'') \<or> (well_formed r'' \<and> (dl_lease r'' = None \<or> dl_lease r'' = lease))"
  proof cases
    case old
    from assms(1) old(1) consider (older) r where "r \<in> set rs" "may_become now lease r r'"
      | (newer) "well_formed r' \<and> (dl_lease r' = None \<or> dl_lease r' = lease)"
      by (auto simp: stepped_def)
    then show ?thesis
    proof cases
      case older
      with old(2) show ?thesis by (auto intro: may_become_trans)
    next
      case newer
      with old(2) show ?thesis by (auto simp: may_become_def)
    qed
  qed simp
next
  from assms show "distinct (map key_of rs) \<longrightarrow> distinct (map key_of rs'')" by (simp add: stepped_def)
qed

lemma stepped_keys:
  assumes "list_all2 (\<lambda>r r'. may_become now lease r r') rs rs'" shows "stepped now lease rs rs'"
proof -
  from assms have "map key_of rs' = map key_of rs" by (induction) (auto simp: may_become_def)
  moreover have "\<exists>r \<in> set rs. may_become now lease r r'" if "r' \<in> set rs'" for r'
    using assms that by (metis in_set_conv_nth list_all2_conv_all_nth)
  ultimately show ?thesis by (simp add: stepped_def)
qed

lemma stepped_update:
  assumes "\<And>r. r \<in> set rs \<Longrightarrow> P r \<Longrightarrow> may_become now lease r (g r)"
  shows "stepped now lease rs (map (\<lambda>r. if P r then g r else r) rs)"
  using assms by (intro stepped_keys) (auto simp: list_all2_conv_all_nth)

lemma update_first_all2:
  "(\<And>r. List.find P rs = Some r \<Longrightarrow> may_become now lease r (g r)) \<Longrightarrow> list_all2 (may_become now lease) rs (update_first P g rs)"
  by (induction rs) (auto intro: list_all2_refl)

lemma update_last_all2:
  "(\<And>r. r \<in> set rs \<Longrightarrow> may_become now lease r (g r)) \<Longrightarrow> list_all2 (may_become now lease) rs (update_last P g rs)"
  by (induction rs) (auto intro: list_all2_refl)

lemmas stepped_first = stepped_keys [OF update_first_all2]
lemmas stepped_last = stepped_keys [OF update_last_all2]

lemma stepped_new:
  assumes "well_formed r" "dl_lease r = None" "\<not> list_ex (\<lambda>q. key_of q = key_of r) rs"
  shows "stepped now lease rs (rs @ [r])"
  using assms by (auto simp: stepped_def list_ex_iff)

lemma subseq_keys: "subseq rs' rs \<Longrightarrow> set rs' \<subseteq> set rs \<and> (distinct (map key rs) \<longrightarrow> distinct (map key rs'))"
  by (induction rule: list_emb.induct) auto

lemma stepped_removed: "subseq rs' rs \<Longrightarrow> stepped now lease rs rs'"
  unfolding stepped_def using subseq_keys [of rs' rs key_of] by blast

section \<open>Every operation steps\<close>

lemma find_leased_as: "List.find (leased_as m l p) rs = Some r \<Longrightarrow> leased_as m l p r"
  by (auto simp: find_Some_iff)

lemma requireLease_Some:
  "requireLease now m l p f = Some r \<longleftrightarrow> List.find (leased_as m l p) (deliveries f) = Some r \<and> later_than now (dl_leaseExpiresAt r)"
  by (auto simp: requireLease_def later_than_def split: option.splits)

lemma replyLease_Some: "replyLease now i f = Some r \<Longrightarrow> requireLease now (rl_message i) (rl_lease i) (rl_participant i) f = Some r"
  by (auto simp: replyLease_def split: option.splits if_splits)

lemma stepped_leased_call [keeps]:
  assumes "\<And>r. leased_as m l p r \<Longrightarrow> later_than now (dl_leaseExpiresAt r) \<Longrightarrow> may_become now lease r (g r)"
  shows "stepped now lease (deliveries f) (deliveries (snd (leased_call now m l p g f)))"
proof (cases "requireLease now m l p f")
  case (Some r)
  then have r: "List.find (leased_as m l p) (deliveries f) = Some r" "later_than now (dl_leaseExpiresAt r)"
    by (simp_all add: requireLease_Some)
  have "stepped now lease (deliveries f) (update_first (leased_as m l p) g (deliveries f))"
    using r by (intro stepped_first) (auto intro: assms find_leased_as)
  with Some show ?thesis by (simp add: leased_call_def change_leased_def)
qed (simp add: leased_call_def)

lemma well_formed_new: "s = Queued \<or> s = Replied \<Longrightarrow> well_formed (new_delivery m t l a p i s c u)"
  by (auto simp: well_formed_def new_delivery_def active_def terminal_def MAX_ATTEMPTS_def)

lemma new_delivery_simps [simp]:
  "dl_lease (new_delivery m t l a p i s c u) = None" "key_of (new_delivery m t l a p i s c u) = deliveryKey l t m i"
  by (simp_all add: new_delivery_def key_of_def)

lemma find_None_ex: "List.find P xs = None \<Longrightarrow> \<not> list_ex P xs"
  by (auto simp: find_None_iff list_ex_iff)

lemma stepped_queue [keeps]: "stepped now lease (deliveries f) (deliveries (snd (queueThreadDelivery t i f)))"
  by (auto simp: queueThreadDelivery_def Let_def intro!: stepped_new well_formed_new dest: find_None_ex split: option.split)

lemma not_skipped: "\<not> skipped opts policy p r \<Longrightarrow> \<not> terminal r \<and> dl_participant r = p"
  by (simp add: skipped_def)

lemma stepped_claim_scan:
  "stepped now (Some (lease_text random)) rs (fst (claim_scan opts policy p now random blocked rs))"
proof -
  have "list_all2 (may_become now (Some (lease_text random))) rs (fst (claim_scan opts policy p now random blocked rs))"
    by (induction rs arbitrary: blocked)
      (auto simp: may_become_released may_become_leased Let_def case_prod_beta intro: list_all2_refl dest: not_skipped)
  then show ?thesis by (rule stepped_keys)
qed

lemma stepped_expire [keeps]: "stepped now lease (deliveries f) (deliveries (expireManaged p t legacy f))"
proof -
  have "may_become now lease r ((released Failed (Some UNCONFIRMED) t r)\<lparr>dl_managed := True\<rparr>)" for r
    by (auto simp: may_become_def released_def well_formed_def active_def terminal_def key_of_def)
  then show ?thesis by (simp add: expireManaged_def stepped_update)
qed

lemma stepped_claim [keeps]:
  "stepped now (Some (lease_text random)) (deliveries f) (deliveries (snd (claimThreadDelivery now random opts policy p f)))"
proof -
  define g where "g = (if policy = None then f else expireManaged p now True f)"
  have g: "stepped now (Some (lease_text random)) (deliveries f) (deliveries g)" unfolding g_def by (simp add: stepped_expire)
  then have "stepped now (Some (lease_text random)) (deliveries f) (fst (claim_scan opts policy p now random {} (deliveries g)))"
    by (rule stepped_trans) (rule stepped_claim_scan)
  with g show ?thesis by (simp add: claimThreadDelivery_def Let_def split: prod.split flip: g_def) auto
qed

lemma stepped_accept [keeps]: "stepped now lease (deliveries f) (deliveries (snd (acceptThreadDelivery now m l p f)))"
  unfolding acceptThreadDelivery_def by (rule stepped_leased_call) (rule may_become_accepted)

lemma stepped_progress [keeps]: "stepped now lease (deliveries f) (deliveries (snd (progressThreadDelivery now m l p phase n f)))"
  unfolding progressThreadDelivery_def by (rule stepped_leased_call) (rule may_become_progressed)

lemma stepped_fail [keeps]: "stepped now lease (deliveries f) (deliveries (snd (failThreadDelivery now m l p i f)))"
proof -
  have "stepped now lease (deliveries g) (deliveries (snd (leased_call now m l p (failed_attempt now i) g)))" for g
    by (rule stepped_leased_call) (rule may_become_failed_attempt)
  from this [of f] this [of "f\<lparr>canonicalRevisions := c\<rparr>" for c] show ?thesis
    by (auto simp: failThreadDelivery_def split: option.split)
qed

lemma stepped_commit [keeps]: "stepped now lease (deliveries f) (deliveries (snd (commitThreadDeliveryReply t later i appended replay f)))"
  by (auto simp: commitThreadDeliveryReply_def change_leased_def intro!: stepped_first may_become_released split: option.split)

lemma stepped_mark [keeps]: "stepped now lease (deliveries f) (deliveries (snd (markThreadDeliveryReplied t m th l s p i f)))"
  by (auto simp: markThreadDeliveryReplied_def Let_def intro!: stepped_first may_become_released split: option.split)

lemma stepped_retry [keeps]: "stepped now lease (deliveries f) (deliveries (snd (retryGrokBotDelivery t p m th l i f)))"
  by (auto simp: retryGrokBotDelivery_def Let_def intro!: stepped_first may_become_queued split: option.split)

lemma remove_terminal_subseq: "subseq (fst (remove_terminal p scanned ss wanted revisions rs)) rs"
  by (induction rs arbitrary: revisions) (auto simp: Let_def case_prod_beta)

lemma stepped_retire_open: "stepped now lease rs (fst (retire_open t p scanned ss wanted revisions rs))"
proof -
  have "list_all2 (may_become now lease) rs (fst (retire_open t p scanned ss wanted revisions rs))"
    by (induction rs arbitrary: revisions) (auto simp: may_become_released Let_def case_prod_beta)
  then show ?thesis by (rule stepped_keys)
qed

lemma key_of_input_delivery [simp]: "key_of (input_delivery i) = input_key i"
  by (simp add: input_delivery_def input_key_def)

lemma stepped_reconcile_one: "stepped now lease (deliveries f) (deliveries (reconcile_one t p previous i f))"
  by (auto simp: reconcile_one_def Let_def input_delivery_def input_key_def
      intro!: stepped_last may_become_input_changes stepped_new well_formed_new)

lemma stepped_reconcile_all: "stepped now lease (deliveries f) (deliveries (fold (reconcile_one t p previous) is f))"
  by (induction "is" arbitrary: f) (auto intro: stepped_trans stepped_reconcile_one)

lemma stepped_reconcile [keeps]: "stepped now lease (deliveries f) (deliveries (snd (reconcileThreadDeliveries t p is opts f)))"
proof -
  define ss where "ss = snapshots_of (ro_threads opts)"
  define wanted where "wanted = input_key ` set is"
  define rem where "rem = remove_terminal p (ro_scannedLocations opts) ss wanted (raise_snapshots p ss (canonicalRevisions f)) (deliveries f)"
  define ret where "ret = retire_open t p (ro_scannedLocations opts) ss wanted (snd rem) (fst rem)"
  have "stepped now lease (deliveries f) (fst rem)" unfolding rem_def by (rule stepped_removed) (rule remove_terminal_subseq)
  moreover have "stepped now lease (fst rem) (fst ret)" unfolding ret_def by (rule stepped_retire_open)
  ultimately have "stepped now lease (deliveries f) (fst ret)" by (rule stepped_trans)
  then have "stepped now lease (deliveries f)
      (deliveries (fold (reconcile_one t p (canonicalRevisions f)) is \<lparr>deliveries = fst ret, canonicalRevisions = snd ret\<rparr>))"
    using stepped_reconcile_all [of now lease "\<lparr>deliveries = fst ret, canonicalRevisions = snd ret\<rparr>"] by (auto intro: stepped_trans)
  moreover have "stepped now lease (deliveries f)
      (deliveries (fold (reconcile_one t p (canonicalRevisions f)) is \<lparr>deliveries = deliveries f, canonicalRevisions = raise_snapshots p ss (canonicalRevisions f)\<rparr>))"
    using stepped_reconcile_all [of now lease "\<lparr>deliveries = deliveries f, canonicalRevisions = raise_snapshots p ss (canonicalRevisions f)\<rparr>"] by simp
  ultimately show ?thesis
    by (auto simp: reconcileThreadDeliveries_def Let_def ss_def wanted_def rem_def ret_def split: prod.split)
qed

section \<open>Runs\<close>

lemma step_steps:
  assumes "event_time e = None \<or> event_time e = Some now"
  shows "stepped now (drawn e) (deliveries f) (deliveries (delivery_step e f))"
proof (cases e)
  case Resetting
  then show ?thesis by (simp add: workspaceReset_def emptyFile_def stepped_def)
qed (use assms in \<open>simp_all add: keeps expireGrokBotDeliveries_def\<close>)

definition file_ok :: "delivery_file \<Rightarrow> bool" where
  "file_ok f \<longleftrightarrow> distinct (map key_of (deliveries f)) \<and> list_all well_formed (deliveries f)"

lemma stepped_ok: "stepped now lease (deliveries f) (deliveries f') \<Longrightarrow> file_ok f \<Longrightarrow> file_ok f'"
proof -
  assume st: "stepped now lease (deliveries f) (deliveries f')" and ok: "file_ok f"
  have "well_formed r'" if "r' \<in> set (deliveries f')" for r'
    using st ok that unfolding stepped_def file_ok_def list_all_iff by (auto simp: may_become_def)
  with st ok show ?thesis by (auto simp: stepped_def file_ok_def list_all_iff)
qed

lemma step_ok: "file_ok f \<Longrightarrow> file_ok (delivery_step e f)"
  using step_steps [of e] stepped_ok by (cases "event_time e") blast+

interpretation delivery_run: kept_by_steps delivery_step file_ok
  by unfold_locales (rule step_ok)

lemma reached_ok: "file_ok (fold delivery_step es emptyFile)"
  by (rule delivery_run.run_keeps) (simp add: file_ok_def emptyFile_def)

section \<open>Leases that ended\<close>

definition live :: "string \<Rightarrow> int \<Rightarrow> delivery_file \<Rightarrow> bool" where
  "live lease now f \<longleftrightarrow> list_ex (\<lambda>r. dl_lease r = Some lease \<and> later_than now (dl_leaseExpiresAt r)) (deliveries f)"

lemma later_than_mono: "later_than t x \<Longrightarrow> now \<le> t \<Longrightarrow> later_than now x"
  by (auto simp: later_than_def split: option.splits)

lemma live_mono: "live lease t f \<Longrightarrow> now \<le> t \<Longrightarrow> live lease now f"
  by (auto simp: live_def list_ex_iff intro: later_than_mono)

text \<open>At the time of a step no other lease comes to life; renewing needs one that is alive.\<close>

lemma stepped_not_live:
  assumes "stepped t d (deliveries f) (deliveries f')" "now \<le> t" "\<not> live lease now f" "d \<noteq> Some lease"
  shows "\<not> live lease now f'"
proof
  assume "live lease now f'"
  then obtain r' where r': "r' \<in> set (deliveries f')" "dl_lease r' = Some lease" "later_than now (dl_leaseExpiresAt r')"
    by (auto simp: live_def list_ex_iff)
  with assms(1,4) obtain r where r: "r \<in> set (deliveries f)" "may_become t d r r'" by (auto simp: stepped_def)
  with r' assms(4) have "r' = r \<or> (dl_lease r = Some lease \<and> later_than t (dl_leaseExpiresAt r))"
    by (auto simp: may_become_def)
  with r(1) r' assms(2,3) show False by (auto simp: live_def list_ex_iff dest: later_than_mono)
qed

lemma step_not_live:
  assumes "\<not> live lease now f" "drawn e \<noteq> Some lease" "case event_time e of Some t \<Rightarrow> now \<le> t | None \<Rightarrow> True"
  shows "\<not> live lease now (delivery_step e f)"
proof (cases "event_time e")
  case None
  then have "stepped now (drawn e) (deliveries f) (deliveries (delivery_step e f))" by (simp add: step_steps)
  then show ?thesis by (rule stepped_not_live [OF _ order_refl assms(1,2)])
next
  case (Some t)
  then have "stepped t (drawn e) (deliveries f) (deliveries (delivery_step e f))" by (simp add: step_steps)
  then show ?thesis by (rule stepped_not_live [OF _ _ assms(1,2)]) (use assms(3) Some in simp)
qed

lemma run_not_live:
  "\<not> live lease now f \<Longrightarrow> list_all (\<lambda>e. drawn e \<noteq> Some lease \<and> (case event_time e of Some t \<Rightarrow> now \<le> t | None \<Rightarrow> True)) es
     \<Longrightarrow> \<not> live lease now (fold delivery_step es f)"
  by (induction es arbitrary: f) (auto simp: step_not_live)

lemma dead_requireLease: "\<not> live lease now f \<Longrightarrow> now \<le> t \<Longrightarrow> requireLease t m lease p f = None"
proof (rule ccontr)
  assume a: "\<not> live lease now f" "now \<le> t" "requireLease t m lease p f \<noteq> None"
  then obtain r where "List.find (leased_as m lease p) (deliveries f) = Some r" "later_than t (dl_leaseExpiresAt r)"
    by (auto simp: requireLease_Some)
  then have "live lease t f" by (auto simp: live_def list_ex_iff leased_as_def find_Some_iff)
  with a show False by (auto dest: live_mono)
qed


text \<open>The delivery is leased anew at the moment its first lease runs out: the first one stays lost, the second one works.\<close>

abbreviation asked :: queue_input where
  "asked \<equiv> \<lparr>qi_message = ''m1'', qi_thread = ''t'', qi_location = Some InWorktable, qi_spaceId = None, qi_author = ''ann'',
             qi_participant = ''ptc_1'', qi_identity = None, qi_threadRevision = 1\<rparr>"

abbreviation any_delivery :: claim_options where
  "any_delivery \<equiv> \<lparr>co_allowWorktable = True, co_isDeliverable = None, co_principal = None\<rparr>"


end
