(* ===== verification/DeliveryClaims.thy ===== *)
theory DeliveryClaims
  imports DeliveryLeases
begin

text \<open>
  What a claim hands out and when there is something to claim: the scan of \<open>claimThreadDelivery\<close> against
  the order of a conversation, and against the time \<open>nextThreadDeliveryEligibleAt\<close> announces.
\<close>

section \<open>The scan\<close>

definition held :: "int \<Rightarrow> delivery \<Rightarrow> bool" where
  "held now r \<longleftrightarrow> later_than now (dl_nextAttemptAt r) \<or> (dl_state r \<noteq> Queued \<and> later_than now (dl_leaseExpiresAt r))"

definition spent :: "delivery \<Rightarrow> bool" where
  "spent r \<longleftrightarrow> dl_state r \<noteq> Queued \<and> dl_attempts r \<ge> MAX_ATTEMPTS"

lemma blocking_key_released [simp]: "blocking_key (released s e now r) = blocking_key r"
  by (simp add: blocking_key_def released_def)

lemma skipped_released_failed [simp]: "skipped opts policy p (released Failed e now r)"
  by (simp add: skipped_def terminal_def released_def)

text \<open>The scan found one: what it passed is unchanged or failed for good, and nothing of it holds the one it found back.\<close>

definition finds ::
    "claim_options \<Rightarrow> grok_policy option \<Rightarrow> string \<Rightarrow> int \<Rightarrow> (string \<times> string \<times> string) set \<Rightarrow> delivery list \<Rightarrow> delivery \<Rightarrow> delivery list
     \<Rightarrow> delivery list \<Rightarrow> delivery list \<Rightarrow> bool" where
  "finds opts policy p now blocked xs q ys rs xs' \<longleftrightarrow>
     rs = xs @ q # ys \<and> \<not> skipped opts policy p q \<and> blocking_key q \<notin> blocked \<and> \<not> held now q \<and> \<not> spent q
     \<and> set xs' \<subseteq> set xs \<union> range (released Failed (Some EXHAUSTED) now)
     \<and> (\<forall>x \<in> set xs'. blocking_key x = blocking_key q \<longrightarrow> skipped opts policy p x)"

lemma finds_Cons:
  assumes "finds opts policy p now b xs q ys rs xs'" "x = r \<or> x = released Failed (Some EXHAUSTED) now r" "blocked \<subseteq> b"
    and "blocking_key x \<in> b \<or> skipped opts policy p x"
  shows "finds opts policy p now blocked (r # xs) q ys (r # rs) (x # xs')"
  using assms unfolding finds_def by auto

lemma claim_scan_Some:
  "claim_scan opts policy p now random blocked rs = (rs', Some c) \<Longrightarrow>
     \<exists>xs q ys xs'. finds opts policy p now blocked xs q ys rs xs' \<and> rs' = xs' @ c # ys \<and> c = leased policy now random q"
proof (induction rs arbitrary: blocked rs')
  case (Cons r rs)
  have onward: ?case
    if "claim_scan opts policy p now random b rs = (t, Some c)" "rs' = x # t" "x = r \<or> x = released Failed (Some EXHAUSTED) now r"
      "blocked \<subseteq> b" "blocking_key x \<in> b \<or> skipped opts policy p x" for b t x
    using Cons.IH [OF that(1)] finds_Cons [OF _ that(3-5)] that(2) by (metis append_Cons)
  consider (pass) "skipped opts policy p r \<or> blocking_key r \<in> blocked"
    | (wait) "\<not> skipped opts policy p r" "blocking_key r \<notin> blocked" "held now r"
    | (fails) "\<not> skipped opts policy p r" "blocking_key r \<notin> blocked" "\<not> held now r" "spent r"
    | (hit) "\<not> skipped opts policy p r" "blocking_key r \<notin> blocked" "\<not> held now r" "\<not> spent r"
    by blast
  then show ?case
  proof cases
    case pass
    with Cons.prems obtain t where "claim_scan opts policy p now random blocked rs = (t, Some c)" "rs' = r # t"
      by (auto simp: Let_def case_prod_beta prod_eq_iff)
    then show ?thesis by (rule onward) (use pass in auto)
  next
    case wait
    with Cons.prems obtain t where "claim_scan opts policy p now random (insert (blocking_key r) blocked) rs = (t, Some c)" "rs' = r # t"
      by (auto simp: held_def Let_def case_prod_beta prod_eq_iff)
    then show ?thesis by (rule onward) auto
  next
    case fails
    with Cons.prems obtain t where "claim_scan opts policy p now random blocked rs = (t, Some c)"
      "rs' = released Failed (Some EXHAUSTED) now r # t"
      by (auto simp: held_def spent_def Let_def case_prod_beta prod_eq_iff)
    then show ?thesis by (rule onward) auto
  next
    case hit
    with Cons.prems have "rs' = leased policy now random r # rs" "c = leased policy now random r"
      by (auto simp: held_def spent_def)
    with hit have "finds opts policy p now blocked [] r rs (r # rs) [] \<and> rs' = [] @ c # rs \<and> c = leased policy now random r"
      by (simp add: finds_def)
    then show ?thesis by blast
  qed
qed simp

section \<open>Order\<close>

lemma threadLocationKey_inj [simp]: "threadLocationKey k = threadLocationKey l \<longleftrightarrow> k = l"
  by (auto simp: threadLocationKey_def split: thread_location.splits)

lemma blocking_key_leased [simp]: "blocking_key (leased policy now random r) = blocking_key r"
  by (simp add: blocking_key_def leased_def)

lemma leased_simps [simp]:
  "dl_participant (leased policy now random r) = dl_participant r" "dl_state (leased policy now random r) = Leased"
  "dl_lease (leased policy now random r) = Some (lease_text random)" "dl_attempts (leased policy now random r) = dl_attempts r + 1"
  by (simp_all add: leased_def)

text \<open>The file a claim scans: a Grok bot's overdue runs are ended first.\<close>

definition claim_base :: "grok_policy option \<Rightarrow> string \<Rightarrow> int \<Rightarrow> delivery_file \<Rightarrow> delivery_file" where
  "claim_base policy p now f = (if policy = None then f else expireManaged p now True f)"

lemma claim_unfold:
  "claimThreadDelivery now random opts policy p f =
     (let g = claim_base policy p now f; scan = claim_scan opts policy p now random {} (deliveries g)
      in if (case policy of Some pol \<Rightarrow> \<not> may_claim opts pol p g | None \<Rightarrow> False) then (None, g)
         else (map_option claimed_of (snd scan), g\<lparr>deliveries := fst scan\<rparr>))"
  by (simp add: claimThreadDelivery_def claim_base_def Let_def case_prod_beta)

text \<open>A delivery of a conversation is passed over only when it is finished or not for this way of claiming.\<close>

lemma skipped_in_conversation:
  assumes "skipped opts policy p x" "\<not> skipped opts policy p q" "blocking_key x = blocking_key q" "dl_participant x = p"
  shows "terminal x \<or> (policy = None \<and> dl_managed x) \<or> (\<exists>g. policy = Some g \<and> \<not> gp_verified g)"
  using assms by (auto simp: skipped_def blocking_key_def split: option.splits)

lemma not_active_failed: "\<not> active (released Failed e now r)"
  by (simp add: active_def released_def)



section \<open>When there is something to claim\<close>

lemma eligible_scan_le: "\<exists>t. eligible_scan opts policy p now blocked (Some m) rs = Some t \<and> t \<le> m"
proof (induction rs arbitrary: blocked m)
  case (Cons r rs)
  show ?case
  proof (cases "skipped opts policy p r \<or> blocking_key r \<in> blocked")
    case True
    with Cons.IH [of blocked m] show ?thesis by auto
  next
    case False
    with Cons.IH [of "insert (blocking_key r) blocked" "min m (boundary now r)"] show ?thesis by auto
  qed
qed simp

lemma held_before_boundary: "now \<le> t \<Longrightarrow> t < boundary now r \<Longrightarrow> held t r"
  by (auto simp: boundary_def held_def later_than_def split: option.splits if_splits)

lemma boundary_while_held:
  assumes "well_formed r" "\<not> terminal r" "now \<le> t" "held t r" shows "t < boundary now r"
  using assms by (auto simp: boundary_def held_def later_than_def well_formed_def active_not split: option.splits)

lemma claim_scan_pass:
  "skipped opts policy p r \<or> blocking_key r \<in> blocked \<Longrightarrow>
     claim_scan opts policy p now random blocked (r # rs) = apfst ((#) r) (claim_scan opts policy p now random blocked rs)"
  by (auto simp: case_prod_beta Let_def apfst_def map_prod_def)

lemma claim_scan_held:
  "\<not> (skipped opts policy p r \<or> blocking_key r \<in> blocked) \<Longrightarrow> held now r \<Longrightarrow>
     claim_scan opts policy p now random blocked (r # rs) = apfst ((#) r) (claim_scan opts policy p now random (insert (blocking_key r) blocked) rs)"
  by (auto simp: held_def case_prod_beta Let_def apfst_def map_prod_def)

lemma claim_scan_acts:
  "\<not> (skipped opts policy p r \<or> blocking_key r \<in> blocked) \<Longrightarrow> \<not> held now r \<Longrightarrow>
     fst (claim_scan opts policy p now random blocked (r # rs)) \<noteq> r # rs"
  by (auto simp: held_def case_prod_beta Let_def released_def leased_def dest: arg_cong [where f = dl_revision])

lemma eligible_scan_consider:
  "\<not> (skipped opts policy p r \<or> blocking_key r \<in> blocked) \<Longrightarrow>
     eligible_scan opts policy p now blocked soonest (r # rs) =
       eligible_scan opts policy p now (insert (blocking_key r) blocked)
         (Some (case soonest of None \<Rightarrow> boundary now r | Some t \<Rightarrow> min t (boundary now r))) rs"
  by simp

lemma early_claim_scan:
  assumes "now \<le> t" "case eligible_scan opts policy p now blocked soonest rs of None \<Rightarrow> True | Some e \<Rightarrow> t < e"
  shows "claim_scan opts policy p t random blocked rs = (rs, None)"
  using assms(2)
proof (induction rs arbitrary: blocked soonest)
  case (Cons r rs)
  show ?case
  proof (cases "skipped opts policy p r \<or> blocking_key r \<in> blocked")
    case True
    with Cons.prems Cons.IH [of blocked soonest] show ?thesis by (simp add: claim_scan_pass del: claim_scan.simps)
  next
    case False
    define m where "m = (case soonest of None \<Rightarrow> boundary now r | Some t \<Rightarrow> min t (boundary now r))"
    have "m \<le> boundary now r" by (simp add: m_def split: option.split)
    moreover obtain e where e: "eligible_scan opts policy p now (insert (blocking_key r) blocked) (Some m) rs = Some e" "e \<le> m"
      using eligible_scan_le by blast
    moreover from False e(1) Cons.prems have "t < e" by (simp add: eligible_scan_consider m_def)
    ultimately have "t < boundary now r" by simp
    with assms(1) have "held t r" by (rule held_before_boundary)
    with False Cons.IH [of "insert (blocking_key r) blocked" "Some m"] e(1) \<open>t < e\<close> show ?thesis
      by (simp add: claim_scan_held del: claim_scan.simps)
  qed
qed simp

lemma due_claim_scan:
  assumes "now \<le> t" "list_all well_formed rs" "eligible_scan opts policy p now blocked soonest rs = Some e" "e \<le> t"
    and "case soonest of None \<Rightarrow> True | Some s \<Rightarrow> t < s"
  shows "fst (claim_scan opts policy p t random blocked rs) \<noteq> rs"
  using assms(2-)
proof (induction rs arbitrary: blocked soonest)
  case (Cons r rs)
  show ?case
  proof (cases "skipped opts policy p r \<or> blocking_key r \<in> blocked")
    case True
    with Cons.prems Cons.IH [of blocked soonest] show ?thesis by (auto simp: claim_scan_pass simp del: claim_scan.simps)
  next
    case False
    show ?thesis
    proof (cases "held t r")
      case True
      define m where "m = (case soonest of None \<Rightarrow> boundary now r | Some t \<Rightarrow> min t (boundary now r))"
      from True False Cons.prems(1) assms(1) have "t < boundary now r"
        by (auto intro!: boundary_while_held dest: not_skipped)
      with Cons.prems(4) have "t < m" by (simp add: m_def split: option.splits)
      moreover from False Cons.prems(2) have "eligible_scan opts policy p now (insert (blocking_key r) blocked) (Some m) rs = Some e"
        by (simp add: eligible_scan_consider m_def del: eligible_scan.simps)
      ultimately have "fst (claim_scan opts policy p t random (insert (blocking_key r) blocked) rs) \<noteq> rs"
        using Cons.prems by (intro Cons.IH [of _ "Some m"]) auto
      with False True show ?thesis by (simp add: claim_scan_held del: claim_scan.simps)
    next
      case held: False
      from claim_scan_acts [OF False held] show ?thesis .
    qed
  qed
qed (simp split: option.splits)

text \<open>Ending overdue runs first changes the file exactly when there is one.\<close>

lemma expireManaged_same: "\<not> list_ex (overdue p now True) (deliveries f) \<Longrightarrow> expireManaged p now True f = f"
proof -
  assume "\<not> list_ex (overdue p now True) (deliveries f)"
  then have "map (\<lambda>r. if overdue p now True r then (released Failed (Some UNCONFIRMED) now r)\<lparr>dl_managed := True\<rparr> else r) (deliveries f) = deliveries f"
    by (intro map_idI) (auto simp: list_ex_iff)
  then show ?thesis by (simp add: expireManaged_def)
qed

lemma expireManaged_ends:
  assumes "r \<in> set (deliveries f)" "overdue p now True r"
  shows "\<exists>q \<in> set (deliveries (expireManaged p now True f)). dl_participant q = p \<and> unconfirmed q" and "expireManaged p now True f \<noteq> f"
proof -
  let ?e = "\<lambda>r. (released Failed (Some UNCONFIRMED) now r)\<lparr>dl_managed := True\<rparr>"
  have "?e r \<in> set (deliveries (expireManaged p now True f))" using assms by (auto simp: expireManaged_def)
  moreover have "dl_participant (?e r) = p" "unconfirmed (?e r)"
    using assms(2) by (auto simp: released_def overdue_def unconfirmed_def UNCONFIRMED_def)
  ultimately show "\<exists>q \<in> set (deliveries (expireManaged p now True f)). dl_participant q = p \<and> unconfirmed q" by blast
  show "expireManaged p now True f \<noteq> f"
  proof
    assume "expireManaged p now True f = f"
    from arg_cong [OF this, of deliveries] have "map (\<lambda>r. if overdue p now True r then ?e r else r) (deliveries f) = map (\<lambda>r. r) (deliveries f)"
      by (simp add: expireManaged_def)
    with assms have "?e r = r" unfolding map_eq_conv by auto
    then have "dl_revision (?e r) = dl_revision r" by simp
    then show False by (simp add: released_def)
  qed
qed

lemma expireManaged_keeps:
  assumes "r \<in> set (deliveries f)" "dl_participant r = p" "active r \<or> unconfirmed r"
  shows "\<exists>q \<in> set (deliveries (expireManaged p now True f)). dl_participant q = p \<and> (active q \<or> unconfirmed q)"
proof (cases "overdue p now True r")
  case True
  from expireManaged_ends(1) [OF assms(1) this] show ?thesis by blast
next
  case False
  with assms(1) have "r \<in> set (deliveries (expireManaged p now True f))" by (force simp: expireManaged_def)
  with assms show ?thesis by blast
qed

lemma busy_claims_nothing:
  assumes "policy = Some pol" "r \<in> set (deliveries f)" "dl_participant r = p" "active r \<or> unconfirmed r"
  shows "claimThreadDelivery t random opts policy p f = (None, claim_base policy p t f)"
proof -
  from expireManaged_keeps [OF assms(2-4)] assms(1) have "\<not> may_claim opts pol p (claim_base policy p t f)"
    by (auto simp: may_claim_def list_ex_iff claim_base_def)
  then show ?thesis by (simp add: claim_unfold assms(1))
qed

lemma idle_base:
  assumes "\<not> list_ex active (filter (\<lambda>r. dl_participant r = p) (deliveries f))" shows "claim_base policy p t f = f"
proof -
  from assms have "\<not> list_ex (overdue p t True) (deliveries f)" by (auto simp: list_ex_iff overdue_def)
  then show ?thesis by (simp add: claim_base_def expireManaged_same)
qed

lemma same_deliveries: "f\<lparr>deliveries := ds\<rparr> = f \<Longrightarrow> ds = deliveries f"
  by (drule arg_cong [where f = deliveries]) simp

lemma idle_claim:
  assumes "\<not> list_ex active (filter (\<lambda>r. dl_participant r = p) (deliveries f))"
    and "case policy of Some pol \<Rightarrow> may_claim opts pol p f | None \<Rightarrow> True"
  shows "claimThreadDelivery t random opts policy p f =
    (map_option claimed_of (snd (claim_scan opts policy p t random {} (deliveries f))),
     f\<lparr>deliveries := fst (claim_scan opts policy p t random {} (deliveries f))\<rparr>)"
  using assms(2) by (simp add: claim_unfold Let_def idle_base [OF assms(1)] split: option.splits)

lemma plain_claim:
  "claimThreadDelivery t random opts None p f =
    (map_option claimed_of (snd (claim_scan opts None p t random {} (deliveries f))),
     f\<lparr>deliveries := fst (claim_scan opts None p t random {} (deliveries f))\<rparr>)"
  by (simp add: claim_unfold Let_def claim_base_def)

definition waits_right :: "int \<Rightarrow> int option \<Rightarrow> claimed_delivery option \<times> delivery_file \<Rightarrow> delivery_file \<Rightarrow> bool" where
  "waits_right t announced claim f \<longleftrightarrow>
     (case announced of None \<Rightarrow> fst claim = None | Some e \<Rightarrow> if t < e then fst claim = None else snd claim \<noteq> f)"

lemma scan_waits_right:
  assumes "now \<le> t" "list_all well_formed (deliveries f)"
  shows "waits_right t (eligible_scan opts policy p now {} None (deliveries f))
    (map_option claimed_of (snd (claim_scan opts policy p t random {} (deliveries f))),
     f\<lparr>deliveries := fst (claim_scan opts policy p t random {} (deliveries f))\<rparr>) f"
proof -
  define e where "e = eligible_scan opts policy p now {} None (deliveries f)"
  have early: "snd (claim_scan opts policy p t random {} (deliveries f)) = None" if "case e of None \<Rightarrow> True | Some e \<Rightarrow> t < e"
    using early_claim_scan [OF assms(1), of opts policy p "{}" None "deliveries f"] that by (simp add: e_def)
  have due: "f\<lparr>deliveries := fst (claim_scan opts policy p t random {} (deliveries f))\<rparr> \<noteq> f" if "e = Some s" "s \<le> t" for s
    using due_claim_scan [OF assms that(1) [unfolded e_def] that(2)] by (auto dest: same_deliveries)
  from early due show ?thesis by (auto simp: waits_right_def simp flip: e_def split: option.split)
qed

lemma eligible_under_policy:
  "nextThreadDeliveryEligibleAt now opts (Some pol) p f =
     (let mine = filter (\<lambda>r. dl_participant r = p) (deliveries f)
      in if \<not> gp_enabled pol \<or> gp_error pol \<or> list_ex unconfirmed mine then None
         else case List.find active mine of
                Some r \<Rightarrow> Some (case dl_leaseExpiresAt r of Some t \<Rightarrow> t | None \<Rightarrow> now)
              | None \<Rightarrow> eligible_scan opts (Some pol) p now {} None (deliveries f))"
  by (auto simp: nextThreadDeliveryEligibleAt_def Let_def split: option.split)

text \<open>
  C23. A connector that sleeps until the announced time loses nothing and is not woken for nothing: in every
  reachable file, before that time (or ever, where none is announced) a claim hands out nothing, and from then
  on a claim by the connection the deliveries belong to has something to do: it hands one out or settles one
  that is past its attempts or its deadline.
\<close>

theorem announced_time_is_right:
  assumes "f = fold delivery_step es emptyFile" "now \<le> t"
    and "\<forall>pol. policy = Some pol \<longrightarrow> co_principal opts = Some (gp_principal pol) \<or> co_principal opts = None"
  shows "case nextThreadDeliveryEligibleAt now opts policy p f of
      None \<Rightarrow> fst (claimThreadDelivery t random opts policy p f) = None
    | Some e \<Rightarrow> if t < e then fst (claimThreadDelivery t random opts policy p f) = None
                else snd (claimThreadDelivery t random opts policy p f) \<noteq> f"
proof -
  have wf: "list_all well_formed (deliveries f)" using reached_ok assms(1) by (simp add: file_ok_def)
  let ?mine = "filter (\<lambda>r. dl_participant r = p) (deliveries f)"
  have "waits_right t (nextThreadDeliveryEligibleAt now opts policy p f) (claimThreadDelivery t random opts policy p f) f"
  proof (cases policy)
    case None
    have "nextThreadDeliveryEligibleAt now opts None p f = eligible_scan opts None p now {} None (deliveries f)"
      by (simp add: nextThreadDeliveryEligibleAt_def Let_def)
    then show ?thesis unfolding None plain_claim using scan_waits_right [OF assms(2) wf] by simp
  next
    case (Some pol)
    consider (off) "\<not> gp_enabled pol \<or> gp_error pol"
      | (unclear) "gp_enabled pol" "\<not> gp_error pol" "list_ex unconfirmed ?mine"
      | (running) r where "gp_enabled pol" "\<not> gp_error pol" "\<not> list_ex unconfirmed ?mine" "List.find active ?mine = Some r"
      | (idle) "gp_enabled pol" "\<not> gp_error pol" "\<not> list_ex unconfirmed ?mine" "List.find active ?mine = None"
      by (cases "List.find active ?mine") auto
    then show ?thesis
    proof cases
      case off
      then show ?thesis by (simp add: waits_right_def Some eligible_under_policy claim_unfold may_claim_def)
    next
      case unclear
      then obtain r where "r \<in> set (deliveries f)" "dl_participant r = p" "unconfirmed r" by (auto simp: list_ex_iff)
      with unclear show ?thesis
        by (simp add: waits_right_def Some eligible_under_policy busy_claims_nothing [OF refl])
    next
      case running
      then have r: "r \<in> set (deliveries f)" "dl_participant r = p" "active r" by (auto simp: find_Some_iff dest: nth_mem)
      with wf obtain e where e: "dl_leaseExpiresAt r = Some e" by (auto simp: list_all_iff well_formed_def)
      have "overdue p t True r" if "\<not> t < e" using that e r by (simp add: overdue_def)
      from expireManaged_ends(2) [OF r(1) this] have "\<not> t < e \<Longrightarrow> expireManaged p t True f \<noteq> f" by blast
      with running r e show ?thesis
        by (simp add: waits_right_def Some eligible_under_policy busy_claims_nothing [OF refl r(1)] claim_base_def)
    next
      case idle
      then have none: "\<not> list_ex active ?mine" by (auto simp: find_None_iff list_ex_iff)
      with idle assms(3) Some have "may_claim opts pol p f" by (auto simp: may_claim_def list_ex_iff)
      with none idle show ?thesis using scan_waits_right [OF assms(2) wf]
        by (simp add: Some eligible_under_policy idle_claim)
    qed
  qed
  then show ?thesis by (simp add: waits_right_def split: option.splits)
qed

text \<open>A leased delivery is announced for the end of its lease, and claimed again then.\<close>

theorem announced_time_is_right_witness:
  "let f = fold delivery_step [Queueing 0 asked, Claiming 0 ''A'' any_delivery None ''ptc_1''] emptyFile
   in nextThreadDeliveryEligibleAt 5 any_delivery None ''ptc_1'' f = Some 60000
      \<and> fst (claimThreadDelivery 59999 ''B'' any_delivery None ''ptc_1'' f) = None
      \<and> snd (claimThreadDelivery 60000 ''B'' any_delivery None ''ptc_1'' f) \<noteq> f"
proof -
  let ?f = "fold delivery_step [Queueing 0 asked, Claiming 0 ''A'' any_delivery None ''ptc_1''] emptyFile"
  have e: "nextThreadDeliveryEligibleAt 5 any_delivery None ''ptc_1'' ?f = Some 60000" by code_simp
  have open_to_all: "\<forall>pol. None = Some pol \<longrightarrow> co_principal any_delivery = Some (gp_principal pol) \<or> co_principal any_delivery = None" by simp
  have "(5 :: int) \<le> 59999" "(5 :: int) \<le> 60000" by simp_all
  from announced_time_is_right [OF refl this(1) open_to_all, of "''B''" "''ptc_1''" "[Queueing 0 asked, Claiming 0 ''A'' any_delivery None ''ptc_1'']"]
    announced_time_is_right [OF refl this(2) open_to_all, of "''B''" "''ptc_1''" "[Queueing 0 asked, Claiming 0 ''A'' any_delivery None ''ptc_1'']"]
  show ?thesis unfolding Let_def e option.case by simp
qed

end
