(* ===== verification/DeliveryFollow.thy ===== *)
theory DeliveryFollow
  imports DeliveryClaims
begin

text \<open>
  How the deliveries follow the threads: what \<open>reconcileThreadDeliveries\<close> leaves open, what it makes of
  every message that asks for a reply, and the revision marks that fence off older views of a thread. Two runs
  show where a delivery that starts over escapes the rules of claiming.
\<close>

section \<open>Marks\<close>

definition marks_le :: "(string \<times> nat) list \<Rightarrow> (string \<times> nat) list \<Rightarrow> bool" where
  "marks_le a b \<longleftrightarrow> (\<forall>k. watermark a k \<le> watermark b k)"

lemma marks_le_refl [simp]: "marks_le a a"
  by (simp add: marks_le_def)

lemma marks_le_trans [trans]: "marks_le a b \<Longrightarrow> marks_le b c \<Longrightarrow> marks_le a c"
  by (auto simp: marks_le_def intro: order_trans)

lemma watermark_update [simp]: "watermark (AList.update k n m) j = (if j = k then n else watermark m j)"
  by (simp add: watermark_def update_conv')

lemma marks_le_update: "watermark m k \<le> n \<Longrightarrow> marks_le m (AList.update k n m)"
  by (simp add: marks_le_def)

lemma raise_snapshots_le: "marks_le m (raise_snapshots p ss m)"
proof (induction ss arbitrary: m)
  case (Cons s ss)
  obtain k t where s: "s = (k, t)" by (cases s)
  define key where "key = canonicalThreadKey p (ts_location t) (ts_thread t)"
  have "marks_le m (if ts_revision t > watermark m key then AList.update key (ts_revision t) m else m)"
    by (simp add: marks_le_update)
  also have "marks_le \<dots> (raise_snapshots p (s # ss) m)"
    using Cons.IH by (simp add: raise_snapshots_def s key_def Let_def)
  finally show ?case .
qed (simp add: raise_snapshots_def)

lemma retire_mark_le: "unwanted p scanned ss wanted m r \<Longrightarrow> marks_le m (retire_mark p ss r m)"
  by (simp add: unwanted_def retire_mark_def marks_le_update)

lemma remove_terminal_le: "marks_le m (snd (remove_terminal p scanned ss wanted m rs))"
  by (induction rs arbitrary: m) (auto simp: Let_def case_prod_beta intro: marks_le_trans retire_mark_le)

lemma retire_open_le: "marks_le m (snd (retire_open now p scanned ss wanted m rs))"
  by (induction rs arbitrary: m) (auto simp: Let_def case_prod_beta intro: marks_le_trans retire_mark_le)

lemma reconcile_one_le: "marks_le (canonicalRevisions f) (canonicalRevisions (reconcile_one now p previous i f))"
  by (simp add: reconcile_one_def Let_def marks_le_update)

lemma reconcile_all_le: "marks_le (canonicalRevisions f) (canonicalRevisions (fold (reconcile_one now p previous) is f))"
  by (induction "is" arbitrary: f) (auto intro: marks_le_trans reconcile_one_le)

section \<open>What stays open\<close>

lemma retire_open_kept:
  assumes "r \<in> set (fst (retire_open now p scanned ss wanted m rs))" "dl_participant r = p" "\<not> terminal r"
    "observed scanned (dl_location r)" "key_of r \<notin> wanted"
  shows "snapshot_revision ss r < watermark (snd (retire_open now p scanned ss wanted m rs)) (canonicalThreadKey p (dl_location r) (dl_thread r))"
  using assms(1)
proof (induction rs arbitrary: m)
  case (Cons q rs)
  show ?case
  proof (cases "\<not> terminal q \<and> unwanted p scanned ss wanted m q")
    case True
    with Cons.prems have "r \<in> set (fst (retire_open now p scanned ss wanted (retire_mark p ss q m) rs))"
      using assms(3) by (auto simp: Let_def case_prod_beta released_def terminal_def)
    with True Cons.IH show ?thesis by (auto simp: Let_def case_prod_beta)
  next
    case False
    with Cons.prems consider "r = q" | "r \<in> set (fst (retire_open now p scanned ss wanted m rs))"
      by (auto simp: Let_def case_prod_beta)
    then show ?thesis
    proof cases
      case 1
      with False assms have "snapshot_revision ss r < watermark m (canonicalThreadKey p (dl_location r) (dl_thread r))"
        by (auto simp: unwanted_def)
      also have "\<dots> \<le> watermark (snd (retire_open now p scanned ss wanted m rs)) (canonicalThreadKey p (dl_location r) (dl_thread r))"
        using retire_open_le by (simp add: marks_le_def)
      finally show ?thesis using False by (auto simp: Let_def case_prod_beta)
    next
      case 2
      with False Cons.IH show ?thesis by (auto simp: Let_def case_prod_beta)
    qed
  qed
qed simp

lemma key_of_input_changes [simp]: "key_of (input_changes now newer i r) = key_of r"
  using may_become_input_changes [of now None r now newer i] by (simp add: may_become_def)

lemma reconcile_one_from:
  "r \<in> set (deliveries (reconcile_one now p previous i f)) \<Longrightarrow> r \<in> set (deliveries f) \<or> key_of r = input_key i"
  by (auto simp: reconcile_one_def Let_def split: if_splits dest: subsetD [OF update_last_set])

lemma reconcile_all_from:
  "r \<in> set (deliveries (fold (reconcile_one now p previous) is f)) \<Longrightarrow> r \<in> set (deliveries f) \<or> key_of r \<in> input_key ` set is"
  by (induction "is" arbitrary: f) (auto dest: reconcile_one_from)

section \<open>What every input gets\<close>

definition served :: "reconcile_input \<Rightarrow> delivery_file \<Rightarrow> bool" where
  "served i f \<longleftrightarrow>
     (\<exists>r \<in> set (deliveries f). key_of r = input_key i \<and> dl_participant r = ri_participant i \<and> (ri_replied i \<longrightarrow> dl_state r = Replied))"

lemma update_last_other: "r \<in> set xs \<Longrightarrow> \<not> P r \<Longrightarrow> r \<in> set (update_last P g xs)"
  by (induction xs) auto

lemma update_last_hit: "list_ex P xs \<Longrightarrow> \<exists>x \<in> set xs. P x \<and> g x \<in> set (update_last P g xs)"
  by (induction xs) auto

lemma input_changes_serves:
  "dl_participant (input_changes now newer i r) = ri_participant i \<and> (ri_replied i \<longrightarrow> dl_state (input_changes now newer i r) = Replied)"
  by (auto simp: input_changes_def reassigned_def released_def requeued_def)

lemma reconcile_one_serves:
  assumes "watermark (canonicalRevisions f) (canonicalThreadKey p (input_location i) (ri_thread i)) \<le> ri_threadRevision i"
  shows "served i (reconcile_one now p previous i f)"
proof (cases "list_ex (\<lambda>r. key_of r = input_key i) (deliveries f)")
  case True
  define newer where "newer = (ri_threadRevision i > watermark previous (canonicalThreadKey p (input_location i) (ri_thread i)))"
  from update_last_hit [OF True, of "input_changes now newer i"] obtain r where
    "key_of r = input_key i" "input_changes now newer i r \<in> set (update_last (\<lambda>r. key_of r = input_key i) (input_changes now newer i) (deliveries f))"
    by blast
  then show ?thesis using assms True input_changes_serves [of now newer i r]
    unfolding served_def reconcile_one_def Let_def newer_def [symmetric]
    by (intro bexI [of _ "input_changes now newer i r"]) auto
next
  case False
  with assms show ?thesis unfolding served_def reconcile_one_def Let_def
    by (intro bexI [of _ "input_delivery i"]) (auto simp: input_delivery_def new_delivery_def key_of_def input_key_def)
qed

lemma reconcile_one_leaves:
  assumes "served i f" "input_key i \<noteq> input_key j" shows "served i (reconcile_one now p previous j f)"
proof -
  from assms(1) obtain r where r: "r \<in> set (deliveries f)" "key_of r = input_key i" "dl_participant r = ri_participant i"
      "ri_replied i \<longrightarrow> dl_state r = Replied"
    by (auto simp: served_def)
  with assms(2) have "r \<in> set (deliveries (reconcile_one now p previous j f))"
    by (auto simp: reconcile_one_def Let_def intro: update_last_other)
  with r show ?thesis by (auto simp: served_def)
qed

lemma reconcile_all_leaves:
  "served i f \<Longrightarrow> input_key i \<notin> input_key ` set is \<Longrightarrow> served i (fold (reconcile_one now p previous) is f)"
  by (induction "is" arbitrary: f) (auto intro: reconcile_one_leaves)

lemma reconcile_all_serves:
  assumes "i \<in> set is" "distinct (map input_key is)"
    and "watermark (canonicalRevisions (fold (reconcile_one now p previous) is f)) (canonicalThreadKey p (input_location i) (ri_thread i)) \<le> ri_threadRevision i"
  shows "served i (fold (reconcile_one now p previous) is f)"
  using assms
proof (induction "is" arbitrary: f)
  case (Cons j "is")
  show ?case
  proof (cases "i = j")
    case True
    have "marks_le (canonicalRevisions f) (canonicalRevisions (fold (reconcile_one now p previous) (j # is) f))"
      by (rule reconcile_all_le)
    with Cons.prems(3) have "watermark (canonicalRevisions f) (canonicalThreadKey p (input_location i) (ri_thread i)) \<le> ri_threadRevision i"
      unfolding marks_le_def using order_trans by blast
    with True Cons.prems(2) show ?thesis by (auto intro!: reconcile_all_leaves reconcile_one_serves)
  next
    case False
    with Cons show ?thesis by simp
  qed
qed simp

text \<open>The file the retirement phase leaves for the inputs.\<close>

definition retired_file :: "int \<Rightarrow> string \<Rightarrow> reconcile_input list \<Rightarrow> reconcile_options \<Rightarrow> delivery_file \<Rightarrow> delivery_file" where
  "retired_file now p is opts f =
     (let ss = snapshots_of (ro_threads opts); m = raise_snapshots p ss (canonicalRevisions f);
          removed = remove_terminal p (ro_scannedLocations opts) ss (input_key ` set is) m (deliveries f);
          closed = retire_open now p (ro_scannedLocations opts) ss (input_key ` set is) (snd removed) (fst removed)
      in if ro_retireMissing opts then \<lparr>deliveries = fst closed, canonicalRevisions = snd closed\<rparr> else \<lparr>deliveries = deliveries f, canonicalRevisions = m\<rparr>)"

lemma reconcile_unfold:
  "reconcileThreadDeliveries now p is opts f = (Inr look, f') \<Longrightarrow>
     f' = fold (reconcile_one now p (canonicalRevisions f)) is (retired_file now p is opts f)"
  by (auto simp: reconcileThreadDeliveries_def retired_file_def Let_def case_prod_beta split: if_splits)

lemma retired_file_le: "marks_le (canonicalRevisions f) (canonicalRevisions (retired_file now p is opts f))"
proof -
  let ?ss = "snapshots_of (ro_threads opts)"
  note raise_snapshots_le [of "canonicalRevisions f" p ?ss]
  also note remove_terminal_le [of _ p "ro_scannedLocations opts" ?ss "input_key ` set is" "deliveries f"]
  also note retire_open_le [of _ now p "ro_scannedLocations opts" ?ss "input_key ` set is"]
  finally show ?thesis using raise_snapshots_le by (simp add: retired_file_def Let_def)
qed

lemma retired_file_open:
  assumes "ro_retireMissing opts" "r \<in> set (deliveries (retired_file now p is opts f))" "dl_participant r = p" "\<not> terminal r"
    "observed (ro_scannedLocations opts) (dl_location r)" "key_of r \<notin> input_key ` set is"
  shows "snapshot_revision (snapshots_of (ro_threads opts)) r
           < watermark (canonicalRevisions (retired_file now p is opts f)) (canonicalThreadKey p (dl_location r) (dl_thread r))"
  using assms(1,2) retire_open_kept [OF _ assms(3-6)] by (simp add: retired_file_def Let_def)


section \<open>Deliveries that start over\<close>

text \<open>
  The first question is withdrawn, the second one is leased, and then the first one is asked again: it is
  leased too, while the lease of the second still runs. The rule that a conversation has one delivery out
  at a time holds only for what comes later in the file.
\<close>

abbreviation wish :: "string \<Rightarrow> nat \<Rightarrow> reconcile_input" where
  "wish m n \<equiv> \<lparr>ri_message = m, ri_thread = ''t'', ri_location = Some InWorktable, ri_spaceId = None, ri_author = ''ann'',
      ri_participant = ''ptc_1'', ri_identity = None, ri_replied = False, ri_createdAt = 0, ri_repliedAt = None, ri_threadRevision = n\<rparr>"

abbreviation scan_at :: "nat \<Rightarrow> reconcile_options" where
  "scan_at n \<equiv> \<lparr>ro_retireMissing = True, ro_threads = [\<lparr>ts_thread = ''t'', ts_location = InWorktable, ts_revision = n\<rparr>], ro_scannedLocations = None\<rparr>"

lemma two_out_in_one_conversation:
  "let f = fold delivery_step
         [Queueing 0 asked, Queueing 1 (asked\<lparr>qi_message := ''m2''\<rparr>), Reconciling 2 ''ptc_1'' [wish ''m2'' 2] (scan_at 2),
          Claiming 3 ''A'' any_delivery None ''ptc_1'', Reconciling 4 ''ptc_1'' [wish ''m1'' 3, wish ''m2'' 3] (scan_at 3),
          Claiming 5 ''B'' any_delivery None ''ptc_1''] emptyFile
   in map (\<lambda>r. (dl_message r, dl_lease r, dl_leaseExpiresAt r)) (deliveries f)
        = [(''m1'', Some (lease_text ''B''), Some 60005), (''m2'', Some (lease_text ''A''), Some 60003)]
      \<and> list_all (\<lambda>r. blocking_key r = (''worktable'', ''t'', ''idt_1'')) (deliveries f)"
  by code_simp

text \<open>
  A delivery a Grok bot once claimed keeps its mark when the identity is given to another participant: no claim
  of that participant ever finds it, and none is announced.
\<close>

lemma reassigned_from_grok_is_stuck:
  "let f = fold delivery_step
         [Queueing 0 (asked\<lparr>qi_identity := Some ''idt_9''\<rparr>),
          Claiming 1 ''A'' any_delivery
            (Some \<lparr>gp_principal = ''g'', gp_enabled = True, gp_error = False, gp_verified = True, gp_probe = None, gp_executionMinutes = 15\<rparr>) ''ptc_1'',
          Reconciling 2 ''ptc_2'' [(wish ''m1'' 2)\<lparr>ri_participant := ''ptc_2'', ri_identity := Some ''idt_9''\<rparr>] (scan_at 2)] emptyFile
   in map (\<lambda>r. (dl_participant r, dl_state r, dl_managed r)) (deliveries f) = [(''ptc_2'', Queued, True)]
      \<and> fst (claimThreadDelivery 3 ''B'' any_delivery None ''ptc_2'' f) = None
      \<and> nextThreadDeliveryEligibleAt 3 any_delivery None ''ptc_2'' f = None"
  by code_simp


end
