(* ===== verification/DocumentPath.thy ===== *)
theory DocumentPath
  imports JsString
begin

text \<open>
  The grammar of document paths, \<open>packages/server/src/document-path.ts\<close>: what is wrong with a path, its
  canonical form and the key under which two spellings are one path, and what a path is refused for.

  Unicode normalization and lower case are outside; decoding of percent signs is written out. That
  recent results are remembered cannot be seen and is left out.
\<close>

section \<open>The standard library\<close>

record path_library =
  normalizeNFC :: "js_string \<Rightarrow> js_string"
  toLowerCase :: "js_string \<Rightarrow> js_string"

definition percent :: code_unit where "percent = 37"
definition slash :: code_unit where "slash = 47"
definition backslash :: code_unit where "backslash = 92"
definition dot :: code_unit where "dot = 46"

definition hex_digit :: "code_unit \<Rightarrow> int option" where
  "hex_digit u =
     (if 48 \<le> u \<and> u \<le> 57 then Some (uint u - 48) else if 65 \<le> u \<and> u \<le> 70 then Some (uint u - 55)
      else if 97 \<le> u \<and> u \<le> 102 then Some (uint u - 87) else None)"

text \<open>The byte a percent sign and two digits write, at the front of a text.\<close>

definition escaped_byte :: "js_string \<Rightarrow> int option" where
  "escaped_byte us =
     (case us of
        u # a # b # rest \<Rightarrow>
          if u = percent then (case (hex_digit a, hex_digit b) of (Some m, Some n) \<Rightarrow> Some (16 * m + n) | _ \<Rightarrow> None) else None
      | _ \<Rightarrow> None)"

text \<open>How many bytes the encoding of a character takes that starts with this one.\<close>

definition encoding_length :: "int \<Rightarrow> nat option" where
  "encoding_length b =
     (if b < 0x80 then Some 1 else if b < 0xC0 then None else if b < 0xE0 then Some 2 else if b < 0xF0 then Some 3
      else if b < 0xF8 then Some 4 else None)"

fun continuation_bytes :: "nat \<Rightarrow> js_string \<Rightarrow> int \<Rightarrow> int option" where
  "continuation_bytes 0 us acc = Some acc"
| "continuation_bytes (Suc n) us acc =
     (case escaped_byte us of
        Some b \<Rightarrow> if 0x80 \<le> b \<and> b < 0xC0 then continuation_bytes n (drop 3 us) (64 * acc + (b - 0x80)) else None
      | None \<Rightarrow> None)"

text \<open>The code point, unless it is written longer than it need be, too large, or half of a surrogate pair.\<close>

definition escaped_point :: "nat \<Rightarrow> int \<Rightarrow> js_string \<Rightarrow> int option" where
  "escaped_point n b rest =
     (if n = 1 then Some b
      else case continuation_bytes (n - 1) rest (b mod 2 ^ (7 - n)) of
             None \<Rightarrow> None
           | Some p \<Rightarrow>
               if (n = 2 \<and> p < 0x80) \<or> (n = 3 \<and> (p < 0x800 \<or> (0xD800 \<le> p \<and> p \<le> 0xDFFF))) \<or> (n = 4 \<and> (p < 0x10000 \<or> 0x10FFFF < p))
               then None else Some p)"

definition utf16 :: "int \<Rightarrow> js_string" where
  "utf16 p = (if p < 0x10000 then [of_int p]
              else [of_int (0xD800 + (p - 0x10000) div 0x400), of_int (0xDC00 + (p - 0x10000) mod 0x400)])"

text \<open>The character an escape at the front of a text stands for, and how much of the text it takes.\<close>

definition escaped_char :: "js_string \<Rightarrow> (js_string \<times> nat) option" where
  "escaped_char us =
     (case escaped_byte us of
        None \<Rightarrow> None
      | Some b \<Rightarrow>
          (case encoding_length b of
             None \<Rightarrow> None
           | Some n \<Rightarrow> (case escaped_point n b (drop 3 us) of None \<Rightarrow> None | Some p \<Rightarrow> Some (utf16 p, 3 * n))))"

text \<open>\<open>decodeURIComponent\<close>, \<open>None\<close> where it throws.\<close>

function decodeURIComponent :: "js_string \<Rightarrow> js_string option" where
  "decodeURIComponent [] = Some []"
| "decodeURIComponent (u # us) =
     (if u \<noteq> percent then map_option ((#) u) (decodeURIComponent us)
      else (case escaped_char (u # us) of
              None \<Rightarrow> None
            | Some (w, n) \<Rightarrow> map_option ((@) w) (decodeURIComponent (drop (n - 1) us))))"
  by pat_completeness auto
termination by (relation "measure length") auto

section \<open>Analysis\<close>

datatype diagnostic_code =
  EmptyPath | AbsolutePath | Backslash | EmptySegment | DotSegment | Traversal | EncodedSeparator | InvalidEncoding | NulCharacter
| SegmentTooLong | PathTooLong | WindowsReserved | WindowsInvalidCharacter | TrailingDotOrSpace | RegisteredExtension
| NonNormalizedUnicode | IllFormedUnicode | InspectionLimit | EncodingDepth

type_synonym diagnostic = "diagnostic_code \<times> js_string option"

record path_analysis =
  pa_input :: js_string
  canonicalPath :: "js_string option"
  comparisonKey :: "js_string option"
  safe :: bool
  portable :: bool
  diagnostics :: "diagnostic list"

record path_options =
  enforceNewPathGrammar :: bool
  fileName :: bool

definition no_path_options :: path_options where
  "no_path_options = \<lparr>enforceNewPathGrammar = False, fileName = False\<rparr>"

definition DOCUMENT_PATH_MAX_BYTES :: nat where "DOCUMENT_PATH_MAX_BYTES = 1024"
definition DOCUMENT_PATH_SEGMENT_MAX_BYTES :: nat where "DOCUMENT_PATH_SEGMENT_MAX_BYTES = 255"
definition DOCUMENT_PATH_INSPECTION_MAX_BYTES :: nat where "DOCUMENT_PATH_INSPECTION_MAX_BYTES = 4096"
definition DOCUMENT_PATH_MAX_DECODE_PASSES :: nat where "DOCUMENT_PATH_MAX_DECODE_PASSES = 16"

definition UNSAFE_CODES :: "diagnostic_code list" where
  "UNSAFE_CODES = [EmptyPath, AbsolutePath, Backslash, EmptySegment, DotSegment, Traversal, EncodedSeparator, NulCharacter, SegmentTooLong,
     IllFormedUnicode, InspectionLimit, EncodingDepth]"

definition PORTABILITY_CODES :: "diagnostic_code list" where
  "PORTABILITY_CODES = UNSAFE_CODES @ [PathTooLong, WindowsReserved, WindowsInvalidCharacter, TrailingDotOrSpace, RegisteredExtension]"

definition RESERVED_DOCUMENT_SOURCE_SUFFIXES :: "js_string list" where
  "RESERVED_DOCUMENT_SOURCE_SUFFIXES = [js ''.html'', js ''.json'', js ''.md'', js ''.wtdoc'']"

definition FILE_NAME_SUFFIXES :: "js_string list" where
  "FILE_NAME_SUFFIXES = [js ''.json'', js ''.html'']"

definition ascii_lower :: "code_unit \<Rightarrow> code_unit" where
  "ascii_lower u = (if 65 \<le> u \<and> u \<le> 90 then u + 32 else u)"

text \<open>
  \<open>WINDOWS_RESERVED_SEGMENT\<close>: a device name, alone or with an extension. The dot of a pattern matches no line
  break, and the superscript digits one to three count as digits.
\<close>

definition line_break :: "code_unit \<Rightarrow> bool" where
  "line_break u \<longleftrightarrow> u \<in> {0x0A, 0x0D, 0x2028, 0x2029}"

definition DEVICE_NAMES :: "js_string list" where
  "DEVICE_NAMES = [js ''con'', js ''prn'', js ''aux'', js ''nul'']
     @ concat (map (\<lambda>d. [js ''com'' @ [d], js ''lpt'' @ [d]]) ([49, 50, 51, 52, 53, 54, 55, 56, 57] @ [0xB9, 0xB2, 0xB3]))"

definition windows_reserved :: "js_string \<Rightarrow> bool" where
  "windows_reserved s \<longleftrightarrow>
     list_ex (\<lambda>name. take (length name) (map ascii_lower s) = name
       \<and> (case drop (length name) s of [] \<Rightarrow> True | u # us \<Rightarrow> u = dot \<and> list_all (\<lambda>v. \<not> line_break v) us)) DEVICE_NAMES"

definition WINDOWS_INVALID_SEGMENT_CHARACTER :: "code_unit list" where
  "WINDOWS_INVALID_SEGMENT_CHARACTER = js ''<>:|?*'' @ [34]"

text \<open>\<open>ENCODED_SEPARATOR\<close>: a percent sign and the digits of a slash or a backslash, in either case.\<close>

fun encoded_separator :: "js_string \<Rightarrow> bool" where
  "encoded_separator (u # a # b # rest) \<longleftrightarrow>
     (u = percent \<and> ((a = 50 \<and> (b = 70 \<or> b = 102)) \<or> (a = 53 \<and> (b = 67 \<or> b = 99)))) \<or> encoded_separator (a # b # rest)"
| "encoded_separator _ \<longleftrightarrow> False"

fun isWellFormedUnicode :: "js_string \<Rightarrow> bool" where
  "isWellFormedUnicode [] \<longleftrightarrow> True"
| "isWellFormedUnicode [u] \<longleftrightarrow> \<not> is_high u \<and> \<not> is_low u"
| "isWellFormedUnicode (u # v # us) \<longleftrightarrow>
     (if is_high u then is_low v \<and> isWellFormedUnicode us else \<not> is_low u \<and> isWellFormedUnicode (v # us))"

record decoding =
  decoded :: js_string
  invalid :: bool
  excessive :: bool

fun decode_passes :: "nat \<Rightarrow> js_string \<Rightarrow> decoding" where
  "decode_passes 0 s = \<lparr>decoded = s, invalid = False, excessive = True\<rparr>"
| "decode_passes (Suc n) s =
     (case decodeURIComponent s of
        None \<Rightarrow> \<lparr>decoded = s, invalid = True, excessive = False\<rparr>
      | Some t \<Rightarrow> if t = s then \<lparr>decoded = s, invalid = False, excessive = False\<rparr> else decode_passes n t)"

definition decodeForSafety :: "js_string \<Rightarrow> decoding" where
  "decodeForSafety s = decode_passes DOCUMENT_PATH_MAX_DECODE_PASSES s"

definition pushOnce :: "diagnostic \<Rightarrow> diagnostic list \<Rightarrow> diagnostic list" where
  "pushOnce d ds = (if d \<in> set ds then ds else ds @ [d])"

text \<open>A sequence of \<open>if (...) pushOnce(...)\<close>.\<close>

definition pushes :: "(bool \<times> diagnostic) list \<Rightarrow> diagnostic list \<Rightarrow> diagnostic list" where
  "pushes = fold (\<lambda>(b, d) ds. if b then pushOnce d ds else ds)"

definition segment_checks :: "path_library \<Rightarrow> js_string \<Rightarrow> (bool \<times> diagnostic) list" where
  "segment_checks lib raw =
     (let d = decodeForSafety raw; normalized = normalizeNFC lib raw
      in if raw = [] then [(True, (EmptySegment, Some raw))]
         else [(invalid d, (InvalidEncoding, Some raw)),
               (excessive d, (EncodingDepth, Some raw)),
               (slash \<in> set (decoded d) \<or> backslash \<in> set (decoded d), (EncodedSeparator, Some raw)),
               (decoded d = [dot], (DotSegment, Some raw)),
               (decoded d = [dot, dot], (Traversal, Some raw)),
               (0 \<in> set (decoded d), (NulCharacter, Some raw)),
               (normalized \<noteq> raw, (NonNormalizedUnicode, Some raw)),
               (byteLength normalized > DOCUMENT_PATH_SEGMENT_MAX_BYTES, (SegmentTooLong, Some raw)),
               (windows_reserved normalized, (WindowsReserved, Some raw)),
               (list_ex (\<lambda>u. u \<in> set WINDOWS_INVALID_SEGMENT_CHARACTER \<or> u < 32) normalized, (WindowsInvalidCharacter, Some raw)),
               (normalized \<noteq> [] \<and> last normalized \<in> {dot, 32}, (TrailingDotOrSpace, Some raw))])"

definition path_checks :: "js_string \<Rightarrow> (bool \<times> diagnostic) list" where
  "path_checks input =
     [(\<not> isWellFormedUnicode input, (IllFormedUnicode, None)),
      (input = [], (EmptyPath, None)),
      (take 1 input = [slash], (AbsolutePath, None)),
      (backslash \<in> set input, (Backslash, None)),
      (0 \<in> set input, (NulCharacter, None)),
      (encoded_separator input, (EncodedSeparator, None))]"

definition takes_reserved_suffix :: "path_options \<Rightarrow> js_string \<Rightarrow> bool" where
  "takes_reserved_suffix opts lower \<longleftrightarrow>
     enforceNewPathGrammar opts
     \<and> list_ex (\<lambda>s. \<not> (fileName opts \<and> s \<in> set FILE_NAME_SUFFIXES) \<and> suffix s lower) RESERVED_DOCUMENT_SOURCE_SUFFIXES"

definition analyzeDocumentPath :: "path_library \<Rightarrow> path_options \<Rightarrow> js_string \<Rightarrow> path_analysis" where
  "analyzeDocumentPath lib opts input =
     (if length input > DOCUMENT_PATH_INSPECTION_MAX_BYTES \<or> byteLength input > DOCUMENT_PATH_INSPECTION_MAX_BYTES
      then \<lparr>pa_input = input, canonicalPath = None, comparisonKey = None, safe = False, portable = False, diagnostics = [(InspectionLimit, None)]\<rparr>
      else let segments = split_on slash input;
               canonical = join_with slash (map (normalizeNFC lib) (filter (\<lambda>s. s \<noteq> []) segments));
               ds = pushes (path_checks input @ concat (map (segment_checks lib) segments)
                      @ [(byteLength canonical > DOCUMENT_PATH_MAX_BYTES, (PathTooLong, None)),
                         (takes_reserved_suffix opts (toLowerCase lib canonical), (RegisteredExtension, None))]) [];
               is_safe = list_all (\<lambda>(c, s). c \<notin> set UNSAFE_CODES) ds
           in \<lparr>pa_input = input, canonicalPath = (if is_safe \<and> canonical \<noteq> [] then Some canonical else None),
               comparisonKey = (if is_safe \<and> canonical \<noteq> [] then Some (toLowerCase lib (normalizeNFC lib canonical)) else None),
               safe = is_safe, portable = list_all (\<lambda>(c, s). c \<notin> set PORTABILITY_CODES) ds, diagnostics = ds\<rparr>)"

section \<open>Uses\<close>

definition documentPathKeyIsAtOrBelow :: "js_string \<Rightarrow> js_string \<Rightarrow> bool" where
  "documentPathKeyIsAtOrBelow candidate ancestor \<longleftrightarrow> candidate = ancestor \<or> prefix (ancestor @ [slash]) candidate"

definition documentPathKeyIsBelow :: "js_string \<Rightarrow> js_string \<Rightarrow> bool" where
  "documentPathKeyIsBelow candidate ancestor \<longleftrightarrow> candidate \<noteq> ancestor \<and> documentPathKeyIsAtOrBelow candidate ancestor"

text \<open>The key of a path; an empty one is as good as none where its truth is asked.\<close>

definition path_key :: "path_library \<Rightarrow> js_string \<Rightarrow> js_string option" where
  "path_key lib path = comparisonKey (analyzeDocumentPath lib no_path_options path)"

definition nonempty :: "js_string option \<Rightarrow> bool" where
  "nonempty k \<longleftrightarrow> k \<noteq> None \<and> k \<noteq> Some []"

definition remapDocumentPathPrefix :: "path_library \<Rightarrow> js_string \<Rightarrow> js_string \<Rightarrow> js_string \<Rightarrow> js_string option" where
  "remapDocumentPathPrefix lib candidate ancestor replacement =
     (case (path_key lib candidate, path_key lib ancestor) of
        (Some c, Some a) \<Rightarrow>
          if c = [] \<or> a = [] \<or> \<not> documentPathKeyIsAtOrBelow c a then None
          else Some (join_with slash (replacement # drop (length (split_on slash ancestor)) (split_on slash candidate)))
      | _ \<Rightarrow> None)"

definition parseNewDocumentPath :: "path_library \<Rightarrow> js_string \<Rightarrow> path_analysis + js_string \<times> js_string" where
  "parseNewDocumentPath lib input =
     (let a = analyzeDocumentPath lib \<lparr>enforceNewPathGrammar = True, fileName = False\<rparr> input
      in case (canonicalPath a, comparisonKey a) of
           (Some p, Some k) \<Rightarrow> if \<not> safe a \<or> \<not> portable a \<or> p = [] \<or> k = [] then Inl a else Inr (p, k)
         | _ \<Rightarrow> Inl a)"

datatype refusal = HiddenName | UnsafePath | NotPortable "diagnostic_code option" | DocName bool

definition isHiddenName :: "js_string \<Rightarrow> bool" where
  "isHiddenName name \<longleftrightarrow> take 1 name = [dot]"

definition pathIsHidden :: "js_string \<Rightarrow> bool" where
  "pathIsHidden path \<longleftrightarrow> list_ex isHiddenName (concat (map (split_on slash) (split_on backslash path)))"

definition pathRefusal :: "path_library \<Rightarrow> js_string \<Rightarrow> refusal option" where
  "pathRefusal lib path =
     (if \<not> safe (analyzeDocumentPath lib no_path_options path) then Some UnsafePath
      else if pathIsHidden path then Some HiddenName else None)"

definition NOT_PORTABLE_CODES :: "diagnostic_code list" where
  "NOT_PORTABLE_CODES = [PathTooLong, WindowsReserved, WindowsInvalidCharacter, TrailingDotOrSpace]"

definition newPathRefusal :: "path_library \<Rightarrow> bool \<Rightarrow> js_string \<Rightarrow> refusal option" where
  "newPathRefusal lib is_file path =
     (let a = analyzeDocumentPath lib \<lparr>enforceNewPathGrammar = True, fileName = is_file\<rparr> path
      in case pathRefusal lib path of
           Some r \<Rightarrow> Some r
         | None \<Rightarrow>
             if list_ex (\<lambda>(c, s). c = RegisteredExtension) (diagnostics a) then Some (DocName is_file)
             else (case List.find (\<lambda>(c, s). c \<in> set NOT_PORTABLE_CODES) (diagnostics a) of
                     Some (c, s) \<Rightarrow> Some (NotPortable (Some c))
                   | None \<Rightarrow> if \<not> portable a \<or> canonicalPath a \<noteq> Some path then Some (NotPortable None) else None))"

section \<open>A safe path stays where it is\<close>

lemma pushes_set: "set (pushes cs ds) = set ds \<union> {d. (True, d) \<in> set cs}"
  unfolding pushes_def by (induction cs arbitrary: ds) (auto simp: pushOnce_def split: if_splits)

lemma safe_checks:
  assumes "safe (analyzeDocumentPath lib opts input)"
  shows "length input \<le> DOCUMENT_PATH_INSPECTION_MAX_BYTES"
    and "s \<in> set (split_on slash input) \<Longrightarrow> (True, (c, r)) \<in> set (segment_checks lib s) \<Longrightarrow> c \<notin> set UNSAFE_CODES"
    and "(True, (c, r)) \<in> set (path_checks input) \<Longrightarrow> c \<notin> set UNSAFE_CODES"
proof -
  let ?canonical = "join_with slash (map (normalizeNFC lib) (filter (\<lambda>s. s \<noteq> []) (split_on slash input)))"
  let ?cs = "path_checks input @ concat (map (segment_checks lib) (split_on slash input))
     @ [(byteLength ?canonical > DOCUMENT_PATH_MAX_BYTES, (PathTooLong, None)),
        (takes_reserved_suffix opts (toLowerCase lib ?canonical), (RegisteredExtension, None))]"
  from assms have short: "\<not> (length input > DOCUMENT_PATH_INSPECTION_MAX_BYTES \<or> byteLength input > DOCUMENT_PATH_INSPECTION_MAX_BYTES)"
    by (auto simp: analyzeDocumentPath_def split: if_splits)
  then show "length input \<le> DOCUMENT_PATH_INSPECTION_MAX_BYTES" by simp
  from assms short have "list_all (\<lambda>(c, s). c \<notin> set UNSAFE_CODES) (pushes ?cs [])"
    by (simp add: analyzeDocumentPath_def Let_def)
  then have all: "(True, (c, r)) \<in> set ?cs \<Longrightarrow> c \<notin> set UNSAFE_CODES" for c r
    unfolding list_all_iff pushes_set by blast
  show "s \<in> set (split_on slash input) \<Longrightarrow> (True, (c, r)) \<in> set (segment_checks lib s) \<Longrightarrow> c \<notin> set UNSAFE_CODES"
    using all by auto
  show "(True, (c, r)) \<in> set (path_checks input) \<Longrightarrow> c \<notin> set UNSAFE_CODES" using all by auto
qed

text \<open>Every way of decoding a segment further, as often as one likes.\<close>

fun decodings :: "nat \<Rightarrow> js_string \<Rightarrow> js_string option" where
  "decodings 0 s = Some s"
| "decodings (Suc n) s = (case decodeURIComponent s of None \<Rightarrow> None | Some t \<Rightarrow> decodings n t)"

lemma decodings_fixed: "decodeURIComponent s = Some s \<Longrightarrow> decodings n s = Some s"
  by (induction n) auto

text \<open>Where the passes come to an end, they end at what every decoding leads to.\<close>

lemma decodings_meet:
  "\<not> excessive (decode_passes n s) \<Longrightarrow> decodings m s = Some t \<Longrightarrow> \<exists>k. decodings k t = Some (decoded (decode_passes n s))"
proof (induction n arbitrary: s m t)
  case (Suc n)
  show ?case
  proof (cases "decodeURIComponent s")
    case None
    with Suc.prems have "t = s" by (cases m) auto
    with None show ?thesis by (auto intro: exI [of _ 0])
  next
    case (Some u)
    show ?thesis
    proof (cases "u = s")
      case True
      with Some Suc.prems(2) have "t = s" by (simp add: decodings_fixed)
      with Some True show ?thesis by (auto intro: exI [of _ 0])
    next
      case False
      with Some Suc.prems(1) have go: "\<not> excessive (decode_passes n u)" "decode_passes (Suc n) s = decode_passes n u" by auto
      show ?thesis
      proof (cases m)
        case 0
        have "decodings 0 u = Some u" by simp
        from Suc.IH [OF go(1) this] obtain k where "decodings k u = Some (decoded (decode_passes n u))" by blast
        with 0 Some Suc.prems(2) go(2) show ?thesis by (auto intro!: exI [of _ "Suc k"])
      next
        case (Suc m')
        with Some Suc.prems(2) have "decodings m' u = Some t" by simp
        from Suc.IH [OF go(1) this] go(2) show ?thesis by simp
      qed
    qed
  qed
qed simp

text \<open>Decoding takes away percent signs and hexadecimal digits only.\<close>

definition plain :: "code_unit \<Rightarrow> bool" where
  "plain u \<longleftrightarrow> u \<noteq> percent \<and> hex_digit u = None"

lemma escaped_byte_takes: "escaped_byte us = Some b \<Longrightarrow> \<forall>u \<in> set (take 3 us). \<not> plain u"
  by (auto simp: escaped_byte_def plain_def split: list.splits if_splits option.splits)

lemma take_3_Suc: "take (3 * Suc n) us = take 3 us @ take (3 * n) (drop 3 us)"
  by (simp add: take_add [symmetric] add.commute [of 3])

lemma continuation_bytes_take: "continuation_bytes n us acc = Some p \<Longrightarrow> \<forall>u \<in> set (take (3 * n) us). \<not> plain u"
proof (induction n us acc rule: continuation_bytes.induct)
  case (2 n us acc)
  then show ?case unfolding take_3_Suc by (auto split: option.splits if_splits dest: escaped_byte_takes)
qed simp

lemma escaped_char_takes:
  assumes "escaped_char us = Some (w, n)" shows "\<forall>u \<in> set (take n us). \<not> plain u" "n \<noteq> 0" "w \<noteq> []"
proof -
  from assms obtain b m p where *: "escaped_byte us = Some b" "encoding_length b = Some m" "escaped_point m b (drop 3 us) = Some p"
      "w = utf16 p" "n = 3 * m"
    by (auto simp: escaped_char_def split: option.splits)
  from *(2) obtain k where m: "m = Suc k" by (auto simp: encoding_length_def split: if_splits)
  have "\<forall>u \<in> set (take (3 * k) (drop 3 us)). \<not> plain u"
  proof (cases "k = 0")
    case False
    with *(3) m obtain q where "continuation_bytes k (drop 3 us) (b mod 2 ^ (6 - k)) = Some q"
      by (auto simp: escaped_point_def split: option.splits)
    then show ?thesis by (rule continuation_bytes_take)
  qed simp
  with escaped_byte_takes [OF *(1)] show "\<forall>u \<in> set (take n us). \<not> plain u" unfolding *(5) m take_3_Suc by auto
  show "n \<noteq> 0" "w \<noteq> []" using *(4,5) m by (auto simp: utf16_def)
qed

lemma decode_keeps_plain: "decodeURIComponent us = Some vs \<Longrightarrow> u \<in> set us \<Longrightarrow> plain u \<Longrightarrow> u \<in> set vs"
proof (induction us arbitrary: vs rule: decodeURIComponent.induct)
  case (2 v us)
  show ?case
  proof (cases "v = percent")
    case False
    with 2 show ?thesis by auto
  next
    case True
    with "2.prems"(1) obtain w n ws where e: "escaped_char (v # us) = Some (w, n)" "decodeURIComponent (drop (n - 1) us) = Some ws" "vs = w @ ws"
      by (auto split: option.splits)
    have "v # us = take n (v # us) @ drop (n - 1) us" using escaped_char_takes(2) [OF e(1)] by (cases n) auto
    with "2.prems"(2,3) escaped_char_takes(1) [OF e(1)] have "u \<in> set (drop (n - 1) us)" by (metis Un_iff set_append)
    with "2.IH"(2) True e "2.prems"(3) show ?thesis by auto
  qed
qed simp

lemma decodings_keep_plain: "decodings n us = Some vs \<Longrightarrow> u \<in> set us \<Longrightarrow> plain u \<Longrightarrow> u \<in> set vs"
  by (induction n us rule: decodings.induct) (auto split: option.splits dest: decode_keeps_plain)

lemma decode_nonempty: "decodeURIComponent us = Some vs \<Longrightarrow> us \<noteq> [] \<Longrightarrow> vs \<noteq> []"
  by (cases us) (auto split: if_splits option.splits dest: escaped_char_takes(3))

lemma decodings_nonempty: "decodings n us = Some vs \<Longrightarrow> us \<noteq> [] \<Longrightarrow> vs \<noteq> []"
  by (induction n us rule: decodings.induct) (auto split: option.splits dest: decode_nonempty)

lemma decode_dots: "decodeURIComponent [dot] = Some [dot]" "decodeURIComponent [dot, dot] = Some [dot, dot]"
  by code_simp+

text \<open>
  C5. A safe path stays below where it is joined: none of its segments, percent-decoded as often as any reader may
  decode it, is empty, a dot or two dots, or holds a slash, a backslash or a NUL.
\<close>

theorem safe_path_confined:
  assumes "safe (analyzeDocumentPath lib opts input)" "s \<in> set (split_on slash input)" "decodings n s = Some t"
  shows "t \<notin> {[], [dot], [dot, dot]} \<and> slash \<notin> set t \<and> backslash \<notin> set t \<and> 0 \<notin> set t"
proof -
  have fine: "c \<notin> set UNSAFE_CODES" if "(True, (c, r)) \<in> set (segment_checks lib s)" for c r
    using safe_checks(2) [OF assms(1,2) that] .
  have some: "s \<noteq> []"
  proof
    assume "s = []"
    with fine [of EmptySegment "Some s"] show False by (simp add: segment_checks_def UNSAFE_CODES_def)
  qed
  define d where "d = decodeForSafety s"
  have checks: "\<not> excessive d" "slash \<notin> set (decoded d)" "backslash \<notin> set (decoded d)" "decoded d \<noteq> [dot]" "decoded d \<noteq> [dot, dot]"
      "0 \<notin> set (decoded d)"
    using some fine [of EncodingDepth "Some s"] fine [of EncodedSeparator "Some s"] fine [of DotSegment "Some s"]
      fine [of Traversal "Some s"] fine [of NulCharacter "Some s"]
    by (auto simp: segment_checks_def Let_def UNSAFE_CODES_def simp flip: d_def)
  from checks(1) assms(3) obtain k where k: "decodings k t = Some (decoded d)"
    unfolding d_def decodeForSafety_def using decodings_meet by blast
  have "plain slash" "plain backslash" "plain 0" by code_simp+
  with decodings_keep_plain [OF k] checks have "slash \<notin> set t" "backslash \<notin> set t" "0 \<notin> set t" by blast+
  moreover have "t \<noteq> [dot]" using k checks(4) decodings_fixed [OF decode_dots(1)] by auto
  moreover have "t \<noteq> [dot, dot]" using k checks(5) decodings_fixed [OF decode_dots(2)] by auto
  moreover have "t \<noteq> []" using decodings_nonempty [OF assms(3) some] .
  ultimately show ?thesis by simp
qed

text \<open>A library that normalizes nothing and folds ASCII, for concrete paths.\<close>

definition plain_paths :: path_library where
  "plain_paths = \<lparr>normalizeNFC = (\<lambda>s. s), toLowerCase = map ascii_lower\<rparr>"

theorem safe_path_confined_witness:
  "\<not> safe (analyzeDocumentPath plain_paths no_path_options (js ''a/%252e%252E/b''))
   \<and> (case decodings 2 (js ''b%2520c'') of Some t \<Rightarrow> t = js ''b c'' \<and> slash \<notin> set t | None \<Rightarrow> False)"
proof -
  have s: "safe (analyzeDocumentPath plain_paths no_path_options (js ''a/b%2520c''))" by code_simp
  have m: "js ''b%2520c'' \<in> set (split_on slash (js ''a/b%2520c''))" by code_simp
  have d: "decodings 2 (js ''b%2520c'') = Some (js ''b c'')" by code_simp
  have "\<not> safe (analyzeDocumentPath plain_paths no_path_options (js ''a/%252e%252E/b''))" by code_simp
  with safe_path_confined [OF s m d] d show ?thesis by simp
qed

end
