(* ===== verification/DocAliases.thy ===== *)
theory DocAliases
  imports DocumentPath
begin

text \<open>
  The aliases of a Space's documents, \<open>packages/server/src/doc-aliases.ts\<close>: where a document is that was
  once at another path, which paths are taken by that, and how the aliases change when documents move and go.

  An alias set is two maps in insertion order. The indexes the source builds of one, and the caches that
  spare it building them again, follow from the set and are left out; the paths in a set are never empty, so
  the tests of their truth are left out too. A path that is a number keeps its place among the
  others, where an object lists it first. A run that never ends is a failure of its own, \<open>NoReturn\<close>. The
  size of the file text is an argument, as is what is read of the stored file.
\<close>

section \<open>Alias sets\<close>

record doc_aliases =
  exact_aliases :: "(js_string \<times> js_string) list"
  prefix_aliases :: "(js_string \<times> js_string) list"

datatype alias_kind = ExactAlias | PrefixAlias

datatype alias_failure =
  NoReturn | NotCanonical | WouldCycle | TooLarge | ReservedByAlias js_string | AmbiguousTarget | FolderAliasInTheWay | NestedUnderFolderAlias
| RetirementUnsafe | BroaderFolderAlias | Corrupt | CycleOrHops | NotRegular | Unreadable

definition MAX_ALIAS_HOPS :: nat where "MAX_ALIAS_HOPS = 32"
definition DOC_ALIASES_MAX_BYTES :: int where "DOC_ALIASES_MAX_BYTES = 8 * 1024 * 1024"

definition emptyAliases :: doc_aliases where
  "emptyAliases = \<lparr>exact_aliases = [], prefix_aliases = []\<rparr>"

definition sources :: "(js_string \<times> js_string) list \<Rightarrow> js_string list" where
  "sources m = map fst m"

definition target_of :: "(js_string \<times> js_string) list \<Rightarrow> js_string \<Rightarrow> js_string" where
  "target_of m s = (case map_of m s of Some t \<Rightarrow> t | None \<Rightarrow> [])"

fun and_then :: "'e + 'a \<Rightarrow> ('a \<Rightarrow> 'e + 'b) \<Rightarrow> 'e + 'b" where
  "and_then (Inl e) f = Inl e"
| "and_then (Inr x) f = f x"

lemma and_then_case [code_unfold]: "and_then x f = (case x of Inl e \<Rightarrow> Inl e | Inr y \<Rightarrow> f y)"
  by (cases x) simp_all

fun has_two_dots :: "js_string \<Rightarrow> bool" where
  "has_two_dots (u # v # us) \<longleftrightarrow> (u = dot \<and> v = dot) \<or> has_two_dots (v # us)"
| "has_two_dots _ \<longleftrightarrow> False"

definition isStoreCanonicalPath :: "js_string \<Rightarrow> bool" where
  "isStoreCanonicalPath path \<longleftrightarrow> path \<noteq> [] \<and> take 1 path \<noteq> [slash] \<and> \<not> has_two_dots path \<and> 0 \<notin> set path"

text \<open>The entries of an object, with \<open>None\<close> for a value that is no text; no object is \<open>None\<close>.\<close>

fun map_entries :: "path_library \<Rightarrow> (js_string \<times> js_string option) list \<Rightarrow> (js_string \<times> js_string) list option" where
  "map_entries lib [] = Some []"
| "map_entries lib ((source, v) # rest) =
     (case v of
        None \<Rightarrow> None
      | Some to \<Rightarrow>
          if \<not> isStoreCanonicalPath source \<or> \<not> isStoreCanonicalPath to \<or> source = to
             \<or> (path_key lib source \<noteq> None \<and> path_key lib source = path_key lib to) then None
          else map_option ((#) (source, to)) (map_entries lib rest))"

definition parseMap :: "path_library \<Rightarrow> (js_string \<times> js_string option) list option \<Rightarrow> (js_string \<times> js_string) list option" where
  "parseMap lib v = (case v of None \<Rightarrow> None | Some es \<Rightarrow> map_entries lib es)"

section \<open>Keys and ancestors\<close>

definition same_key :: "path_library \<Rightarrow> js_string \<Rightarrow> js_string \<Rightarrow> bool" where
  "same_key lib p q \<longleftrightarrow> nonempty (path_key lib p) \<and> path_key lib p = path_key lib q"

definition portablePathMatches :: "path_library \<Rightarrow> js_string \<Rightarrow> js_string \<Rightarrow> bool" where
  "portablePathMatches lib left right \<longleftrightarrow> left = right \<or> same_key lib left right"

definition prefixSourcesArePortableUnique :: "path_library \<Rightarrow> doc_aliases \<Rightarrow> bool" where
  "prefixSourcesArePortableUnique lib a \<longleftrightarrow> distinct (filter nonempty (map (path_key lib) (sources (prefix_aliases a))))"

definition exactAliasSources :: "path_library \<Rightarrow> doc_aliases \<Rightarrow> js_string \<Rightarrow> js_string list" where
  "exactAliasSources lib a path =
     (if exact_aliases a = [] then []
      else if nonempty (path_key lib path) then filter (same_key lib path) (sources (exact_aliases a))
      else if path \<in> set (sources (exact_aliases a)) then [path] else [])"

text \<open>\<open>lastIndexOf\<close> from a position, which counts as the first one when it is negative.\<close>

definition lastIndexOf :: "code_unit \<Rightarrow> js_string \<Rightarrow> int \<Rightarrow> int" where
  "lastIndexOf u us position =
     (case filter (\<lambda>k. us ! k = u) [0..<min (length us) (nat (max position 0) + 1)] of [] \<Rightarrow> - 1 | ks \<Rightarrow> int (last ks))"

partial_function (option) ancestors_from :: "js_string \<Rightarrow> int \<Rightarrow> js_string list \<Rightarrow> js_string list option" where
  "ancestors_from path separator paths =
     (if separator \<ge> 0
      then ancestors_from path (lastIndexOf slash path (separator - 1)) (paths @ [take (nat separator) path])
      else Some paths)"

definition pathAndAncestors :: "js_string \<Rightarrow> alias_failure + js_string list" where
  "pathAndAncestors path =
     (case ancestors_from path (lastIndexOf slash path (int (length path))) [path] of Some ps \<Rightarrow> Inr ps | None \<Rightarrow> Inl NoReturn)"

text \<open>Most segments first, then the longest; the sort is stable.\<close>

definition by_depth :: "js_string list \<Rightarrow> js_string list" where
  "by_depth ps = sort_key (\<lambda>p. - int (length (split_on slash p))) (sort_key (\<lambda>p. - int (length p)) ps)"

definition prefixes_at :: "doc_aliases \<Rightarrow> js_string list \<Rightarrow> js_string list" where
  "prefixes_at a ps = filter (\<lambda>p. p \<in> set (sources (prefix_aliases a))) ps"

definition portablePrefixAliasSources :: "path_library \<Rightarrow> doc_aliases \<Rightarrow> js_string \<Rightarrow> alias_failure + js_string list" where
  "portablePrefixAliasSources lib a path =
     (if prefix_aliases a = [] then Inr []
      else and_then (pathAndAncestors path) (\<lambda>ps.
        and_then (if nonempty (path_key lib path) then pathAndAncestors (the (path_key lib path)) else Inr []) (\<lambda>ks.
          Inr (by_depth (uniq (prefixes_at a ps
            @ concat (map (\<lambda>k. filter (\<lambda>s. nonempty (path_key lib s) \<and> path_key lib s = Some k) (sources (prefix_aliases a))) ks)))))))"

definition lexicalPrefixAliasSources :: "doc_aliases \<Rightarrow> js_string \<Rightarrow> alias_failure + js_string list" where
  "lexicalPrefixAliasSources a path = and_then (pathAndAncestors path) (\<lambda>ps. Inr (by_depth (prefixes_at a ps)))"

definition rewritePrefixPath :: "js_string \<Rightarrow> js_string \<Rightarrow> js_string \<Rightarrow> js_string" where
  "rewritePrefixPath source to path = join_with slash (to # drop (length (split_on slash source)) (split_on slash path))"

section \<open>Resolving\<close>

datatype alias_key = ExactKey js_string | PrefixKey js_string

text \<open>Two prefix aliases that are one path in different spellings are not told apart.\<close>

definition ambiguous_prefixes :: "path_library \<Rightarrow> js_string list \<Rightarrow> bool" where
  "ambiguous_prefixes lib ms \<longleftrightarrow> (case ms of p # q # _ \<Rightarrow> portablePathMatches lib p q | _ \<Rightarrow> False)"

text \<open>One step; no key where no alias applies, and \<open>None\<close> where it is ambiguous.\<close>

definition applyAliasOnce :: "path_library \<Rightarrow> doc_aliases \<Rightarrow> js_string \<Rightarrow> bool \<Rightarrow> alias_failure + (js_string \<times> alias_key option) option" where
  "applyAliasOnce lib a path includeExact =
     (case (if includeExact then exactAliasSources lib a path else []) of
        s # s' # _ \<Rightarrow> Inr None
      | [s] \<Rightarrow> Inr (Some (target_of (exact_aliases a) s, Some (ExactKey s)))
      | [] \<Rightarrow>
          and_then (lexicalPrefixAliasSources a path) (\<lambda>ms.
            case ms of
              [] \<Rightarrow> Inr (Some (path, None))
            | p # _ \<Rightarrow>
                if ambiguous_prefixes lib ms then Inr None
                else Inr (Some (rewritePrefixPath p (target_of (prefix_aliases a) p) path, Some (PrefixKey p)))))"

fun resolve_hops :: "nat \<Rightarrow> path_library \<Rightarrow> doc_aliases \<Rightarrow> bool \<Rightarrow> alias_key list \<Rightarrow> js_string \<Rightarrow> alias_failure + js_string option" where
  "resolve_hops 0 lib a includeExact applied current = Inr None"
| "resolve_hops (Suc n) lib a includeExact applied current =
     (case (if includeExact then exactAliasSources lib a current else []) of
        s # s' # _ \<Rightarrow> Inr None
      | [s] \<Rightarrow>
          if ExactKey s \<in> set applied then Inr None
          else resolve_hops n lib a includeExact (ExactKey s # applied) (target_of (exact_aliases a) s)
      | [] \<Rightarrow>
          and_then (lexicalPrefixAliasSources a current) (\<lambda>ms.
            if ambiguous_prefixes lib ms then Inr None
            else case List.find (\<lambda>p. PrefixKey p \<notin> set applied) ms of
                   Some p \<Rightarrow> resolve_hops n lib a includeExact (PrefixKey p # applied) (rewritePrefixPath p (target_of (prefix_aliases a) p) current)
                 | None \<Rightarrow>
                     (case ms of
                        [] \<Rightarrow> Inr (Some current)
                      | p # _ \<Rightarrow> Inr (if take 1 applied = [PrefixKey p] then Some current else None))))"

definition resolveDocAliasInMode :: "path_library \<Rightarrow> doc_aliases \<Rightarrow> js_string \<Rightarrow> bool \<Rightarrow> alias_failure + js_string option" where
  "resolveDocAliasInMode lib a path includeExact = resolve_hops MAX_ALIAS_HOPS lib a includeExact [] path"

definition resolveDocAliasIn :: "path_library \<Rightarrow> doc_aliases \<Rightarrow> js_string \<Rightarrow> alias_failure + js_string option" where
  "resolveDocAliasIn lib a path = (if prefixSourcesArePortableUnique lib a then resolveDocAliasInMode lib a path True else Inr None)"

text \<open>Where caches that recorded documents under older paths find them.\<close>

definition current_path :: "path_library \<Rightarrow> doc_aliases option \<Rightarrow> js_string \<Rightarrow> alias_failure + js_string" where
  "current_path lib a path =
     (case a of
        None \<Rightarrow> Inr path
      | Some a \<Rightarrow>
          if exact_aliases a = [] \<and> prefix_aliases a = [] then Inr path
          else and_then (resolveDocAliasIn lib a path) (\<lambda>r. Inr (case r of Some q \<Rightarrow> q | None \<Rightarrow> path)))"

definition keysFor :: "path_library \<Rightarrow> doc_aliases option \<Rightarrow> js_string list \<Rightarrow> js_string \<Rightarrow> alias_failure + js_string list" where
  "keysFor lib a recorded docPath =
     and_then (traverse (\<lambda>k. and_then (current_path lib a k) (\<lambda>now. Inr (if k = docPath \<or> now = docPath then [k] else []))) recorded)
       (\<lambda>kss. Inr (concat kss))"

section \<open>What a stored set must be\<close>

text \<open>A path cut at each slash that is followed by something, and its ends: every suffix of segments.\<close>

definition segment_suffixes :: "js_string \<Rightarrow> js_string list" where
  "segment_suffixes path =
     (let segments = split_on slash path in map (\<lambda>k. join_with slash (drop k segments)) [0..<length segments])"

definition resolves :: "path_library \<Rightarrow> doc_aliases \<Rightarrow> js_string \<Rightarrow> alias_failure + bool" where
  "resolves lib a path = and_then (resolveDocAliasInMode lib a path True) (\<lambda>r. Inr (r \<noteq> None))"

definition all_resolve :: "path_library \<Rightarrow> doc_aliases \<Rightarrow> js_string list \<Rightarrow> alias_failure + bool" where
  "all_resolve lib a paths = fold (\<lambda>p acc. and_then acc (\<lambda>ok. if ok then resolves lib a p else Inr False)) paths (Inr True)"

definition cycle_probe :: js_string where
  "cycle_probe = [slash, 0] @ js ''alias-cycle-probe''"

definition below_target_probes :: "doc_aliases \<Rightarrow> js_string \<Rightarrow> js_string \<Rightarrow> js_string list" where
  "below_target_probes a source to =
     map (\<lambda>c. source @ drop (length to) c)
       (filter (\<lambda>c. prefix (to @ [slash]) c) (sources (exact_aliases a) @ sources (prefix_aliases a)))"

definition prefixCanReach :: "doc_aliases \<Rightarrow> js_string \<Rightarrow> alias_failure + bool" where
  "prefixCanReach a source =
     and_then (pathAndAncestors source) (\<lambda>ps.
       Inr (prefixes_at a ps \<noteq> [] \<or> list_ex (\<lambda>p. prefix (source @ [slash]) p) (sources (prefix_aliases a))))"

definition reach_probes :: "doc_aliases \<Rightarrow> bool \<Rightarrow> js_string list \<Rightarrow> js_string \<Rightarrow> alias_failure + js_string list" where
  "reach_probes a exhaustive ends source =
     (let probes = map (\<lambda>s. source @ slash # s) ends
      in if exhaustive then Inr probes else and_then (prefixCanReach a source) (\<lambda>r. Inr (if r then probes else [])))"

definition aliasesResolveAcyclically :: "path_library \<Rightarrow> doc_aliases \<Rightarrow> bool \<Rightarrow> alias_failure + bool" where
  "aliasesResolveAcyclically lib a exhaustive =
     (if \<not> prefixSourcesArePortableUnique lib a then Inr False
      else if list_ex (\<lambda>(source, to). prefix (source @ [slash]) to) (prefix_aliases a)
      then Inr False
      else
        let all = sources (exact_aliases a) @ sources (prefix_aliases a);
            ends = uniq (concat (map segment_suffixes (all @ map snd (exact_aliases a) @ map snd (prefix_aliases a))));
            first = sources (exact_aliases a)
              @ concat (map (\<lambda>(source, to). source # (source @ cycle_probe) # below_target_probes a source to) (prefix_aliases a))
        in and_then (all_resolve lib a first) (\<lambda>ok.
             if \<not> ok then Inr False
             else and_then (traverse (reach_probes a exhaustive ends) all) (\<lambda>pss. all_resolve lib a (concat pss))))"

text \<open>
  The text of the file: what \<open>JSON.parse\<close> gives of it is \<open>None\<close> where it is not an alias file, and else the two
  maps it holds.
\<close>

type_synonym alias_file = "((js_string \<times> js_string option) list option \<times> (js_string \<times> js_string option) list option) option"

definition parseAliases :: "path_library \<Rightarrow> alias_file \<Rightarrow> doc_aliases option" where
  "parseAliases lib v =
     (case v of
        None \<Rightarrow> None
      | Some (e, p) \<Rightarrow>
          (case (parseMap lib e, parseMap lib p) of
             (Some es, Some ps) \<Rightarrow> Some \<lparr>exact_aliases = es, prefix_aliases = ps\<rparr>
           | _ \<Rightarrow> None))"

definition parseDocAliasesSnapshot :: "path_library \<Rightarrow> alias_file option \<Rightarrow> alias_failure + doc_aliases" where
  "parseDocAliasesSnapshot lib stored =
     (case stored of
        None \<Rightarrow> Inr emptyAliases
      | Some v \<Rightarrow>
          (case parseAliases lib v of
             None \<Rightarrow> Inl Corrupt
           | Some a \<Rightarrow> and_then (aliasesResolveAcyclically lib a False) (\<lambda>ok. if ok then Inr a else Inl CycleOrHops)))"

text \<open>What reading the file gives.\<close>

datatype file_read = Missing | Symlink | NotFile | TooLong | Failing | ReadFile alias_file

definition readDocAliasesAt :: "path_library \<Rightarrow> file_read \<Rightarrow> alias_failure + doc_aliases" where
  "readDocAliasesAt lib r =
     (case r of
        Missing \<Rightarrow> Inr emptyAliases
      | Symlink \<Rightarrow> Inl NotRegular
      | NotFile \<Rightarrow> Inl NotRegular
      | TooLong \<Rightarrow> Inl TooLarge
      | Failing \<Rightarrow> Inl Corrupt
      | ReadFile v \<Rightarrow> parseDocAliasesSnapshot lib (Some v))"

definition resolveDocAlias :: "path_library \<Rightarrow> file_read \<Rightarrow> js_string \<Rightarrow> alias_failure + js_string" where
  "resolveDocAlias lib r path =
     and_then (readDocAliasesAt lib r) (\<lambda>a.
       and_then (resolveDocAliasIn lib a path) (\<lambda>q. case q of None \<Rightarrow> Inl CycleOrHops | Some q \<Rightarrow> if q = [] then Inl CycleOrHops else Inr q))"

section \<open>Reservation\<close>

definition reservedByAliasIn :: "path_library \<Rightarrow> doc_aliases \<Rightarrow> js_string \<Rightarrow> alias_failure + (alias_kind \<times> js_string) option" where
  "reservedByAliasIn lib a path =
     (case exactAliasSources lib a path of
        s # _ \<Rightarrow> Inr (Some (ExactAlias, s))
      | [] \<Rightarrow>
          and_then (portablePrefixAliasSources lib a path) (\<lambda>ps. Inr (case ps of p # _ \<Rightarrow> Some (PrefixAlias, p) | [] \<Rightarrow> None)))"

definition docAliasReservationError :: "path_library \<Rightarrow> file_read \<Rightarrow> js_string \<Rightarrow> alias_failure + (alias_kind \<times> js_string) option" where
  "docAliasReservationError lib r path = and_then (readDocAliasesAt lib r) (\<lambda>a. reservedByAliasIn lib a path)"

section \<open>Compaction\<close>

definition hasDescendantExactAlias :: "path_library \<Rightarrow> doc_aliases \<Rightarrow> js_string \<Rightarrow> bool" where
  "hasDescendantExactAlias lib a path \<longleftrightarrow>
     list_ex (\<lambda>c. c = path \<or> prefix (path @ [slash]) c
       \<or> (nonempty (path_key lib path) \<and> nonempty (path_key lib c)
          \<and> (path_key lib c = path_key lib path \<or> prefix (the (path_key lib path) @ [slash]) (the (path_key lib c)))))
       (sources (exact_aliases a))"

fun compact_hops :: "nat \<Rightarrow> path_library \<Rightarrow> doc_aliases \<Rightarrow> alias_key list \<Rightarrow> js_string \<Rightarrow> alias_failure + js_string option" where
  "compact_hops 0 lib a applied current = Inr None"
| "compact_hops (Suc n) lib a applied current =
     (if hasDescendantExactAlias lib a current then Inr (Some current)
      else and_then (applyAliasOnce lib a current False) (\<lambda>r.
        case r of
          None \<Rightarrow> Inr None
        | Some (p, None) \<Rightarrow> Inr (Some current)
        | Some (p, Some k) \<Rightarrow> if k \<in> set applied then Inr None else compact_hops n lib a (k # applied) p))"

definition compactPrefixTarget :: "path_library \<Rightarrow> doc_aliases \<Rightarrow> js_string \<Rightarrow> alias_failure + js_string option" where
  "compactPrefixTarget lib a path = compact_hops MAX_ALIAS_HOPS lib a [] path"

definition compact_exact :: "path_library \<Rightarrow> doc_aliases \<Rightarrow> js_string \<times> js_string \<Rightarrow> alias_failure + js_string \<times> js_string" where
  "compact_exact lib a = (\<lambda>(source, to).
     and_then (resolveDocAliasInMode lib a to True) (\<lambda>r.
       case r of None \<Rightarrow> Inl WouldCycle | Some q \<Rightarrow> if q = [] \<or> q = source then Inl WouldCycle else Inr (source, q)))"

definition compact_prefix :: "path_library \<Rightarrow> doc_aliases \<Rightarrow> js_string \<times> js_string \<Rightarrow> alias_failure + js_string \<times> js_string" where
  "compact_prefix lib a = (\<lambda>(source, to).
     and_then (compactPrefixTarget lib a to) (\<lambda>r.
       case r of
         None \<Rightarrow> Inl WouldCycle
       | Some q \<Rightarrow> if q = [] \<or> q = source \<or> prefix (source @ [slash]) q then Inl WouldCycle else Inr (source, q)))"

definition compactAliases :: "path_library \<Rightarrow> doc_aliases \<Rightarrow> alias_failure + doc_aliases" where
  "compactAliases lib a =
     and_then (traverse (compact_exact lib a) (exact_aliases a)) (\<lambda>es.
       and_then (traverse (compact_prefix lib a) (prefix_aliases a)) (\<lambda>ps.
         Inr \<lparr>exact_aliases = es, prefix_aliases = ps\<rparr>))"

text \<open>\<open>size\<close> gives the bytes of the text a set is written as.\<close>

definition serializeDocAliases :: "(doc_aliases \<Rightarrow> int) \<Rightarrow> doc_aliases \<Rightarrow> alias_failure + doc_aliases" where
  "serializeDocAliases size_of a = (if size_of a > DOC_ALIASES_MAX_BYTES then Inl TooLarge else Inr a)"

section \<open>Changes\<close>

definition set_alias :: "js_string \<times> js_string \<times> alias_kind \<Rightarrow> doc_aliases \<Rightarrow> doc_aliases" where
  "set_alias = (\<lambda>(source, to, kind) a.
     case kind of
       ExactAlias \<Rightarrow> a\<lparr>exact_aliases := AList.update source to (exact_aliases a)\<rparr>
     | PrefixAlias \<Rightarrow> a\<lparr>prefix_aliases := AList.update source to (prefix_aliases a)\<rparr>)"

definition canonical_entry :: "js_string \<times> js_string \<times> alias_kind \<Rightarrow> bool" where
  "canonical_entry = (\<lambda>(source, to, kind). isStoreCanonicalPath source \<and> isStoreCanonicalPath to \<and> source \<noteq> to)"

definition prepareDocAliasBatch ::
    "path_library \<Rightarrow> (doc_aliases \<Rightarrow> int) \<Rightarrow> doc_aliases \<Rightarrow> (js_string \<times> js_string \<times> alias_kind) list \<Rightarrow> alias_failure + doc_aliases" where
  "prepareDocAliasBatch lib size_of a entries =
     (if \<not> list_all canonical_entry entries then Inl NotCanonical
      else and_then (compactAliases lib (fold set_alias entries a)) (serializeDocAliases size_of))"

definition prepareDocAliasMove ::
    "path_library \<Rightarrow> (doc_aliases \<Rightarrow> int) \<Rightarrow> doc_aliases \<Rightarrow> js_string \<Rightarrow> js_string \<Rightarrow> alias_failure + doc_aliases" where
  "prepareDocAliasMove lib size_of a source to =
     (if \<not> canonical_entry (source, to, ExactAlias) then Inl NotCanonical
      else and_then (portablePrefixAliasSources lib a to) (\<lambda>ps.
        if ps \<noteq> [] then Inl (ReservedByAlias to)
        else case exactAliasSources lib a to of
               s # s' # _ \<Rightarrow> Inl AmbiguousTarget
             | [] \<Rightarrow> and_then (compactAliases lib (set_alias (source, to, ExactAlias) a)) (serializeDocAliases size_of)
             | [s] \<Rightarrow>
                 and_then (resolveDocAliasInMode lib a s True) (\<lambda>r.
                   case r of
                     None \<Rightarrow> Inl (ReservedByAlias to)
                   | Some q \<Rightarrow>
                       if q = [] \<or> \<not> portablePathMatches lib q source then Inl (ReservedByAlias to)
                       else and_then (compactAliases lib (set_alias (source, to, ExactAlias) (a\<lparr>exact_aliases := AList.delete s (exact_aliases a)\<rparr>)))
                              (serializeDocAliases size_of))))"

text \<open>The aliases that resolve somewhere, in order.\<close>

definition sources_resolving ::
    "path_library \<Rightarrow> doc_aliases \<Rightarrow> (js_string option \<Rightarrow> alias_failure + bool) \<Rightarrow> alias_failure + js_string list" where
  "sources_resolving lib a P =
     and_then (traverse (\<lambda>s. and_then (resolveDocAliasInMode lib a s True) (\<lambda>r. and_then (P r) (\<lambda>b. Inr (if b then [s] else []))))
                 (sources (exact_aliases a))) (\<lambda>ss. Inr (concat ss))"

definition root_target :: "path_library \<Rightarrow> doc_aliases \<Rightarrow> js_string \<Rightarrow> js_string \<times> js_string \<Rightarrow> alias_failure + js_string" where
  "root_target lib a target = (\<lambda>(source, to).
     and_then (compactPrefixTarget lib a to) (\<lambda>r.
       case r of
         None \<Rightarrow> Inl FolderAliasInTheWay
       | Some root \<Rightarrow> if root = [] \<or> target = root \<or> prefix (root @ [slash]) target then Inl FolderAliasInTheWay else Inr to))"

definition at_or_below :: "js_string \<Rightarrow> js_string \<Rightarrow> bool" where
  "at_or_below path root \<longleftrightarrow> path = root \<or> prefix (root @ [slash]) path"

definition without_exact :: "js_string list \<Rightarrow> doc_aliases \<Rightarrow> doc_aliases" where
  "without_exact ss a = a\<lparr>exact_aliases := fold AList.delete ss (exact_aliases a)\<rparr>"

definition prepareDocAliasRetirement ::
    "path_library \<Rightarrow> (doc_aliases \<Rightarrow> int) \<Rightarrow> doc_aliases \<Rightarrow> js_string \<Rightarrow> alias_failure + doc_aliases option" where
  "prepareDocAliasRetirement lib size_of a target =
     (if \<not> isStoreCanonicalPath target then Inl NotCanonical
      else and_then (traverse (root_target lib a target) (prefix_aliases a)) (\<lambda>targets.
        and_then (sources_resolving lib a (\<lambda>r. Inr (r = Some target))) (\<lambda>retired.
          if retired = [] then Inr None
          else if list_ex (\<lambda>s. list_ex (at_or_below s) (sources (prefix_aliases a) @ targets)) retired then Inl NestedUnderFolderAlias
          else and_then (compactAliases lib (without_exact retired a)) (\<lambda>b. and_then (serializeDocAliases size_of b) (\<lambda>c. Inr (Some c))))))"

section \<open>Folders\<close>

text \<open>Whether a path is at or below a key, where both have one.\<close>

definition inside :: "path_library \<Rightarrow> js_string option \<Rightarrow> js_string \<Rightarrow> bool" where
  "inside lib path key \<longleftrightarrow>
     (case path of
        None \<Rightarrow> False
      | Some p \<Rightarrow> p \<noteq> [] \<and> nonempty (path_key lib p) \<and> documentPathKeyIsAtOrBelow (the (path_key lib p)) key)"

definition keep_alias :: "path_library \<Rightarrow> alias_kind \<Rightarrow> js_string \<Rightarrow> js_string \<Rightarrow> doc_aliases \<Rightarrow> doc_aliases" where
  "keep_alias lib kind source target next =
     (if path_key lib source = path_key lib target then next
      else if source \<in> set (sources (exact_aliases next)) \<or> source \<in> set (sources (prefix_aliases next)) then next
      else set_alias (source, target, kind) next)"

definition entries_of :: "doc_aliases \<Rightarrow> (alias_kind \<times> js_string \<times> js_string) list" where
  "entries_of a = map (Pair ExactAlias) (exact_aliases a) @ map (Pair PrefixAlias) (prefix_aliases a)"

definition remapped :: "path_library \<Rightarrow> js_string \<Rightarrow> js_string \<Rightarrow> js_string \<Rightarrow> js_string \<Rightarrow> js_string" where
  "remapped lib fromKey fromPrefix toPrefix path =
     (if inside lib (Some path) fromKey then toPrefix @ drop (length fromPrefix) path else path)"

definition reclaimed :: "path_library \<Rightarrow> doc_aliases \<Rightarrow> js_string \<Rightarrow> js_string \<Rightarrow> js_string \<Rightarrow> alias_failure + bool" where
  "reclaimed lib a fromKey toKey source =
     (if \<not> inside lib (Some source) toKey then Inr False
      else and_then (resolveDocAliasIn lib a source) (\<lambda>r. Inr (inside lib r fromKey)))"

text \<open>What a retiring folder alias carried over to the folder's new path.\<close>

definition carried_entries :: "doc_aliases \<Rightarrow> js_string \<times> js_string \<Rightarrow> (alias_kind \<times> js_string \<times> js_string) list" where
  "carried_entries a = (\<lambda>(retired, target).
     map (\<lambda>(kind, source, inner). (kind, retired @ drop (length target) source, inner))
       (filter (\<lambda>(kind, source, inner). prefix (target @ [slash]) source) (entries_of a)))"

definition aliasesReclaimedByFolderMove ::
    "path_library \<Rightarrow> doc_aliases \<Rightarrow> js_string \<Rightarrow> js_string \<Rightarrow> alias_failure + doc_aliases" where
  "aliasesReclaimedByFolderMove lib a fromPrefix toPrefix =
     (if \<not> nonempty (path_key lib fromPrefix) \<or> \<not> nonempty (path_key lib toPrefix) then Inr a
      else let fromKey = the (path_key lib fromPrefix); toKey = the (path_key lib toPrefix);
               remap = remapped lib fromKey fromPrefix toPrefix
           in and_then (traverse (\<lambda>(kind, source, target).
                and_then (reclaimed lib a fromKey toKey source) (\<lambda>b. Inr (kind, source, if b then remap target else target))) (entries_of a)) (\<lambda>kept.
              and_then (traverse (\<lambda>(source, target). and_then (reclaimed lib a fromKey toKey source) (\<lambda>b.
                Inr (if b then carried_entries a (source, target) else []))) (prefix_aliases a)) (\<lambda>carried.
                Inr (fold (\<lambda>(kind, source, target). keep_alias lib kind source target)
                      (kept @ map (\<lambda>(kind, source, inner). (kind, source, remap inner)) (concat carried)) emptyAliases))))"

definition below_key :: "path_library \<Rightarrow> js_string \<Rightarrow> js_string option \<Rightarrow> alias_failure + js_string" where
  "below_key lib prefixKey r =
     (case r of
        None \<Rightarrow> Inl RetirementUnsafe
      | Some q \<Rightarrow> if q = [] \<or> \<not> nonempty (path_key lib q) then Inl RetirementUnsafe else Inr (the (path_key lib q)))"

text \<open>An alias into the deleted folder that still leads to something kept there becomes exact aliases of its own.\<close>

definition keep_path :: "path_library \<Rightarrow> doc_aliases \<Rightarrow> js_string \<Rightarrow> js_string \<Rightarrow> js_string \<Rightarrow> doc_aliases \<Rightarrow> alias_failure + doc_aliases" where
  "keep_path lib a retired target kept next =
     (if \<not> prefix (target @ [slash]) kept then Inr next
      else let source = retired @ drop (length target) kept
           in if source \<in> set (sources (exact_aliases next)) then Inr next
              else and_then (resolveDocAliasInMode lib a source True) (\<lambda>r.
                     Inr (if r = Some kept then set_alias (source, kept, ExactAlias) next else next)))"

definition retire_prefix :: "path_library \<Rightarrow> doc_aliases \<Rightarrow> js_string list \<Rightarrow> js_string \<Rightarrow> doc_aliases \<Rightarrow> alias_failure + doc_aliases" where
  "retire_prefix lib a keep retired next =
     and_then (compactPrefixTarget lib a (target_of (prefix_aliases a) retired)) (\<lambda>r.
       and_then (case r of
                   None \<Rightarrow> Inr next
                 | Some target \<Rightarrow> if target = [] then Inr next
                                  else fold (\<lambda>kept acc. and_then acc (keep_path lib a retired target kept)) keep (Inr next)) (\<lambda>n.
         Inr (n\<lparr>prefix_aliases := AList.delete retired (prefix_aliases n)\<rparr>)))"

definition prepareDocAliasPrefixRetirement ::
    "path_library \<Rightarrow> (doc_aliases \<Rightarrow> int) \<Rightarrow> doc_aliases \<Rightarrow> js_string \<Rightarrow> js_string list \<Rightarrow> alias_failure + doc_aliases option" where
  "prepareDocAliasPrefixRetirement lib size_of a folder keep =
     (if \<not> isStoreCanonicalPath folder \<or> \<not> nonempty (path_key lib folder) then Inl NotCanonical
      else let folderKey = the (path_key lib folder)
           in and_then (sources_resolving lib a (\<lambda>r.
                and_then (below_key lib folderKey r) (\<lambda>k. Inr (documentPathKeyIsAtOrBelow k folderKey \<and> the r \<notin> set keep)))) (\<lambda>retiredExact.
              and_then (traverse (\<lambda>(source, to). and_then (compactPrefixTarget lib a to) (\<lambda>r.
                and_then (below_key lib folderKey r) (\<lambda>k.
                  if documentPathKeyIsBelow folderKey k then Inl BroaderFolderAlias
                  else Inr (if documentPathKeyIsAtOrBelow k folderKey then [source] else [])))) (prefix_aliases a)) (\<lambda>retiredPrefixes.
                if retiredExact = [] \<and> concat retiredPrefixes = [] then Inr None
                else and_then (fold (\<lambda>p acc. and_then acc (retire_prefix lib a keep p)) (concat retiredPrefixes) (Inr (without_exact retiredExact a))) (\<lambda>n.
                  and_then (compactAliases lib n) (\<lambda>b. and_then (serializeDocAliases size_of b) (\<lambda>c. Inr (Some c)))))))"

section \<open>The stored set\<close>

text \<open>Each runs under the Space's lock: it reads the set, and what it answers second is what is stored then.\<close>

definition recordDocAliasBatch ::
    "path_library \<Rightarrow> (doc_aliases \<Rightarrow> int) \<Rightarrow> (js_string \<times> js_string \<times> alias_kind) list \<Rightarrow> alias_failure + doc_aliases \<Rightarrow> alias_failure + doc_aliases" where
  "recordDocAliasBatch lib size_of entries stored =
     (if \<not> list_all canonical_entry entries then Inl NotCanonical
      else and_then stored (\<lambda>a. and_then (compactAliases lib (fold set_alias entries a)) (serializeDocAliases size_of)))"

definition recordDocAlias ::
    "path_library \<Rightarrow> (doc_aliases \<Rightarrow> int) \<Rightarrow> js_string \<Rightarrow> js_string \<Rightarrow> alias_kind \<Rightarrow> alias_failure + doc_aliases \<Rightarrow> alias_failure + doc_aliases" where
  "recordDocAlias lib size_of source to kind = recordDocAliasBatch lib size_of [(source, to, kind)]"

definition retireDocAlias ::
    "(doc_aliases \<Rightarrow> int) \<Rightarrow> js_string \<Rightarrow> alias_kind \<Rightarrow> alias_failure + doc_aliases \<Rightarrow> alias_failure + (bool \<times> doc_aliases)" where
  "retireDocAlias size_of path kind stored =
     and_then stored (\<lambda>a.
       case kind of
         ExactAlias \<Rightarrow>
           if path \<in> set (sources (exact_aliases a))
           then and_then (serializeDocAliases size_of (a\<lparr>exact_aliases := AList.delete path (exact_aliases a)\<rparr>)) (\<lambda>b. Inr (True, b))
           else Inr (False, a)
       | PrefixAlias \<Rightarrow>
           if path \<in> set (sources (prefix_aliases a))
           then and_then (serializeDocAliases size_of (a\<lparr>prefix_aliases := AList.delete path (prefix_aliases a)\<rparr>)) (\<lambda>b. Inr (True, b))
           else Inr (False, a))"

end
