(* ===== verification/AliasMoves.thy ===== *)
theory AliasMoves
  imports DocAliases
begin

text \<open>
  Runs of the document aliases: which paths the walk over ancestors ends for, and that a document that moves,
  however often, is found under every path it ever had.
\<close>

section \<open>Ancestors\<close>

definition slashes_below :: "js_string \<Rightarrow> nat \<Rightarrow> nat list" where
  "slashes_below path n = filter (\<lambda>k. path ! k = slash) [0..<n]"

text \<open>The ancestors of a path, the nearest first.\<close>

definition ancestors :: "js_string \<Rightarrow> nat \<Rightarrow> js_string list" where
  "ancestors path n = map (\<lambda>k. take k path) (rev (slashes_below path n))"

definition last_slash :: "js_string \<Rightarrow> nat \<Rightarrow> int" where
  "last_slash path n = (if slashes_below path n = [] then - 1 else int (last (slashes_below path n)))"

lemma lastIndexOf_last: "min (length path) (nat (max position 0) + 1) = n \<Longrightarrow> lastIndexOf slash path position = last_slash path n"
  by (simp add: lastIndexOf_def last_slash_def slashes_below_def split: list.split)

lemma lastIndexOf_below: "n \<le> length path \<Longrightarrow> 0 < n \<Longrightarrow> lastIndexOf slash path (int n - 1) = last_slash path n"
  by (rule lastIndexOf_last) linarith

lemma slashes_Suc: "slashes_below path (Suc n) = slashes_below path n @ (if path ! n = slash then [n] else [])"
  by (simp add: slashes_below_def)

lemma last_slash_cases:
  obtains (none) "last_slash path n = - 1" "ancestors path n = []"
  | (some) k where "last_slash path n = int k" "k < n" "path ! k = slash" "ancestors path n = take k path # ancestors path k"
proof (induction n)
  case 0
  then show ?case by (simp add: last_slash_def ancestors_def slashes_below_def)
next
  case (Suc n)
  show ?case
  proof (cases "path ! n = slash")
    case True
    then have "last_slash path (Suc n) = int n" "ancestors path (Suc n) = take n path # ancestors path n"
      by (simp_all add: last_slash_def ancestors_def slashes_Suc)
    with True show ?thesis using Suc.prems(2) by blast
  next
    case False
    then have "last_slash path (Suc n) = last_slash path n" "ancestors path (Suc n) = ancestors path n"
      by (simp_all add: last_slash_def ancestors_def slashes_Suc)
    with Suc show ?thesis by (metis less_Suc_eq)
  qed
qed

lemma walk_returns:
  assumes "take 1 path \<noteq> [slash]" "n \<le> length path"
  shows "ancestors_from path (last_slash path n) paths = Some (paths @ ancestors path n)"
  using assms(2)
proof (induction n arbitrary: paths rule: less_induct)
  case (less n)
  show ?case
  proof (cases rule: last_slash_cases [of path n])
    case none
    then show ?thesis by (simp add: ancestors_from.simps)
  next
    case (some k)
    have "k \<noteq> 0"
    proof
      assume "k = 0"
      with some less.prems have "take 1 path = [slash]" by (cases path) auto
      with assms(1) show False by simp
    qed
    with some less.prems have "lastIndexOf slash path (int k - 1) = last_slash path k" by (intro lastIndexOf_below) auto
    moreover have "ancestors_from path (last_slash path k) (paths @ [take k path]) = Some ((paths @ [take k path]) @ ancestors path k)"
      using some less.prems by (intro less.IH) auto
    ultimately show ?thesis using some by (simp add: ancestors_from.simps [of path "int k"])
  qed
qed

lemma first_slash_found: "take 1 path = [slash] \<Longrightarrow> lastIndexOf slash path position \<ge> 0"
proof -
  assume "take 1 path = [slash]"
  then have "path \<noteq> []" "path ! 0 = slash" by (cases path; simp)+
  then have "0 \<in> set (filter (\<lambda>k. path ! k = slash) [0..<min (length path) (nat (max position 0) + 1)])" by simp
  then have "filter (\<lambda>k. path ! k = slash) [0..<min (length path) (nat (max position 0) + 1)] \<noteq> []" by (metis empty_iff list.set(1))
  then show ?thesis by (simp add: lastIndexOf_def split: list.split)
qed

lemma walk_runs_on:
  assumes "ancestors_from path separator paths = Some ps" shows "separator \<ge> 0 \<longrightarrow> take 1 path \<noteq> [slash]"
proof (rule ancestors_from.raw_induct [OF _ assms])
  fix walk path separator paths ps
  assume IH: "\<And>path separator paths ps. walk path separator paths = Some ps \<Longrightarrow> separator \<ge> 0 \<longrightarrow> take 1 path \<noteq> [slash]"
    and run: "(if separator \<ge> 0 then walk path (lastIndexOf slash path (separator - 1)) (paths @ [take (nat separator) path]) else Some paths) = Some ps"
  show "separator \<ge> 0 \<longrightarrow> take 1 path \<noteq> [slash]"
  proof
    assume "separator \<ge> 0"
    with run IH have "lastIndexOf slash path (separator - 1) \<ge> 0 \<longrightarrow> take 1 path \<noteq> [slash]" by simp
    then show "take 1 path \<noteq> [slash]" using first_slash_found by blast
  qed
qed

lemma pathAndAncestors_eq [code]:
  "pathAndAncestors path = (if take 1 path = [slash] then Inl NoReturn else Inr (path # ancestors path (length path)))"
proof (cases "take 1 path = [slash]")
  case True
  then have "ancestors_from path (lastIndexOf slash path (int (length path))) [path] = None"
    using walk_runs_on [of path "lastIndexOf slash path (int (length path))" "[path]"] first_slash_found [OF True]
    by (cases "ancestors_from path (lastIndexOf slash path (int (length path))) [path]") auto
  with True show ?thesis by (simp add: pathAndAncestors_def)
next
  case False
  have "lastIndexOf slash path (int (length path)) = last_slash path (length path)"
    by (rule lastIndexOf_last) (simp add: max_def)
  with False walk_returns [OF False order_refl, of "[path]"] show ?thesis by (simp add: pathAndAncestors_def)
qed

section \<open>When resolving ends\<close>

lemma canonical_no_slash: "isStoreCanonicalPath p \<Longrightarrow> take 1 p \<noteq> [slash]"
  by (simp add: isStoreCanonicalPath_def)

lemma keyed_path: assumes "nonempty (path_key lib p)" shows "take 1 p \<noteq> [slash]" "p \<noteq> []"
proof -
  from assms have safe: "safe (analyzeDocumentPath lib no_path_options p)"
    by (auto simp: nonempty_def path_key_def analyzeDocumentPath_def Let_def split: if_splits)
  show "take 1 p \<noteq> [slash]" using safe_checks(3) [OF safe, of AbsolutePath None] by (auto simp: path_checks_def UNSAFE_CODES_def)
  show "p \<noteq> []" using safe_checks(3) [OF safe, of EmptyPath None] by (auto simp: path_checks_def UNSAFE_CODES_def)
qed

definition well_named :: "doc_aliases \<Rightarrow> bool" where
  "well_named a \<longleftrightarrow>
     list_all (\<lambda>(s, t). isStoreCanonicalPath s \<and> isStoreCanonicalPath t) (exact_aliases a @ prefix_aliases a)"

lemma well_named_targets:
  assumes "well_named a"
  shows "s \<in> set (sources (exact_aliases a)) \<Longrightarrow> isStoreCanonicalPath (target_of (exact_aliases a) s)"
    and "s \<in> set (sources (prefix_aliases a)) \<Longrightarrow> isStoreCanonicalPath (target_of (prefix_aliases a) s)"
    and "s \<in> set (sources (exact_aliases a)) \<Longrightarrow> isStoreCanonicalPath s"
proof -
  have "s \<in> set (sources m) \<Longrightarrow> \<exists>t. target_of m s = t \<and> (s, t) \<in> set m" for m s
    by (auto simp: sources_def target_of_def dest: map_of_SomeD weak_map_of_SomeI split: option.split)
  then show "s \<in> set (sources (exact_aliases a)) \<Longrightarrow> isStoreCanonicalPath (target_of (exact_aliases a) s)"
    and "s \<in> set (sources (prefix_aliases a)) \<Longrightarrow> isStoreCanonicalPath (target_of (prefix_aliases a) s)"
    using assms by (fastforce simp: well_named_def list_all_iff)+
  show "s \<in> set (sources (exact_aliases a)) \<Longrightarrow> isStoreCanonicalPath s"
    using assms by (auto simp: well_named_def list_all_iff sources_def)
qed

lemma rewritten_no_slash: "isStoreCanonicalPath to \<Longrightarrow> take 1 (rewritePrefixPath source to path) \<noteq> [slash]"
  unfolding rewritePrefixPath_def
  by (cases "drop (length (split_on slash source)) (split_on slash path)"; cases to) (auto simp: isStoreCanonicalPath_def)

lemma exact_sources_in: "set (exactAliasSources lib a p) \<subseteq> set (sources (exact_aliases a))"
  by (auto simp: exactAliasSources_def)

lemma set_by_depth [simp]: "set (by_depth ps) = set ps"
  by (simp add: by_depth_def)

lemma resolve_hops_returns:
  assumes "well_named a"
  shows "take 1 p \<noteq> [slash] \<Longrightarrow> \<exists>r. resolve_hops n lib a True applied p = Inr r"
proof (induction n arbitrary: applied p)
  case (Suc n)
  show ?case
  proof (cases "exactAliasSources lib a p")
    case Nil
    define ms where "ms = by_depth (prefixes_at a (p # ancestors p (length p)))"
    have lex: "lexicalPrefixAliasSources a p = Inr ms"
      using Suc.prems by (simp add: lexicalPrefixAliasSources_def pathAndAncestors_eq ms_def)
    show ?thesis
    proof (cases "List.find (\<lambda>q. PrefixKey q \<notin> set applied) ms")
      case None
      with Nil lex show ?thesis by (auto split: list.split)
    next
      case (Some q)
      then have "q \<in> set ms" by (auto simp: find_Some_iff)
      then have "q \<in> set (sources (prefix_aliases a))" by (auto simp: ms_def prefixes_at_def split: if_splits)
      then have "take 1 (rewritePrefixPath q (target_of (prefix_aliases a) q) p) \<noteq> [slash]"
        by (intro rewritten_no_slash well_named_targets(2) [OF assms])
      from Suc.IH [OF this] Nil lex Some show ?thesis by auto
    qed
  next
    case (Cons s ss)
    then have "s \<in> set (sources (exact_aliases a))" using exact_sources_in [of lib a p] by auto
    then have "take 1 (target_of (exact_aliases a) s) \<noteq> [slash]"
      by (intro canonical_no_slash well_named_targets(1) [OF assms])
    from Suc.IH [OF this] Cons show ?thesis by (cases ss) auto
  qed
qed simp

text \<open>
  C36. Looking a path up among the aliases of a Space comes to an end, with an answer or none, for exactly the
  paths that do not start with a slash: for the others the walk over the ancestors never ends, even in a Space
  without aliases.
\<close>

theorem resolving_ends:
  assumes "well_named a" and "prefixSourcesArePortableUnique lib a"
  shows "resolveDocAliasIn lib a path = Inl e \<longleftrightarrow> e = NoReturn \<and> take 1 path = [slash]"
proof (cases "take 1 path = [slash]")
  case False
  with resolve_hops_returns [OF assms(1) False] assms(2) show ?thesis
    by (metis Inl_Inr_False resolveDocAliasInMode_def resolveDocAliasIn_def)
next
  case True
  then have none: "exactAliasSources lib a path = []"
    using keyed_path(1) [of lib path] well_named_targets(3) [OF assms(1), of path] canonical_no_slash [of path]
    by (auto simp: exactAliasSources_def)
  have hops: "MAX_ALIAS_HOPS = Suc 31" by (simp add: MAX_ALIAS_HOPS_def)
  have "resolve_hops (Suc 31) lib a True [] path = Inl NoReturn"
    unfolding resolve_hops.simps using True none by (simp add: lexicalPrefixAliasSources_def pathAndAncestors_eq)
  with assms(2) True show ?thesis unfolding resolveDocAliasIn_def resolveDocAliasInMode_def hops by auto
qed

theorem resolving_ends_witness:
  "resolveDocAliasIn plain_paths emptyAliases (js ''/a'') = Inl NoReturn
   \<and> (\<forall>e. resolveDocAliasIn plain_paths emptyAliases (js ''a/b'') \<noteq> Inl e)"
proof -
  have "well_named emptyAliases" "prefixSourcesArePortableUnique plain_paths emptyAliases" by code_simp+
  note ends = resolving_ends [OF this]
  have "take 1 (js ''/a'') = [slash]" "take 1 (js ''a/b'') \<noteq> [slash]" by code_simp+
  with ends show ?thesis by blast
qed

section \<open>Sets of exact aliases\<close>

text \<open>Every source has a key, and no two have the same one.\<close>

definition keyed :: "path_library \<Rightarrow> doc_aliases \<Rightarrow> bool" where
  "keyed lib a \<longleftrightarrow>
     prefix_aliases a = [] \<and> distinct (sources (exact_aliases a))
     \<and> (\<forall>s \<in> set (sources (exact_aliases a)). nonempty (path_key lib s))
     \<and> (\<forall>s \<in> set (sources (exact_aliases a)). \<forall>s' \<in> set (sources (exact_aliases a)). path_key lib s = path_key lib s' \<longrightarrow> s = s')"

lemma same_key_sym: "same_key lib p q \<Longrightarrow> same_key lib q p"
  by (auto simp: same_key_def)

lemma same_key_trans: "same_key lib p q \<Longrightarrow> same_key lib q r \<Longrightarrow> same_key lib p r"
  by (auto simp: same_key_def)

lemma distinct_filter_single:
  assumes "distinct xs" "x \<in> set xs" "\<And>y. y \<in> set xs \<Longrightarrow> P y \<longleftrightarrow> y = x" shows "filter P xs = [x]"
proof -
  have "filter P xs = filter (\<lambda>y. y = x) xs" using assms(3) by (intro filter_cong) auto
  also have "\<dots> = [x]" using assms(1,2) by (induction xs) (auto simp: filter_empty_conv)
  finally show ?thesis .
qed

lemma sources_hit:
  assumes "keyed lib a" "s \<in> set (sources (exact_aliases a))" "same_key lib p s" shows "exactAliasSources lib a p = [s]"
proof -
  have "filter (same_key lib p) (sources (exact_aliases a)) = [s]"
    using assms by (intro distinct_filter_single) (auto simp: keyed_def same_key_def)
  with assms(2,3) show ?thesis by (auto simp: exactAliasSources_def same_key_def sources_def)
qed

lemma sources_miss:
  assumes "nonempty (path_key lib p)" "\<And>s. s \<in> set (sources (exact_aliases a)) \<Longrightarrow> \<not> same_key lib p s"
  shows "exactAliasSources lib a p = []"
  using assms by (auto simp: exactAliasSources_def filter_empty_conv)

lemma no_prefixes: "prefix_aliases a = [] \<Longrightarrow> take 1 p \<noteq> [slash] \<Longrightarrow> lexicalPrefixAliasSources a p = Inr []"
  by (simp add: lexicalPrefixAliasSources_def pathAndAncestors_eq prefixes_at_def sources_def by_depth_def)

lemma hops_miss:
  assumes "keyed lib a" "nonempty (path_key lib p)" "\<And>s. s \<in> set (sources (exact_aliases a)) \<Longrightarrow> \<not> same_key lib p s"
  shows "resolve_hops (Suc n) lib a True applied p = Inr (Some p)"
  using sources_miss [OF assms(2,3)] no_prefixes [of a p] keyed_path(1) [OF assms(2)] assms(1)
  by (simp add: keyed_def ambiguous_prefixes_def)

lemma hops_hit:
  assumes "keyed lib a" "(s, t) \<in> set (exact_aliases a)" "same_key lib p s"
  shows "resolve_hops (Suc n) lib a True applied p =
    (if ExactKey s \<in> set applied then Inr None else resolve_hops n lib a True (ExactKey s # applied) t)"
proof -
  from assms(2) have s: "s \<in> set (sources (exact_aliases a))" by (force simp: sources_def)
  have "target_of (exact_aliases a) s = t" using assms(1,2) by (simp add: target_of_def keyed_def sources_def)
  with sources_hit [OF assms(1) s assms(3)] show ?thesis by simp
qed

lemma hops_31: "MAX_ALIAS_HOPS = Suc (Suc (Suc 29))"
  by (simp add: MAX_ALIAS_HOPS_def)

lemma resolve_miss:
  assumes "keyed lib a" "nonempty (path_key lib p)" "\<And>s. s \<in> set (sources (exact_aliases a)) \<Longrightarrow> \<not> same_key lib p s"
  shows "resolveDocAliasInMode lib a p True = Inr (Some p)"
  unfolding resolveDocAliasInMode_def hops_31 by (rule hops_miss [OF assms])

lemma resolve_hit:
  assumes "keyed lib a" "(s, t) \<in> set (exact_aliases a)" "same_key lib p s"
    and "nonempty (path_key lib t)" "\<And>s. s \<in> set (sources (exact_aliases a)) \<Longrightarrow> \<not> same_key lib t s"
  shows "resolveDocAliasInMode lib a p True = Inr (Some t)"
proof -
  have "resolve_hops (Suc (Suc 29)) lib a True [ExactKey s] t = Inr (Some t)" by (rule hops_miss [OF assms(1,4,5)])
  then show ?thesis unfolding resolveDocAliasInMode_def hops_31 hops_hit [OF assms(1-3)] by simp
qed

lemma resolve_loop:
  assumes "keyed lib a" "(s, t) \<in> set (exact_aliases a)" "same_key lib t s"
  shows "resolveDocAliasInMode lib a t True = Inr None"
  unfolding resolveDocAliasInMode_def hops_31 hops_hit [OF assms] by simp

end
