(* ===== verification/AliasHistory.thy ===== *)
theory AliasHistory
  imports AliasMoves
begin

text \<open>
  Documents that are made, moved one by one and deleted, with the aliases each change leaves: every path a
  document ever had leads to it. The documents stand for the stores that call this one; of them only what they
  ask of the aliases is kept, and that no two documents are at the same path.
\<close>

section \<open>Documents and their aliases\<close>

record tracked_doc =
  td_path :: js_string
  td_former :: "js_string list"

record doc_world =
  docs :: "(string \<times> tracked_doc) list"
  aliases :: doc_aliases

definition empty_world :: doc_world where
  "empty_world = \<lparr>docs = [], aliases = emptyAliases\<rparr>"

datatype doc_event = Making string js_string | Moving string js_string | Deleting string

definition free_path :: "path_library \<Rightarrow> (string \<times> tracked_doc) list \<Rightarrow> js_string \<Rightarrow> bool" where
  "free_path lib ds p \<longleftrightarrow> nonempty (path_key lib p) \<and> list_all (\<lambda>(i, d). \<not> same_key lib (td_path d) p) ds"

fun doc_step :: "path_library \<Rightarrow> (doc_aliases \<Rightarrow> int) \<Rightarrow> doc_event \<Rightarrow> doc_world \<Rightarrow> doc_world" where
  "doc_step lib size_of (Making i p) w =
     (if map_of (docs w) i = None \<and> free_path lib (docs w) p \<and> reservedByAliasIn lib (aliases w) p = Inr None
      then w\<lparr>docs := docs w @ [(i, \<lparr>td_path = p, td_former = []\<rparr>)]\<rparr> else w)"
| "doc_step lib size_of (Moving i p) w =
     (case map_of (docs w) i of
        None \<Rightarrow> w
      | Some d \<Rightarrow>
          if \<not> free_path lib (filter (\<lambda>(j, _). j \<noteq> i) (docs w)) p then w
          else (case prepareDocAliasMove lib size_of (aliases w) (td_path d) p of
                  Inl e \<Rightarrow> w
                | Inr a \<Rightarrow> \<lparr>docs = map (\<lambda>(j, e). (j, if j = i then \<lparr>td_path = p, td_former = td_path d # td_former d\<rparr> else e)) (docs w),
                           aliases = a\<rparr>))"
| "doc_step lib size_of (Deleting i) w =
     (case map_of (docs w) i of
        None \<Rightarrow> w
      | Some d \<Rightarrow>
          (case prepareDocAliasRetirement lib size_of (aliases w) (td_path d) of
             Inl e \<Rightarrow> w
           | Inr a \<Rightarrow> \<lparr>docs = filter (\<lambda>(j, _). j \<noteq> i) (docs w), aliases = (case a of Some b \<Rightarrow> b | None \<Rightarrow> aliases w)\<rparr>))"

section \<open>The invariant\<close>

definition world_ok :: "path_library \<Rightarrow> doc_world \<Rightarrow> bool" where
  "world_ok lib w \<longleftrightarrow>
     keyed lib (aliases w) \<and> distinct (map fst (docs w))
     \<and> (\<forall>(s, t) \<in> set (exact_aliases (aliases w)). \<exists>(i, d) \<in> set (docs w). td_path d = t)
     \<and> (\<forall>(i, d) \<in> set (docs w). nonempty (path_key lib (td_path d)))
     \<and> (\<forall>(i, d) \<in> set (docs w). \<forall>(j, e) \<in> set (docs w). same_key lib (td_path d) (td_path e) \<longrightarrow> i = j)
     \<and> (\<forall>(i, d) \<in> set (docs w). \<forall>s \<in> set (sources (exact_aliases (aliases w))). \<not> same_key lib (td_path d) s)
     \<and> (\<forall>(i, d) \<in> set (docs w). \<forall>q \<in> set (td_former d).
          nonempty (path_key lib q)
          \<and> (same_key lib q (td_path d) \<or> (\<exists>s. (s, td_path d) \<in> set (exact_aliases (aliases w)) \<and> same_key lib q s)))"

lemma world_okD:
  assumes "world_ok lib w"
  shows "keyed lib (aliases w)" and "distinct (map fst (docs w))"
    and "(s, t) \<in> set (exact_aliases (aliases w)) \<Longrightarrow> \<exists>i d. (i, d) \<in> set (docs w) \<and> td_path d = t"
    and "(i, d) \<in> set (docs w) \<Longrightarrow> nonempty (path_key lib (td_path d))"
    and "(i, d) \<in> set (docs w) \<Longrightarrow> (j, e) \<in> set (docs w) \<Longrightarrow> same_key lib (td_path d) (td_path e) \<Longrightarrow> i = j"
    and "(i, d) \<in> set (docs w) \<Longrightarrow> s \<in> set (sources (exact_aliases (aliases w))) \<Longrightarrow> \<not> same_key lib (td_path d) s"
    and "(i, d) \<in> set (docs w) \<Longrightarrow> q \<in> set (td_former d) \<Longrightarrow> nonempty (path_key lib q)
      \<and> (same_key lib q (td_path d) \<or> (\<exists>s. (s, td_path d) \<in> set (exact_aliases (aliases w)) \<and> same_key lib q s))"
  using assms unfolding world_ok_def by (fastforce+)

lemma world_okI:
  assumes "keyed lib (aliases w)" and "distinct (map fst (docs w))"
    and "\<And>s t. (s, t) \<in> set (exact_aliases (aliases w)) \<Longrightarrow> \<exists>i d. (i, d) \<in> set (docs w) \<and> td_path d = t"
    and "\<And>i d. (i, d) \<in> set (docs w) \<Longrightarrow> nonempty (path_key lib (td_path d))"
    and "\<And>i d j e. (i, d) \<in> set (docs w) \<Longrightarrow> (j, e) \<in> set (docs w) \<Longrightarrow> same_key lib (td_path d) (td_path e) \<Longrightarrow> i = j"
    and "\<And>i d s. (i, d) \<in> set (docs w) \<Longrightarrow> s \<in> set (sources (exact_aliases (aliases w))) \<Longrightarrow> \<not> same_key lib (td_path d) s"
    and "\<And>i d q. (i, d) \<in> set (docs w) \<Longrightarrow> q \<in> set (td_former d) \<Longrightarrow> nonempty (path_key lib q)
      \<and> (same_key lib q (td_path d) \<or> (\<exists>s. (s, td_path d) \<in> set (exact_aliases (aliases w)) \<and> same_key lib q s))"
  shows "world_ok lib w"
proof -
  have "\<forall>x \<in> set (exact_aliases (aliases w)). case x of (s, t) \<Rightarrow> \<exists>x \<in> set (docs w). case x of (i, d) \<Rightarrow> td_path d = t"
    using assms(3) by fastforce
  moreover have "\<forall>x \<in> set (docs w). case x of (i, d) \<Rightarrow> \<forall>y \<in> set (docs w). case y of (j, e) \<Rightarrow> same_key lib (td_path d) (td_path e) \<longrightarrow> i = j"
    using assms(5) by fast
  moreover have "\<forall>x \<in> set (docs w). case x of (i, d) \<Rightarrow> \<forall>s \<in> set (sources (exact_aliases (aliases w))). \<not> same_key lib (td_path d) s"
    using assms(6) by fast
  moreover have "\<forall>x \<in> set (docs w). case x of (i, d) \<Rightarrow> nonempty (path_key lib (td_path d))" using assms(4) by fast
  moreover have "\<forall>x \<in> set (docs w). case x of (i, d) \<Rightarrow> \<forall>q \<in> set (td_former d). nonempty (path_key lib q)
      \<and> (same_key lib q (td_path d) \<or> (\<exists>s. (s, td_path d) \<in> set (exact_aliases (aliases w)) \<and> same_key lib q s))"
    using assms(7) by fast
  ultimately show ?thesis using assms(1,2) unfolding world_ok_def by blast
qed

text \<open>What the invariant is for.\<close>

lemma former_resolves:
  assumes "world_ok lib w" "(i, d) \<in> set (docs w)" "q \<in> set (td_former d)"
  shows "\<exists>r. resolveDocAliasIn lib (aliases w) q = Inr (Some r) \<and> portablePathMatches lib r (td_path d)"
proof -
  note ok = world_okD [OF assms(1)]
  have unique: "prefixSourcesArePortableUnique lib (aliases w)"
    using ok(1) by (simp add: keyed_def prefixSourcesArePortableUnique_def sources_def)
  from ok(7) [OF assms(2,3)] consider (here) "nonempty (path_key lib q)" "same_key lib q (td_path d)"
    | (moved) s where "(s, td_path d) \<in> set (exact_aliases (aliases w))" "same_key lib q s" by blast
  then show ?thesis
  proof cases
    case here
    have "\<not> same_key lib q s" if "s \<in> set (sources (exact_aliases (aliases w)))" for s
      using ok(6) [OF assms(2) that] here(2) same_key_sym same_key_trans by blast
    with resolve_miss [OF ok(1) here(1)] unique here(2) show ?thesis
      by (auto simp: resolveDocAliasIn_def portablePathMatches_def)
  next
    case moved
    from resolve_hit [OF ok(1) moved ok(4) [OF assms(2)] ok(6) [OF assms(2)]] unique show ?thesis
      by (auto simp: resolveDocAliasIn_def portablePathMatches_def)
  qed
qed

section \<open>Compaction of exact aliases\<close>

lemma compact_exact_Inr:
  "compact_exact lib a (s, t) = Inr y \<longleftrightarrow> (\<exists>q. y = (s, q) \<and> resolveDocAliasInMode lib a t True = Inr (Some q) \<and> q \<noteq> [] \<and> q \<noteq> s)"
  by (cases "resolveDocAliasInMode lib a t True") (auto simp: compact_exact_def split: option.splits)

lemma and_then_Inr: "and_then x f = Inr y \<longleftrightarrow> (\<exists>z. x = Inr z \<and> f z = Inr y)"
  by (cases x) auto

lemma list_all2_map_eq: "list_all2 (\<lambda>x y. y = f x) xs ys \<Longrightarrow> ys = map f xs"
  by (induction rule: list_all2_induct) auto

text \<open>A set of exact aliases whose targets resolve as a function says is compacted to that.\<close>

lemma compacted:
  assumes "prefix_aliases a = []" "compactAliases lib a = Inr b"
    and "\<And>s t. (s, t) \<in> set (exact_aliases a) \<Longrightarrow> resolveDocAliasInMode lib a t True = Inr (Some (g t))"
  shows "prefix_aliases b = []" "exact_aliases b = map (\<lambda>(s, t). (s, g t)) (exact_aliases a)"
proof -
  from assms(1,2) obtain es where es: "traverse (compact_exact lib a) (exact_aliases a) = Inr es" and b: "b = \<lparr>exact_aliases = es, prefix_aliases = []\<rparr>"
    by (auto simp: compactAliases_def and_then_Inr)
  from es have all2: "list_all2 (\<lambda>x y. compact_exact lib a x = Inr y) (exact_aliases a) es" by (simp add: traverse_Inr_iff)
  have "list_all2 (\<lambda>x y. y = (\<lambda>(s, t). (s, g t)) x) (exact_aliases a) es"
    using all2 by (rule list.rel_mono_strong) (auto simp: compact_exact_Inr assms(3))
  then have "es = map (\<lambda>(s, t). (s, g t)) (exact_aliases a)"
    by (rule list_all2_map_eq)
  with b show "prefix_aliases b = []" "exact_aliases b = map (\<lambda>(s, t). (s, g t)) (exact_aliases a)" by simp_all
qed

lemma list_all2_left: "list_all2 P xs ys \<Longrightarrow> x \<in> set xs \<Longrightarrow> \<exists>y \<in> set ys. P x y"
  by (induction rule: list_all2_induct) auto

lemma compact_fails:
  assumes "compactAliases lib a = Inr b" "(s, t) \<in> set (exact_aliases a)" shows "resolveDocAliasInMode lib a t True \<noteq> Inr None"
proof
  assume none: "resolveDocAliasInMode lib a t True = Inr None"
  from assms(1) obtain es where "traverse (compact_exact lib a) (exact_aliases a) = Inr es" by (auto simp: compactAliases_def and_then_Inr)
  then have "list_all2 (\<lambda>x y. compact_exact lib a x = Inr y) (exact_aliases a) es" by (simp add: traverse_Inr_iff)
  from list_all2_left [OF this assms(2)] obtain y where "compact_exact lib a (s, t) = Inr y" by blast
  with none show False by (simp add: compact_exact_Inr)
qed

lemma sources_map [simp]: "sources (map (\<lambda>(s, t). (s, g t)) m) = sources m"
  by (simp add: sources_def case_prod_beta comp_def)

lemma update_new: "k \<notin> set (sources m) \<Longrightarrow> AList.update k v m = m @ [(k, v)]"
  by (induction m) (auto simp: sources_def)

lemma serialized: "serializeDocAliases size_of a = Inr b \<Longrightarrow> b = a"
  by (simp add: serializeDocAliases_def split: if_splits)

lemma keyed_part:
  assumes "keyed lib a" "prefix_aliases b = []" "distinct (sources (exact_aliases b))"
    "set (sources (exact_aliases b)) \<subseteq> set (sources (exact_aliases a))"
  shows "keyed lib b"
  using assms by (auto simp: keyed_def)

lemma keyed_add:
  assumes "keyed lib a" "nonempty (path_key lib p)" "\<And>s. s \<in> set (sources (exact_aliases a)) \<Longrightarrow> \<not> same_key lib p s"
  shows "keyed lib \<lparr>exact_aliases = exact_aliases a @ [(p, t)], prefix_aliases = []\<rparr>"
proof -
  have "path_key lib p \<noteq> path_key lib s" "path_key lib s \<noteq> path_key lib p" if "s \<in> set (sources (exact_aliases a))" for s
    using assms(2) assms(3) [OF that] by (auto simp: same_key_def)
  with assms(1,2) show ?thesis by (auto simp: keyed_def sources_def)
qed

definition without_key :: "path_library \<Rightarrow> js_string \<Rightarrow> (js_string \<times> js_string) list \<Rightarrow> (js_string \<times> js_string) list" where
  "without_key lib p m = filter (\<lambda>(s, t). \<not> same_key lib p s) m"

lemma sources_without: "set (sources (without_key lib p m)) \<subseteq> {s \<in> set (sources m). \<not> same_key lib p s}"
  by (auto simp: sources_def without_key_def)

lemma distinct_without: "distinct (sources m) \<Longrightarrow> distinct (sources (without_key lib p m))"
  by (auto simp: sources_def without_key_def distinct_map_filter)

section \<open>A move\<close>

text \<open>The set a move compacts: the aliases at the new path are gone, and the old path is one.\<close>

definition moved_set :: "path_library \<Rightarrow> doc_aliases \<Rightarrow> js_string \<Rightarrow> js_string \<Rightarrow> doc_aliases" where
  "moved_set lib a p q = \<lparr>exact_aliases = without_key lib q (exact_aliases a) @ [(p, q)], prefix_aliases = []\<rparr>"

lemma delete_without_key:
  assumes "keyed lib a" "s \<in> set (sources (exact_aliases a))" "same_key lib q s"
  shows "AList.delete s (exact_aliases a) = without_key lib q (exact_aliases a)"
  unfolding AList.delete_eq without_key_def
proof (rule filter_cong)
  fix x assume x: "x \<in> set (exact_aliases a)"
  then have "fst x \<in> set (sources (exact_aliases a))" by (simp add: sources_def)
  with assms have "same_key lib q (fst x) \<longleftrightarrow> fst x = s" by (auto simp: keyed_def same_key_def)
  then show "(case x of (k', uu) \<Rightarrow> s \<noteq> k') \<longleftrightarrow> (case x of (s, t) \<Rightarrow> \<not> same_key lib q s)" by (cases x) auto
qed simp

lemma move_compacts:
  assumes "keyed lib a" "p \<notin> set (sources (exact_aliases a))" "nonempty (path_key lib q)" "prepareDocAliasMove lib size_of a p q = Inr b"
  shows "compactAliases lib (moved_set lib a p q) = Inr b"
proof -
  have pre: "prefix_aliases a = []" using assms(1) by (simp add: keyed_def)
  then have none: "portablePrefixAliasSources lib a q = Inr []" by (simp add: portablePrefixAliasSources_def)
  have set_alias: "set_alias (p, q, ExactAlias) c = \<lparr>exact_aliases = exact_aliases c @ [(p, q)], prefix_aliases = []\<rparr>"
    if "prefix_aliases c = []" "p \<notin> set (sources (exact_aliases c))" for c
    using that by (simp add: set_alias_def update_new)
  consider (miss) "exactAliasSources lib a q = []" | (hit) s where "exactAliasSources lib a q = [s]"
    | (many) s s' ss where "exactAliasSources lib a q = s # s' # ss"
    by (cases "exactAliasSources lib a q" rule: remdups_adj.cases) auto
  then show ?thesis
  proof cases
    case miss
    then have "without_key lib q (exact_aliases a) = exact_aliases a"
      using assms(3) by (auto simp: exactAliasSources_def without_key_def filter_empty_conv sources_def filter_id_conv split: if_splits)
    with miss none pre assms(2,4) set_alias [of a] show ?thesis
      by (auto simp: prepareDocAliasMove_def moved_set_def and_then_Inr dest!: serialized split: if_splits)
  next
    case hit
    then have "filter (same_key lib q) (sources (exact_aliases a)) = [s]"
      using assms(3) by (auto simp: exactAliasSources_def split: if_splits)
    then have "s \<in> set (filter (same_key lib q) (sources (exact_aliases a)))" by simp
    then have s: "s \<in> set (sources (exact_aliases a))" "same_key lib q s" by auto
    let ?c = "a\<lparr>exact_aliases := AList.delete s (exact_aliases a)\<rparr>"
    have "p \<notin> set (sources (exact_aliases ?c))" using assms(2) by (auto simp: sources_def AList.delete_eq)
    with hit none pre assms(4) set_alias [of ?c] delete_without_key [OF assms(1) s] show ?thesis
      by (auto simp: prepareDocAliasMove_def moved_set_def and_then_Inr dest!: serialized split: if_splits option.splits)
  next
    case many
    with none assms(4) show ?thesis by (simp add: prepareDocAliasMove_def split: if_splits)
  qed
qed

text \<open>An alias at the new path led to the document that moves there.\<close>

lemma move_reclaims:
  assumes "keyed lib a" "(s, t) \<in> set (exact_aliases a)" "same_key lib q s"
    and "nonempty (path_key lib t)" "\<And>s. s \<in> set (sources (exact_aliases a)) \<Longrightarrow> \<not> same_key lib t s"
    and "prepareDocAliasMove lib size_of a p q = Inr b"
  shows "portablePathMatches lib t p"
proof -
  from assms(2) have "s \<in> set (sources (exact_aliases a))" by (force simp: sources_def)
  from sources_hit [OF assms(1) this assms(3)] have "exactAliasSources lib a q = [s]" .
  moreover have "same_key lib s s" using same_key_sym [OF assms(3)] assms(3) same_key_trans by blast
  from resolve_hit [OF assms(1,2) this assms(4,5)] have "resolveDocAliasInMode lib a s True = Inr (Some t)" .
  moreover have "portablePrefixAliasSources lib a q = Inr []" using assms(1) by (simp add: portablePrefixAliasSources_def keyed_def)
  ultimately show ?thesis using assms(6) by (auto simp: prepareDocAliasMove_def split: if_splits)
qed

text \<open>What a move leaves: whatever led to the old path leads to the new one, and nothing else changes.\<close>

lemma move_result:
  assumes ok: "world_ok lib w" and d: "(i, d) \<in> set (docs w)"
    and free: "nonempty (path_key lib q)" "\<And>j e. (j, e) \<in> set (docs w) \<Longrightarrow> j \<noteq> i \<Longrightarrow> \<not> same_key lib (td_path e) q"
    and move: "prepareDocAliasMove lib size_of (aliases w) (td_path d) q = Inr b"
  shows "\<not> same_key lib (td_path d) q" and "keyed lib b"
    and "exact_aliases b = map (\<lambda>(s, t). (s, if t = td_path d then q else t)) (without_key lib q (exact_aliases (aliases w)) @ [(td_path d, q)])"
proof -
  note okD = world_okD [OF ok]
  let ?a = "aliases w" and ?p = "td_path d"
  let ?m = "moved_set lib ?a ?p q"
  have new: "\<not> same_key lib ?p s" if "s \<in> set (sources (exact_aliases ?a))" for s using okD(6) [OF d that] .
  have p: "?p \<notin> set (sources (exact_aliases ?a))" using new [of ?p] okD(4) [OF d] by (auto simp: same_key_def)
  have pre: "prefix_aliases ?a = []" using okD(1) by (simp add: keyed_def)
  have "keyed lib \<lparr>exact_aliases = without_key lib q (exact_aliases ?a), prefix_aliases = []\<rparr>"
    using okD(1) sources_without [of lib q "exact_aliases ?a"]
    by (intro keyed_part [OF okD(1)]) (auto simp: keyed_def distinct_without)
  from keyed_add [OF this okD(4) [OF d]] new sources_without [of lib q "exact_aliases ?a"] have km: "keyed lib ?m"
    by (auto simp: moved_set_def)
  from move_compacts [OF okD(1) p free(1) move] have comp: "compactAliases lib ?m = Inr b" .
  have last: "(?p, q) \<in> set (exact_aliases ?m)" by (simp add: moved_set_def)
  show apart: "\<not> same_key lib ?p q"
  proof
    assume "same_key lib ?p q"
    from resolve_loop [OF km last same_key_sym [OF this]] compact_fails [OF comp last] show False by simp
  qed
  have at_new: "\<not> same_key lib q s" if "s \<in> set (sources (exact_aliases ?m))" for s
    using that apart sources_without [of lib q "exact_aliases ?a"] same_key_sym by (auto simp: moved_set_def sources_def)
  have goes: "resolveDocAliasInMode lib ?m t True = Inr (Some (if t = ?p then q else t))" if st: "(s, t) \<in> set (exact_aliases ?m)" for s t
  proof (cases "t = ?p")
    case True
    have "same_key lib ?p ?p" using okD(4) [OF d] by (simp add: same_key_def)
    from resolve_hit [OF km last this free(1) at_new] True show ?thesis by simp
  next
    case False
    from st consider "t = q" | "(s, t) \<in> set (exact_aliases ?a)" by (auto simp: moved_set_def without_key_def)
    then show ?thesis
    proof cases
      case 1
      with resolve_miss [OF km free(1) at_new] False show ?thesis by simp
    next
      case 2
      from okD(3) [OF this] obtain j e where e: "(j, e) \<in> set (docs w)" "td_path e = t" by blast
      have "\<not> same_key lib t s'" if "s' \<in> set (sources (exact_aliases ?m))" for s'
      proof -
        from that sources_without [of lib q "exact_aliases ?a"] consider "s' = ?p" | "s' \<in> set (sources (exact_aliases ?a))"
          by (auto simp: moved_set_def sources_def)
        then show ?thesis
        proof cases
          case 1
          show ?thesis
          proof
            assume "same_key lib t s'"
            with 1 e okD(5) [OF e(1) d] have "j = i" by simp
            with e d okD(2) have "e = d" by (auto dest: eq_key_imp_eq_value)
            with e False show False by simp
          qed
        next
          case 2
          with okD(6) [OF e(1)] e(2) show ?thesis by simp
        qed
      qed
      with resolve_miss [OF km] okD(4) [OF e(1)] e(2) False show ?thesis by simp
    qed
  qed
  have pm: "prefix_aliases ?m = []" by (simp add: moved_set_def)
  have b: "prefix_aliases b = []" "exact_aliases b = map (\<lambda>(s, t). (s, if t = ?p then q else t)) (exact_aliases ?m)"
    by (rule compacted [OF pm comp], rule goes, assumption)+
  then show "exact_aliases b = map (\<lambda>(s, t). (s, if t = ?p then q else t)) (without_key lib q (exact_aliases ?a) @ [(?p, q)])"
    by (simp add: moved_set_def)
  show "keyed lib b" using b km by (intro keyed_part [OF km]) (simp_all add: keyed_def)
qed

definition moved_doc :: "string \<Rightarrow> tracked_doc \<Rightarrow> js_string \<Rightarrow> string \<Rightarrow> tracked_doc \<Rightarrow> tracked_doc" where
  "moved_doc i d q j e = (if j = i then \<lparr>td_path = q, td_former = td_path d # td_former d\<rparr> else e)"

lemma move_ok:
  assumes ok: "world_ok lib w" and d: "(i, d) \<in> set (docs w)"
    and free: "nonempty (path_key lib q)" "\<And>j e. (j, e) \<in> set (docs w) \<Longrightarrow> j \<noteq> i \<Longrightarrow> \<not> same_key lib (td_path e) q"
    and move: "prepareDocAliasMove lib size_of (aliases w) (td_path d) q = Inr b"
  shows "world_ok lib \<lparr>docs = map (\<lambda>(j, e). (j, moved_doc i d q j e)) (docs w), aliases = b\<rparr>"
proof -
  note okD = world_okD [OF ok]
  note result = move_result [OF assms]
  let ?ds = "map (\<lambda>(j, e). (j, moved_doc i d q j e)) (docs w)"
  have only: "e = d" if "(i, e) \<in> set (docs w)" for e using that d okD(2) by (auto dest: eq_key_imp_eq_value)
  have src: "s = td_path d \<or> (s \<in> set (sources (exact_aliases (aliases w))) \<and> \<not> same_key lib q s)" if "s \<in> set (sources (exact_aliases b))" for s
    using that by (force simp: result(3) sources_def without_key_def)
  have old: "(s, if t = td_path d then q else t) \<in> set (exact_aliases b)"
    if "(s, t) \<in> set (exact_aliases (aliases w))" "\<not> same_key lib q s" for s t
    using that by (force simp: result(3) without_key_def)
  have self: "(td_path d, q) \<in> set (exact_aliases b)" by (auto simp: result(3))
  have member: "\<exists>e. (j, e) \<in> set (docs w) \<and> e' = moved_doc i d q j e" if "(j, e') \<in> set ?ds" for j e' using that by auto
  have names: "distinct (map fst ?ds)" using okD(2) by (simp add: case_prod_beta comp_def)
  have targets: "\<exists>j e. (j, e) \<in> set ?ds \<and> td_path e = t" if st: "(s, t) \<in> set (exact_aliases b)" for s t
  proof (cases "t = q")
    case True
    from d show ?thesis using True by (auto simp: moved_doc_def image_iff intro!: exI [of _ i] bexI [of _ "(i, d)"])
  next
    case False
    with st have "(s, t) \<in> set (exact_aliases (aliases w))" "t \<noteq> td_path d"
      by (auto simp: result(3) without_key_def split: if_splits)
    with okD(3) obtain j e where e: "(j, e) \<in> set (docs w)" "td_path e = t" by blast
    with \<open>t \<noteq> td_path d\<close> only have "j \<noteq> i" by auto
    with e show ?thesis by (auto simp: moved_doc_def image_iff intro!: exI [of _ j] exI [of _ e] bexI [of _ "(j, e)"])
  qed
  have keys: "nonempty (path_key lib (td_path (moved_doc i d q j e)))" if "(j, e) \<in> set (docs w)" for j e
    using that okD(4) free(1) by (simp add: moved_doc_def)
  have apart: "j = k" if "(j, e) \<in> set (docs w)" "(k, g) \<in> set (docs w)"
      "same_key lib (td_path (moved_doc i d q j e)) (td_path (moved_doc i d q k g))" for j e k g
    using that okD(5) free(2) [OF that(1)] free(2) [OF that(2)] same_key_sym [OF that(3)] by (auto simp: moved_doc_def split: if_splits)
  have off: "\<not> same_key lib (td_path (moved_doc i d q j e)) s" if e: "(j, e) \<in> set (docs w)" and s: "s \<in> set (sources (exact_aliases b))" for j e s
  proof (cases "j = i")
    case True
    with src [OF s] result(1) same_key_sym show ?thesis by (auto simp: moved_doc_def)
  next
    case False
    have "\<not> same_key lib (td_path e) (td_path d)" using okD(5) [OF e d] False by blast
    with False src [OF s] okD(6) [OF e] show ?thesis by (auto simp: moved_doc_def)
  qed
  have former: "nonempty (path_key lib r)
      \<and> (same_key lib r (td_path (moved_doc i d q j e)) \<or> (\<exists>s. (s, td_path (moved_doc i d q j e)) \<in> set (exact_aliases b) \<and> same_key lib r s))"
    if e: "(j, e) \<in> set (docs w)" and r: "r \<in> set (td_former (moved_doc i d q j e))" for j e r
  proof (cases "j = i")
    case False
    then have "r \<in> set (td_former e)" using r by (simp add: moved_doc_def)
    note was = okD(7) [OF e this]
    have other: "td_path e \<noteq> td_path d" using okD(5) [OF e d] okD(4) [OF d] False by (auto simp: same_key_def)
    have "(s, td_path e) \<in> set (exact_aliases b)" if "(s, td_path e) \<in> set (exact_aliases (aliases w))" "same_key lib r s" for s
    proof -
      have "\<not> same_key lib q s"
      proof
        assume "same_key lib q s"
        from move_reclaims [OF okD(1) that(1) this okD(4) [OF e] okD(6) [OF e] move] other have "same_key lib (td_path e) (td_path d)"
          by (auto simp: portablePathMatches_def)
        with okD(5) [OF e d] False show False by blast
      qed
      with old [OF that(1)] other show ?thesis by simp
    qed
    with was False show ?thesis by (auto simp: moved_doc_def)
  next
    case True
    with only e have "e = d" by blast
    from True r have "r = td_path d \<or> r \<in> set (td_former d)" by (simp add: moved_doc_def)
    then show ?thesis
    proof
      assume "r = td_path d"
      with self okD(4) [OF d] True show ?thesis by (auto simp: moved_doc_def same_key_def)
    next
      assume "r \<in> set (td_former d)"
      from okD(7) [OF d this] have "nonempty (path_key lib r)"
        and "same_key lib r (td_path d) \<or> (\<exists>s. (s, td_path d) \<in> set (exact_aliases (aliases w)) \<and> same_key lib r s)" by blast+
      then show ?thesis
      proof (elim disjE exE conjE)
        assume "same_key lib r (td_path d)"
        with self \<open>nonempty (path_key lib r)\<close> True show ?thesis by (auto simp: moved_doc_def)
      next
        fix s assume s: "(s, td_path d) \<in> set (exact_aliases (aliases w))" "same_key lib r s"
        show ?thesis
        proof (cases "same_key lib q s")
          case True
          with s(2) have "same_key lib r q" using same_key_sym same_key_trans by blast
          with \<open>nonempty (path_key lib r)\<close> \<open>j = i\<close> show ?thesis by (simp add: moved_doc_def)
        next
          case False
          from old [OF s(1) this] s(2) \<open>nonempty (path_key lib r)\<close> \<open>j = i\<close> show ?thesis by (auto simp: moved_doc_def)
        qed
      qed
    qed
  qed
  let ?w = "\<lparr>docs = ?ds, aliases = b\<rparr>"
  show ?thesis
  proof (rule world_okI [of lib ?w], unfold doc_world.simps)
    show "keyed lib b" by (rule result(2))
    show "distinct (map fst ?ds)" by (rule names)
    show "\<exists>j e. (j, e) \<in> set ?ds \<and> td_path e = t" if "(s, t) \<in> set (exact_aliases b)" for s t using that by (rule targets)
    show "nonempty (path_key lib (td_path e))" if "(j, e) \<in> set ?ds" for j e using member [OF that] keys by blast
    show "j = k" if "(j, e) \<in> set ?ds" "(k, g) \<in> set ?ds" "same_key lib (td_path e) (td_path g)" for j e k g
      using member [OF that(1)] member [OF that(2)] that(3) apart by blast
    show "\<not> same_key lib (td_path e) s" if "(j, e) \<in> set ?ds" "s \<in> set (sources (exact_aliases b))" for j e s
      using member [OF that(1)] that(2) off by blast
    show "nonempty (path_key lib r)
        \<and> (same_key lib r (td_path e) \<or> (\<exists>s. (s, td_path e) \<in> set (exact_aliases b) \<and> same_key lib r s))"
      if "(j, e) \<in> set ?ds" "r \<in> set (td_former e)" for j e r
      using member [OF that(1)] that(2) former by blast
  qed
qed

section \<open>A deletion\<close>

lemma traverse_pure: "(\<And>x. x \<in> set xs \<Longrightarrow> f x = Inr (g x)) \<Longrightarrow> traverse f xs = Inr (map g xs)"
  by (induction xs) auto

lemma sources_resolving_filter:
  assumes "\<And>s. s \<in> set (sources (exact_aliases a)) \<Longrightarrow> resolveDocAliasInMode lib a s True = Inr (h s)"
  shows "sources_resolving lib a (\<lambda>r. Inr (Q r)) = Inr (filter (\<lambda>s. Q (h s)) (sources (exact_aliases a)))"
proof -
  have "traverse (\<lambda>s. and_then (resolveDocAliasInMode lib a s True) (\<lambda>r. and_then (Inr (Q r)) (\<lambda>b. Inr (if b then [s] else [])))) (sources (exact_aliases a))
      = Inr (map (\<lambda>s. if Q (h s) then [s] else []) (sources (exact_aliases a)))"
    by (rule traverse_pure) (simp add: assms)
  moreover have "concat (map (\<lambda>s. if Q (h s) then [s] else []) xs) = filter (\<lambda>s. Q (h s)) xs" for xs
    by (induction xs) auto
  ultimately show ?thesis by (simp add: sources_resolving_def)
qed

lemma set_fold_delete: "set (fold AList.delete ss m) = {x \<in> set m. fst x \<notin> set ss}"
  by (induction ss arbitrary: m) (auto simp: AList.delete_eq)

lemma distinct_fold_delete: "distinct (sources m) \<Longrightarrow> distinct (sources (fold AList.delete ss m))"
  by (induction ss arbitrary: m) (auto simp: sources_def distinct_delete)

lemma deletion_result:
  assumes ok: "world_ok lib w" and d: "(i, d) \<in> set (docs w)"
    and retire: "prepareDocAliasRetirement lib size_of (aliases w) (td_path d) = Inr r"
    and a: "a = (case r of Some b \<Rightarrow> b | None \<Rightarrow> aliases w)"
  shows "keyed lib a" "set (exact_aliases a) = {(s, t) \<in> set (exact_aliases (aliases w)). t \<noteq> td_path d}"
proof -
  note okD = world_okD [OF ok]
  let ?a = "aliases w"
  have pre: "prefix_aliases ?a = []" using okD(1) by (simp add: keyed_def)
  have self: "resolveDocAliasInMode lib ?a t True = Inr (Some t)" "resolveDocAliasInMode lib ?a s True = Inr (Some t)"
    if st: "(s, t) \<in> set (exact_aliases ?a)" for s t
  proof -
    from okD(3) [OF st] obtain j e where e: "(j, e) \<in> set (docs w)" "td_path e = t" by blast
    have t: "nonempty (path_key lib t)" "\<And>s. s \<in> set (sources (exact_aliases ?a)) \<Longrightarrow> \<not> same_key lib t s"
      using okD(4,6) [OF e(1)] e(2) by auto
    from resolve_miss [OF okD(1) t] show "resolveDocAliasInMode lib ?a t True = Inr (Some t)" .
    have "s \<in> set (sources (exact_aliases ?a))" using st by (force simp: sources_def)
    then have "same_key lib s s" using okD(1) by (auto simp: keyed_def same_key_def)
    from resolve_hit [OF okD(1) st this t] show "resolveDocAliasInMode lib ?a s True = Inr (Some t)" .
  qed
  have target: "target_of (exact_aliases ?a) s = t" if "(s, t) \<in> set (exact_aliases ?a)" for s t
    using that okD(1) by (simp add: target_of_def keyed_def sources_def)
  define ss where "ss = filter (\<lambda>s. target_of (exact_aliases ?a) s = td_path d) (sources (exact_aliases ?a))"
  have "resolveDocAliasInMode lib ?a s True = Inr (Some (target_of (exact_aliases ?a) s))" if s: "s \<in> set (sources (exact_aliases ?a))" for s
  proof -
    from s obtain t where "(s, t) \<in> set (exact_aliases ?a)" by (auto simp: sources_def)
    with self(2) target show ?thesis by simp
  qed
  from sources_resolving_filter [OF this, of "\<lambda>r. r = Some (td_path d)"]
  have found: "sources_resolving lib ?a (\<lambda>r. Inr (r = Some (td_path d))) = Inr ss" by (simp add: ss_def)
  have gone: "s \<in> set ss \<longleftrightarrow> t = td_path d" if "(s, t) \<in> set (exact_aliases ?a)" for s t
    using target [OF that] that by (force simp: ss_def sources_def)
  have "keyed lib a \<and> set (exact_aliases a) = {(s, t) \<in> set (exact_aliases ?a). t \<noteq> td_path d}"
  proof (cases "ss = []")
    case True
    with pre retire found a have "a = ?a" by (auto simp: prepareDocAliasRetirement_def split: if_splits)
    with okD(1) gone True show ?thesis by auto
  next
    case False
    with pre retire found a have comp: "compactAliases lib (without_exact ss ?a) = Inr a"
      by (auto simp: prepareDocAliasRetirement_def and_then_Inr dest!: serialized split: if_splits)
    let ?c = "without_exact ss ?a"
    have set_c: "set (exact_aliases ?c) = {(s, t) \<in> set (exact_aliases ?a). t \<noteq> td_path d}"
      using gone by (auto simp: without_exact_def set_fold_delete)
    have kc: "keyed lib ?c"
    proof (rule keyed_part [OF okD(1)])
      show "prefix_aliases ?c = []" using pre by (simp add: without_exact_def)
      show "distinct (sources (exact_aliases ?c))" using okD(1) by (simp add: without_exact_def keyed_def distinct_fold_delete)
      show "set (sources (exact_aliases ?c)) \<subseteq> set (sources (exact_aliases ?a))" using set_c by (auto simp: sources_def)
    qed
    have goes: "resolveDocAliasInMode lib ?c t True = Inr (Some t)" if st: "(s, t) \<in> set (exact_aliases ?c)" for s t
    proof -
      from st set_c have "(s, t) \<in> set (exact_aliases ?a)" by auto
      with okD(3) obtain j e where e: "(j, e) \<in> set (docs w)" "td_path e = t" by blast
      show ?thesis
      proof (rule resolve_miss [OF kc])
        show "nonempty (path_key lib t)" using okD(4) [OF e(1)] e(2) by simp
        show "\<not> same_key lib t s'" if "s' \<in> set (sources (exact_aliases ?c))" for s'
          using that okD(6) [OF e(1)] e(2) by (auto simp: without_exact_def set_fold_delete sources_def)
      qed
    qed
    have pc: "prefix_aliases ?c = []" using pre by (simp add: without_exact_def)
    have "prefix_aliases a = []" "exact_aliases a = map (\<lambda>(s, t). (s, t)) (exact_aliases ?c)"
      by (rule compacted [OF pc comp, where g = "\<lambda>t. t"], rule goes, assumption)+
    with kc set_c show ?thesis by (auto simp: keyed_def)
  qed
  then show "keyed lib a" "set (exact_aliases a) = {(s, t) \<in> set (exact_aliases ?a). t \<noteq> td_path d}" by blast+
qed

lemma deletion_ok:
  assumes ok: "world_ok lib w" and d: "(i, d) \<in> set (docs w)"
    and retire: "prepareDocAliasRetirement lib size_of (aliases w) (td_path d) = Inr r"
  shows "world_ok lib \<lparr>docs = filter (\<lambda>(j, _). j \<noteq> i) (docs w), aliases = (case r of Some b \<Rightarrow> b | None \<Rightarrow> aliases w)\<rparr>"
proof -
  define a where "a = (case r of Some b \<Rightarrow> b | None \<Rightarrow> aliases w)"
  note okD = world_okD [OF ok]
  note result = deletion_result [OF ok d retire a_def]
  have other: "j \<noteq> i" if "(j, e) \<in> set (docs w)" "td_path e \<noteq> td_path d" for j e
    using that d okD(2) by (auto dest: eq_key_imp_eq_value)
  have apart: "td_path e \<noteq> td_path d" if "(j, e) \<in> set (docs w)" "j \<noteq> i" for j e
    using okD(5) [OF that(1) d] okD(4) [OF d] that(2) by (auto simp: same_key_def)
  have sources_a: "set (sources (exact_aliases a)) \<subseteq> set (sources (exact_aliases (aliases w)))"
    using result(2) by (auto simp: sources_def)
  have "\<exists>j e. (j, e) \<in> set (docs w) \<and> j \<noteq> i \<and> td_path e = t" if "(s, t) \<in> set (exact_aliases a)" for s t
    using that result(2) okD(3) [of s t] other by fastforce
  moreover have "nonempty (path_key lib q) \<and> (same_key lib q (td_path e) \<or> (\<exists>s. (s, td_path e) \<in> set (exact_aliases a) \<and> same_key lib q s))"
    if "(j, e) \<in> set (docs w)" "j \<noteq> i" "q \<in> set (td_former e)" for j e q
    using okD(7) [OF that(1,3)] apart [OF that(1,2)] result(2) by auto
  moreover have "distinct (map fst (filter (\<lambda>(j, _). j \<noteq> i) (docs w)))" using okD(2) by (simp add: distinct_map_filter)
  ultimately show ?thesis
    unfolding a_def [symmetric] using result(1) okD(4-6) sources_a
    by (intro world_okI) (auto dest: subsetD, blast)
qed

section \<open>A new document\<close>

lemma making_ok:
  assumes ok: "world_ok lib w" and new: "map_of (docs w) i = None" "free_path lib (docs w) p"
    and unreserved: "reservedByAliasIn lib (aliases w) p = Inr None"
  shows "world_ok lib \<lparr>docs = docs w @ [(i, \<lparr>td_path = p, td_former = []\<rparr>)], aliases = aliases w\<rparr>"
proof -
  note okD = world_okD [OF ok]
  have p: "nonempty (path_key lib p)" "\<not> same_key lib (td_path e) p" if "(j, e) \<in> set (docs w)" for j e
    using new(2) that by (auto simp: free_path_def list_all_iff)
  have key: "nonempty (path_key lib p)" using new(2) by (simp add: free_path_def)
  have i: "i \<notin> fst ` set (docs w)" using new(1) by (simp add: map_of_eq_None_iff)
  have "exactAliasSources lib (aliases w) p = []"
    using unreserved by (cases "exactAliasSources lib (aliases w) p") (auto simp: reservedByAliasIn_def)
  with key have off: "\<not> same_key lib p s" if "s \<in> set (sources (exact_aliases (aliases w)))" for s
    using that by (auto simp: exactAliasSources_def sources_def filter_empty_conv split: if_splits)
  let ?n = "\<lparr>td_path = p, td_former = []\<rparr>"
  let ?w = "\<lparr>docs = docs w @ [(i, ?n)], aliases = aliases w\<rparr>"
  have mem: "(j, e) \<in> set (docs ?w) \<longleftrightarrow> (j, e) \<in> set (docs w) \<or> (j = i \<and> e = ?n)" for j e by auto
  have old: "(j, e) \<in> set (docs w) \<Longrightarrow> \<not> same_key lib p (td_path e)" for j e using p(2) same_key_sym by blast
  show ?thesis
  proof (rule world_okI [of lib ?w])
    show "keyed lib (aliases ?w)" using okD(1) by simp
    show "distinct (map fst (docs ?w))" using okD(2) i by simp
    show "\<exists>j e. (j, e) \<in> set (docs ?w) \<and> td_path e = t" if "(s, t) \<in> set (exact_aliases (aliases ?w))" for s t
      using okD(3) [of s t] that unfolding mem by auto
    show "nonempty (path_key lib (td_path e))" if "(j, e) \<in> set (docs ?w)" for j e using that okD(4) key unfolding mem by auto
    show "j = k" if "(j, e) \<in> set (docs ?w)" "(k, g) \<in> set (docs ?w)" "same_key lib (td_path e) (td_path g)" for j e k g
      using that okD(5) p(2) old unfolding mem by auto
    show "\<not> same_key lib (td_path e) s" if "(j, e) \<in> set (docs ?w)" "s \<in> set (sources (exact_aliases (aliases ?w)))" for j e s
      using that okD(6) off unfolding mem by auto
    show "nonempty (path_key lib q) \<and> (same_key lib q (td_path e) \<or> (\<exists>s. (s, td_path e) \<in> set (exact_aliases (aliases ?w)) \<and> same_key lib q s))"
      if "(j, e) \<in> set (docs ?w)" "q \<in> set (td_former e)" for j e q
      using that okD(7) unfolding mem by auto
  qed
qed

section \<open>Every history\<close>

lemma doc_step_ok: "world_ok lib w \<Longrightarrow> world_ok lib (doc_step lib size_of e w)"
proof (cases e)
  case (Making i p)
  assume ok: "world_ok lib w"
  show ?thesis
  proof (cases "map_of (docs w) i = None \<and> free_path lib (docs w) p \<and> reservedByAliasIn lib (aliases w) p = Inr None")
    case True
    with making_ok [OF ok, of i p] Making show ?thesis by (cases w) simp
  next
    case False
    with ok Making show ?thesis by auto
  qed
next
  case (Moving i p)
  assume ok: "world_ok lib w"
  show ?thesis
  proof (cases "map_of (docs w) i")
    case None
    with ok Moving show ?thesis by simp
  next
    case (Some d)
    then have d: "(i, d) \<in> set (docs w)" by (rule map_of_SomeD)
    show ?thesis
    proof (cases "free_path lib (filter (\<lambda>(j, _). j \<noteq> i) (docs w)) p")
      case False
      with ok Moving Some show ?thesis by simp
    next
      case True
      then have free: "nonempty (path_key lib p)" "\<And>j e. (j, e) \<in> set (docs w) \<Longrightarrow> j \<noteq> i \<Longrightarrow> \<not> same_key lib (td_path e) p"
        by (auto simp: free_path_def list_all_iff)
      show ?thesis
      proof (cases "prepareDocAliasMove lib size_of (aliases w) (td_path d) p")
        case (Inl f)
        with ok Moving Some True show ?thesis by simp
      next
        case (Inr b)
        from move_ok [OF ok d free Inr] Moving Some True Inr show ?thesis by (simp add: moved_doc_def)
      qed
    qed
  qed
next
  case (Deleting i)
  assume ok: "world_ok lib w"
  show ?thesis
  proof (cases "map_of (docs w) i")
    case None
    with ok Deleting show ?thesis by simp
  next
    case (Some d)
    then have d: "(i, d) \<in> set (docs w)" by (rule map_of_SomeD)
    show ?thesis
    proof (cases "prepareDocAliasRetirement lib size_of (aliases w) (td_path d)")
      case (Inl f)
      with ok Deleting Some show ?thesis by simp
    next
      case (Inr r)
      from deletion_ok [OF ok d Inr] Deleting Some Inr show ?thesis by simp
    qed
  qed
qed

interpretation doc_history: kept_by_steps "doc_step lib size_of" "world_ok lib" for lib size_of
  by unfold_locales (rule doc_step_ok)

lemma empty_world_ok: "world_ok lib empty_world"
  by (simp add: world_ok_def empty_world_def emptyAliases_def keyed_def sources_def)

text \<open>
  C2. Whatever documents are made, moved one by one and deleted, each as far as the aliases and the other
  documents allow it: every path a document was ever at leads to where it now is, up to the spelling that the
  portable key of a path ignores. No earlier move and no later document takes it away.
\<close>

theorem former_paths_lead_to_it:
  assumes "w = fold (doc_step lib size_of) es empty_world"
    and "(i, d) \<in> set (docs w)" and "q \<in> set (td_former d)"
  shows "\<exists>r. resolveDocAliasIn lib (aliases w) q = Inr (Some r) \<and> portablePathMatches lib r (td_path d)"
  using former_resolves doc_history.run_keeps [OF empty_world_ok] assms by blast

lemma plain_path_keys: "path_key plain_paths [97] = Some [97]" "path_key plain_paths [98] = Some [98]" "path_key plain_paths [65] = Some [97]"
  by code_simp+

lemmas change_defs = free_path_def reservedByAliasIn_def exactAliasSources_def same_key_def nonempty_def portablePrefixAliasSources_def
  prepareDocAliasMove_def canonical_entry_def isStoreCanonicalPath_def compactAliases_def compact_exact_def no_prefixes set_alias_def serializeDocAliases_def sources_def target_of_def DOC_ALIASES_MAX_BYTES_def ambiguous_prefixes_def
  portablePathMatches_def

theorem former_paths_lead_to_it_witness:
  "\<exists>w d. w = fold (doc_step plain_paths (\<lambda>_. 0)) [Making ''d'' (js ''a''), Moving ''d'' (js ''b''), Moving ''d'' (js ''A'')] empty_world
     \<and> (''d'', d) \<in> set (docs w) \<and> td_path d = js ''A'' \<and> td_former d = [js ''b'', js ''a'']
     \<and> (\<exists>r. resolveDocAliasIn plain_paths (aliases w) (js ''b'') = Inr (Some r) \<and> portablePathMatches plain_paths r (js ''A''))"
proof -
  have js: "js ''a'' = [97]" "js ''b'' = [98]" "js ''A'' = [65]" by code_simp+
  let ?a = "\<lparr>exact_aliases = [([97], [98])], prefix_aliases = []\<rparr>" and ?b = "\<lparr>exact_aliases = [([98], [65])], prefix_aliases = []\<rparr>"
  have keyed: "keyed plain_paths ?a" "keyed plain_paths ?b" by (simp_all add: keyed_def sources_def plain_path_keys nonempty_def)
  have goes: "resolveDocAliasInMode plain_paths ?a [98] True = Inr (Some [98])"
    by (rule resolve_miss [OF keyed(1)]) (simp_all add: same_key_def sources_def plain_path_keys nonempty_def)
  have goes': "resolveDocAliasInMode plain_paths ?a [97] True = Inr (Some [98])"
    by (rule resolve_hit [OF keyed(1), where s = "[97]"]) (simp_all add: same_key_def sources_def plain_path_keys nonempty_def)
  have gone: "resolveDocAliasInMode plain_paths ?b [65] True = Inr (Some [65])"
    by (rule resolve_miss [OF keyed(2)]) (simp_all add: same_key_def sources_def plain_path_keys nonempty_def)
  have made: "doc_step plain_paths (\<lambda>_. 0) (Making ''d'' [97]) empty_world
      = \<lparr>docs = [(''d'', \<lparr>td_path = [97], td_former = []\<rparr>)], aliases = emptyAliases\<rparr>"
    by (simp add: change_defs plain_path_keys empty_world_def emptyAliases_def)
  have moved: "doc_step plain_paths (\<lambda>_. 0) (Moving ''d'' [98]) \<lparr>docs = [(''d'', \<lparr>td_path = [97], td_former = []\<rparr>)], aliases = emptyAliases\<rparr>
      = \<lparr>docs = [(''d'', \<lparr>td_path = [98], td_former = [[97]]\<rparr>)], aliases = \<lparr>exact_aliases = [([97], [98])], prefix_aliases = []\<rparr>\<rparr>"
    by (simp add: change_defs plain_path_keys goes goes' emptyAliases_def slash_def dot_def)
  have again: "doc_step plain_paths (\<lambda>_. 0) (Moving ''d'' [65])
        \<lparr>docs = [(''d'', \<lparr>td_path = [98], td_former = [[97]]\<rparr>)], aliases = \<lparr>exact_aliases = [([97], [98])], prefix_aliases = []\<rparr>\<rparr>
      = \<lparr>docs = [(''d'', \<lparr>td_path = [65], td_former = [[98], [97]]\<rparr>)], aliases = \<lparr>exact_aliases = [([98], [65])], prefix_aliases = []\<rparr>\<rparr>"
    by (simp add: change_defs plain_path_keys goes' gone slash_def dot_def)
  define w where "w = fold (doc_step plain_paths (\<lambda>_. 0)) [Making ''d'' (js ''a''), Moving ''d'' (js ''b''), Moving ''d'' (js ''A'')] empty_world"
  have "docs w = [(''d'', \<lparr>td_path = js ''A'', td_former = [js ''b'', js ''a'']\<rparr>)]"
    unfolding w_def js fold_simps made moved again by (rule doc_world.select_convs(1))
  then have d: "(''d'', \<lparr>td_path = js ''A'', td_former = [js ''b'', js ''a'']\<rparr>) \<in> set (docs w)" by (simp only: list.set insert_iff simp_thms)
  have "\<exists>r. resolveDocAliasIn plain_paths (aliases w) (js ''b'') = Inr (Some r)
      \<and> portablePathMatches plain_paths r (td_path \<lparr>td_path = js ''A'', td_former = [js ''b'', js ''a'']\<rparr>)"
    by (rule former_paths_lead_to_it [OF w_def d]) (simp only: tracked_doc.simps list.set insert_iff simp_thms)
  then have "\<exists>r. resolveDocAliasIn plain_paths (aliases w) (js ''b'') = Inr (Some r) \<and> portablePathMatches plain_paths r (js ''A'')"
    unfolding tracked_doc.select_convs .
  with w_def d show ?thesis
    by (intro exI [of _ w] exI [of _ "\<lparr>td_path = js ''A'', td_former = [js ''b'', js ''a'']\<rparr>"] conjI tracked_doc.select_convs)
qed

end
