(* ===== verification/Spec2Isabelle.thy ===== *)
theory Spec2Isabelle
  imports PathGlob LinkBudget TextDiff TeamAdmin SharePolicy ReplyOutbox Pairing ConnectionRequests TeamPairing WorkspaceAdmission WorkspaceReplacement DelimitedText
    LinkGrants RecordPages RecordFilter PairingSafety DeliveryFollow AliasHistory
begin

text \<open>
  Worktable: a server that keeps the documents, records and threads of a team, and lets people, agents
  and the visitors of share links work on them. This development models the parts of it that decide: who
  may do what, which credential is whose, what a query answers, and when work may run. They are TypeScript
  under \<open>src/packages/server/src\<close> (the server) and \<open>src/packages/types/src\<close> (what it shares with its
  clients), with one store of the plugin under \<open>src/packages/openclaw-plugin/src\<close>. Paths below are short
  for these.

  \<^bold>\<open>How the parts fit together.\<close> A request is admitted while no drain holds it (\<open>WorkspaceAdmission\<close>,
  \<open>WorkspaceReplacement\<close>). Its bearer is verified and becomes an identity (\<open>TokenStore\<close>), whose scopes say
  what it may call (\<open>AgentScopes\<close>) and whose participant is its member in threads (\<open>Participants\<close>). In a team
  the policy tables decide which Spaces it reaches (\<open>TeamPolicy\<close>, \<open>TeamAdmin\<close>, \<open>TeamPairing\<close>). An agent
  comes by its bearer by pairing: it asks, its owner approves, and it redeems a code
  (\<open>ConnectionRequests\<close>, \<open>Pairing\<close>, the routes in \<open>PairingRoutes\<close>), after which it is one of the agents its
  owner sees (\<open>AgentPlatforms\<close>, \<open>AgentConnections\<close>). Records are filtered and queried (\<open>RecordPredicates\<close>,
  \<open>RecordValues\<close>, \<open>RecordQuery\<close>, \<open>RecordFilter\<close>); a share link or a tool sees of them what its grant
  opens (\<open>SharePolicy\<close>, \<open>LinkGrants\<close>, \<open>Abilities\<close>) within its budget (\<open>LinkBudget\<close>). Documents are at paths
  (\<open>DocumentPath\<close>), found where they were before through aliases (\<open>DocAliases\<close>) and by globs (\<open>PathGlob\<close>), compared by line diffs (\<open>MyersDiff\<close>, \<open>TextDiff\<close>), and files are typed by name and
  read as tables (\<open>FileTypes\<close>, \<open>DelimitedText\<close>). Messages
  that ask an agent for a reply are deliveries it leases, answers or fails (\<open>ThreadDelivery\<close>), and a plugin
  keeps its replies until the server has them (\<open>ReplyOutbox\<close>).

  \<^bold>\<open>Theories and sources.\<close>

  \<^item> \<open>Prelude\<close>: the named collections, \<open>map_sum\<close>-style results of operations that throw, \<open>split\<close>, \<open>join\<close>,
    \<open>trim\<close>, writing through a reference into a list (\<open>update_first\<close>, \<open>update_last\<close>), maps in insertion order,
    and the locale \<open>kept_by_steps\<close> of a step function with an invariant. \<open>JsString\<close>: texts as UTF-16 code
    units. \<open>Json\<close>: values as \<open>JSON.parse\<close> gives them.
  \<^item> \<open>PathGlob\<close>: \<open>path-glob.ts\<close>. \<open>MyersDiff\<close>, \<open>TextDiff\<close>: \<open>text-diff.ts\<close>. \<open>FileTypes\<close>: \<open>types/file-types.ts\<close>.
    \<open>DelimitedText\<close>: \<open>types/delimited-text.ts\<close>. \<open>ReplyOutbox\<close>: \<open>openclaw-plugin/reply-outbox.ts\<close>.
  \<^item> \<open>LinkBudget\<close>: \<open>link-budget.ts\<close>. \<open>SharePolicy\<close>: \<open>share-policy.ts\<close>. \<open>Abilities\<close>: \<open>types/abilities.ts\<close>.
    \<open>LinkGrants\<close>: \<open>link-grant.ts\<close>, \<open>widget-runtime-policy.ts\<close>.
  \<^item> \<open>AgentScopes\<close>: the scopes and access groups of \<open>types/agent-connections.ts\<close>. \<open>TokenStore\<close>: \<open>token-store.ts\<close>.
    \<open>Participants\<close>: \<open>participant-store.ts\<close>. \<open>AgentPlatforms\<close>: \<open>types/agent-platforms.ts\<close>.
    \<open>AgentConnections\<close>, with its proofs in \<open>AgentUpdates\<close>: \<open>agent-connection-store.ts\<close>.
  \<^item> \<open>TeamPolicy\<close>: the checks of \<open>team-policy.ts\<close> and \<open>team-access.ts\<close>; \<open>TeamAdmin\<close>: the operations of
    \<open>team-policy.ts\<close>; \<open>TeamPairing\<close>: \<open>team-pairing.ts\<close>.
  \<^item> \<open>Pairing\<close>: \<open>pairing-store.ts\<close>. \<open>ConnectionRequests\<close>: \<open>connection-request-store.ts\<close>. \<open>PairingRoutes\<close>, with
    its proofs in \<open>PairingSafety\<close>: \<open>routes/pairing.ts\<close>.
  \<^item> \<open>RecordPredicates\<close>: the condition trees of \<open>types/records.ts\<close>. \<open>RecordValues\<close>, \<open>RecordQuery\<close>:
    \<open>record-query.ts\<close>; \<open>RecordPages\<close>: its pages. \<open>RecordFilter\<close>: \<open>filterRecords\<close> of \<open>record-store.ts\<close>.
  \<^item> \<open>ThreadDelivery\<close>: \<open>thread-delivery-store.ts\<close>; its runs are in \<open>DeliveryLeases\<close>, what a claim hands out in
    \<open>DeliveryClaims\<close>, and how the deliveries follow the threads in \<open>DeliveryFollow\<close>.
  \<^item> \<open>DocumentPath\<close>: \<open>document-path.ts\<close>. \<open>DocAliases\<close>: \<open>doc-aliases.ts\<close>; \<open>AliasMoves\<close>: which lookups end and
    what they find; \<open>AliasHistory\<close>: the aliases through any history of documents.
  \<^item> \<open>WorkspaceAdmission\<close>: \<open>workspace-request-lifecycle.ts\<close>. \<open>WorkspaceReplacement\<close>:
    \<open>workspace-replacement-coordinator.ts\<close>.

  \<^bold>\<open>How the code is read.\<close> A stored object is a record with the source's fields, a union a datatype, an
  optional field an option; a map is an association list where its order can be seen. A throw is \<open>Inl\<close> of an
  error of its own or \<open>None\<close>. What a store does under its queue and file lock is one step on its state, and
  reads the clock once; saving never fails, except where a flag says so. Two things that await each other are
  steps of a relation (\<open>WorkspaceReplacement\<close>) or a state machine with its waiting list
  (\<open>WorkspaceAdmission\<close>). Numbers are \<open>int\<close> or \<open>nat\<close>: the counts and times of these parts stay far below
  2 to the 53rd; what JSON can carry is rational, and \<open>NaN\<close> has a value of its own. Texts are lists of
  characters, or of 16-bit words where bytes or code units are counted. Random bytes, times and the answers of
  what is outside (\<open>hash\<close> for SHA-256, \<open>toLower\<close>, collation, dates and \<open>JSON.stringify\<close> in the record
  \<open>js_library\<close>, the addresses in \<open>agent_env\<close> and \<open>route_env\<close>) are arguments; a property that needs more of one
  than that it is a function says so in a hypothesis. A property lookup on a plain object sees its own keys;
  where the source reads inherited ones the model says so (\<open>LinkGrants\<close>), and elsewhere ids and field names
  are not those every object inherits.

  \<^bold>\<open>What is shown.\<close> The properties are numbered C1 to C40 where they stand.

  \<^item> Credentials: a bearer stays the identity it was minted for (C3), never works once revoked (C26), and
    rotation keeps the newest (C28). Scopes an owner chose reach every credential of an agent and nothing
    else (C12); a disconnected agent is shut out for good (C11). An identity keeps its participant (C38).
  \<^item> Pairing: a code is redeemed once (C22), requests are bounded (C32) and
    delivered once (C33); a team pairing binds to the member who made it (C10); and over all pairing routes
    together a bearer carries exactly what some call of the owner gave, never the power to manage tokens (C20).
  \<^item> Teams: the policy tables stay sound (C13), a visitor is confined (C14), agents are bounded by their
    members (C15), setting a policy does exactly that (C16), a deactivated agent is shut out (C17), a reset
    leaves owners only (C18).
  \<^item> Links and tools: a stricter policy only closes links (C19), the ring of counters refines a log of
    events (C4) and so caps the rows of any hour, a link opens only what its grant may (C39), the
    intersection of permissions is exact, sentences about a tool are honest (C37).
  \<^item> Records: what the schema accepts is typed (C34), pages are exhaustive where comparison is consistent
    (C24), the two evaluators agree on flat conditions (C6) and not on
    the bounds of texts.
  \<^item> Documents: a safe path stays below where it is joined however it is decoded (C5), looking a path up among
    the aliases ends unless it starts with a slash (C36), and every path a document ever had leads to it (C2).
  \<^item> Texts and files: globs match their reference semantics (C1), the diff is minimal (C7), ends within its
    bound (C8) and patches back (C9), tables round trip (C27).
  \<^item> Deliveries: a lost lease stays lost (C25), the time a connector is told to wake is right (C23), a claim
    keeps the order of a conversation (C40), and reconciling follows the threads (C35).
  \<^item> Work: a drained kind stays idle (C29) and a drain completes (C30), a replacement runs alone (C31), the
    outbox refines a map from events to replies (C21).

  The contracts are locales: \<open>link_budgets\<close> (the ring of counters against a log), \<open>reply_outbox\<close>
  (interpreted on the file and on memory), \<open>graded_access\<close> (four interpretations, one per check by level),
  \<open>consistent_comparator\<close> (under which paging is exhaustive; interpreted on columns of numbers) and
  \<open>kept_by_steps\<close> (an invariant kept by runs, interpreted once per store).

  \<^bold>\<open>Bounds and fuel.\<close> The diff's search is bounded by \<open>MAX_EDIT_DISTANCE\<close> as in the source, and C8 says
  exactly when it gives up. A glob is matched by recursion on pattern and path. The number added to a taken
  name is sought among one more than the names taken, which is enough where lower case keeps the numbered
  names apart. Resolving an alias
  takes at most \<open>MAX_ALIAS_HOPS\<close> steps, as in the source; the walk over a path's ancestors may not end and is a
  \<open>partial_function\<close>. Everything else recurses on its data.

  \<^bold>\<open>Not modelled.\<close> The document stores, their journal and write service, versions, transfers and backups:
  almost all of it orders file system calls, whose failures no small model keeps. Of moving a document
  only its path and its aliases are modelled, not the rewriting of links to it. Threads and
  pending work: portable files and what is derived of them; of threads only the deliveries are modelled. Collaboration, Markdown and drawings: built on
  Yjs, BlockNote and other packages whose documents are not in this repository. The MCP dispatcher and the
  other routes: tables and glue from protocols to the services. In a team, the stores of agents and their
  routes; the SQL under the policy tables; mail and sessions. The command line, the connectors, the web and
  desktop applications.
\<close>

end
